(* ===== verification/Prelude.thy ===== *)
theory Prelude
  imports Main "HOL-Library.Word" "HOL-Library.Product_Lexorder" "HOL-Library.Multiset"
begin

section \<open>Shared types, effects and automation\<close>

text \<open>
  This theory holds what every component of the notes server shares:

  \<^item> the collections of facts that the component proofs add to the simplifier
    (\<open>stm_simps\<close>, \<open>store_defs\<close>) or to the rules (\<open>triple_rules\<close>);
  \<^item> identifiers, times and Go's \<open>int64\<close> arithmetic with its wrap-around;
  \<^item> the effect of a Go call that may fail and change the state, as a function from the
    state to an error or a value and the next state, with the two ways the sources use it:
    return the error (\<open>bindM\<close>) or look at it first (\<open>catchM\<close>);
  \<^item> triples over that effect: what holds of every outcome, errors included;
  \<^item> generic facts about lists of rows: filters, first matches, updates of all rows that
    match, stable sorting and the split into runs of equal keys.
\<close>

named_theorems stm_simps "unfolding of the state and error effect"
named_theorems store_defs "definitions of the statements of the store"
named_theorems triple_rules "rules of the triples, for backward reasoning"

subsection \<open>Identifiers, times, machine integers\<close>

text \<open>
  \<open>uuid.UUID\<close> is an array of 16 bytes; it is read here as one big-endian 128-bit word, so
  that \<open>bytes.Compare\<close> on two identifiers is the unsigned order and \<open>uuid.Nil\<close> is \<open>0\<close>.
  Points in time are counted in nanoseconds.
\<close>

type_synonym uuid = "128 word"
type_synonym time = int

abbreviation (input) Nil_uuid :: uuid where
  "Nil_uuid \<equiv> 0"

text \<open>Go's zero \<open>time.Time\<close>, the first of January of the year 1, counted from 1970.\<close>

definition zeroTime :: time where
  "zeroTime = - 62135596800 * 10 ^ 9"

text \<open>Go's \<open>int64\<close> (and \<open>int\<close> on the supported platforms): results wrap into \<open>-2^63 .. 2^63 - 1\<close>.\<close>

definition int64 :: "int \<Rightarrow> int" where
  "int64 x = (x + 2 ^ 63) mod 2 ^ 64 - 2 ^ 63"

abbreviation (input) max_int64 :: int where
  "max_int64 \<equiv> 2 ^ 63 - 1"

lemma int64_id [simp]: "- (2 ^ 63) \<le> x \<Longrightarrow> x \<le> max_int64 \<Longrightarrow> int64 x = x"
  by (simp add: int64_def)

lemma int64_range: "- (2 ^ 63) \<le> int64 x" "int64 x \<le> max_int64"
proof -
  have "0 \<le> (x + 2 ^ 63) mod 2 ^ 64" "(x + 2 ^ 63) mod 2 ^ 64 < 2 ^ 64"
    by simp_all
  then show "- (2 ^ 63) \<le> int64 x" "int64 x \<le> max_int64"
    by (simp_all add: int64_def)
qed

text \<open>Go's \<open>int32\<close>, for the page limits and the attempt counters.\<close>

definition int32 :: "int \<Rightarrow> int" where
  "int32 x = (x + 2 ^ 31) mod 2 ^ 32 - 2 ^ 31"

abbreviation (input) max_int32 :: int where
  "max_int32 \<equiv> 2 ^ 31 - 1"

lemma int32_id [simp]: "- (2 ^ 31) \<le> x \<Longrightarrow> x \<le> max_int32 \<Longrightarrow> int32 x = x"
  by (simp add: int32_def)

subsection \<open>Rows in an order that is only known as a comparison\<close>

text \<open>
  \<open>ORDER BY\<close> on a text column uses the collation of the database, which is a parameter of the
  model. Equal rows keep their order here; SQL leaves that open.
\<close>

fun insert_by :: "('a \<Rightarrow> 'a \<Rightarrow> bool) \<Rightarrow> 'a \<Rightarrow> 'a list \<Rightarrow> 'a list" where
  "insert_by le x [] = [x]"
| "insert_by le x (y # ys) = (if le x y then x # y # ys else y # insert_by le x ys)"

fun sort_by :: "('a \<Rightarrow> 'a \<Rightarrow> bool) \<Rightarrow> 'a list \<Rightarrow> 'a list" where
  "sort_by le [] = []"
| "sort_by le (x # xs) = insert_by le x (sort_by le xs)"

lemma mset_insert_by [simp]: "mset (insert_by le x xs) = add_mset x (mset xs)"
  by (induction xs) auto

lemma mset_sort_by [simp]: "mset (sort_by le xs) = mset xs"
  by (induction xs) auto

lemma set_sort_by [simp]: "set (sort_by le xs) = set xs"
  by (metis mset_sort_by set_mset_mset)

lemma length_sort_by [simp]: "length (sort_by le xs) = length xs"
  by (metis mset_sort_by size_mset)

subsection \<open>Calls that change the state and may fail\<close>

type_synonym ('s, 'e, 'a) stm = "'s \<Rightarrow> ('e + 'a) \<times> 's"

definition returnM :: "'a \<Rightarrow> ('s, 'e, 'a) stm" where
  "returnM a s = (Inr a, s)"

definition failM :: "'e \<Rightarrow> ('s, 'e, 'a) stm" where
  "failM e s = (Inl e, s)"

text \<open>\<open>x, err := m(); if err != nil { return err }; f(x)\<close>\<close>

definition bindM :: "('s, 'e, 'a) stm \<Rightarrow> ('a \<Rightarrow> ('s, 'e, 'b) stm) \<Rightarrow> ('s, 'e, 'b) stm" where
  "bindM m f s = (case m s of (Inl e, s') \<Rightarrow> (Inl e, s') | (Inr a, s') \<Rightarrow> f a s')"

text \<open>\<open>x, err := m(); if err != nil { h(err) } else { f(x) }\<close>\<close>

definition catchM :: "('s, 'e, 'a) stm \<Rightarrow> ('e \<Rightarrow> ('s, 'e, 'b) stm) \<Rightarrow> ('a \<Rightarrow> ('s, 'e, 'b) stm) \<Rightarrow>
    ('s, 'e, 'b) stm" where
  "catchM m h f s = (case m s of (Inl e, s') \<Rightarrow> h e s' | (Inr a, s') \<Rightarrow> f a s')"

text \<open>A pure decoder (an error message or a value) inside a call.\<close>

definition liftM :: "('x \<Rightarrow> 'e) \<Rightarrow> 'x + 'a \<Rightarrow> ('s, 'e, 'a) stm" where
  "liftM g r = (case r of Inl x \<Rightarrow> failM (g x) | Inr a \<Rightarrow> returnM a)"

text \<open>A \<open>for\<close> loop over a slice that stops at the first error.\<close>

fun forM :: "'x list \<Rightarrow> ('x \<Rightarrow> ('s, 'e, unit) stm) \<Rightarrow> ('s, 'e, unit) stm" where
  "forM [] f = returnM ()"
| "forM (x # xs) f = bindM (f x) (\<lambda>_. forM xs f)"

text \<open>\<open>x, err := r; if err != nil { return err }\<close> in a decoder without effects.\<close>

definition bindE :: "'e + 'a \<Rightarrow> ('a \<Rightarrow> 'e + 'b) \<Rightarrow> 'e + 'b" where
  "bindE r f = (case r of Inl e \<Rightarrow> Inl e | Inr a \<Rightarrow> f a)"

lemma bindE_simps [simp]: "bindE (Inl e) f = Inl e" "bindE (Inr a) f = f a"
  by (simp_all add: bindE_def)

lemma bindE_Inr: "bindE r f = Inr b \<longleftrightarrow> (\<exists>a. r = Inr a \<and> f a = Inr b)"
  by (cases r) auto

text \<open>The same loop over a pure decoder that builds a slice of results.\<close>

fun mapE :: "('x \<Rightarrow> 'e + 'y) \<Rightarrow> 'x list \<Rightarrow> 'e + 'y list" where
  "mapE f [] = Inr []"
| "mapE f (x # xs) = (case f x of Inl e \<Rightarrow> Inl e | Inr y \<Rightarrow>
     (case mapE f xs of Inl e \<Rightarrow> Inl e | Inr ys \<Rightarrow> Inr (y # ys)))"

lemma returnM_apply [stm_simps]: "returnM a s = (Inr a, s)"
  by (simp add: returnM_def)

lemma failM_apply [stm_simps]: "failM e s = (Inl e, s)"
  by (simp add: failM_def)

lemmas bindM_apply [stm_simps] = bindM_def
lemmas catchM_apply [stm_simps] = catchM_def

lemma mapE_Inr_length: "mapE f xs = Inr ys \<Longrightarrow> length ys = length xs"
  by (induction xs arbitrary: ys) (auto split: sum.splits)

lemma mapE_Inr_map:
  "(\<And>x. x \<in> set xs \<Longrightarrow> f x = Inr (g x)) \<Longrightarrow> mapE f xs = Inr (map g xs)"
  by (induction xs) auto

lemma mapE_Inr_list_all2: "mapE f xs = Inr ys \<Longrightarrow> list_all2 (\<lambda>x y. f x = Inr y) xs ys"
  by (induction xs arbitrary: ys) (auto split: sum.splits)

subsection \<open>Triples\<close>

text \<open>
  \<open>triple P m Q E\<close>: from a state with \<open>P\<close>, a call of \<open>m\<close> that returns \<open>a\<close> ends in a state
  with \<open>Q a\<close>, and one that returns the error \<open>e\<close> in a state with \<open>E e\<close>. Both outcomes are
  always described: the model is total, so nothing is "if it returns".
\<close>

definition triple :: "('s \<Rightarrow> bool) \<Rightarrow> ('s, 'e, 'a) stm \<Rightarrow> ('a \<Rightarrow> 's \<Rightarrow> bool) \<Rightarrow>
    ('e \<Rightarrow> 's \<Rightarrow> bool) \<Rightarrow> bool" where
  "triple P m Q E \<longleftrightarrow>
     (\<forall>s. P s \<longrightarrow> (case m s of (Inl e, s') \<Rightarrow> E e s' | (Inr a, s') \<Rightarrow> Q a s'))"

lemma tripleI:
  assumes "\<And>s a s'. P s \<Longrightarrow> m s = (Inr a, s') \<Longrightarrow> Q a s'"
    and "\<And>s e s'. P s \<Longrightarrow> m s = (Inl e, s') \<Longrightarrow> E e s'"
  shows "triple P m Q E"
  using assms by (auto simp: triple_def split: prod.split sum.split)

lemma triple_InrD: "triple P m Q E \<Longrightarrow> P s \<Longrightarrow> m s = (Inr a, s') \<Longrightarrow> Q a s'"
  by (force simp: triple_def)

lemma triple_InlD: "triple P m Q E \<Longrightarrow> P s \<Longrightarrow> m s = (Inl e, s') \<Longrightarrow> E e s'"
  by (force simp: triple_def)

lemma triple_weaken:
  assumes "triple P' m Q' E'" and "\<And>s. P s \<Longrightarrow> P' s"
    and "\<And>a s. Q' a s \<Longrightarrow> Q a s" and "\<And>e s. E' e s \<Longrightarrow> E e s"
  shows "triple P m Q E"
  using assms by (force simp: triple_def split: prod.split sum.split)

lemma triple_post: "triple P m Q' E \<Longrightarrow> (\<And>a s. Q' a s \<Longrightarrow> Q a s) \<Longrightarrow> triple P m Q E"
  by (rule triple_weaken)

lemma triple_return [triple_rules]: "(\<And>s. P s \<Longrightarrow> Q a s) \<Longrightarrow> triple P (returnM a) Q E"
  by (simp add: triple_def returnM_def)

lemma triple_fail [triple_rules]: "(\<And>s. P s \<Longrightarrow> E e s) \<Longrightarrow> triple P (failM e) Q E"
  by (simp add: triple_def failM_def)

lemma triple_bind:
  assumes "triple P m R E" and "\<And>a. triple (R a) (f a) Q E"
  shows "triple P (bindM m f) Q E"
  unfolding triple_def
proof (intro allI impI)
  fix s assume P: "P s"
  obtain r s1 where m: "m s = (r, s1)"
    by (cases "m s")
  show "case bindM m f s of (Inl e, s') \<Rightarrow> E e s' | (Inr a, s') \<Rightarrow> Q a s'"
  proof (cases r)
    case (Inl e)
    with m P assms(1) have "E e s1" by (auto dest: triple_InlD)
    with m Inl show ?thesis by (simp add: bindM_def)
  next
    case (Inr a)
    with m P assms(1) have "R a s1" by (auto dest: triple_InrD)
    with assms(2) have "case f a s1 of (Inl e, s') \<Rightarrow> E e s' | (Inr b, s') \<Rightarrow> Q b s'"
      by (simp add: triple_def)
    with m Inr show ?thesis by (simp add: bindM_def)
  qed
qed

lemma triple_catch:
  assumes "triple P m R F" and "\<And>e. triple (F e) (h e) Q E" and "\<And>a. triple (R a) (f a) Q E"
  shows "triple P (catchM m h f) Q E"
  unfolding triple_def
proof (intro allI impI)
  fix s assume P: "P s"
  obtain r s1 where m: "m s = (r, s1)"
    by (cases "m s")
  show "case catchM m h f s of (Inl e, s') \<Rightarrow> E e s' | (Inr a, s') \<Rightarrow> Q a s'"
  proof (cases r)
    case (Inl e)
    with m P assms(1) have "F e s1" by (auto dest: triple_InlD)
    with assms(2) have "case h e s1 of (Inl e, s') \<Rightarrow> E e s' | (Inr b, s') \<Rightarrow> Q b s'"
      by (simp add: triple_def)
    with m Inl show ?thesis by (simp add: catchM_def)
  next
    case (Inr a)
    with m P assms(1) have "R a s1" by (auto dest: triple_InrD)
    with assms(3) have "case f a s1 of (Inl e, s') \<Rightarrow> E e s' | (Inr b, s') \<Rightarrow> Q b s'"
      by (simp add: triple_def)
    with m Inr show ?thesis by (simp add: catchM_def)
  qed
qed

lemma triple_for:
  assumes "\<And>x. x \<in> set xs \<Longrightarrow> triple P (f x) (\<lambda>_. P) E"
  shows "triple P (forM xs f) (\<lambda>_. P) E"
  using assms
proof (induction xs)
  case Nil
  then show ?case by (auto intro: triple_return)
next
  case (Cons x xs)
  have "triple P (f x) (\<lambda>_. P) E" and "triple P (forM xs f) (\<lambda>_. P) E"
    using Cons by auto
  then show ?case by (auto intro: triple_bind)
qed

lemma triple_if [triple_rules]:
  "(b \<Longrightarrow> triple P m Q E) \<Longrightarrow> (\<not> b \<Longrightarrow> triple P m' Q E) \<Longrightarrow>
   triple P (if b then m else m') Q E"
  by simp

lemma triple_option [triple_rules]:
  "(x = None \<Longrightarrow> triple P m Q E) \<Longrightarrow> (\<And>a. x = Some a \<Longrightarrow> triple P (f a) Q E) \<Longrightarrow>
   triple P (case x of None \<Rightarrow> m | Some a \<Rightarrow> f a) Q E"
  by (cases x) simp_all

lemma triple_sum [triple_rules]:
  "(\<And>e. x = Inl e \<Longrightarrow> triple P (g e) Q E) \<Longrightarrow> (\<And>a. x = Inr a \<Longrightarrow> triple P (f a) Q E) \<Longrightarrow>
   triple P (case x of Inl e \<Rightarrow> g e | Inr a \<Rightarrow> f a) Q E"
  by (cases x) simp_all

lemma triple_pre_pure: "(b \<Longrightarrow> triple P m Q E) \<Longrightarrow> triple (\<lambda>s. b \<and> P s) m Q E"
  by (auto simp: triple_def)

end
