(* ===== verification/Gostring.thy ===== *)
theory Gostring
  imports Prelude
begin

section \<open>Go strings: bytes, runes and UTF-8\<close>

text \<open>
  A Go string is a sequence of bytes, here a \<^typ>\<open>string\<close>. The sources convert between a
  string and its runes (\<open>[]rune(text)\<close>, \<open>string(runes)\<close>, \<open>utf8.RuneCountInString\<close>) and
  trim white space; both follow Go's UTF-8 rules, in which a byte that starts no valid
  sequence is read as the replacement character U+FFFD of width one. The theory defines the
  conversions and shows that every decoded rune can be encoded, that encoding and then
  decoding gives the runes back, and that the pieces of a decoded string are the string.
\<close>

subsection \<open>Decoding one rune\<close>

abbreviation (input) RuneError :: nat where
  "RuneError \<equiv> 65533"

definition byte :: "char \<Rightarrow> nat" where
  "byte c = of_char c"

definition within :: "nat \<Rightarrow> nat \<Rightarrow> nat \<Rightarrow> bool" where
  "within lo hi b \<longleftrightarrow> lo \<le> b \<and> b \<le> hi"

text \<open>
  \<open>utf8.DecodeRune\<close>: the rune at the start of the bytes and its width. The second byte of a
  three-byte sequence is restricted after \<open>E0\<close> and \<open>ED\<close> (no overlong forms, no surrogates),
  that of a four-byte sequence after \<open>F0\<close> and \<open>F4\<close>.
\<close>

definition accept :: "nat \<Rightarrow> nat \<Rightarrow> bool" where
  "accept b0 b1 \<longleftrightarrow>
     within (if b0 = 224 then 160 else if b0 = 240 then 144 else 128)
       (if b0 = 237 then 159 else if b0 = 244 then 143 else 191) b1"

definition decode_rune :: "string \<Rightarrow> nat \<times> nat" where
  "decode_rune s = (case s of
     [] \<Rightarrow> (RuneError, 0)
   | c0 # s1 \<Rightarrow>
       let b0 = byte c0 in
       if b0 < 128 then (b0, 1)
       else if within 194 223 b0 then
         (case s1 of
            c1 # _ \<Rightarrow> if within 128 191 (byte c1)
                       then ((b0 - 192) * 64 + (byte c1 - 128), 2) else (RuneError, 1)
          | [] \<Rightarrow> (RuneError, 1))
       else if within 224 239 b0 then
         (case s1 of
            c1 # c2 # _ \<Rightarrow>
              if accept b0 (byte c1)
                \<and> within 128 191 (byte c2)
              then ((b0 - 224) * 4096 + (byte c1 - 128) * 64 + (byte c2 - 128), 3)
              else (RuneError, 1)
          | _ \<Rightarrow> (RuneError, 1))
       else if within 240 244 b0 then
         (case s1 of
            c1 # c2 # c3 # _ \<Rightarrow>
              if accept b0 (byte c1)
                \<and> within 128 191 (byte c2) \<and> within 128 191 (byte c3)
              then ((b0 - 240) * 262144 + (byte c1 - 128) * 4096 + (byte c2 - 128) * 64
                      + (byte c3 - 128), 4)
              else (RuneError, 1)
          | _ \<Rightarrow> (RuneError, 1))
       else (RuneError, 1))"

lemma decode_rune_width: "s \<noteq> [] \<Longrightarrow> 0 < snd (decode_rune s) \<and> snd (decode_rune s) \<le> length s"
  by (auto simp: decode_rune_def Let_def split: list.split)

function rune_pieces :: "string \<Rightarrow> (nat \<times> string) list" where
  "rune_pieces s = (if s = [] then []
     else let (r, n) = decode_rune s in (r, take n s) # rune_pieces (drop n s))"
  by pat_completeness auto
termination
proof (relation "measure length")
  fix s :: string and x :: "nat \<times> nat" and r n
  assume "s \<noteq> []" "x = decode_rune s" "(r, n) = x"
  then show "(drop n s, s) \<in> measure length"
    using decode_rune_width [of s] by (cases s) (auto simp: prod_eq_iff)
qed simp

declare rune_pieces.simps [simp del]

lemma rune_pieces_Nil [simp]: "rune_pieces [] = []"
  by (simp add: rune_pieces.simps)

lemma rune_pieces_code [code]:
  "rune_pieces [] = []"
  "rune_pieces (c # s) = (case decode_rune (c # s) of (r, n) \<Rightarrow> (r, take n (c # s)) # rune_pieces (drop n (c # s)))"
  by (simp_all add: rune_pieces.simps [of "c # s"])

text \<open>\<open>[]rune(s)\<close> and \<open>utf8.RuneCountInString(s)\<close>\<close>

definition runes :: "string \<Rightarrow> nat list" where
  "runes s = map fst (rune_pieces s)"

definition RuneCountInString :: "string \<Rightarrow> nat" where
  "RuneCountInString s = length (runes s)"

lemma concat_rune_pieces: "concat (map snd (rune_pieces s)) = s"
proof (induction s rule: rune_pieces.induct)
  case (1 s)
  show ?case
  proof (cases "s = []")
    case False
    obtain r n where d: "decode_rune s = (r, n)" by (cases "decode_rune s")
    have "concat (map snd (rune_pieces (drop n s))) = drop n s"
      using "1.IH" [OF False d [symmetric] refl] .
    with False d show ?thesis by (subst rune_pieces.simps) simp
  qed simp
qed

subsection \<open>Encoding runes\<close>

definition valid_rune :: "nat \<Rightarrow> bool" where
  "valid_rune r \<longleftrightarrow> r < 55296 \<or> (57344 \<le> r \<and> r \<le> 1114111)"

text \<open>\<open>utf8.AppendRune\<close>: a value that is no Unicode scalar is written as U+FFFD.\<close>

definition encode_rune :: "nat \<Rightarrow> string" where
  "encode_rune r =
     (if r < 128 then [char_of r]
      else if r < 2048 then [char_of (192 + r div 64), char_of (128 + r mod 64)]
      else if \<not> valid_rune r then [char_of (239::nat), char_of (191::nat), char_of (189::nat)]
      else if r < 65536 then
        [char_of (224 + r div 4096), char_of (128 + r div 64 mod 64), char_of (128 + r mod 64)]
      else
        [char_of (240 + r div 262144), char_of (128 + r div 4096 mod 64),
         char_of (128 + r div 64 mod 64), char_of (128 + r mod 64)])"

definition string_of_runes :: "nat list \<Rightarrow> string" where
  "string_of_runes rs = concat (map encode_rune rs)"

lemma byte_char_of: "n < 256 \<Longrightarrow> byte (char_of n) = n"
  by (simp add: byte_def)

lemma byte_less: "byte c < 256"
  by (simp add: byte_def)

lemma valid_RuneError [simp]: "valid_rune RuneError"
  by (simp add: valid_rune_def)

lemma valid_rune_2: "within 194 223 a \<Longrightarrow> within 128 191 b \<Longrightarrow>
    valid_rune ((a - 192) * 64 + (b - 128))"
  by (auto simp: within_def valid_rune_def)

lemma valid_rune_3: "within 224 239 a \<Longrightarrow> accept a b \<Longrightarrow>
    within 128 191 c \<Longrightarrow> valid_rune ((a - 224) * 4096 + (b - 128) * 64 + (c - 128))"
  by (auto simp: accept_def within_def valid_rune_def split: if_splits)

lemma valid_rune_4: "within 240 244 a \<Longrightarrow> accept a b \<Longrightarrow>
    within 128 191 c \<Longrightarrow> within 128 191 d \<Longrightarrow>
    valid_rune ((a - 240) * 262144 + (b - 128) * 4096 + (c - 128) * 64 + (d - 128))"
  by (auto simp: accept_def within_def valid_rune_def split: if_splits)

lemma decode_rune_valid: "valid_rune (fst (decode_rune s))"
proof (cases s)
  case (Cons c0 s1)
  have "byte c0 < 128 \<Longrightarrow> valid_rune (byte c0)"
    by (simp add: valid_rune_def)
  then show ?thesis
    unfolding Cons decode_rune_def Let_def
    by (simp add: valid_rune_2 valid_rune_3 valid_rune_4 split: list.split)
qed (simp add: decode_rune_def)

lemma runes_valid: "list_all valid_rune (runes s)"
proof (induction s rule: rune_pieces.induct)
  case (1 s)
  show ?case
  proof (cases "s = []")
    case False
    obtain r n where d: "decode_rune s = (r, n)" by (cases "decode_rune s")
    have "list_all valid_rune (runes (drop n s))"
      using "1.IH" [OF False d [symmetric] refl] .
    moreover have "valid_rune r"
      using decode_rune_valid [of s] d by simp
    ultimately show ?thesis
      using False d by (simp add: runes_def rune_pieces.simps [of s])
  qed (simp add: runes_def)
qed

lemma encode_rune_not_Nil [simp]: "encode_rune r \<noteq> []"
  by (simp add: encode_rune_def)

text \<open>Decoding what was encoded gives the rune and the width of its encoding.\<close>

lemma split_64: "(r::nat) = r div 64 * 64 + r mod 64"
  by simp

lemma split_4096: "(r::nat) = r div 4096 * 4096 + r div 64 mod 64 * 64 + r mod 64"
proof -
  have "r div 4096 = r div 64 div 64"
    by (simp add: div_mult2_eq)
  with split_64 [of r] split_64 [of "r div 64"] show ?thesis by linarith
qed

lemma split_262144:
  "(r::nat) = r div 262144 * 262144 + r div 4096 mod 64 * 4096 + r div 64 mod 64 * 64 + r mod 64"
proof -
  have "r div 262144 = r div 4096 div 64"
    by (simp add: div_mult2_eq)
  with split_4096 [of r] split_64 [of "r div 4096"] show ?thesis by linarith
qed

lemma decode_encode_2:
  assumes "128 \<le> r" "r < 2048"
  shows "decode_rune (encode_rune r @ s) = (r, length (encode_rune r))"
proof -
  have "r div 64 < 32" "2 \<le> r div 64"
    using assms by (auto simp: div_le_mono [of 128 r 64, simplified] less_mult_imp_div_less)
  with assms show ?thesis
    by (simp add: encode_rune_def decode_rune_def within_def byte_char_of Let_def)
qed

lemma decode_encode_3:
  assumes "2048 \<le> r" "r < 65536" "valid_rune r"
  shows "decode_rune (encode_rune r @ s) = (r, length (encode_rune r))"
proof -
  define a b c where "a = r div 4096" and "b = r div 64 mod 64" and "c = r mod 64"
  have r: "r = a * 4096 + b * 64 + c"
    unfolding a_def b_def c_def by (rule split_4096)
  have l: "a < 16" "b < 64" "c < 64"
    using assms by (auto simp: a_def b_def c_def less_mult_imp_div_less)
  have e: "encode_rune r = [char_of (224 + a), char_of (128 + b), char_of (128 + c)]"
    using assms by (simp add: encode_rune_def a_def b_def c_def)
  have "a = 0 \<Longrightarrow> 32 \<le> b" "a = 13 \<Longrightarrow> b < 32"
    using assms r l by (auto simp: valid_rune_def)
  with l show ?thesis
    unfolding e by (auto simp: decode_rune_def accept_def within_def byte_char_of Let_def r)
qed

lemma decode_encode_4:
  assumes "65536 \<le> r" "valid_rune r"
  shows "decode_rune (encode_rune r @ s) = (r, length (encode_rune r))"
proof -
  define a b c d where "a = r div 262144" and "b = r div 4096 mod 64"
    and "c = r div 64 mod 64" and "d = r mod 64"
  have r: "r = a * 262144 + b * 4096 + c * 64 + d"
    unfolding a_def b_def c_def d_def by (rule split_262144)
  have l: "a < 5" "b < 64" "c < 64" "d < 64"
    using assms by (auto simp: a_def b_def c_def d_def valid_rune_def less_mult_imp_div_less)
  have e: "encode_rune r =
      [char_of (240 + a), char_of (128 + b), char_of (128 + c), char_of (128 + d)]"
    using assms by (simp add: encode_rune_def a_def b_def c_def d_def)
  have "a = 0 \<Longrightarrow> 16 \<le> b" "a = 4 \<Longrightarrow> b < 16"
    using assms r l by (auto simp: valid_rune_def)
  with l show ?thesis
    unfolding e by (auto simp: decode_rune_def accept_def within_def byte_char_of Let_def r)
qed

lemma decode_encode_rune:
  assumes "valid_rune r"
  shows "decode_rune (encode_rune r @ s) = (r, length (encode_rune r))"
proof -
  consider "r < 128" | "128 \<le> r" "r < 2048" | "2048 \<le> r" "r < 65536" | "65536 \<le> r"
    by linarith
  then show ?thesis
  proof cases
    case 1
    then show ?thesis
      by (simp add: encode_rune_def decode_rune_def byte_char_of Let_def)
  qed (use assms decode_encode_2 decode_encode_3 decode_encode_4 in auto)
qed

lemma rune_pieces_encode:
  "valid_rune r \<Longrightarrow> rune_pieces (encode_rune r @ s) = (r, encode_rune r) # rune_pieces s"
  by (simp add: rune_pieces.simps [of "encode_rune r @ s"] decode_encode_rune)

lemma runes_string_of_runes: "list_all valid_rune rs \<Longrightarrow> runes (string_of_runes rs) = rs"
  by (induction rs) (simp_all add: runes_def string_of_runes_def rune_pieces_encode)

subsection \<open>White space\<close>

text \<open>\<open>unicode.IsSpace\<close>: the characters with the property White\_Space.\<close>

definition is_space :: "nat \<Rightarrow> bool" where
  "is_space r \<longleftrightarrow> within 9 13 r \<or> r = 32 \<or> r = 133 \<or> r = 160 \<or> r = 5760 \<or> within 8192 8202 r
     \<or> r = 8232 \<or> r = 8233 \<or> r = 8239 \<or> r = 8287 \<or> r = 12288"

lemma is_space_code [code]:
  "is_space r = (if r < 133 then within 9 13 r \<or> r = 32
     else r = 133 \<or> r = 160 \<or> r = 5760 \<or> within 8192 8202 r \<or> r = 8232 \<or> r = 8233 \<or> r = 8239 \<or> r = 8287
       \<or> r = 12288)"
  by (auto simp: is_space_def within_def)

text \<open>\<open>strings.TrimSpace\<close>: the pieces of white space at both ends are cut off.\<close>

definition TrimSpace :: "string \<Rightarrow> string" where
  "TrimSpace s = concat (map snd (rev (dropWhile (is_space \<circ> fst)
     (rev (dropWhile (is_space \<circ> fst) (rune_pieces s))))))"

definition blank :: "string \<Rightarrow> bool" where
  "blank s \<longleftrightarrow> TrimSpace s = []"

lemma rune_pieces_not_Nil: "p \<in> set (rune_pieces s) \<Longrightarrow> snd p \<noteq> []"
proof (induction s rule: rune_pieces.induct)
  case (1 s)
  show ?case
  proof (cases "s = []")
    case False
    obtain r n where d: "decode_rune s = (r, n)" by (cases "decode_rune s")
    have "0 < n" using decode_rune_width [OF False] d by simp
    then have "take n s \<noteq> []" using False by simp
    with "1.IH" [OF False d [symmetric] refl] "1.prems" d False show ?thesis
      by (auto simp: rune_pieces.simps [of s])
  qed (use "1.prems" in simp)
qed

lemma dropWhile_all: "(\<forall>x \<in> set (dropWhile P xs). P x) \<longleftrightarrow> (\<forall>x \<in> set xs. P x)"
  by (induction xs) auto

lemma blank_iff: "blank s \<longleftrightarrow> list_all is_space (runes s)"
proof -
  let ?ws = "is_space \<circ> fst"
  let ?d = "dropWhile ?ws (rev (dropWhile ?ws (rune_pieces s)))"
  have "snd x \<noteq> []" if x: "x \<in> set ?d" for x
  proof -
    have "x \<in> set (rune_pieces s)"
      using set_dropWhileD [OF x] by (auto dest: set_dropWhileD)
    then show ?thesis by (rule rune_pieces_not_Nil)
  qed
  then have "concat (map snd (rev ?d)) = [] \<longleftrightarrow> ?d = []"
    by (cases ?d) (simp_all del: dropWhile_eq_Nil_conv)
  then have "blank s \<longleftrightarrow> ?d = []"
    unfolding blank_def TrimSpace_def .
  also have "\<dots> \<longleftrightarrow> (\<forall>p \<in> set (dropWhile ?ws (rune_pieces s)). ?ws p)"
    by (simp add: dropWhile_eq_Nil_conv)
  also have "\<dots> \<longleftrightarrow> (\<forall>p \<in> set (rune_pieces s). ?ws p)"
    by (rule dropWhile_all)
  finally show ?thesis
    by (simp add: runes_def list_all_iff)
qed

end
