(* ===== verification/Sync_Types.thy ===== *)
theory Sync_Types
  imports Gostring
begin

section \<open>JSON values and the types of the sync protocol\<close>

text \<open>
  The JSON values that payloads are made of, and the request and response types of
  \<open>internal/sync/models/types.go\<close>. A \<open>json.RawMessage\<close> that a request decoder produced is a
  well-formed JSON value, or empty when the member was absent; it is modelled by the value's
  syntax tree (\<open>json option\<close>, \<open>None\<close> for the empty message). A number keeps its literal,
  because \<open>json.Unmarshal\<close> reads the literal as an integer or as a float only when a Go type asks
  for it; a string is the decoded Go string; an object keeps its members in order.
\<close>

datatype json =
    JNull
  | JBool bool
  | JNum string
  | JStr string
  | JArr "json list"
  | JObj "(string \<times> json) list"

type_synonym raw_message = "json option"
abbreviation (input) ProtocolVersion :: int where
  "ProtocolVersion \<equiv> 1"

datatype RejectionReason =
  RejectionReasonInvalidRequest | RejectionReasonNotFound | RejectionReasonVersionConflict

record ClientOperation =
  op_OperationID :: uuid
  op_NoteID :: uuid
  op_OperationType :: string
  op_Sequence :: int
  op_BaseNoteVersion :: int
  op_ChangeFormat :: string
  op_ChangeData :: raw_message

record Request =
  rq_ProtocolVersion :: int
  rq_ClientVersion :: string
  rq_DeviceID :: string
  rq_Operations :: "ClientOperation list"

record FullNoteRequest =
  fr_DeviceID :: string
  fr_NoteIDs :: "uuid list"

record PullRequest =
  pr_ProtocolVersion :: int
  pr_ClientVersion :: string
  pr_DeviceID :: string
  pr_Cursor :: int

record UpdatesAvailableRequest =
  ua_ProtocolVersion :: int
  ua_DeviceID :: string

record BlockSnapshot =
  bs_BlockId :: uuid
  bs_BlockType :: string
  bs_TextContent :: string
  bs_Position :: string
  bs_BlockProperties :: raw_message
  bs_CreatedAt :: time
  bs_UpdatedAt :: time
  bs_DeletedAt :: "time option"

record NoteSnapshot =
  ns_NoteID :: uuid
  ns_OwnerID :: uuid
  ns_LastAppliedCursor :: int
  ns_Title :: string
  ns_NoteProperties :: raw_message
  ns_CurrentVersion :: int
  ns_CreatedAt :: time
  ns_UpdatedAt :: time
  ns_DeletedAt :: "time option"
  ns_Blocks :: "BlockSnapshot list"

record AcceptedDTO =
  ac_NoteID :: uuid
  ac_ServerNoteVersion :: int
  ac_GlobalSequence :: int

record RejectedDTO =
  rj_Code :: string
  rj_Reason :: RejectionReason
  rj_Message :: string
  rj_NoteID :: uuid
  rj_NoteSnapshot :: "NoteSnapshot option"
  rj_ClientNoteVersion :: int
  rj_ServerNoteVersion :: int

record Response =
  rs_Accepted :: "AcceptedDTO list"
  rs_Rejected :: "RejectedDTO list"

record PulledChange =
  pc_NoteID :: uuid
  pc_DeviceID :: string
  pc_OperationType :: string
  pc_BaseNoteVersion :: int
  pc_ResultingNoteVersion :: int
  pc_ChangeFormat :: string
  pc_SchemaVersion :: int
  pc_ChangeData :: raw_message
  pc_GlobalSequence :: int
  pc_CreatedAt :: time

record PullResponse =
  pl_Changes :: "PulledChange list"
  pl_HasMore :: bool
  pl_NextCursor :: int

end
