(* ===== verification/Httpapi.thy ===== *)
theory Httpapi
  imports Sync_Types
begin

section \<open>Protocol constants, errors and request parameters\<close>

text \<open>
  The constants of \<open>internal/constants.go\<close> that the components read, the error values that
  cross component boundaries, and \<open>internal/httpapi\<close>: the API-safe errors, the mapping of
  every other error to a generic internal one, and the outcome of decoding a request body.
  Wrapping an error with \<open>%w\<close> keeps its identity for \<open>errors.Is\<close> and \<open>errors.As\<close>, so a
  wrapped error is the error it wraps.
\<close>

subsection \<open>Constants\<close>

definition DeviceIDMaxLength :: nat where
  "DeviceIDMaxLength = 30"

text \<open>\<open>constants.ValidDeviceID\<close>\<close>

definition ValidDeviceID :: "string \<Rightarrow> bool" where
  "ValidDeviceID value \<longleftrightarrow> value \<noteq> [] \<and> RuneCountInString value \<le> DeviceIDMaxLength"

abbreviation (input) "RequestKeyBlockId \<equiv> ''blockId''"
abbreviation (input) "RequestKeyCategoryId \<equiv> ''categoryId''"
abbreviation (input) "RequestKeyProtocolVersion \<equiv> ''protocolVersion''"
abbreviation (input) "RequestKeyClientVersion \<equiv> ''clientVersion''"
abbreviation (input) "RequestKeyDeviceID \<equiv> ''deviceId''"
abbreviation (input) "RequestKeyOperationID \<equiv> ''operationId''"
abbreviation (input) "RequestKeyOperationType \<equiv> ''operationType''"
abbreviation (input) "RequestKeyChangeFormat \<equiv> ''changeFormat''"
abbreviation (input) "RequestKeyCursor \<equiv> ''cursor''"
abbreviation (input) "RequestKeyDeviceName \<equiv> ''deviceName''"
abbreviation (input) "RequestKeyPlatform \<equiv> ''platform''"
abbreviation (input) "RequestKeyAppVersion \<equiv> ''appVersion''"
abbreviation (input) "RequestKeyTextDelta \<equiv> ''textDelta''"
abbreviation (input) "RequestKeyIndex \<equiv> ''index''"
abbreviation (input) "RequestKeyDeleteCount \<equiv> ''deleteCount''"
abbreviation (input) "RequestKeyInsertText \<equiv> ''insertText''"
abbreviation (input) "RequestKeyNoteID \<equiv> ''noteId''"
abbreviation (input) "RequestKeyUploadID \<equiv> ''uploadId''"
abbreviation (input) "RequestKeySequence \<equiv> ''sequence''"
abbreviation (input) "RequestKeyTitle \<equiv> ''title''"
abbreviation (input) "RequestKeyChangeData \<equiv> ''changeData''"
abbreviation (input) "RequestKeyNoteProperties \<equiv> ''noteProperties''"
abbreviation (input) "RequestKeyName \<equiv> ''categoryName''"
abbreviation (input) "RequestKeyTextContent \<equiv> ''textContent''"
abbreviation (input) "RequestKeyBlocks \<equiv> ''blocks''"
abbreviation (input) "RequestKeyBlock \<equiv> ''block''"
abbreviation (input) "RequestKeyBlockType \<equiv> ''blockType''"
abbreviation (input) "RequestKeyPosition \<equiv> ''fractionalPosition''"
abbreviation (input) "RequestKeyBlockProperties \<equiv> ''blockProperties''"

abbreviation (input) "BlockTypeText \<equiv> ''text''"
abbreviation (input) "BlockTypeBullet \<equiv> ''bullet''"
abbreviation (input) "BlockTypeTodo \<equiv> ''todo''"
abbreviation (input) "BlockTypeNumberedList \<equiv> ''numberedList''"
abbreviation (input) "BlockTypeAttachment \<equiv> ''attachment''"

abbreviation (input) "OperationCreateNote \<equiv> ''createNote''"
abbreviation (input) "OperationDeleteNote \<equiv> ''deleteNote''"
abbreviation (input) "OperationModifyNoteProperty \<equiv> ''modifyNoteProperty''"
abbreviation (input) "OperationModifyNoteTitle \<equiv> ''modifyNoteTitle''"
abbreviation (input) "OperationCreateBlock \<equiv> ''createBlock''"
abbreviation (input) "OperationDeleteBlock \<equiv> ''deleteBlock''"
abbreviation (input) "OperationModifyBlock \<equiv> ''modifyBlock''"
abbreviation (input) "OperationCreateCategory \<equiv> ''createCategory''"
abbreviation (input) "OperationDeleteCategory \<equiv> ''deleteCategory''"
abbreviation (input) "OperationModifyCategory \<equiv> ''modifyCategory''"

abbreviation (input) "ChangeFormatStructuredV1 \<equiv> ''structured-operation-v1''"

subsection \<open>Errors\<close>

text \<open>
  \<open>httpapi.Error\<close>; its \<open>Details\<close> map is never filled by the sources and left out.
\<close>

record api_error =
  ae_status :: nat
  ae_code :: string
  ae_message :: string

text \<open>
  The errors a call can return: the store's \<open>ErrNotFound\<close>, the SQLSTATEs the store or the
  database reports (unique or foreign-key violation, a statement in an aborted transaction, any
  other failure), the internal marker of a rejected operation batch (with the
  rejection that the batch closure has stored beside it), a run-time panic, an API error, an
  error with a text made by \<open>errors.New\<close> or \<open>fmt.Errorf\<close>, and an error of the object storage.
\<close>

datatype go_error =
    ErrNotFound
  | ErrUnique
  | ErrForeignKey
  | ErrDB
  | ErrTxAborted
  | ErrBatchRejected RejectedDTO
  | ErrPanic
  | ErrApi api_error
  | ErrText string
  | ErrStorageNotFound
  | ErrStorageUnavailable
  | ErrStorageUpstream

definition NewError :: "nat \<Rightarrow> string \<Rightarrow> string \<Rightarrow> api_error" where
  "NewError status code message = \<lparr>ae_status = status, ae_code = code, ae_message = message\<rparr>"

definition Error_text :: "api_error option \<Rightarrow> string" where
  "Error_text err = (case err of None \<Rightarrow> [] | Some e \<Rightarrow> ae_code e @ '': '' @ ae_message e)"

definition InvalidRequest :: "string \<Rightarrow> go_error" where
  "InvalidRequest message = ErrApi (NewError 400 ''INVALID_REQUEST'' message)"

definition Unauthorized :: go_error where
  "Unauthorized = ErrApi (NewError 401 ''UNAUTHORIZED'' ''Authentication is required.'')"

definition Forbidden :: "string \<Rightarrow> go_error" where
  "Forbidden message = ErrApi (NewError 403 ''FORBIDDEN'' message)"

definition NotFound :: "string \<Rightarrow> go_error" where
  "NotFound message = ErrApi (NewError 404 ''NOT_FOUND'' message)"

definition Internal :: api_error where
  "Internal = NewError 500 ''INTERNAL_ERROR'' ''An internal error occurred.''"

definition FromError :: "go_error \<Rightarrow> api_error" where
  "FromError err = (case err of ErrApi e \<Rightarrow> e | _ \<Rightarrow> Internal)"

definition DeviceRevoked :: go_error where
  "DeviceRevoked = ErrApi (NewError 403 ''DEVICE_REVOKED'' ''Device has been revoked.'')"

definition DeviceForbidden :: go_error where
  "DeviceForbidden = Forbidden ''Device does not belong to the authenticated user.''"

text \<open>
  \<open>httpapi.DecodeJSON\<close>, over the outcome of the two calls of \<open>json.Decoder.Decode\<close>: the
  first gives the value or fails, the second has to report the end of the body.
\<close>

datatype 'a decode_result = Decoded 'a | Decode_MaxBytes | Decode_EOF | Decode_Failed

definition DecodeJSON :: "'a decode_result \<Rightarrow> 'b decode_result \<Rightarrow> go_error + 'a" where
  "DecodeJSON first extra = (case first of
     Decode_MaxBytes \<Rightarrow>
       Inl (ErrApi (NewError 413 ''PAYLOAD_TOO_LARGE'' ''The request body is too large.''))
   | Decode_EOF \<Rightarrow> Inl (InvalidRequest ''The request body must be valid JSON.'')
   | Decode_Failed \<Rightarrow> Inl (InvalidRequest ''The request body must be valid JSON.'')
   | Decoded a \<Rightarrow> (case extra of
        Decode_EOF \<Rightarrow> Inr a
      | Decode_MaxBytes \<Rightarrow>
          Inl (ErrApi (NewError 413 ''PAYLOAD_TOO_LARGE'' ''The request body is too large.''))
      | _ \<Rightarrow> Inl (InvalidRequest ''The request body must contain a single JSON document.'')))"

definition MapDecodeError :: "go_error option \<Rightarrow> api_error option" where
  "MapDecodeError err = (case err of
     None \<Rightarrow> None
   | Some (ErrApi e) \<Rightarrow> Some e
   | Some _ \<Rightarrow> Some (NewError 400 ''INVALID_REQUEST'' ''The request is invalid.''))"

record error_envelope =
  en_status :: nat
  en_code :: string
  en_message :: string
  en_requestId :: string

definition WriteError :: "string \<Rightarrow> go_error \<Rightarrow> error_envelope" where
  "WriteError request_id err = (let e = FromError err in
     \<lparr>en_status = ae_status e, en_code = ae_code e, en_message = ae_message e,
      en_requestId = request_id\<rparr>)"

lemma DecodeJSON_Inr: "DecodeJSON first extra = Inr a \<longleftrightarrow> first = Decoded a \<and> extra = Decode_EOF"
  by (auto simp: DecodeJSON_def split: decode_result.split)

lemma DecodeJSON_client_error:
  "DecodeJSON first extra = Inl e \<Longrightarrow> ae_status (FromError e) \<in> {400, 413}"
  by (auto simp: DecodeJSON_def FromError_def InvalidRequest_def NewError_def
      split: decode_result.splits)

subsection \<open>Integers in text\<close>

text \<open>\<open>strconv.ParseInt(s, 10, 64)\<close>: an optional sign, decimal digits, and the range of int64.\<close>

definition is_digit :: "char \<Rightarrow> bool" where
  "is_digit c \<longleftrightarrow> within 48 57 (byte c)"

definition digits_value :: "string \<Rightarrow> int" where
  "digits_value ds = foldl (\<lambda>v c. v * 10 + int (byte c - 48)) 0 ds"

definition ParseInt :: "string \<Rightarrow> int option" where
  "ParseInt s =
     (let neg = s \<noteq> [] \<and> hd s = CHR ''-'';
          ds = (if s \<noteq> [] \<and> (hd s = CHR ''-'' \<or> hd s = CHR ''+'') then tl s else s);
          v = (if neg then - digits_value ds else digits_value ds)
      in if ds \<noteq> [] \<and> list_all is_digit ds \<and> - (2 ^ 63) \<le> v \<and> v \<le> max_int64
         then Some v else None)"

fun itoa :: "nat \<Rightarrow> string" where
  "itoa n = (if n < 10 then [char_of (48 + n)] else itoa (n div 10) @ [char_of (48 + n mod 10)])"

declare itoa.simps [simp del]

text \<open>An integer in a JSON document or a text: \<open>strconv.FormatInt(v, 10)\<close>.\<close>

definition FormatInt :: "int \<Rightarrow> string" where
  "FormatInt v = (if v < 0 then CHR ''-'' # itoa (nat (- v)) else itoa (nat v))"

lemma ParseInt_range: "ParseInt s = Some v \<Longrightarrow> - (2 ^ 63) \<le> v \<and> v \<le> max_int64"
  by (auto simp: ParseInt_def Let_def split: if_splits)

lemma itoa_digits: "list_all is_digit (itoa n) \<and> itoa n \<noteq> [] \<and> digits_value (itoa n) = int n"
proof (induction n rule: itoa.induct)
  case (1 n)
  have d: "is_digit (char_of (48 + k))" "byte (char_of (48 + k)) = 48 + k" if "k < 10" for k :: nat
    using that by (simp_all add: is_digit_def within_def byte_char_of)
  show ?case
  proof (cases "n < 10")
    case True
    with d [OF True] show ?thesis by (simp add: itoa.simps [of n] digits_value_def)
  next
    case False
    note IH = "1.IH" [OF False]
    have "is_digit (char_of (48 + n mod 10))" "byte (char_of (48 + n mod 10)) = 48 + n mod 10"
      using d [of "n mod 10"] by simp_all
    moreover have "int (n div 10) * 10 + int (n mod 10) = int n"
      by (metis div_mult_mod_eq of_nat_add of_nat_mult of_nat_numeral)
    ultimately show ?thesis
      using IH False by (simp add: itoa.simps [of n] digits_value_def)
  qed
qed

lemma ParseInt_itoa: "int n \<le> max_int64 \<Longrightarrow> ParseInt (itoa n) = Some (int n)"
proof -
  assume n: "int n \<le> max_int64"
  have ds: "list_all is_digit (itoa n)" "itoa n \<noteq> []" "digits_value (itoa n) = int n"
    using itoa_digits by auto
  then have "is_digit (hd (itoa n))" by (cases "itoa n") auto
  then have "hd (itoa n) \<noteq> CHR ''-''" "hd (itoa n) \<noteq> CHR ''+''"
    by (auto simp: is_digit_def within_def byte_def)
  with ds n show ?thesis by (simp add: ParseInt_def)
qed

lemma ParseInt_FormatInt:
  assumes "- (2 ^ 63) \<le> v" "v \<le> max_int64"
  shows "ParseInt (FormatInt v) = Some v"
proof (cases "v < 0")
  case True
  have "list_all is_digit (itoa (nat (- v)))" "itoa (nat (- v)) \<noteq> []"
    "digits_value (itoa (nat (- v))) = - v"
    using itoa_digits [of "nat (- v)"] True by simp_all
  with True assms show ?thesis by (simp add: FormatInt_def ParseInt_def)
next
  case False
  with assms ParseInt_itoa [of "nat v"] show ?thesis by (simp add: FormatInt_def)
qed

end
