(* ===== verification/Json_Ops.thy ===== *)
theory Json_Ops
  imports Httpapi
begin

section \<open>JSON payloads and their field decoders\<close>

text \<open>
  \<open>internal/sync/operations/operations.go\<close>: the decoders of the members of a JSON
  object. \<open>json.Unmarshal\<close> into a map lets the last of two members with the same name win.

  The decoders return an error text or a value; the pair of a value and a presence flag of the
  source is an option. Three conversions are outside of the repository and are parameters: the
  parser and printer of \<open>google/uuid\<close>, the conversion between number literals and \<open>float64\<close>, of which the
  program only uses the sign test and the printed form, and \<open>strconv.Quote\<close> (\<open>%q\<close>).
\<close>

type_synonym fields = "string \<Rightarrow> json option"

record float64 =
  f_negative :: bool
  f_text :: string

record codec =
  c_parse_uuid :: "string \<Rightarrow> uuid option"
  c_format_uuid :: "uuid \<Rightarrow> string"
  c_parse_float :: "string \<Rightarrow> float64 option"
  c_quote :: "string \<Rightarrow> string"

definition members :: "(string \<times> json) list \<Rightarrow> fields" where
  "members kvs = map_of (rev kvs)"

text \<open>\<open>json.Unmarshal\<close> into \<open>any\<close> fails only on a number that is out of the range of float64.\<close>

function any_ok :: "codec \<Rightarrow> json \<Rightarrow> bool" where
  "any_ok c JNull = True"
| "any_ok c (JBool b) = True"
| "any_ok c (JNum l) = (c_parse_float c l \<noteq> None)"
| "any_ok c (JStr s) = True"
| "any_ok c (JArr js) = list_all (any_ok c) js"
| "any_ok c (JObj kvs) = list_all (\<lambda>kv. any_ok c (snd kv)) kvs"
  by pat_completeness auto
termination
proof (relation "measure (size \<circ> snd)")
  fix c :: codec and kvs :: "(string \<times> json) list" and kv
  assume "kv \<in> set kvs"
  then have "size_prod (\<lambda>_. 0) size kv \<le> size_list (size_prod (\<lambda>_. 0) size) kvs"
    by (rule size_list_estimation') simp
  then show "((c, snd kv), (c, JObj kvs)) \<in> measure (size \<circ> snd)"
    by (cases kv) simp
next
  fix c :: codec and js :: "json list" and j
  assume "j \<in> set js"
  then show "((c, j), (c, JArr js)) \<in> measure (size \<circ> snd)"
    by (induction js) auto
qed simp

subsection \<open>The operations\<close>

definition allowedBlockTypes :: "string list" where
  "allowedBlockTypes = [BlockTypeText, BlockTypeBullet, BlockTypeTodo, BlockTypeNumberedList,
     BlockTypeAttachment]"

record TextDelta =
  td_Index :: int
  td_DeleteCount :: int
  td_InsertText :: string

definition NormalizeChangeFormat :: "string \<Rightarrow> string" where
  "NormalizeChangeFormat format = (if blank format then ChangeFormatStructuredV1 else format)"

definition IsJSONNull :: "json \<Rightarrow> bool" where
  "IsJSONNull raw \<longleftrightarrow> raw = JNull"

definition DecodeObjectFields :: "raw_message \<Rightarrow> string \<Rightarrow> string + fields" where
  "DecodeObjectFields raw name = (case raw of
     Some (JObj kvs) \<Rightarrow> Inr (members kvs)
   | _ \<Rightarrow> Inl (name @ '' must be an object''))"

definition DecodeChangeObject :: "raw_message \<Rightarrow> string + fields" where
  "DecodeChangeObject raw = (case raw of
     None \<Rightarrow> Inr (\<lambda>_. None)
   | Some _ \<Rightarrow> DecodeObjectFields raw RequestKeyChangeData)"

definition GetStringField :: "fields \<Rightarrow> string \<Rightarrow> string + string option" where
  "GetStringField flds key = (case flds key of
     None \<Rightarrow> Inr None
   | Some (JStr s) \<Rightarrow> Inr (Some s)
   | Some JNull \<Rightarrow> Inr (Some [])
   | Some _ \<Rightarrow> Inl (key @ '' must be a string''))"

definition GetIntField :: "fields \<Rightarrow> string \<Rightarrow> string + int option" where
  "GetIntField flds key = (case flds key of
     None \<Rightarrow> Inr None
   | Some (JNum l) \<Rightarrow> (case ParseInt l of
        Some v \<Rightarrow> Inr (Some v)
      | None \<Rightarrow> Inl (key @ '' must be an integer''))
   | Some JNull \<Rightarrow> Inr (Some 0)
   | Some _ \<Rightarrow> Inl (key @ '' must be an integer''))"

definition GetFloatField :: "codec \<Rightarrow> fields \<Rightarrow> string \<Rightarrow> string + float64 option" where
  "GetFloatField c flds key = (case flds key of
     None \<Rightarrow> Inr None
   | Some raw \<Rightarrow> if IsJSONNull raw then Inl (key @ '' must be a number'')
       else (case raw of
          JNum l \<Rightarrow> (case c_parse_float c l of
             Some v \<Rightarrow> Inr (Some v)
           | None \<Rightarrow> Inl (key @ '' must be a number''))
        | _ \<Rightarrow> Inl (key @ '' must be a number'')))"

definition GetArrayField :: "fields \<Rightarrow> string \<Rightarrow> string + json list option" where
  "GetArrayField flds key = (case flds key of
     None \<Rightarrow> Inr None
   | Some raw \<Rightarrow> if IsJSONNull raw then Inl (key @ '' must be an array'')
       else (case raw of JArr js \<Rightarrow> Inr (Some js) | _ \<Rightarrow> Inl (key @ '' must be an array'')))"

definition GetObjectField :: "codec \<Rightarrow> fields \<Rightarrow> string \<Rightarrow> string + json option" where
  "GetObjectField c flds key = (case flds key of
     None \<Rightarrow> Inr None
   | Some (JObj kvs) \<Rightarrow> if any_ok c (JObj kvs) then Inr (Some (JObj kvs))
       else Inl (key @ '' must be an object'')
   | Some _ \<Rightarrow> Inl (key @ '' must be an object''))"

definition GetUUIDField :: "codec \<Rightarrow> fields \<Rightarrow> string \<Rightarrow> string + uuid option" where
  "GetUUIDField c flds key = (case flds key of
     None \<Rightarrow> Inr None
   | Some raw \<Rightarrow> if IsJSONNull raw then Inl (key @ '' must be a UUID'')
       else (case raw of
          JStr s \<Rightarrow> (case c_parse_uuid c s of
             Some i \<Rightarrow> Inr (Some i)
           | None \<Rightarrow> Inl (key @ '' must be a UUID''))
        | _ \<Rightarrow> Inl (key @ '' must be a UUID'')))"

definition DecodeTextDelta :: "raw_message \<Rightarrow> string \<Rightarrow> string + TextDelta" where
  "DecodeTextDelta raw name = (case DecodeObjectFields raw name of
     Inl e \<Rightarrow> Inl e
   | Inr flds \<Rightarrow> (case GetIntField flds RequestKeyIndex of
       Inl e \<Rightarrow> Inl e
     | Inr None \<Rightarrow> Inl (RequestKeyIndex @ '' is required'')
     | Inr (Some index) \<Rightarrow> (case GetIntField flds RequestKeyDeleteCount of
         Inl e \<Rightarrow> Inl e
       | Inr None \<Rightarrow> Inl (RequestKeyDeleteCount @ '' is required'')
       | Inr (Some deleteCount) \<Rightarrow> (case GetStringField flds RequestKeyInsertText of
           Inl e \<Rightarrow> Inl e
         | Inr None \<Rightarrow> Inl (RequestKeyInsertText @ '' is required'')
         | Inr (Some insertText) \<Rightarrow>
             Inr \<lparr>td_Index = index, td_DeleteCount = deleteCount, td_InsertText = insertText\<rparr>))))"

definition ValidateBlockType :: "codec \<Rightarrow> string \<Rightarrow> string + unit" where
  "ValidateBlockType c blockType =
     (if blockType \<in> set allowedBlockTypes then Inr ()
      else Inl (RequestKeyBlockType @ '' '' @ c_quote c blockType @ '' is unsupported''))"

subsection \<open>Facts\<close>

lemma NormalizeChangeFormat_idem [simp]:
  "NormalizeChangeFormat (NormalizeChangeFormat f) = NormalizeChangeFormat f"
  by (auto simp: NormalizeChangeFormat_def)

lemma members_last_wins: "members (kvs @ [(k, v)]) k = Some v"
  by (simp add: members_def)

lemma GetIntField_range:
  "GetIntField flds key = Inr (Some v) \<Longrightarrow> - (2 ^ 63) \<le> v \<and> v \<le> max_int64"
  by (auto simp: GetIntField_def dest: ParseInt_range split: option.splits json.splits)

lemma DecodeTextDelta_Inr:
  assumes "DecodeTextDelta raw name = Inr d"
  obtains kvs where "raw = Some (JObj kvs)"
    and "GetIntField (members kvs) RequestKeyIndex = Inr (Some (td_Index d))"
    and "GetIntField (members kvs) RequestKeyDeleteCount = Inr (Some (td_DeleteCount d))"
    and "GetStringField (members kvs) RequestKeyInsertText = Inr (Some (td_InsertText d))"
  using assms
  by (auto simp: DecodeTextDelta_def DecodeObjectFields_def
      split: sum.splits option.splits json.splits)

lemma GetObjectField_Inr:
  "GetObjectField c flds key = Inr (Some j) \<longleftrightarrow>
     (\<exists>kvs. flds key = Some (JObj kvs) \<and> j = JObj kvs \<and> any_ok c j)"
  by (auto simp: GetObjectField_def split: option.splits json.splits)

lemma ValidateBlockType_ok: "ValidateBlockType c t = Inr () \<longleftrightarrow> t \<in> set allowedBlockTypes"
  by (simp add: ValidateBlockType_def)

end
