(* ===== verification/Store.thy ===== *)
theory Store
  imports Json_Ops
begin

section \<open>The database, statements, transactions and savepoints\<close>

text \<open>
  \<open>internal/store/store.go\<close> and \<open>internal/store/postgres.go\<close>, with the tables of
  \<open>db/migrations\<close>. The database is a record of tables; a table is the list of its rows in
  insertion order. The three identity columns draw from counters that, as in PostgreSQL, are
  not part of what a rollback restores.

  Every statement may fail (a lost connection, a cancelled context, a resource limit): the
  environment decides it for each tick of the model's clock. A statement that fails inside a
  transaction leaves the transaction aborted, and an aborted transaction refuses every
  statement but a rollback. \<open>WithTx\<close> and \<open>WithSavepoint\<close> are the two functions of
  \<open>postgres.go\<close>, with every error path. A commit has three outcomes: it happens, it does not
  happen and is reported, or it happens and the acknowledgement is lost.

  Requests are executed one after the other; the interleaving of transactions is treated where
  it matters for a claim, in its own theory.
\<close>

subsection \<open>Rows\<close>

record SyncDevice =
  dv_ID :: string
  dv_OwnerID :: uuid
  dv_DeviceName :: "string option"
  dv_Platform :: "string option"
  dv_AppVersion :: "string option"
  dv_ProtocolVersion :: int
  dv_LastGlobalCursor :: int
  dv_LastSeenAt :: time
  dv_CreatedAt :: time
  dv_RevokedAt :: "time option"

record Note =
  nt_ID :: uuid
  nt_OwnerID :: uuid
  nt_Title :: string
  nt_NoteProperties :: raw_message
  nt_CurrentVersion :: int
  nt_CreatedAt :: time
  nt_UpdatedAt :: time
  nt_DeletedAt :: "time option"

record NoteBlock =
  bl_ID :: uuid
  bl_NoteID :: uuid
  bl_BlockType :: string
  bl_TextContent :: string
  bl_Position :: string
  bl_BlockProperties :: raw_message
  bl_CreatedAt :: time
  bl_UpdatedAt :: time
  bl_DeletedAt :: "time option"

text \<open>A row of \<open>note_changes\<close> (\<open>db.NoteChange\<close>, nullable columns) and the store's view of it.\<close>

record note_change_row =
  cr_ID :: uuid
  cr_OwnerID :: uuid
  cr_NoteID :: "uuid option"
  cr_BlockID :: "uuid option"
  cr_DeviceID :: string
  cr_ClientOperationID :: uuid
  cr_OperationType :: string
  cr_BaseNoteVersion :: int
  cr_ResultingNoteVersion :: int
  cr_ChangeFormat :: string
  cr_SchemaVersion :: int
  cr_ChangeData :: raw_message
  cr_GlobalSequence :: "int option"
  cr_CreatedAt :: time

record NoteChange =
  ch_ID :: uuid
  ch_OwnerID :: uuid
  ch_NoteID :: uuid
  ch_BlockID :: "uuid option"
  ch_DeviceID :: string
  ch_ClientOperationID :: uuid
  ch_OperationType :: string
  ch_BaseNoteVersion :: int
  ch_ResultingNoteVersion :: int
  ch_ChangeFormat :: string
  ch_SchemaVersion :: int
  ch_ChangeData :: raw_message
  ch_GlobalSequence :: int
  ch_CreatedAt :: time

record InsertNoteChangeParams =
  ip_ID :: uuid
  ip_OwnerID :: uuid
  ip_NoteID :: "uuid option"
  ip_BlockID :: "uuid option"
  ip_DeviceID :: string
  ip_ClientOperationID :: uuid
  ip_OperationType :: string
  ip_BaseNoteVersion :: int
  ip_ResultingNoteVersion :: int
  ip_ChangeFormat :: string
  ip_SchemaVersion :: int
  ip_ChangeData :: raw_message

record NoteSnapshot_row =
  sn_ID :: uuid
  sn_NoteID :: uuid
  sn_OwnerID :: uuid
  sn_Version :: int
  sn_LastAppliedCursor :: int
  sn_SnapshotFormat :: string
  sn_SchemaVersion :: int
  sn_SnapshotData :: raw_message
  sn_Checksum :: string
  sn_CreatedAt :: time

record OutboxJob =
  jb_ID :: int
  jb_JobType :: string
  jb_Payload :: raw_message
  jb_AvailableAt :: time
  jb_Attempts :: int
  jb_LockedAt :: "time option"
  jb_LockedBy :: "string option"
  jb_CompletedAt :: "time option"
  jb_LastError :: "string option"
  jb_CreatedAt :: time

record Category_row =
  cg_ID :: uuid
  cg_OwnerID :: uuid
  cg_Name :: string
  cg_CreatedAt :: time
  cg_UpdatedAt :: time
  cg_DeletedAt :: "time option"

text \<open>A row of \<open>file_uploads\<close>; \<open>cursor\<close> and \<open>device_id\<close> are nullable there and plain in the store.\<close>

record file_upload_row =
  ur_ID :: uuid
  ur_NoteID :: uuid
  ur_OwnerID :: uuid
  ur_BlockID :: uuid
  ur_OriginalFilename :: string
  ur_StorageBucket :: string
  ur_StoragePath :: string
  ur_ContentType :: string
  ur_ExpectedSize :: int
  ur_ActualSize :: "int option"
  ur_VerifiedContentType :: "string option"
  ur_Status :: string
  ur_ErrorMessage :: "string option"
  ur_ExpiresAt :: time
  ur_CompletedAt :: "time option"
  ur_CreatedAt :: time
  ur_UpdatedAt :: time
  ur_Cursor :: "int option"
  ur_DeviceID :: "string option"

record NoteDocument =
  nd_Note :: Note
  nd_Blocks :: "NoteBlock list"
  nd_LastAppliedCursor :: int

definition NormalizeJSON :: "raw_message \<Rightarrow> raw_message" where
  "NormalizeJSON raw = (case raw of None \<Rightarrow> Some (JObj []) | Some JNull \<Rightarrow> Some (JObj []) | _ \<Rightarrow> raw)"

definition RawObjectOrEmpty :: "raw_message \<Rightarrow> raw_message" where
  "RawObjectOrEmpty value = (case value of None \<Rightarrow> Some (JObj []) | _ \<Rightarrow> value)"

lemma NormalizeJSON_idem [simp]: "NormalizeJSON (NormalizeJSON raw) = NormalizeJSON raw"
  by (simp add: NormalizeJSON_def split: option.split json.split)

lemma NormalizeJSON_obj [simp]: "NormalizeJSON (Some (JObj kvs)) = Some (JObj kvs)"
  by (simp add: NormalizeJSON_def)

subsection \<open>The database and the environment\<close>

record database =
  t_categories :: "Category_row list"
  t_notes :: "Note list"
  t_note_blocks :: "NoteBlock list"
  t_sync_devices :: "SyncDevice list"
  t_note_changes :: "note_change_row list"
  t_note_snapshots :: "NoteSnapshot_row list"
  t_outbox_jobs :: "OutboxJob list"
  t_file_uploads :: "file_upload_row list"

text \<open>The database with its identity counters (the last value each has handed out).\<close>

record core =
  c_db :: database
  c_change_seq :: int
  c_job_seq :: int
  c_upload_seq :: int

record SyncAvailableEvent =
  ev_UserID :: uuid
  ev_OriginDeviceID :: string
  ev_LatestCursor :: int

record world =
  w_core :: core
  w_in_tx :: bool
  w_aborted :: bool
  w_tx_now :: time
  w_tick :: nat
  w_events :: "SyncAvailableEvent list"

datatype commit_outcome = Commit_ok | Commit_failed | Commit_lost

text \<open>
  What the program does not determine: failures, clock and identifier sources, and the
  behaviour of PostgreSQL on \<open>jsonb\<close> (the stored form of a document, the length of its text)
  and on text collation.
\<close>

record env =
  e_codec :: codec
  e_fault :: "nat \<Rightarrow> bool"
  e_commit :: "nat \<Rightarrow> commit_outcome"
  e_clock :: "nat \<Rightarrow> time"
  e_uuid :: "nat \<Rightarrow> uuid"
  e_jsonb :: "json \<Rightarrow> json"
  e_json_octets :: "json \<Rightarrow> nat"
  e_collate :: "string \<Rightarrow> string \<Rightarrow> bool"

type_synonym 'a call = "(world, go_error, 'a) stm"

abbreviation w_db :: "world \<Rightarrow> database" where
  "w_db w \<equiv> c_db (w_core w)"

definition tick :: "world \<Rightarrow> world" where
  "tick w = w\<lparr>w_tick := Suc (w_tick w)\<rparr>"

definition abort :: "world \<Rightarrow> world" where
  "abort w = w\<lparr>w_aborted := w_in_tx w\<rparr>"

text \<open>\<open>now()\<close> is the start of the transaction, or of the statement outside of one.\<close>

definition pg_now :: "env \<Rightarrow> world \<Rightarrow> time" where
  "pg_now env w = (if w_in_tx w then w_tx_now w else e_clock env (w_tick w))"

text \<open>A \<open>timestamptz\<close> has microseconds; pgx cuts the nanoseconds off.\<close>

definition pg_micros :: "time \<Rightarrow> time" where
  "pg_micros t = t div 1000 * 1000"

definition jsonb :: "env \<Rightarrow> raw_message \<Rightarrow> raw_message" where
  "jsonb env raw = map_option (e_jsonb env) raw"

text \<open>
  One statement: \<open>f\<close> computes its result on the core state. A statement that fails may have
  drawn from a counter, which is why the core state is returned with the error too.
\<close>

definition exec :: "env \<Rightarrow> (time \<Rightarrow> core \<Rightarrow> (go_error + 'a) \<times> core) \<Rightarrow> 'a call" where
  "exec env f w =
     (if w_in_tx w \<and> w_aborted w then (Inl ErrTxAborted, tick w)
      else if e_fault env (w_tick w) then (Inl ErrDB, abort (tick w))
      else case f (pg_now env w) (w_core w) of
        (Inl e, c) \<Rightarrow> (Inl e, abort (tick w)\<lparr>w_core := c\<rparr>)
      | (Inr a, c) \<Rightarrow> (Inr a, (tick w)\<lparr>w_core := c\<rparr>))"

text \<open>A query: the result depends on the tables only.\<close>

definition query :: "env \<Rightarrow> (time \<Rightarrow> database \<Rightarrow> 'a) \<Rightarrow> 'a call" where
  "query env f = exec env (\<lambda>now c. (Inr (f now (c_db c)), c))"

text \<open>A query of kind \<open>:one\<close>: \<open>pgx.ErrNoRows\<close>, mapped by \<open>mapNoRows\<close>, when there is no row.\<close>

definition mapNoRows :: "'a option \<Rightarrow> 'a call" where
  "mapNoRows row = (case row of None \<Rightarrow> failM ErrNotFound | Some a \<Rightarrow> returnM a)"

definition IsUniqueViolation :: "go_error \<Rightarrow> bool" where
  "IsUniqueViolation err \<longleftrightarrow> err = ErrUnique"

definition newUUID :: "env \<Rightarrow> uuid call" where
  "newUUID env w = (Inr (e_uuid env (w_tick w)), tick w)"

definition timeNow :: "env \<Rightarrow> time call" where
  "timeNow env w = (Inr (e_clock env (w_tick w)), tick w)"

subsection \<open>Transactions and savepoints\<close>

definition rollback :: "database \<Rightarrow> world \<Rightarrow> world" where
  "rollback d w = w\<lparr>w_core := (w_core w)\<lparr>c_db := d\<rparr>, w_aborted := False\<rparr>"

definition WithTx :: "env \<Rightarrow> 'a call \<Rightarrow> 'a call" where
  "WithTx env fn w =
     (if w_in_tx w then fn w
      else if e_fault env (w_tick w) then (Inl ErrDB, tick w)
      else case fn ((tick w)\<lparr>w_in_tx := True, w_aborted := False, w_tx_now := e_clock env (w_tick w)\<rparr>) of
        (Inl e, w1) \<Rightarrow> (Inl e, (tick (rollback (w_db w) w1))\<lparr>w_in_tx := False\<rparr>)
      | (Inr a, w1) \<Rightarrow>
          if w_aborted w1 then (Inl ErrTxAborted, (tick (rollback (w_db w) w1))\<lparr>w_in_tx := False\<rparr>)
          else (case e_commit env (w_tick w1) of
            Commit_ok \<Rightarrow> (Inr a, (tick w1)\<lparr>w_in_tx := False\<rparr>)
          | Commit_failed \<Rightarrow> (Inl ErrDB, (tick (rollback (w_db w) w1))\<lparr>w_in_tx := False\<rparr>)
          | Commit_lost \<Rightarrow> (Inl ErrDB, (tick w1)\<lparr>w_in_tx := False\<rparr>)))"

text \<open>\<open>SAVEPOINT\<close> and \<open>RELEASE SAVEPOINT\<close>: statements that leave the tables alone.\<close>

definition savepoint_stmt :: "env \<Rightarrow> unit call" where
  "savepoint_stmt env = exec env (\<lambda>now c. (Inr (), c))"

text \<open>\<open>ROLLBACK TO SAVEPOINT\<close>: runs in an aborted transaction too, and heals it.\<close>

definition rollback_to :: "env \<Rightarrow> database \<Rightarrow> unit call" where
  "rollback_to env d w =
     (if e_fault env (w_tick w) then (Inl ErrDB, abort (tick w)) else (Inr (), rollback d (tick w)))"

definition WithSavepoint :: "env \<Rightarrow> 'a call \<Rightarrow> 'a call" where
  "WithSavepoint env fn w =
     (if \<not> w_in_tx w then WithTx env fn w
      else bindM (savepoint_stmt env) (\<lambda>_.
        catchM fn
          (\<lambda>err. catchM (rollback_to env (w_db w)) (\<lambda>_. failM err) (\<lambda>_.
             catchM (savepoint_stmt env) (\<lambda>_. failM err) (\<lambda>_. failM err)))
          (\<lambda>a. bindM (savepoint_stmt env) (\<lambda>_. returnM a))) w)"

end
