(* ===== verification/Queries.thy ===== *)
theory Queries
  imports Store
begin

section \<open>Queries on categories, notes, blocks, devices and changes\<close>

text \<open>
  The statements of \<open>db/generated\<close> (suffix \<open>_sql\<close>) and the store methods of
  \<open>internal/store/{notes,sync,devices,categories}.go\<close> that call them and convert the rows. A
  statement checks the constraints of \<open>db/migrations\<close>: primary keys and unique columns
  (\<open>ErrUnique\<close>), then foreign keys (\<open>ErrForeignKey\<close>). An \<open>UPDATE\<close> rewrites every row that
  matches its \<open>WHERE\<close>; \<open>RETURNING\<close> with kind \<open>:one\<close> gives the first of them.
\<close>

subsection \<open>Tables as lists of rows\<close>

definition lookup :: "('r \<Rightarrow> 'k) \<Rightarrow> 'r list \<Rightarrow> 'k \<Rightarrow> 'r option" where
  "lookup key rows k = find (\<lambda>r. key r = k) rows"

definition update_where :: "('r \<Rightarrow> bool) \<Rightarrow> ('r \<Rightarrow> 'r) \<Rightarrow> 'r list \<Rightarrow> 'r list" where
  "update_where cond upd rows = map (\<lambda>r. if cond r then upd r else r) rows"

text \<open>\<open>COALESCE(MAX(x), 0)\<close>\<close>

definition max_or_zero :: "int list \<Rightarrow> int" where
  "max_or_zero xs = (if xs = [] then 0 else Max (set xs))"

definition on_categories :: "(Category_row list \<Rightarrow> Category_row list) \<Rightarrow> core \<Rightarrow> core" where
  "on_categories f c = c\<lparr>c_db := (c_db c)\<lparr>t_categories := f (t_categories (c_db c))\<rparr>\<rparr>"

definition on_notes :: "(Note list \<Rightarrow> Note list) \<Rightarrow> core \<Rightarrow> core" where
  "on_notes f c = c\<lparr>c_db := (c_db c)\<lparr>t_notes := f (t_notes (c_db c))\<rparr>\<rparr>"

definition on_blocks :: "(NoteBlock list \<Rightarrow> NoteBlock list) \<Rightarrow> core \<Rightarrow> core" where
  "on_blocks f c = c\<lparr>c_db := (c_db c)\<lparr>t_note_blocks := f (t_note_blocks (c_db c))\<rparr>\<rparr>"

definition on_devices :: "(SyncDevice list \<Rightarrow> SyncDevice list) \<Rightarrow> core \<Rightarrow> core" where
  "on_devices f c = c\<lparr>c_db := (c_db c)\<lparr>t_sync_devices := f (t_sync_devices (c_db c))\<rparr>\<rparr>"

definition on_changes :: "(note_change_row list \<Rightarrow> note_change_row list) \<Rightarrow> core \<Rightarrow> core" where
  "on_changes f c = c\<lparr>c_db := (c_db c)\<lparr>t_note_changes := f (t_note_changes (c_db c))\<rparr>\<rparr>"

definition on_jobs :: "(OutboxJob list \<Rightarrow> OutboxJob list) \<Rightarrow> core \<Rightarrow> core" where
  "on_jobs f c = c\<lparr>c_db := (c_db c)\<lparr>t_outbox_jobs := f (t_outbox_jobs (c_db c))\<rparr>\<rparr>"

lemmas on_table_defs [store_defs] =
  on_categories_def on_notes_def on_blocks_def on_devices_def on_changes_def on_jobs_def

text \<open>
  \<open>UPDATE ... WHERE ... RETURNING\<close> of kind \<open>:one\<close> on one table: the first updated row, if any.
\<close>

definition update_returning :: "('r \<Rightarrow> bool) \<Rightarrow> ('r \<Rightarrow> 'r) \<Rightarrow> 'r list \<Rightarrow> 'r option" where
  "update_returning cond upd rows = map_option upd (find cond rows)"

subsection \<open>Categories\<close>

definition CreateCategory_sql :: "env \<Rightarrow> uuid \<Rightarrow> uuid \<Rightarrow> string \<Rightarrow> unit call" where
  "CreateCategory_sql env i owner name = exec env (\<lambda>now c.
     let rows = t_categories (c_db c) in
     if lookup cg_ID rows i \<noteq> None \<or> lookup (\<lambda>r. (cg_OwnerID r, cg_Name r)) rows (owner, name) \<noteq> None
     then (Inl ErrUnique, c)
     else (Inr (), on_categories (\<lambda>rows. rows @ [\<lparr>cg_ID = i, cg_OwnerID = owner, cg_Name = name,
        cg_CreatedAt = now, cg_UpdatedAt = now, cg_DeletedAt = None\<rparr>]) c))"

definition category_active :: "uuid \<Rightarrow> uuid \<Rightarrow> Category_row \<Rightarrow> bool" where
  "category_active i owner r \<longleftrightarrow> cg_ID r = i \<and> cg_OwnerID r = owner \<and> cg_DeletedAt r = None"

definition DeleteCategory_sql :: "env \<Rightarrow> uuid \<Rightarrow> uuid \<Rightarrow> unit call" where
  "DeleteCategory_sql env i owner = exec env (\<lambda>now c. (Inr (),
     on_categories (update_where (category_active i owner)
       (\<lambda>r. r\<lparr>cg_UpdatedAt := now, cg_DeletedAt := Some now\<rparr>)) c))"

definition GetCategoryForOwnerForUpdate_sql :: "env \<Rightarrow> uuid \<Rightarrow> uuid \<Rightarrow> uuid option call" where
  "GetCategoryForOwnerForUpdate_sql env i owner = query env (\<lambda>now d.
     map_option cg_ID (find (category_active i owner) (t_categories d)))"

definition UpdateCategory_sql :: "env \<Rightarrow> uuid \<Rightarrow> uuid \<Rightarrow> string \<Rightarrow> unit call" where
  "UpdateCategory_sql env i owner name = exec env (\<lambda>now c.
     let rows = t_categories (c_db c) in
     if (\<exists>r \<in> set rows. category_active i owner r)
        \<and> (\<exists>r \<in> set rows. cg_OwnerID r = owner \<and> cg_Name r = name \<and> \<not> category_active i owner r)
     then (Inl ErrUnique, c)
     else (Inr (), on_categories (update_where (category_active i owner)
       (\<lambda>r. r\<lparr>cg_Name := name, cg_UpdatedAt := now\<rparr>)) c))"

definition CreateCategory :: "env \<Rightarrow> uuid \<Rightarrow> uuid \<Rightarrow> string \<Rightarrow> unit call" where
  "CreateCategory env i owner name = CreateCategory_sql env i owner name"

definition LockCategoryForOwner :: "env \<Rightarrow> uuid \<Rightarrow> uuid \<Rightarrow> unit call" where
  "LockCategoryForOwner env i owner =
     bindM (GetCategoryForOwnerForUpdate_sql env i owner) (\<lambda>row.
     bindM (mapNoRows row) (\<lambda>_. returnM ()))"

definition UpdateCategory :: "env \<Rightarrow> uuid \<Rightarrow> uuid \<Rightarrow> string \<Rightarrow> unit call" where
  "UpdateCategory env i owner name = UpdateCategory_sql env i owner name"

definition DeleteCategory :: "env \<Rightarrow> uuid \<Rightarrow> uuid \<Rightarrow> unit call" where
  "DeleteCategory env i owner = DeleteCategory_sql env i owner"

subsection \<open>Notes\<close>

definition fromDBNote :: "Note \<Rightarrow> Note" where
  "fromDBNote v = v\<lparr>nt_NoteProperties := NormalizeJSON (nt_NoteProperties v)\<rparr>"

definition fromDBBlock :: "NoteBlock \<Rightarrow> NoteBlock" where
  "fromDBBlock v = v\<lparr>bl_BlockProperties := NormalizeJSON (bl_BlockProperties v)\<rparr>"

definition note_owned :: "uuid \<Rightarrow> uuid \<Rightarrow> Note \<Rightarrow> bool" where
  "note_owned i owner n \<longleftrightarrow> nt_ID n = i \<and> nt_OwnerID n = owner"

definition block_in :: "uuid \<Rightarrow> uuid \<Rightarrow> NoteBlock \<Rightarrow> bool" where
  "block_in i note b \<longleftrightarrow> bl_ID b = i \<and> bl_NoteID b = note"

definition CreateNote_sql :: "env \<Rightarrow> uuid \<Rightarrow> uuid \<Rightarrow> string \<Rightarrow> raw_message \<Rightarrow> int \<Rightarrow> unit call" where
  "CreateNote_sql env i owner title properties version = exec env (\<lambda>now c.
     if lookup nt_ID (t_notes (c_db c)) i \<noteq> None then (Inl ErrUnique, c)
     else (Inr (), on_notes (\<lambda>rows. rows @ [\<lparr>nt_ID = i, nt_OwnerID = owner, nt_Title = title,
        nt_NoteProperties = jsonb env properties, nt_CurrentVersion = version,
        nt_CreatedAt = now, nt_UpdatedAt = now, nt_DeletedAt = None\<rparr>]) c))"

definition CreateBlock_sql :: "env \<Rightarrow> uuid \<Rightarrow> uuid \<Rightarrow> string \<Rightarrow> string \<Rightarrow> string \<Rightarrow> raw_message \<Rightarrow>
    unit call" where
  "CreateBlock_sql env i note blockType text position properties = exec env (\<lambda>now c.
     if lookup bl_ID (t_note_blocks (c_db c)) i \<noteq> None then (Inl ErrUnique, c)
     else if lookup nt_ID (t_notes (c_db c)) note = None then (Inl ErrForeignKey, c)
     else (Inr (), on_blocks (\<lambda>rows. rows @ [\<lparr>bl_ID = i, bl_NoteID = note, bl_BlockType = blockType,
        bl_TextContent = text, bl_Position = position, bl_BlockProperties = jsonb env properties,
        bl_CreatedAt = now, bl_UpdatedAt = now, bl_DeletedAt = None\<rparr>]) c))"

definition DeleteBlock_sql :: "env \<Rightarrow> uuid \<Rightarrow> uuid \<Rightarrow> NoteBlock option call" where
  "DeleteBlock_sql env i note = exec env (\<lambda>now c.
     let upd = (\<lambda>b. b\<lparr>bl_UpdatedAt := now, bl_DeletedAt := Some now\<rparr>) in
     (Inr (update_returning (block_in i note) upd (t_note_blocks (c_db c))),
      on_blocks (update_where (block_in i note) upd) c))"

definition note_at_version :: "uuid \<Rightarrow> uuid \<Rightarrow> int \<Rightarrow> Note \<Rightarrow> bool" where
  "note_at_version i owner version n \<longleftrightarrow> note_owned i owner n \<and> nt_CurrentVersion n = version"

definition DeleteNote_sql :: "env \<Rightarrow> uuid \<Rightarrow> uuid \<Rightarrow> int \<Rightarrow> Note option call" where
  "DeleteNote_sql env i owner version = exec env (\<lambda>now c.
     let upd = (\<lambda>n. n\<lparr>nt_UpdatedAt := now, nt_DeletedAt := Some now\<rparr>) in
     (Inr (update_returning (note_at_version i owner version) upd (t_notes (c_db c))),
      on_notes (update_where (note_at_version i owner version) upd) c))"

definition GetBlockForNoteForUpdate_sql :: "env \<Rightarrow> uuid \<Rightarrow> uuid \<Rightarrow> NoteBlock option call" where
  "GetBlockForNoteForUpdate_sql env i note = query env (\<lambda>now d. find (block_in i note) (t_note_blocks d))"

definition GetNoteForOwner_sql :: "env \<Rightarrow> uuid \<Rightarrow> uuid \<Rightarrow> Note option call" where
  "GetNoteForOwner_sql env i owner = query env (\<lambda>now d. find (note_owned i owner) (t_notes d))"

definition GetNoteForOwnerForUpdate_sql :: "env \<Rightarrow> uuid \<Rightarrow> uuid \<Rightarrow> Note option call" where
  "GetNoteForOwnerForUpdate_sql env i owner = query env (\<lambda>now d. find (note_owned i owner) (t_notes d))"

text \<open>\<open>ORDER BY position ASC, created_at ASC\<close>, with the collation of the database.\<close>

definition block_le :: "env \<Rightarrow> NoteBlock \<Rightarrow> NoteBlock \<Rightarrow> bool" where
  "block_le env a b \<longleftrightarrow>
     (if bl_Position a = bl_Position b then bl_CreatedAt a \<le> bl_CreatedAt b
      else e_collate env (bl_Position a) (bl_Position b))"

definition ListBlocksForNote_sql :: "env \<Rightarrow> uuid \<Rightarrow> NoteBlock list call" where
  "ListBlocksForNote_sql env note = query env (\<lambda>now d.
     sort_by (block_le env) (filter (\<lambda>b. bl_NoteID b = note) (t_note_blocks d)))"

definition UpdateBlockState_sql :: "env \<Rightarrow> uuid \<Rightarrow> uuid \<Rightarrow> string \<Rightarrow> string \<Rightarrow> string \<Rightarrow> raw_message \<Rightarrow>
    time option \<Rightarrow> unit call" where
  "UpdateBlockState_sql env i note blockType text position properties deletedAt = exec env (\<lambda>now c.
     (Inr (), on_blocks (update_where (block_in i note)
       (\<lambda>b. b\<lparr>bl_BlockType := blockType, bl_TextContent := text, bl_Position := position,
          bl_BlockProperties := jsonb env properties, bl_UpdatedAt := now,
          bl_DeletedAt := map_option pg_micros deletedAt\<rparr>)) c))"

definition UpdateNoteState_sql :: "env \<Rightarrow> uuid \<Rightarrow> uuid \<Rightarrow> string \<Rightarrow> raw_message \<Rightarrow> int \<Rightarrow> time option \<Rightarrow>
    unit call" where
  "UpdateNoteState_sql env i owner title properties version deletedAt = exec env (\<lambda>now c.
     (Inr (), on_notes (update_where (note_owned i owner)
       (\<lambda>n. n\<lparr>nt_Title := title, nt_NoteProperties := jsonb env properties,
          nt_CurrentVersion := version, nt_UpdatedAt := now,
          nt_DeletedAt := map_option pg_micros deletedAt\<rparr>)) c))"

definition GetNoteForOwner :: "env \<Rightarrow> uuid \<Rightarrow> uuid \<Rightarrow> Note call" where
  "GetNoteForOwner env i owner =
     bindM (GetNoteForOwner_sql env i owner) (\<lambda>row.
     bindM (mapNoRows row) (\<lambda>n. returnM (fromDBNote n)))"

definition GetNoteForOwnerForUpdate :: "env \<Rightarrow> uuid \<Rightarrow> uuid \<Rightarrow> Note call" where
  "GetNoteForOwnerForUpdate env i owner =
     bindM (GetNoteForOwnerForUpdate_sql env i owner) (\<lambda>row.
     bindM (mapNoRows row) (\<lambda>n. returnM (fromDBNote n)))"

definition GetBlockForNoteForUpdate :: "env \<Rightarrow> uuid \<Rightarrow> uuid \<Rightarrow> NoteBlock call" where
  "GetBlockForNoteForUpdate env i note =
     bindM (GetBlockForNoteForUpdate_sql env i note) (\<lambda>row.
     bindM (mapNoRows row) (\<lambda>b. returnM (fromDBBlock b)))"

definition ValidateUploadTarget :: "env \<Rightarrow> uuid \<Rightarrow> uuid \<Rightarrow> uuid \<Rightarrow> unit call" where
  "ValidateUploadTarget env note block owner =
     bindM (GetNoteForOwner env note owner) (\<lambda>n.
     if nt_DeletedAt n \<noteq> None then failM ErrNotFound
     else bindM (GetBlockForNoteForUpdate env block note) (\<lambda>b.
       if bl_DeletedAt b \<noteq> None then failM ErrNotFound else returnM ()))"

definition ListBlocksForNote :: "env \<Rightarrow> uuid \<Rightarrow> NoteBlock list call" where
  "ListBlocksForNote env note =
     bindM (ListBlocksForNote_sql env note) (\<lambda>rows. returnM (map fromDBBlock rows))"

definition CreateNote :: "env \<Rightarrow> Note \<Rightarrow> unit call" where
  "CreateNote env n = CreateNote_sql env (nt_ID n) (nt_OwnerID n) (nt_Title n)
     (NormalizeJSON (nt_NoteProperties n)) (nt_CurrentVersion n)"

definition UpdateNoteState :: "env \<Rightarrow> Note \<Rightarrow> unit call" where
  "UpdateNoteState env n = UpdateNoteState_sql env (nt_ID n) (nt_OwnerID n) (nt_Title n)
     (NormalizeJSON (nt_NoteProperties n)) (nt_CurrentVersion n) (nt_DeletedAt n)"

definition DeleteNote :: "env \<Rightarrow> uuid \<Rightarrow> uuid \<Rightarrow> int \<Rightarrow> Note call" where
  "DeleteNote env i owner expectedVersion =
     bindM (DeleteNote_sql env i owner expectedVersion) (\<lambda>row.
     bindM (mapNoRows row) (\<lambda>n. returnM (fromDBNote n)))"

definition CreateBlock :: "env \<Rightarrow> NoteBlock \<Rightarrow> unit call" where
  "CreateBlock env b = CreateBlock_sql env (bl_ID b) (bl_NoteID b) (bl_BlockType b)
     (bl_TextContent b) (bl_Position b) (NormalizeJSON (bl_BlockProperties b))"

definition UpdateBlockState :: "env \<Rightarrow> NoteBlock \<Rightarrow> unit call" where
  "UpdateBlockState env b = UpdateBlockState_sql env (bl_ID b) (bl_NoteID b) (bl_BlockType b)
     (bl_TextContent b) (bl_Position b) (NormalizeJSON (bl_BlockProperties b)) (bl_DeletedAt b)"

definition DeleteBlock :: "env \<Rightarrow> uuid \<Rightarrow> uuid \<Rightarrow> NoteBlock call" where
  "DeleteBlock env i note =
     bindM (DeleteBlock_sql env i note) (\<lambda>row.
     bindM (mapNoRows row) (\<lambda>b. returnM (fromDBBlock b)))"

subsection \<open>Changes\<close>

definition fromDBChange :: "note_change_row \<Rightarrow> NoteChange" where
  "fromDBChange v = \<lparr>ch_ID = cr_ID v, ch_OwnerID = cr_OwnerID v,
     ch_NoteID = (case cr_NoteID v of None \<Rightarrow> Nil_uuid | Some i \<Rightarrow> i),
     ch_BlockID = cr_BlockID v, ch_DeviceID = cr_DeviceID v,
     ch_ClientOperationID = cr_ClientOperationID v, ch_OperationType = cr_OperationType v,
     ch_BaseNoteVersion = cr_BaseNoteVersion v,
     ch_ResultingNoteVersion = cr_ResultingNoteVersion v, ch_ChangeFormat = cr_ChangeFormat v,
     ch_SchemaVersion = cr_SchemaVersion v, ch_ChangeData = NormalizeJSON (cr_ChangeData v),
     ch_GlobalSequence = (case cr_GlobalSequence v of None \<Rightarrow> 0 | Some n \<Rightarrow> n),
     ch_CreatedAt = cr_CreatedAt v\<rparr>"

abbreviation cr_seq :: "note_change_row \<Rightarrow> int" where
  "cr_seq r \<equiv> (case cr_GlobalSequence r of None \<Rightarrow> 0 | Some n \<Rightarrow> n)"

definition op_key :: "note_change_row \<Rightarrow> string \<times> uuid" where
  "op_key r = (cr_DeviceID r, cr_ClientOperationID r)"

definition FindProcessedOperation_sql :: "env \<Rightarrow> string \<Rightarrow> uuid \<Rightarrow> note_change_row option call" where
  "FindProcessedOperation_sql env device operation = query env (\<lambda>now d.
     find (\<lambda>r. cr_DeviceID r = device \<and> cr_ClientOperationID r = operation) (t_note_changes d))"

text \<open>The row that an insertion stores, for the sequence number and the time it got.\<close>

definition change_row :: "env \<Rightarrow> int \<Rightarrow> time \<Rightarrow> InsertNoteChangeParams \<Rightarrow> note_change_row" where
  "change_row env seq now arg = \<lparr>cr_ID = ip_ID arg, cr_OwnerID = ip_OwnerID arg,
     cr_NoteID = ip_NoteID arg, cr_BlockID = ip_BlockID arg, cr_DeviceID = ip_DeviceID arg,
     cr_ClientOperationID = ip_ClientOperationID arg, cr_OperationType = ip_OperationType arg,
     cr_BaseNoteVersion = ip_BaseNoteVersion arg,
     cr_ResultingNoteVersion = ip_ResultingNoteVersion arg,
     cr_ChangeFormat = ip_ChangeFormat arg, cr_SchemaVersion = ip_SchemaVersion arg,
     cr_ChangeData = jsonb env (ip_ChangeData arg), cr_GlobalSequence = Some seq,
     cr_CreatedAt = now\<rparr>"

definition InsertNoteChange_sql :: "env \<Rightarrow> InsertNoteChangeParams \<Rightarrow> note_change_row call" where
  "InsertNoteChange_sql env arg = exec env (\<lambda>now c.
     let seq = c_change_seq c + 1; d = c_db c; c1 = c\<lparr>c_change_seq := seq\<rparr>;
         row = change_row env seq now arg in
     if seq > max_int64 then (Inl ErrDB, c)
     else if lookup cr_ID (t_note_changes d) (ip_ID arg) \<noteq> None
        \<or> lookup op_key (t_note_changes d) (ip_DeviceID arg, ip_ClientOperationID arg) \<noteq> None
     then (Inl ErrUnique, c1)
     else if (case ip_NoteID arg of None \<Rightarrow> False | Some i \<Rightarrow> lookup nt_ID (t_notes d) i = None)
        \<or> lookup dv_ID (t_sync_devices d) (ip_DeviceID arg) = None
     then (Inl ErrForeignKey, c1)
     else (Inr row, on_changes (\<lambda>rows. rows @ [row]) c1))"

definition change_after :: "uuid \<Rightarrow> int \<Rightarrow> string \<Rightarrow> note_change_row \<Rightarrow> bool" where
  "change_after owner cursor device r \<longleftrightarrow>
     cr_OwnerID r = owner
     \<and> (case cr_GlobalSequence r of None \<Rightarrow> False | Some n \<Rightarrow> n > cursor)
     \<and> cr_DeviceID r \<noteq> device"

definition GetChangesAfterCursor_sql :: "env \<Rightarrow> uuid \<Rightarrow> int \<Rightarrow> string \<Rightarrow> int \<Rightarrow>
    note_change_row list call" where
  "GetChangesAfterCursor_sql env owner cursor device limit = exec env (\<lambda>now c.
     if limit < 0 then (Inl ErrDB, c)
     else (Inr (take (nat limit) (sort_key cr_seq
            (filter (change_after owner cursor device) (t_note_changes (c_db c))))), c))"

definition HasChangesAfterCursor_sql :: "env \<Rightarrow> uuid \<Rightarrow> int \<Rightarrow> string \<Rightarrow> bool call" where
  "HasChangesAfterCursor_sql env owner cursor device = query env (\<lambda>now d.
     \<exists>r \<in> set (t_note_changes d). change_after owner cursor device r)"

definition GetLastAppliedCursorForNote_sql :: "env \<Rightarrow> uuid \<Rightarrow> int call" where
  "GetLastAppliedCursorForNote_sql env note = query env (\<lambda>now d.
     max_or_zero (map cr_seq (filter (\<lambda>r. cr_NoteID r = Some note) (t_note_changes d))))"

definition last_snapshot_version :: "uuid \<Rightarrow> database \<Rightarrow> int" where
  "last_snapshot_version note d =
     max_or_zero (map sn_Version (filter (\<lambda>s. sn_NoteID s = note) (t_note_snapshots d)))"

definition unsnapshotted :: "uuid \<Rightarrow> database \<Rightarrow> note_change_row list" where
  "unsnapshotted note d = filter (\<lambda>r. cr_NoteID r = Some note
     \<and> cr_ResultingNoteVersion r > last_snapshot_version note d) (t_note_changes d)"

definition CountChangesSinceLastSnapshot_sql :: "env \<Rightarrow> uuid \<Rightarrow> int call" where
  "CountChangesSinceLastSnapshot_sql env note =
     query env (\<lambda>now d. int (length (unsnapshotted note d)))"

definition octets :: "env \<Rightarrow> raw_message \<Rightarrow> int" where
  "octets env raw = (case raw of None \<Rightarrow> 0 | Some j \<Rightarrow> int (e_json_octets env j))"

definition SumChangeBytesSinceLastSnapshot_sql :: "env \<Rightarrow> uuid \<Rightarrow> int call" where
  "SumChangeBytesSinceLastSnapshot_sql env note =
     query env (\<lambda>now d. sum_list (map (\<lambda>r. octets env (cr_ChangeData r)) (unsnapshotted note d)))"

definition FindProcessedOperation :: "env \<Rightarrow> string \<Rightarrow> uuid \<Rightarrow> NoteChange call" where
  "FindProcessedOperation env device operation =
     bindM (FindProcessedOperation_sql env device operation) (\<lambda>row.
     bindM (mapNoRows row) (\<lambda>r. returnM (fromDBChange r)))"

definition InsertNoteChange :: "env \<Rightarrow> InsertNoteChangeParams \<Rightarrow> NoteChange call" where
  "InsertNoteChange env arg =
     bindM (InsertNoteChange_sql env (arg\<lparr>ip_ChangeData := NormalizeJSON (ip_ChangeData arg)\<rparr>))
       (\<lambda>row. returnM (fromDBChange row))"

definition GetChangesAfterCursor :: "env \<Rightarrow> uuid \<Rightarrow> int \<Rightarrow> string \<Rightarrow> int \<Rightarrow> NoteChange list call" where
  "GetChangesAfterCursor env owner cursor device limit =
     bindM (GetChangesAfterCursor_sql env owner cursor device limit)
       (\<lambda>rows. returnM (map fromDBChange rows))"

definition HasChangesAfterCursor :: "env \<Rightarrow> uuid \<Rightarrow> int \<Rightarrow> string \<Rightarrow> bool call" where
  "HasChangesAfterCursor env owner cursor device = HasChangesAfterCursor_sql env owner cursor device"

definition CountChangesSinceLastSnapshot :: "env \<Rightarrow> uuid \<Rightarrow> int call" where
  "CountChangesSinceLastSnapshot env note = CountChangesSinceLastSnapshot_sql env note"

definition SumChangeBytesSinceLastSnapshot :: "env \<Rightarrow> uuid \<Rightarrow> int call" where
  "SumChangeBytesSinceLastSnapshot env note = SumChangeBytesSinceLastSnapshot_sql env note"

definition GetLastAppliedCursorForNote :: "env \<Rightarrow> uuid \<Rightarrow> int call" where
  "GetLastAppliedCursorForNote env note = GetLastAppliedCursorForNote_sql env note"

definition GetNoteDocumentForOwnerForUpdate :: "env \<Rightarrow> uuid \<Rightarrow> uuid \<Rightarrow> NoteDocument call" where
  "GetNoteDocumentForOwnerForUpdate env note owner =
     bindM (GetNoteForOwnerForUpdate_sql env note owner) (\<lambda>row.
     bindM (mapNoRows row) (\<lambda>n.
     bindM (ListBlocksForNote env note) (\<lambda>blocks.
     bindM (GetLastAppliedCursorForNote env note) (\<lambda>cursor.
     returnM \<lparr>nd_Note = fromDBNote n, nd_Blocks = blocks, nd_LastAppliedCursor = cursor\<rparr>))))"

definition GetNoteDocument :: "env \<Rightarrow> uuid \<Rightarrow> uuid \<Rightarrow> NoteDocument call" where
  "GetNoteDocument env note owner =
     bindM (GetNoteForOwner env note owner) (\<lambda>n.
     bindM (ListBlocksForNote env note) (\<lambda>blocks.
     bindM (GetLastAppliedCursorForNote env note) (\<lambda>cursor.
     returnM \<lparr>nd_Note = n, nd_Blocks = blocks, nd_LastAppliedCursor = cursor\<rparr>)))"

subsection \<open>Devices\<close>

record CreateDeviceParams =
  dp_ID :: string
  dp_OwnerID :: uuid
  dp_DeviceName :: "string option"
  dp_Platform :: "string option"
  dp_AppVersion :: "string option"
  dp_ProtocolVersion :: int

definition CreateDevice_sql :: "env \<Rightarrow> CreateDeviceParams \<Rightarrow> SyncDevice call" where
  "CreateDevice_sql env arg = exec env (\<lambda>now c.
     let row = \<lparr>dv_ID = dp_ID arg, dv_OwnerID = dp_OwnerID arg, dv_DeviceName = dp_DeviceName arg,
         dv_Platform = dp_Platform arg, dv_AppVersion = dp_AppVersion arg,
         dv_ProtocolVersion = dp_ProtocolVersion arg, dv_LastGlobalCursor = 0,
         dv_LastSeenAt = now, dv_CreatedAt = now, dv_RevokedAt = None\<rparr> in
     if RuneCountInString (dp_ID arg) > 30 then (Inl ErrDB, c)
     else if lookup dv_ID (t_sync_devices (c_db c)) (dp_ID arg) \<noteq> None then (Inl ErrUnique, c)
     else (Inr row, on_devices (\<lambda>rows. rows @ [row]) c))"

definition device_owned :: "string \<Rightarrow> uuid \<Rightarrow> SyncDevice \<Rightarrow> bool" where
  "device_owned i owner r \<longleftrightarrow> dv_ID r = i \<and> dv_OwnerID r = owner"

definition GetDeviceForOwner_sql :: "env \<Rightarrow> string \<Rightarrow> uuid \<Rightarrow> SyncDevice option call" where
  "GetDeviceForOwner_sql env i owner = query env (\<lambda>now d. find (device_owned i owner) (t_sync_devices d))"

definition GetDeviceForOwnerForUpdate_sql :: "env \<Rightarrow> string \<Rightarrow> uuid \<Rightarrow> SyncDevice option call" where
  "GetDeviceForOwnerForUpdate_sql env i owner =
     query env (\<lambda>now d. find (device_owned i owner) (t_sync_devices d))"

definition ListDevices_sql :: "env \<Rightarrow> uuid \<Rightarrow> SyncDevice list call" where
  "ListDevices_sql env owner = query env (\<lambda>now d.
     sort_key (\<lambda>r. - dv_CreatedAt r) (filter (\<lambda>r. dv_OwnerID r = owner) (t_sync_devices d)))"

definition RevokeDevice_sql :: "env \<Rightarrow> string \<Rightarrow> uuid \<Rightarrow> unit call" where
  "RevokeDevice_sql env i owner = exec env (\<lambda>now c. (Inr (),
     on_devices (update_where (\<lambda>r. device_owned i owner r \<and> dv_RevokedAt r = None)
       (\<lambda>r. r\<lparr>dv_RevokedAt := Some now, dv_LastSeenAt := now\<rparr>)) c))"

definition UpdateDeviceCursor_sql :: "env \<Rightarrow> string \<Rightarrow> uuid \<Rightarrow> int \<Rightarrow> unit call" where
  "UpdateDeviceCursor_sql env i owner cursor = exec env (\<lambda>now c. (Inr (),
     on_devices (update_where (device_owned i owner)
       (\<lambda>r. r\<lparr>dv_LastGlobalCursor := max (dv_LastGlobalCursor r) cursor, dv_LastSeenAt := now\<rparr>)) c))"

definition CreateDevice :: "env \<Rightarrow> CreateDeviceParams \<Rightarrow> SyncDevice call" where
  "CreateDevice env arg = CreateDevice_sql env arg"

definition ListDevices :: "env \<Rightarrow> uuid \<Rightarrow> SyncDevice list call" where
  "ListDevices env owner = ListDevices_sql env owner"

definition GetDeviceForOwner :: "env \<Rightarrow> string \<Rightarrow> uuid \<Rightarrow> SyncDevice call" where
  "GetDeviceForOwner env i owner = bindM (GetDeviceForOwner_sql env i owner) mapNoRows"

definition GetDeviceForOwnerForUpdate :: "env \<Rightarrow> string \<Rightarrow> uuid \<Rightarrow> SyncDevice call" where
  "GetDeviceForOwnerForUpdate env i owner =
     bindM (GetDeviceForOwnerForUpdate_sql env i owner) mapNoRows"

definition RevokeDevice :: "env \<Rightarrow> string \<Rightarrow> uuid \<Rightarrow> unit call" where
  "RevokeDevice env i owner =
     bindM (GetDeviceForOwner env i owner) (\<lambda>_. RevokeDevice_sql env i owner)"

definition UpdateDeviceCursor :: "env \<Rightarrow> string \<Rightarrow> uuid \<Rightarrow> int \<Rightarrow> unit call" where
  "UpdateDeviceCursor env i owner cursor = UpdateDeviceCursor_sql env i owner cursor"

subsection \<open>Outbox jobs, as the sync service enqueues them\<close>

record SnapshotJobPayload =
  sp_NoteID :: uuid
  sp_OwnerID :: uuid
  sp_ExpectedVersion :: int

abbreviation (input) "JobCreateSnapshot \<equiv> ''create_snapshot''"

definition payload_json :: "codec \<Rightarrow> SnapshotJobPayload \<Rightarrow> json" where
  "payload_json cd p = JObj [(''noteId'', JStr (c_format_uuid cd (sp_NoteID p))),
     (''ownerId'', JStr (c_format_uuid cd (sp_OwnerID p))),
     (''expectedVersion'', JNum (FormatInt (sp_ExpectedVersion p)))]"

definition EnqueueOutboxJob_sql :: "env \<Rightarrow> string \<Rightarrow> json \<Rightarrow> time option \<Rightarrow> OutboxJob call" where
  "EnqueueOutboxJob_sql env jobType payload availableAt = exec env (\<lambda>now c.
     let i = c_job_seq c + 1;
         row = \<lparr>jb_ID = i, jb_JobType = jobType, jb_Payload = jsonb env (Some payload),
           jb_AvailableAt = (case availableAt of None \<Rightarrow> now | Some t \<Rightarrow> t), jb_Attempts = 0,
           jb_LockedAt = None, jb_LockedBy = None, jb_CompletedAt = None, jb_LastError = None,
           jb_CreatedAt = now\<rparr> in
     if i > max_int64 then (Inl ErrDB, c)
     else (Inr row, on_jobs (\<lambda>rows. rows @ [row]) (c\<lparr>c_job_seq := i\<rparr>)))"

definition EnqueueSnapshotJob :: "env \<Rightarrow> uuid \<Rightarrow> uuid \<Rightarrow> int \<Rightarrow> OutboxJob call" where
  "EnqueueSnapshotJob env note owner expectedVersion =
     EnqueueOutboxJob_sql env JobCreateSnapshot
       (payload_json (e_codec env) \<lparr>sp_NoteID = note, sp_OwnerID = owner,
          sp_ExpectedVersion = expectedVersion\<rparr>) None"

end
