(* ===== verification/Notes.thy ===== *)
theory Notes
  imports Queries
begin

section \<open>Reading notes and snapshots\<close>

text \<open>
  \<open>internal/notes\<close> and the snapshot queries of \<open>internal/store/jobs.go\<close>: a note with its blocks and
  the latest stored snapshot of a note, for the user who owns them.
\<close>

subsection \<open>Snapshots in the store\<close>

text \<open>\<open>ORDER BY version DESC LIMIT 1\<close>: the versions of a note are distinct by the unique constraint.\<close>

definition GetLatestSnapshotForNote_sql :: "env \<Rightarrow> uuid \<Rightarrow> uuid \<Rightarrow> NoteSnapshot_row option call" where
  "GetLatestSnapshotForNote_sql env note owner = query env (\<lambda>now d.
     case sort_key (\<lambda>r. - sn_Version r)
       (filter (\<lambda>r. sn_NoteID r = note \<and> sn_OwnerID r = owner) (t_note_snapshots d)) of
       [] \<Rightarrow> None | r # _ \<Rightarrow> Some r)"

definition GetLatestSnapshotForNote :: "env \<Rightarrow> uuid \<Rightarrow> uuid \<Rightarrow> NoteSnapshot_row call" where
  "GetLatestSnapshotForNote env note owner =
     bindM (GetLatestSnapshotForNote_sql env note owner) mapNoRows"

subsection \<open>Responses (\<open>types.go\<close>)\<close>

record BlockResponse =
  br_ID :: uuid
  br_NoteID :: uuid
  br_BlockType :: string
  br_TextContent :: string
  br_Position :: string
  br_BlockProperties :: raw_message
  br_CreatedAt :: time
  br_UpdatedAt :: time
  br_DeletedAt :: "time option"

record NoteResponse =
  nr_ID :: uuid
  nr_OwnerID :: uuid
  nr_Title :: string
  nr_NoteProperties :: raw_message
  nr_CurrentVersion :: int
  nr_CreatedAt :: time
  nr_UpdatedAt :: time
  nr_DeletedAt :: "time option"
  nr_Blocks :: "BlockResponse list"

record SnapshotResponse =
  sr_ID :: uuid
  sr_NoteID :: uuid
  sr_OwnerID :: uuid
  sr_Version :: int
  sr_LastAppliedCursor :: int
  sr_SnapshotFormat :: string
  sr_SchemaVersion :: int
  sr_SnapshotData :: raw_message
  sr_Checksum :: string
  sr_CreatedAt :: time

subsection \<open>Models (\<open>models.go\<close>)\<close>

record Block_model =
  bm_ID :: uuid
  bm_NoteID :: uuid
  bm_BlockType :: string
  bm_TextContent :: string
  bm_Position :: string
  bm_BlockProperties :: raw_message
  bm_CreatedAt :: time
  bm_UpdatedAt :: time
  bm_DeletedAt :: "time option"

definition Block_FromEntity :: "NoteBlock \<Rightarrow> string + Block_model" where
  "Block_FromEntity entity =
     (if bl_ID entity = Nil_uuid \<or> bl_NoteID entity = Nil_uuid
      then Inl ''block entity must contain valid identifiers''
      else Inr \<lparr>bm_ID = bl_ID entity, bm_NoteID = bl_NoteID entity, bm_BlockType = bl_BlockType entity,
             bm_TextContent = bl_TextContent entity, bm_Position = bl_Position entity,
             bm_BlockProperties = NormalizeJSON (bl_BlockProperties entity),
             bm_CreatedAt = bl_CreatedAt entity, bm_UpdatedAt = bl_UpdatedAt entity,
             bm_DeletedAt = bl_DeletedAt entity\<rparr>)"

definition Block_Entity :: "Block_model \<Rightarrow> string + NoteBlock" where
  "Block_Entity m =
     (if bm_ID m = Nil_uuid \<or> bm_NoteID m = Nil_uuid then Inl ''block identifiers are required''
      else Inr \<lparr>bl_ID = bm_ID m, bl_NoteID = bm_NoteID m, bl_BlockType = bm_BlockType m,
             bl_TextContent = bm_TextContent m, bl_Position = bm_Position m,
             bl_BlockProperties = NormalizeJSON (bm_BlockProperties m), bl_CreatedAt = bm_CreatedAt m,
             bl_UpdatedAt = bm_UpdatedAt m, bl_DeletedAt = bm_DeletedAt m\<rparr>)"

definition Block_Response :: "Block_model \<Rightarrow> BlockResponse" where
  "Block_Response m = \<lparr>br_ID = bm_ID m, br_NoteID = bm_NoteID m, br_BlockType = bm_BlockType m,
     br_TextContent = bm_TextContent m, br_Position = bm_Position m,
     br_BlockProperties = NormalizeJSON (bm_BlockProperties m), br_CreatedAt = bm_CreatedAt m,
     br_UpdatedAt = bm_UpdatedAt m, br_DeletedAt = bm_DeletedAt m\<rparr>"

record Note_model =
  nm_ID :: uuid
  nm_OwnerID :: uuid
  nm_Title :: string
  nm_NoteProperties :: raw_message
  nm_CurrentVersion :: int
  nm_CreatedAt :: time
  nm_UpdatedAt :: time
  nm_DeletedAt :: "time option"
  nm_Blocks :: "Block_model list"

text \<open>The loops over the blocks stop at the first one that is foreign or invalid.\<close>

definition Note_FromEntity :: "NoteDocument \<Rightarrow> string + Note_model" where
  "Note_FromEntity entity = (let n = nd_Note entity in
     if nt_ID n = Nil_uuid \<or> nt_OwnerID n = Nil_uuid
     then Inl ''note entity must contain valid identifiers''
     else case mapE (\<lambda>b. if bl_NoteID b \<noteq> nt_ID n then Inl ''block entity does not belong to note entity''
                         else Block_FromEntity b) (nd_Blocks entity) of
       Inl e \<Rightarrow> Inl e
     | Inr blocks \<Rightarrow> Inr \<lparr>nm_ID = nt_ID n, nm_OwnerID = nt_OwnerID n, nm_Title = nt_Title n,
         nm_NoteProperties = NormalizeJSON (nt_NoteProperties n), nm_CurrentVersion = nt_CurrentVersion n,
         nm_CreatedAt = nt_CreatedAt n, nm_UpdatedAt = nt_UpdatedAt n, nm_DeletedAt = nt_DeletedAt n,
         nm_Blocks = blocks\<rparr>)"

definition Note_Entity :: "Note_model \<Rightarrow> string + NoteDocument" where
  "Note_Entity m =
     (if nm_ID m = Nil_uuid \<or> nm_OwnerID m = Nil_uuid then Inl ''note identifiers are required''
      else case mapE (\<lambda>b. case Block_Entity b of
             Inl e \<Rightarrow> Inl e
           | Inr block \<Rightarrow> if bl_NoteID block \<noteq> nm_ID m then Inl ''block model does not belong to note model''
               else Inr block) (nm_Blocks m) of
        Inl e \<Rightarrow> Inl e
      | Inr blocks \<Rightarrow> Inr \<lparr>nd_Note = \<lparr>nt_ID = nm_ID m, nt_OwnerID = nm_OwnerID m, nt_Title = nm_Title m,
            nt_NoteProperties = NormalizeJSON (nm_NoteProperties m), nt_CurrentVersion = nm_CurrentVersion m,
            nt_CreatedAt = nm_CreatedAt m, nt_UpdatedAt = nm_UpdatedAt m, nt_DeletedAt = nm_DeletedAt m\<rparr>,
          nd_Blocks = blocks, nd_LastAppliedCursor = 0\<rparr>)"

definition Note_Response :: "Note_model \<Rightarrow> NoteResponse" where
  "Note_Response m = \<lparr>nr_ID = nm_ID m, nr_OwnerID = nm_OwnerID m, nr_Title = nm_Title m,
     nr_NoteProperties = NormalizeJSON (nm_NoteProperties m), nr_CurrentVersion = nm_CurrentVersion m,
     nr_CreatedAt = nm_CreatedAt m, nr_UpdatedAt = nm_UpdatedAt m, nr_DeletedAt = nm_DeletedAt m,
     nr_Blocks = map Block_Response (nm_Blocks m)\<rparr>"

definition NoteResponse_FromEntity :: "NoteDocument \<Rightarrow> string + NoteResponse" where
  "NoteResponse_FromEntity entity = (case Note_FromEntity entity of
     Inl e \<Rightarrow> Inl e
   | Inr model \<Rightarrow> Inr (Note_Response model))"

definition SnapshotResponse_FromEntity :: "NoteSnapshot_row \<Rightarrow> string + SnapshotResponse" where
  "SnapshotResponse_FromEntity e =
     (if sn_ID e = Nil_uuid \<or> sn_NoteID e = Nil_uuid \<or> sn_OwnerID e = Nil_uuid
      then Inl ''snapshot entity must contain valid identifiers''
      else Inr \<lparr>sr_ID = sn_ID e, sr_NoteID = sn_NoteID e, sr_OwnerID = sn_OwnerID e,
             sr_Version = sn_Version e, sr_LastAppliedCursor = sn_LastAppliedCursor e,
             sr_SnapshotFormat = sn_SnapshotFormat e, sr_SchemaVersion = sn_SchemaVersion e,
             sr_SnapshotData = NormalizeJSON (sn_SnapshotData e), sr_Checksum = sn_Checksum e,
             sr_CreatedAt = sn_CreatedAt e\<rparr>)"

subsection \<open>The service (\<open>service.go\<close>)\<close>

definition Note_Get :: "env \<Rightarrow> uuid \<Rightarrow> uuid \<Rightarrow> NoteResponse call" where
  "Note_Get env ownerID noteID =
     catchM (GetNoteDocument env noteID ownerID)
       (\<lambda>err. if err = ErrNotFound then failM (NotFound ''Note not found.'') else failM err)
       (\<lambda>doc. liftM ErrText (NoteResponse_FromEntity doc))"

definition Note_LatestSnapshot :: "env \<Rightarrow> uuid \<Rightarrow> uuid \<Rightarrow> SnapshotResponse call" where
  "Note_LatestSnapshot env ownerID noteID =
     catchM (GetLatestSnapshotForNote env noteID ownerID)
       (\<lambda>err. if err = ErrNotFound then failM (NotFound ''Snapshot not found.'') else failM err)
       (\<lambda>snapshot. liftM ErrText (SnapshotResponse_FromEntity snapshot))"

end
