(* ===== verification/Jobs.thy ===== *)
theory Jobs
  imports Notes
begin

section \<open>The outbox and its workers\<close>

text \<open>
  \<open>internal/store/jobs.go\<close>, \<open>internal/jobs/snapshots.go\<close> and \<open>internal/jobs/worker.go\<close>: the queue of
  background jobs in the table \<open>outbox_jobs\<close>, the snapshot that a job stores, and one iteration of a
  worker. A claim takes the row over for \<open>lockTimeout\<close>; a job is completed, or released with a delay.

  Outside of the repository, and so parameters (\<open>job_codec\<close>): the printed form of a time, which depends
  on the time zone of the process, the SHA-256 digest of the bytes that \<open>json.Marshal\<close> produces for a
  document, and the texts of the errors of the libraries. Durations are nanoseconds.
\<close>

record job_codec =
  jc_format_time :: "time \<Rightarrow> string"
  jc_sha256 :: "json \<Rightarrow> string"
  jc_unmarshal_error :: "json \<Rightarrow> string"
  jc_error_text :: "go_error \<Rightarrow> string"

abbreviation (input) second :: int where "second \<equiv> 10 ^ 9"

text \<open>\<open>err.Error()\<close>, which is stored with a failed job.\<close>

definition errorText :: "job_codec \<Rightarrow> go_error \<Rightarrow> string" where
  "errorText jc err = (case err of
     ErrText s \<Rightarrow> s
   | ErrApi e \<Rightarrow> Error_text (Some e)
   | ErrNotFound \<Rightarrow> ''not found''
   | _ \<Rightarrow> jc_error_text jc err)"

subsection \<open>The queue\<close>

definition claimable :: "time \<Rightarrow> int \<Rightarrow> OutboxJob \<Rightarrow> bool" where
  "claimable now lockTimeout j \<longleftrightarrow> jb_CompletedAt j = None \<and> jb_AvailableAt j \<le> now
     \<and> (case jb_LockedAt j of None \<Rightarrow> True | Some t \<Rightarrow> t < now - lockTimeout)"

definition candidate :: "time \<Rightarrow> int \<Rightarrow> OutboxJob list \<Rightarrow> OutboxJob option" where
  "candidate now lockTimeout jobs =
     (case sort_key (\<lambda>j. (jb_AvailableAt j, jb_ID j)) (filter (claimable now lockTimeout) jobs) of
        [] \<Rightarrow> None | j # _ \<Rightarrow> Some j)"

text \<open>The column \<open>attempts\<close> is an \<open>INTEGER\<close>: the statement fails when it would leave its range.\<close>

definition ClaimOutboxJob_sql :: "env \<Rightarrow> string \<Rightarrow> int \<Rightarrow> OutboxJob option call" where
  "ClaimOutboxJob_sql env lockedBy lockTimeout = exec env (\<lambda>now c.
     case candidate now lockTimeout (t_outbox_jobs (c_db c)) of
       None \<Rightarrow> (Inr None, c)
     | Some j \<Rightarrow>
         let claim = (\<lambda>j. j\<lparr>jb_LockedAt := Some now, jb_LockedBy := Some lockedBy,
               jb_Attempts := jb_Attempts j + 1\<rparr>) in
         if jb_Attempts j + 1 > max_int32 then (Inl ErrDB, c)
         else (Inr (Some (claim j)), on_jobs (update_where (\<lambda>r. jb_ID r = jb_ID j) claim) c))"

definition ClaimOutboxJob :: "env \<Rightarrow> string \<Rightarrow> int \<Rightarrow> OutboxJob call" where
  "ClaimOutboxJob env workerID lockTimeout =
     bindM (ClaimOutboxJob_sql env workerID lockTimeout) mapNoRows"

definition CompleteOutboxJob_sql :: "env \<Rightarrow> int \<Rightarrow> unit call" where
  "CompleteOutboxJob_sql env i = exec env (\<lambda>now c. (Inr (),
     on_jobs (update_where (\<lambda>r. jb_ID r = i)
       (\<lambda>j. j\<lparr>jb_CompletedAt := Some now, jb_LockedAt := None, jb_LockedBy := None,
          jb_LastError := None\<rparr>)) c))"

definition CompleteOutboxJob :: "env \<Rightarrow> int \<Rightarrow> unit call" where
  "CompleteOutboxJob env jobID = CompleteOutboxJob_sql env jobID"

definition FailOutboxJob_sql :: "env \<Rightarrow> int \<Rightarrow> string \<Rightarrow> int \<Rightarrow> unit call" where
  "FailOutboxJob_sql env i lastError delay = exec env (\<lambda>now c. (Inr (),
     on_jobs (update_where (\<lambda>r. jb_ID r = i)
       (\<lambda>j. j\<lparr>jb_LockedAt := None, jb_LockedBy := None, jb_LastError := Some lastError,
          jb_AvailableAt := now + delay\<rparr>)) c))"

definition FailOutboxJob :: "env \<Rightarrow> int \<Rightarrow> string \<Rightarrow> int \<Rightarrow> unit call" where
  "FailOutboxJob env jobID message retryAfter = FailOutboxJob_sql env jobID message retryAfter"

subsection \<open>Storing a snapshot\<close>

definition on_snapshots :: "(NoteSnapshot_row list \<Rightarrow> NoteSnapshot_row list) \<Rightarrow> core \<Rightarrow> core" where
  "on_snapshots f c = c\<lparr>c_db := (c_db c)\<lparr>t_note_snapshots := f (t_note_snapshots (c_db c))\<rparr>\<rparr>"

text \<open>
  The insert, or, when there is a snapshot of this version of the note, the update of its data,
  checksum and cursor; identifier and owner of the stored row stay then.
\<close>

definition InsertSnapshot_sql :: "env \<Rightarrow> NoteSnapshot_row \<Rightarrow> NoteSnapshot_row call" where
  "InsertSnapshot_sql env s = exec env (\<lambda>now c.
     let same = (\<lambda>r. sn_NoteID r = sn_NoteID s \<and> sn_Version r = sn_Version s);
         data = jsonb env (sn_SnapshotData s);
         upd = (\<lambda>r. r\<lparr>sn_SnapshotData := data, sn_Checksum := sn_Checksum s,
                  sn_LastAppliedCursor := sn_LastAppliedCursor s\<rparr>);
         row = s\<lparr>sn_SnapshotData := data, sn_CreatedAt := now\<rparr>
     in case find same (t_note_snapshots (c_db c)) of
          Some r \<Rightarrow> (Inr (upd r), on_snapshots (update_where same upd) c)
        | None \<Rightarrow>
            if lookup sn_ID (t_note_snapshots (c_db c)) (sn_ID s) \<noteq> None then (Inl ErrUnique, c)
            else if lookup nt_ID (t_notes (c_db c)) (sn_NoteID s) = None then (Inl ErrForeignKey, c)
            else (Inr row, on_snapshots (\<lambda>rows. rows @ [row]) c))"

definition InsertSnapshot :: "env \<Rightarrow> NoteSnapshot_row \<Rightarrow> NoteSnapshot_row call" where
  "InsertSnapshot env snapshot = InsertSnapshot_sql env snapshot"

subsection \<open>The snapshot document (\<open>snapshots.go\<close>)\<close>

abbreviation (input) "SnapshotFormatV1 \<equiv> ''note-snapshot-v1''"

record SnapshotNote =
  sd_ID :: uuid
  sd_Title :: string
  sd_NoteProperties :: raw_message
  sd_Version :: int
  sd_DeletedAt :: "string option"

record SnapshotBlock =
  sb_ID :: uuid
  sb_Type :: string
  sb_Text :: string
  sb_Position :: string
  sb_BlockProperties :: raw_message
  sb_DeletedAt :: "string option"

record SnapshotDocument =
  so_SchemaVersion :: int
  so_LastAppliedCursor :: int
  so_Note :: SnapshotNote
  so_Blocks :: "SnapshotBlock list"

definition formatTimePtr :: "job_codec \<Rightarrow> time option \<Rightarrow> string option" where
  "formatTimePtr jc value = map_option (jc_format_time jc) value"

definition SnapshotBlock_FromEntity :: "job_codec \<Rightarrow> NoteBlock \<Rightarrow> string + SnapshotBlock" where
  "SnapshotBlock_FromEntity jc entity =
     (if bl_ID entity = Nil_uuid \<or> bl_NoteID entity = Nil_uuid
      then Inl ''snapshot block must contain valid identifiers''
      else Inr \<lparr>sb_ID = bl_ID entity, sb_Type = bl_BlockType entity, sb_Text = bl_TextContent entity,
             sb_Position = bl_Position entity,
             sb_BlockProperties = NormalizeJSON (bl_BlockProperties entity),
             sb_DeletedAt = formatTimePtr jc (bl_DeletedAt entity)\<rparr>)"

definition SnapshotDocument_FromEntity :: "job_codec \<Rightarrow> NoteDocument \<Rightarrow> string + SnapshotDocument" where
  "SnapshotDocument_FromEntity jc doc = (let n = nd_Note doc in
     if nt_ID n = Nil_uuid \<or> nt_OwnerID n = Nil_uuid
     then Inl ''snapshot note must contain valid identifiers''
     else case mapE (\<lambda>b. if bl_NoteID b \<noteq> nt_ID n
                         then Inl ''snapshot block does not belong to snapshot note''
                         else SnapshotBlock_FromEntity jc b) (nd_Blocks doc) of
       Inl e \<Rightarrow> Inl e
     | Inr blocks \<Rightarrow> Inr \<lparr>so_SchemaVersion = 1, so_LastAppliedCursor = nd_LastAppliedCursor doc,
         so_Note = \<lparr>sd_ID = nt_ID n, sd_Title = nt_Title n,
           sd_NoteProperties = NormalizeJSON (nt_NoteProperties n), sd_Version = nt_CurrentVersion n,
           sd_DeletedAt = formatTimePtr jc (nt_DeletedAt n)\<rparr>,
         so_Blocks = blocks\<rparr>)"

text \<open>\<open>json.Marshal\<close> of the document: the members in the order of the struct fields.\<close>

definition raw_json :: "raw_message \<Rightarrow> json" where
  "raw_json raw = (case raw of None \<Rightarrow> JNull | Some j \<Rightarrow> j)"

definition text_json :: "string option \<Rightarrow> json" where
  "text_json v = (case v of None \<Rightarrow> JNull | Some s \<Rightarrow> JStr s)"

definition block_json :: "codec \<Rightarrow> SnapshotBlock \<Rightarrow> json" where
  "block_json cd b = JObj [(''id'', JStr (c_format_uuid cd (sb_ID b))), (''type'', JStr (sb_Type b)),
     (''text'', JStr (sb_Text b)), (''position'', JStr (sb_Position b)),
     (''blockProperties'', raw_json (sb_BlockProperties b)), (''deletedAt'', text_json (sb_DeletedAt b))]"

definition document_json :: "codec \<Rightarrow> SnapshotDocument \<Rightarrow> json" where
  "document_json cd doc = (let n = so_Note doc in
     JObj [(''schemaVersion'', JNum (FormatInt (so_SchemaVersion doc))),
       (''lastAppliedCursor'', JNum (FormatInt (so_LastAppliedCursor doc))),
       (''note'', JObj [(''id'', JStr (c_format_uuid cd (sd_ID n))), (''title'', JStr (sd_Title n)),
         (''noteProperties'', raw_json (sd_NoteProperties n)), (''version'', JNum (FormatInt (sd_Version n))),
         (''deletedAt'', text_json (sd_DeletedAt n))]),
       (''blocks'', JArr (map (block_json cd) (so_Blocks doc)))])"

definition EncodeSnapshot :: "codec \<Rightarrow> job_codec \<Rightarrow> SnapshotDocument \<Rightarrow> json \<times> string" where
  "EncodeSnapshot cd jc doc = (let encoded = document_json cd doc in (encoded, jc_sha256 jc encoded))"

definition CreateSnapshot :: "env \<Rightarrow> job_codec \<Rightarrow> SnapshotJobPayload \<Rightarrow> NoteSnapshot_row call" where
  "CreateSnapshot env jc payload =
     bindM (GetNoteDocument env (sp_NoteID payload) (sp_OwnerID payload)) (\<lambda>doc.
     if nt_CurrentVersion (nd_Note doc) < sp_ExpectedVersion payload
     then failM (ErrText ''note version is behind snapshot job expectation'')
     else bindM (liftM ErrText (SnapshotDocument_FromEntity jc doc)) (\<lambda>snapshotDoc.
       let (encoded, checksum) = EncodeSnapshot (e_codec env) jc snapshotDoc in
       bindM (newUUID env) (\<lambda>i.
       InsertSnapshot env \<lparr>sn_ID = i, sn_NoteID = nt_ID (nd_Note doc), sn_OwnerID = nt_OwnerID (nd_Note doc),
         sn_Version = nt_CurrentVersion (nd_Note doc), sn_LastAppliedCursor = nd_LastAppliedCursor doc,
         sn_SnapshotFormat = SnapshotFormatV1, sn_SchemaVersion = 1, sn_SnapshotData = Some encoded,
         sn_Checksum = checksum, sn_CreatedAt = zeroTime\<rparr>)))"

subsection \<open>Decoding a payload\<close>

text \<open>
  \<open>json.Unmarshal\<close> into \<open>SnapshotJobPayload\<close>: every member is stored in the field whose name it has,
  up to the case of its letters, in the order of the document; \<open>null\<close> leaves a field alone, other names
  are ignored.
\<close>

definition lower :: "char \<Rightarrow> char" where
  "lower c = (if within 65 90 (byte c) then char_of (byte c + 32) else c)"

text \<open>The letters \<open>k\<close> and \<open>s\<close> also fold with the Kelvin sign and the long s.\<close>

fun fold_name :: "string \<Rightarrow> string" where
  "fold_name [] = []"
| "fold_name (c # s) =
     (if take 2 (c # s) = [CHR 0xC5, CHR 0xBF] then CHR ''s'' # fold_name (drop 1 s)
      else if take 3 (c # s) = [CHR 0xE2, CHR 0x84, CHR 0xAA] then CHR ''k'' # fold_name (drop 2 s)
      else lower c # fold_name s)"

declare fold_name.simps [simp del]

definition payload_member :: "codec \<Rightarrow> SnapshotJobPayload \<Rightarrow> string \<times> json \<Rightarrow> SnapshotJobPayload option" where
  "payload_member cd p kv = (case kv of (k, v) \<Rightarrow>
     if v = JNull then Some p
     else if fold_name k = fold_name ''noteId''
     then (case v of JStr s \<Rightarrow> map_option (\<lambda>i. p\<lparr>sp_NoteID := i\<rparr>) (c_parse_uuid cd s) | _ \<Rightarrow> None)
     else if fold_name k = fold_name ''ownerId''
     then (case v of JStr s \<Rightarrow> map_option (\<lambda>i. p\<lparr>sp_OwnerID := i\<rparr>) (c_parse_uuid cd s) | _ \<Rightarrow> None)
     else if fold_name k = fold_name ''expectedVersion''
     then (case v of JNum l \<Rightarrow> map_option (\<lambda>n. p\<lparr>sp_ExpectedVersion := n\<rparr>) (ParseInt l) | _ \<Rightarrow> None)
     else Some p)"

fun payload_members :: "codec \<Rightarrow> SnapshotJobPayload \<Rightarrow> (string \<times> json) list \<Rightarrow> SnapshotJobPayload option" where
  "payload_members cd p [] = Some p"
| "payload_members cd p (kv # kvs) = (case payload_member cd p kv of
     None \<Rightarrow> None | Some p' \<Rightarrow> payload_members cd p' kvs)"

definition unmarshalPayload :: "codec \<Rightarrow> job_codec \<Rightarrow> raw_message \<Rightarrow> string + SnapshotJobPayload" where
  "unmarshalPayload cd jc raw =
     (let zero = \<lparr>sp_NoteID = Nil_uuid, sp_OwnerID = Nil_uuid, sp_ExpectedVersion = 0\<rparr>;
          failed = Inl (jc_unmarshal_error jc (raw_json raw)) in
      case raw of
        Some (JObj kvs) \<Rightarrow> (case payload_members cd zero kvs of None \<Rightarrow> failed | Some p \<Rightarrow> Inr p)
      | Some JNull \<Rightarrow> Inr zero
      | _ \<Rightarrow> failed)"

subsection \<open>The worker (\<open>worker.go\<close>)\<close>

record Worker =
  wk_workerID :: string
  wk_pollInterval :: int
  wk_lockTimeout :: int

definition NewWorker :: "env \<Rightarrow> string \<Rightarrow> Worker call" where
  "NewWorker env workerID =
     bindM (if workerID = [] then bindM (newUUID env) (\<lambda>i. returnM (''worker-'' @ c_format_uuid (e_codec env) i))
            else returnM workerID) (\<lambda>i.
     returnM \<lparr>wk_workerID = i, wk_pollInterval = 2 * second, wk_lockTimeout = 120 * second\<rparr>)"

text \<open>\<open>time.Duration\<close> is an int64, and the product wraps.\<close>

definition retryDelay :: "int \<Rightarrow> int" where
  "retryDelay attempts =
     (if attempts < 1 then second
      else let delay = int64 (int64 (attempts * 5) * second) in
        if delay > 60 * second then 60 * second else delay)"

definition processJob :: "env \<Rightarrow> job_codec \<Rightarrow> OutboxJob \<Rightarrow> unit call" where
  "processJob env jc job =
     (if jb_JobType job = JobCreateSnapshot
      then bindM (liftM ErrText (unmarshalPayload (e_codec env) jc (jb_Payload job))) (\<lambda>payload.
        WithTx env (bindM (CreateSnapshot env jc payload) (\<lambda>_. returnM ())))
      else failM (ErrText ''unsupported outbox job type''))"

text \<open>
  One iteration: whether a job was claimed, and the errors; two errors stand for \<open>errors.Join\<close>.
\<close>

definition ProcessOnce :: "env \<Rightarrow> job_codec \<Rightarrow> Worker \<Rightarrow> (bool \<times> go_error list) call" where
  "ProcessOnce env jc wk =
     catchM (ClaimOutboxJob env (wk_workerID wk) (wk_lockTimeout wk))
       (\<lambda>err. if err = ErrNotFound then returnM (False, []) else returnM (False, [err]))
       (\<lambda>job. catchM (processJob env jc job)
         (\<lambda>err. catchM (FailOutboxJob env (jb_ID job) (errorText jc err) (retryDelay (jb_Attempts job)))
            (\<lambda>failErr. returnM (True, [err, failErr]))
            (\<lambda>_. returnM (True, [err])))
         (\<lambda>_. catchM (CompleteOutboxJob env (jb_ID job))
            (\<lambda>err. returnM (True, [err]))
            (\<lambda>_. returnM (True, []))))"

end
