(* ===== verification/Auth.thy ===== *)
theory Auth
  imports Jobs
begin

section \<open>Authentication\<close>

text \<open>
  \<open>internal/auth\<close>: the cache of the identity provider's public keys, the verification of bearer
  tokens and the middleware that admits a request. Outside of the repository are the HTTP endpoint of
  the provider, whose answer is given for each tick of the model's clock, and the JWT library, in two
  functions: one reads the header of a token, the other checks its signature with a key, its issuer, its
  audience and its expiry, and returns the subject.
\<close>

subsection \<open>The key set (\<open>jwks.go\<close>)\<close>

record jwkKey =
  jk_Kty :: string
  jk_Kid :: string
  jk_Use :: string
  jk_Alg :: string
  jk_N :: string
  jk_E :: string

record keySet =
  ks_Keys :: "jwkKey list"

record PublicKey =
  pk_N :: nat
  pk_E :: int

text \<open>\<open>base64.RawURLEncoding.DecodeString\<close>: no padding, line breaks are skipped.\<close>

definition b64_value :: "char \<Rightarrow> nat option" where
  "b64_value c = (let b = byte c in
     if within 65 90 b then Some (b - 65)
     else if within 97 122 b then Some (b - 71)
     else if within 48 57 b then Some (b + 4)
     else if b = 45 then Some 62
     else if b = 95 then Some 63
     else None)"

fun b64_bytes :: "nat list \<Rightarrow> nat list option" where
  "b64_bytes [] = Some []"
| "b64_bytes [a] = None"
| "b64_bytes [a, b] = Some [a * 4 + b div 16]"
| "b64_bytes [a, b, c] = Some [a * 4 + b div 16, b mod 16 * 16 + c div 4]"
| "b64_bytes (a # b # c # d # r) =
     map_option (\<lambda>t. [a * 4 + b div 16, b mod 16 * 16 + c div 4, c mod 4 * 64 + d] @ t) (b64_bytes r)"

definition b64_decode :: "string \<Rightarrow> nat list option" where
  "b64_decode s = (case those (map b64_value (filter (\<lambda>c. byte c \<noteq> 10 \<and> byte c \<noteq> 13) s)) of
     None \<Rightarrow> None | Some vs \<Rightarrow> b64_bytes vs)"

text \<open>The exponent is an \<open>int\<close> and wraps; the modulus is a big integer.\<close>

definition rsaPublicKey :: "string \<Rightarrow> string \<Rightarrow> PublicKey option" where
  "rsaPublicKey n64 e64 = (case b64_decode n64 of
     None \<Rightarrow> None
   | Some modulusBytes \<Rightarrow> (case b64_decode e64 of
       None \<Rightarrow> None
     | Some exponentBytes \<Rightarrow>
         let exponent = foldl (\<lambda>e b. int64 (int64 (e * 256) + int b)) 0 exponentBytes in
         if exponent = 0 then None
         else Some \<lparr>pk_N = foldl (\<lambda>v b. v * 256 + b) 0 modulusBytes, pk_E = exponent\<rparr>))"

record jwksCache =
  jw_ttl :: int
  jw_keys :: "string \<rightharpoonup> PublicKey"
  jw_loadedAt :: time

definition newJWKSCache :: jwksCache where
  "newJWKSCache = \<lparr>jw_ttl = 300 * second, jw_keys = Map.empty, jw_loadedAt = zeroTime\<rparr>"

text \<open>What a request to the endpoint gives: no answer, or a status and a body that may not decode.\<close>

datatype jwks_answer = Jwks_unreachable | Jwks_response nat "keySet option"

definition usable :: "jwkKey \<Rightarrow> bool" where
  "usable raw \<longleftrightarrow> jk_Kty raw = ''RSA'' \<and> jk_Kid raw \<noteq> [] \<and> rsaPublicKey (jk_N raw) (jk_E raw) \<noteq> None"

fun usable_keys :: "jwkKey list \<Rightarrow> (string \<rightharpoonup> PublicKey) \<Rightarrow> (string \<rightharpoonup> PublicKey)" where
  "usable_keys [] keys = keys"
| "usable_keys (raw # raws) keys = usable_keys raws
     (if usable raw then keys(jk_Kid raw := rsaPublicKey (jk_N raw) (jk_E raw)) else keys)"

definition refresh :: "(nat \<Rightarrow> jwks_answer) \<Rightarrow> (nat \<Rightarrow> time) \<Rightarrow> nat \<Rightarrow> jwksCache \<Rightarrow> bool \<times> jwksCache" where
  "refresh endpoint clock n c = (case endpoint n of
     Jwks_unreachable \<Rightarrow> (False, c)
   | Jwks_response status body \<Rightarrow>
       if status < 200 \<or> status \<ge> 300 then (False, c)
       else (case body of
         None \<Rightarrow> (False, c)
       | Some ks \<Rightarrow>
           if \<not> list_ex usable (ks_Keys ks) then (False, c)
           else (True, c\<lparr>jw_keys := usable_keys (ks_Keys ks) Map.empty, jw_loadedAt := clock n\<rparr>)))"

definition jwks_get :: "(nat \<Rightarrow> jwks_answer) \<Rightarrow> (nat \<Rightarrow> time) \<Rightarrow> nat \<Rightarrow> string \<Rightarrow> jwksCache \<Rightarrow>
    PublicKey option \<times> jwksCache" where
  "jwks_get endpoint clock n kid c =
     (case jw_keys c kid of
        Some key \<Rightarrow>
          if clock n - jw_loadedAt c < jw_ttl c then (Some key, c)
          else (case refresh endpoint clock n c of (ok, c') \<Rightarrow> (if ok then jw_keys c' kid else None, c'))
      | None \<Rightarrow> (case refresh endpoint clock n c of (ok, c') \<Rightarrow> (if ok then jw_keys c' kid else None, c')))"

subsection \<open>Tokens (\<open>middleware.go\<close>, \<open>claims.go\<close>)\<close>

record jwt_header =
  jh_RSA :: bool
  jh_kid :: string

record Verifier =
  vf_issuer :: string
  vf_audience :: string
  vf_endpoint :: "nat \<Rightarrow> jwks_answer"
  vf_clock :: "nat \<Rightarrow> time"
  vf_parse_uuid :: "string \<Rightarrow> uuid option"
  vf_header :: "string \<Rightarrow> jwt_header option"
  vf_valid :: "string \<Rightarrow> string \<Rightarrow> PublicKey \<Rightarrow> time \<Rightarrow> string \<Rightarrow> string option"

record Claims =
  cl_UserID_claim :: uuid

text \<open>\<open>NewVerifier\<close> loads the keys once; a failure stops the start of the server.\<close>

definition NewVerifier :: "Verifier \<Rightarrow> nat \<Rightarrow> (Verifier \<times> jwksCache) option" where
  "NewVerifier v n = (case refresh (vf_endpoint v) (vf_clock v) n newJWKSCache of
     (True, c) \<Rightarrow> Some (v, c)
   | (False, _) \<Rightarrow> None)"

definition Verify :: "Verifier \<Rightarrow> nat \<Rightarrow> string \<Rightarrow> jwksCache \<Rightarrow> Claims option \<times> jwksCache" where
  "Verify v n token c = (case vf_header v token of
     None \<Rightarrow> (None, c)
   | Some h \<Rightarrow>
       if \<not> jh_RSA h \<or> jh_kid h = [] then (None, c)
       else (case jwks_get (vf_endpoint v) (vf_clock v) n (jh_kid h) c of
         (None, c') \<Rightarrow> (None, c')
       | (Some key, c') \<Rightarrow> (case vf_valid v (vf_issuer v) (vf_audience v) key (vf_clock v n) token of
           None \<Rightarrow> (None, c')
         | Some subject \<Rightarrow> (map_option (\<lambda>i. \<lparr>cl_UserID_claim = i\<rparr>) (vf_parse_uuid v subject), c'))))"

text \<open>\<open>strings.Cut(header, " ")\<close>\<close>

definition cut_space :: "string \<Rightarrow> (string \<times> string) option" where
  "cut_space s = (case dropWhile (\<lambda>c. c \<noteq> CHR '' '') s of
     [] \<Rightarrow> None | _ # rest \<Rightarrow> Some (takeWhile (\<lambda>c. c \<noteq> CHR '' '') s, rest))"

definition bearer_token :: "string \<Rightarrow> string option" where
  "bearer_token header = (if header = [] then None else case cut_space header of
     None \<Rightarrow> None
   | Some (scheme, token) \<Rightarrow>
       if map lower scheme \<noteq> ''bearer'' \<or> blank token then None else Some (TrimSpace token))"

text \<open>The claims that the middleware stores in the context; without them it answers 401.\<close>

definition Auth_Middleware :: "Verifier \<Rightarrow> nat \<Rightarrow> string \<Rightarrow> jwksCache \<Rightarrow> Claims option \<times> jwksCache" where
  "Auth_Middleware v n header c = (case bearer_token header of
     None \<Rightarrow> (None, c)
   | Some token \<Rightarrow> Verify v n token c)"

text \<open>
  The values of a request's context: the claims (\<open>WithClaims\<close>, \<open>ClaimsFromContext\<close>,
  \<open>UserIDFromContext\<close>) and the request identifier of \<open>httpapi/context.go\<close>, each under a private key
  and so independent of the other.
\<close>

record http_context =
  cx_claims :: "Claims option"
  cx_requestID :: "string option"

definition Background :: http_context where
  "Background = \<lparr>cx_claims = None, cx_requestID = None\<rparr>"

definition WithClaims :: "http_context \<Rightarrow> Claims \<Rightarrow> http_context" where
  "WithClaims ctx claims = ctx\<lparr>cx_claims := Some claims\<rparr>"

definition ClaimsFromContext :: "http_context \<Rightarrow> Claims option" where
  "ClaimsFromContext ctx = cx_claims ctx"

definition UserIDFromContext :: "http_context \<Rightarrow> uuid option" where
  "UserIDFromContext ctx = map_option cl_UserID_claim (ClaimsFromContext ctx)"

definition WithRequestID :: "http_context \<Rightarrow> string \<Rightarrow> http_context" where
  "WithRequestID ctx requestID = ctx\<lparr>cx_requestID := Some requestID\<rparr>"

definition RequestIDFromContext :: "http_context \<Rightarrow> string" where
  "RequestIDFromContext ctx = (case cx_requestID ctx of Some value \<Rightarrow> value | None \<Rightarrow> [])"

subsection \<open>Keys are from the endpoint, and fresh\<close>

text \<open>The cache holds the usable keys of one answer of the endpoint, with the time of that answer.\<close>

definition fetched :: "Verifier \<Rightarrow> nat \<Rightarrow> jwksCache \<Rightarrow> bool" where
  "fetched v n c \<longleftrightarrow> (\<exists>m \<le> n. \<exists>status ks. vf_endpoint v m = Jwks_response status (Some ks) \<and> status \<in> {200..299}
     \<and> jw_keys c = usable_keys (ks_Keys ks) Map.empty \<and> jw_loadedAt c = vf_clock v m)"

definition cache_ok :: "Verifier \<Rightarrow> nat \<Rightarrow> jwksCache \<Rightarrow> bool" where
  "cache_ok v n c \<longleftrightarrow> jw_ttl c = 300 * second \<and> (jw_keys c = Map.empty \<or> fetched v n c)"

lemma usable_keys_Some:
  "usable_keys raws keys kid = Some key \<Longrightarrow>
   keys kid = Some key \<or> (\<exists>raw \<in> set raws. usable raw \<and> jk_Kid raw = kid \<and> rsaPublicKey (jk_N raw) (jk_E raw) = Some key)"
proof (induction raws arbitrary: keys)
  case (Cons raw raws)
  from Cons.IH [OF Cons.prems [unfolded usable_keys.simps]] show ?case by (auto split: if_splits)
qed simp

lemma refresh_cases:
  assumes "refresh (vf_endpoint v) (vf_clock v) n c = (ok, c')"
  shows "if ok then jw_ttl c' = jw_ttl c \<and> fetched v n c' \<and> jw_loadedAt c' = vf_clock v n else c' = c"
  using assms by (auto simp: refresh_def fetched_def split: jwks_answer.splits option.splits if_splits)

lemma NewVerifier_cache: "NewVerifier v n = Some (v', c) \<Longrightarrow> v' = v \<and> cache_ok v n c"
  unfolding NewVerifier_def
  by (cases "refresh (vf_endpoint v) (vf_clock v) n newJWKSCache")
     (auto simp: cache_ok_def newJWKSCache_def dest!: refresh_cases split: bool.splits)

lemma cache_ok_mono: "cache_ok v m c \<Longrightarrow> m \<le> n \<Longrightarrow> cache_ok v n c"
  unfolding cache_ok_def fetched_def using le_trans by blast

lemma jwks_get_Some:
  assumes "jwks_get (vf_endpoint v) (vf_clock v) n kid c = (Some key, c')" "cache_ok v n c"
  shows "cache_ok v n c' \<and> fetched v n c' \<and> vf_clock v n - jw_loadedAt c' < 300 * second \<and> jw_keys c' kid = Some key"
proof -
  obtain ok d where r: "refresh (vf_endpoint v) (vf_clock v) n c = (ok, d)" by (cases "refresh (vf_endpoint v) (vf_clock v) n c")
  show ?thesis
    using assms refresh_cases [OF r]
    by (auto simp: jwks_get_def r cache_ok_def split: option.splits if_splits)
qed

lemma Verify_cache: "cache_ok v n c \<Longrightarrow> Verify v n token c = (r, c') \<Longrightarrow> cache_ok v n c'"
proof -
  assume ok: "cache_ok v n c" and run: "Verify v n token c = (r, c')"
  obtain b d where "refresh (vf_endpoint v) (vf_clock v) n c = (b, d)" by (cases "refresh (vf_endpoint v) (vf_clock v) n c")
  with refresh_cases [OF this] ok run show ?thesis
    by (auto simp: Verify_def jwks_get_def cache_ok_def split: option.splits if_splits prod.splits)
qed

text \<open>A key that an answer of the provider, less than five minutes old, has for an identifier.\<close>

definition provider_key :: "Verifier \<Rightarrow> nat \<Rightarrow> string \<Rightarrow> PublicKey \<Rightarrow> bool" where
  "provider_key v n kid key \<longleftrightarrow> (\<exists>m \<le> n. \<exists>status ks raw. vf_endpoint v m = Jwks_response status (Some ks)
     \<and> status \<in> {200..299} \<and> vf_clock v n - vf_clock v m < 300 * second \<and> raw \<in> set (ks_Keys ks)
     \<and> jk_Kty raw = ''RSA'' \<and> jk_Kid raw = kid \<and> rsaPublicKey (jk_N raw) (jk_E raw) = Some key)"

lemma fetched_key:
  assumes "fetched v n c" "vf_clock v n - jw_loadedAt c < 300 * second" "jw_keys c kid = Some key"
  shows "provider_key v n kid key"
proof -
  obtain m status ks where m: "m \<le> n" "vf_endpoint v m = Jwks_response status (Some ks)" "status \<in> {200..299}"
      "jw_keys c = usable_keys (ks_Keys ks) Map.empty" "jw_loadedAt c = vf_clock v m"
    using assms(1) unfolding fetched_def by blast
  have "usable_keys (ks_Keys ks) Map.empty kid = Some key" using assms(3) m(4) by simp
  then obtain raw where "raw \<in> set (ks_Keys ks)" "usable raw" "jk_Kid raw = kid"
      "rsaPublicKey (jk_N raw) (jk_E raw) = Some key"
    by (metis empty_eq_map_of_iff map_of.simps(1) option.distinct(1) usable_keys_Some)
  then show ?thesis using m assms(2) unfolding provider_key_def usable_def by metis
qed

lemma Verify_Some:
  assumes "Verify v n token c = (Some claims, c')" "cache_ok v n c"
  shows "\<exists>h key subject. vf_header v token = Some h \<and> jh_RSA h \<and> jh_kid h \<noteq> [] \<and> provider_key v n (jh_kid h) key
    \<and> vf_valid v (vf_issuer v) (vf_audience v) key (vf_clock v n) token = Some subject
    \<and> vf_parse_uuid v subject = Some (cl_UserID_claim claims)"
proof -
  obtain h key subject where h: "vf_header v token = Some h" "jh_RSA h" "jh_kid h \<noteq> []"
      "jwks_get (vf_endpoint v) (vf_clock v) n (jh_kid h) c = (Some key, c')"
      "vf_valid v (vf_issuer v) (vf_audience v) key (vf_clock v n) token = Some subject"
      "vf_parse_uuid v subject = Some (cl_UserID_claim claims)"
    using assms(1) unfolding Verify_def by (auto split: option.splits if_splits prod.splits)
  have "provider_key v n (jh_kid h) key"
    using jwks_get_Some [OF h(4) assms(2)] by (auto intro: fetched_key)
  with h show ?thesis by blast
qed

lemma Auth_Middleware_cache: "cache_ok v n c \<Longrightarrow> Auth_Middleware v n header c = (r, c') \<Longrightarrow> cache_ok v n c'"
  by (auto simp: Auth_Middleware_def split: option.splits dest: Verify_cache)

lemma Auth_Middleware_Some:
  "Auth_Middleware v n header c = (Some claims, c') \<Longrightarrow>
   \<exists>token. bearer_token header = Some token \<and> Verify v n token c = (Some claims, c')"
  by (auto simp: Auth_Middleware_def split: option.splits)

end
