(* ===== verification/Devices.thy ===== *)
theory Devices
  imports Queries
begin

section \<open>Devices\<close>

text \<open>
  \<open>internal/devices\<close>: the registration, the list and the revocation of devices. The model
  \<open>Device\<close> stands between requests, rows and responses; every operation is scoped to the user
  that the handler has authenticated.
\<close>

subsection \<open>Requests and responses (\<open>types.go\<close>)\<close>

record RegisterDeviceRequest =
  rd_DeviceID :: string
  rd_DeviceName :: "string option"
  rd_Platform :: "string option"
  rd_AppVersion :: "string option"
  rd_ProtocolVersion :: int

record DeviceResponse =
  dr_ID :: string
  dr_DeviceName :: "string option"
  dr_Platform :: "string option"
  dr_AppVersion :: "string option"
  dr_ProtocolVersion :: int
  dr_LastGlobalCursor :: int
  dr_LastSeenAt :: time
  dr_CreatedAt :: time
  dr_RevokedAt :: "time option"

record ListDevicesResponse =
  ld_Devices :: "DeviceResponse list"

subsection \<open>The model (\<open>models.go\<close>)\<close>

record Device =
  de_ID :: string
  de_OwnerID :: uuid
  de_DeviceName :: "string option"
  de_Platform :: "string option"
  de_AppVersion :: "string option"
  de_ProtocolVersion :: int
  de_LastGlobalCursor :: int
  de_LastSeenAt :: time
  de_CreatedAt :: time
  de_RevokedAt :: "time option"

text \<open>The zero value, \<open>var model Device\<close>.\<close>

definition zeroDevice :: Device where
  "zeroDevice = \<lparr>de_ID = [], de_OwnerID = Nil_uuid, de_DeviceName = None, de_Platform = None,
     de_AppVersion = None, de_ProtocolVersion = 0, de_LastGlobalCursor = 0, de_LastSeenAt = zeroTime,
     de_CreatedAt = zeroTime, de_RevokedAt = None\<rparr>"

abbreviation (input) "UnsupportedProtocolMessage \<equiv> ''The requested sync protocol is not supported.''"

definition Device_FromRequest :: "Device \<Rightarrow> RegisterDeviceRequest \<Rightarrow> go_error + Device" where
  "Device_FromRequest m req =
     (if rd_DeviceID req = [] then Inl (InvalidRequest (RequestKeyDeviceID @ '' is required.''))
      else if \<not> ValidDeviceID (rd_DeviceID req)
      then Inl (InvalidRequest (RequestKeyDeviceID @ '' must be 30 characters or fewer.''))
      else let protocolVersion = (if rd_ProtocolVersion req = 0 then 1 else rd_ProtocolVersion req) in
        if protocolVersion \<noteq> 1
        then Inl (ErrApi (NewError 400 ''UNSUPPORTED_PROTOCOL'' UnsupportedProtocolMessage))
        else Inr (m\<lparr>de_ID := rd_DeviceID req, de_DeviceName := rd_DeviceName req,
               de_Platform := rd_Platform req, de_AppVersion := rd_AppVersion req,
               de_ProtocolVersion := protocolVersion\<rparr>))"

definition Device_FromEntity :: "SyncDevice \<Rightarrow> go_error + Device" where
  "Device_FromEntity entity =
     (if \<not> ValidDeviceID (dv_ID entity) \<or> dv_OwnerID entity = Nil_uuid
      then Inl (ErrText ''device entity must contain valid identifiers'')
      else if dv_ProtocolVersion entity \<noteq> 1
      then Inl (ErrText ''device entity has an unsupported protocol version'')
      else Inr \<lparr>de_ID = dv_ID entity, de_OwnerID = dv_OwnerID entity,
             de_DeviceName = dv_DeviceName entity, de_Platform = dv_Platform entity,
             de_AppVersion = dv_AppVersion entity, de_ProtocolVersion = dv_ProtocolVersion entity,
             de_LastGlobalCursor = dv_LastGlobalCursor entity, de_LastSeenAt = dv_LastSeenAt entity,
             de_CreatedAt = dv_CreatedAt entity, de_RevokedAt = dv_RevokedAt entity\<rparr>)"

definition Device_Entity :: "Device \<Rightarrow> uuid \<Rightarrow> go_error + CreateDeviceParams" where
  "Device_Entity m ownerID =
     (if ownerID = Nil_uuid \<or> \<not> ValidDeviceID (de_ID m)
      then Inl (InvalidRequest ''device identifiers are required.'')
      else if de_ProtocolVersion m \<noteq> 1
      then Inl (ErrApi (NewError 400 ''UNSUPPORTED_PROTOCOL'' UnsupportedProtocolMessage))
      else Inr \<lparr>dp_ID = de_ID m, dp_OwnerID = ownerID, dp_DeviceName = de_DeviceName m,
             dp_Platform = de_Platform m, dp_AppVersion = de_AppVersion m,
             dp_ProtocolVersion = de_ProtocolVersion m\<rparr>)"

definition Device_Response :: "Device \<Rightarrow> DeviceResponse" where
  "Device_Response m = \<lparr>dr_ID = de_ID m, dr_DeviceName = de_DeviceName m, dr_Platform = de_Platform m,
     dr_AppVersion = de_AppVersion m, dr_ProtocolVersion = de_ProtocolVersion m,
     dr_LastGlobalCursor = de_LastGlobalCursor m, dr_LastSeenAt = de_LastSeenAt m,
     dr_CreatedAt = de_CreatedAt m, dr_RevokedAt = de_RevokedAt m\<rparr>"

definition DeviceResponse_FromEntity :: "SyncDevice \<Rightarrow> go_error + DeviceResponse" where
  "DeviceResponse_FromEntity entity = (case Device_FromEntity entity of
     Inl e \<Rightarrow> Inl e
   | Inr model \<Rightarrow> Inr (Device_Response model))"

definition ListDevicesResponse_FromEntities :: "SyncDevice list \<Rightarrow> go_error + ListDevicesResponse" where
  "ListDevicesResponse_FromEntities entities = (case mapE DeviceResponse_FromEntity entities of
     Inl e \<Rightarrow> Inl e
   | Inr responses \<Rightarrow> Inr \<lparr>ld_Devices = responses\<rparr>)"

subsection \<open>The service (\<open>service.go\<close>)\<close>

definition Device_Register :: "env \<Rightarrow> uuid \<Rightarrow> RegisterDeviceRequest \<Rightarrow> DeviceResponse call" where
  "Device_Register env ownerID req =
     bindM (liftM id (Device_FromRequest zeroDevice req)) (\<lambda>model.
     bindM (liftM id (Device_Entity model ownerID)) (\<lambda>params.
     bindM (CreateDevice env params) (\<lambda>device.
     liftM id (DeviceResponse_FromEntity device))))"

definition Device_List :: "env \<Rightarrow> uuid \<Rightarrow> ListDevicesResponse call" where
  "Device_List env ownerID =
     bindM (ListDevices env ownerID) (\<lambda>devices. liftM id (ListDevicesResponse_FromEntities devices))"

definition Device_Revoke :: "env \<Rightarrow> uuid \<Rightarrow> string \<Rightarrow> unit call" where
  "Device_Revoke env ownerID deviceID =
     (if deviceID = [] then failM (InvalidRequest (RequestKeyDeviceID @ '' is required.''))
      else if \<not> ValidDeviceID deviceID
      then failM (InvalidRequest (RequestKeyDeviceID @ '' must be 30 characters or fewer.''))
      else catchM (RevokeDevice env deviceID ownerID)
        (\<lambda>err. if err = ErrNotFound then failM (NotFound ''Device not found.'') else failM err)
        returnM)"

end
