(* ===== verification/Sync_Models.thy ===== *)
theory Sync_Models
  imports Queries
begin

section \<open>Sync models: requests, operations, payloads and responses\<close>

text \<open>
  \<open>internal/sync/models\<close>, except for the types of the protocol: the validation
  of requests and of operation envelopes, the payload models of each kind of operation, and the
  conversions between models and rows. Every decoder returns the error text of the source or
  the model; the last part of the theory states what an accepted payload is known to satisfy.
\<close>

subsection \<open>Rejections (\<open>errors.go\<close>)\<close>

definition RejectedInvalid :: "ClientOperation \<Rightarrow> string \<Rightarrow> RejectedDTO" where
  "RejectedInvalid oper message = \<lparr>rj_Code = ''INVALID_REQUEST'',
     rj_Reason = RejectionReasonInvalidRequest, rj_Message = message, rj_NoteID = op_NoteID oper,
     rj_NoteSnapshot = None, rj_ClientNoteVersion = 0, rj_ServerNoteVersion = 0\<rparr>"

definition RejectedNotFound :: "ClientOperation \<Rightarrow> string \<Rightarrow> RejectedDTO" where
  "RejectedNotFound oper message = \<lparr>rj_Code = ''NOT_FOUND'',
     rj_Reason = RejectionReasonNotFound, rj_Message = message, rj_NoteID = op_NoteID oper,
     rj_NoteSnapshot = None, rj_ClientNoteVersion = 0, rj_ServerNoteVersion = 0\<rparr>"

definition RejectedConflict :: "ClientOperation \<Rightarrow> int \<Rightarrow> RejectedDTO" where
  "RejectedConflict oper serverNoteVersion = \<lparr>rj_Code = ''BASE_VERSION_CONFLICT'',
     rj_Reason = RejectionReasonVersionConflict,
     rj_Message = ''The note has changed since it was last synchronized.'',
     rj_NoteID = op_NoteID oper, rj_NoteSnapshot = None,
     rj_ClientNoteVersion = op_BaseNoteVersion oper, rj_ServerNoteVersion = serverNoteVersion\<rparr>"

subsection \<open>Request validation (\<open>request_validation.go\<close>)\<close>

definition UnsupportedProtocol :: go_error where
  "UnsupportedProtocol = ErrApi (NewError 400 ''UNSUPPORTED_PROTOCOL''
     ''The requested sync protocol is not supported.'')"

definition Request_Validate :: "int \<Rightarrow> Request \<Rightarrow> go_error option" where
  "Request_Validate maxOperations r =
     (if rq_ProtocolVersion r \<noteq> ProtocolVersion then Some UnsupportedProtocol
      else if rq_DeviceID r = [] then Some (InvalidRequest (RequestKeyDeviceID @ '' is required.''))
      else if \<not> ValidDeviceID (rq_DeviceID r)
        then Some (InvalidRequest (RequestKeyDeviceID @ '' must be 30 characters or fewer.''))
      else if int (length (rq_Operations r)) > maxOperations
        then Some (ErrApi (NewError 413 ''PAYLOAD_TOO_LARGE''
               ''The sync request contains too many operations.''))
      else None)"

definition PullRequest_Validate :: "PullRequest \<Rightarrow> go_error option" where
  "PullRequest_Validate r =
     (if pr_ProtocolVersion r \<noteq> ProtocolVersion then Some UnsupportedProtocol
      else if pr_DeviceID r = [] then Some (InvalidRequest (RequestKeyDeviceID @ '' is required.''))
      else if \<not> ValidDeviceID (pr_DeviceID r)
        then Some (InvalidRequest (RequestKeyDeviceID @ '' must be 30 characters or fewer.''))
      else if pr_Cursor r < 0
        then Some (InvalidRequest (RequestKeyCursor @ '' must be greater than or equal to zero.''))
      else None)"

definition UpdatesAvailableRequest_Validate :: "UpdatesAvailableRequest \<Rightarrow> go_error option" where
  "UpdatesAvailableRequest_Validate r =
     (if ua_ProtocolVersion r \<noteq> ProtocolVersion then Some UnsupportedProtocol
      else if ua_DeviceID r = [] then Some (InvalidRequest (RequestKeyDeviceID @ '' is required.''))
      else if \<not> ValidDeviceID (ua_DeviceID r)
        then Some (InvalidRequest (RequestKeyDeviceID @ '' must be 30 characters or fewer.''))
      else None)"

definition category_operation :: "string \<Rightarrow> bool" where
  "category_operation t \<longleftrightarrow>
     t \<in> {OperationCreateCategory, OperationDeleteCategory, OperationModifyCategory}"

definition note_operation :: "string \<Rightarrow> bool" where
  "note_operation t \<longleftrightarrow> t \<in> {OperationCreateNote, OperationDeleteNote,
     OperationModifyNoteProperty, OperationModifyNoteTitle}"

definition block_operation :: "string \<Rightarrow> bool" where
  "block_operation t \<longleftrightarrow> t \<in> {OperationCreateBlock, OperationDeleteBlock, OperationModifyBlock}"

definition ClientOperation_Validate :: "ClientOperation \<Rightarrow> string + unit" where
  "ClientOperation_Validate oper =
     (if op_OperationID oper = Nil_uuid then Inl (RequestKeyOperationID @ '' is required'')
      else if op_Sequence oper < 0
        then Inl (RequestKeySequence @ '' must be greater than or equal to zero'')
      else bindE
        (if category_operation (op_OperationType oper) then
           (if op_NoteID oper \<noteq> Nil_uuid
            then Inl (RequestKeyNoteID @ '' is not allowed for category operations'') else Inr ())
         else if note_operation (op_OperationType oper) then
           (if op_NoteID oper = Nil_uuid then Inl (RequestKeyNoteID @ '' is required'') else Inr ())
         else if block_operation (op_OperationType oper) then
           (if op_NoteID oper = Nil_uuid then Inl (RequestKeyNoteID @ '' is required'') else Inr ())
         else Inl (RequestKeyOperationType @ '' is unsupported''))
        (\<lambda>_. if NormalizeChangeFormat (op_ChangeFormat oper) \<noteq> ChangeFormatStructuredV1
              then Inl (RequestKeyChangeFormat @ '' is unsupported'') else Inr ()))"

subsection \<open>Payload models\<close>

text \<open>A required member: the error text when it is absent.\<close>

definition require :: "string \<Rightarrow> string + 'a option \<Rightarrow> string + 'a" where
  "require message r = bindE r (\<lambda>v. case v of None \<Rightarrow> Inl message | Some a \<Rightarrow> Inr a)"

text \<open>A required identifier: absent and nil identifiers have the same message.\<close>

definition require_id :: "string \<Rightarrow> string + uuid option \<Rightarrow> string + uuid" where
  "require_id message r = bindE (require message r)
     (\<lambda>i. if i = Nil_uuid then Inl message else Inr i)"

record BlockModel =
  bm_BlockId :: uuid
  bm_BlockType :: string
  bm_Position :: string
  bm_TextContent :: string
  bm_BlockProperties :: raw_message

definition BlockModel_FromRequest :: "codec \<Rightarrow> raw_message \<Rightarrow> string + BlockModel" where
  "BlockModel_FromRequest cd raw =
     bindE (DecodeObjectFields raw RequestKeyBlock) (\<lambda>flds.
     bindE (require_id (RequestKeyBlockId @ '' is required'') (GetUUIDField cd flds RequestKeyBlockId)) (\<lambda>blockId.
     bindE (require (RequestKeyBlockType @ '' is required'') (GetStringField flds RequestKeyBlockType)) (\<lambda>blockType.
     bindE (ValidateBlockType cd blockType) (\<lambda>_.
     bindE (require (RequestKeyPosition @ '' is required'') (GetFloatField cd flds RequestKeyPosition)) (\<lambda>position.
     if f_negative position
     then Inl (RequestKeyPosition @ '' must be greater than or equal to zero'')
     else
     bindE (require (RequestKeyTextContent @ '' is required'') (GetStringField flds RequestKeyTextContent)) (\<lambda>textContent.
     bindE (GetObjectField cd flds RequestKeyBlockProperties) (\<lambda>properties.
     Inr \<lparr>bm_BlockId = blockId, bm_BlockType = blockType, bm_Position = f_text position,
       bm_TextContent = textContent,
       bm_BlockProperties = (case properties of None \<Rightarrow> Some (JObj []) | Some j \<Rightarrow> Some j)\<rparr>)))))))"

definition BlockModel_FromCreateOperation :: "codec \<Rightarrow> raw_message \<Rightarrow> string + BlockModel" where
  "BlockModel_FromCreateOperation cd raw =
     bindE (DecodeChangeObject raw) (\<lambda>flds.
     bindE (require (OperationCreateBlock @ '' requires '' @ RequestKeyBlock)
             (GetObjectField cd flds RequestKeyBlock)) (\<lambda>block.
     BlockModel_FromRequest cd (Some block)))"

definition BlockModel_FromEntity :: "NoteBlock \<Rightarrow> string + BlockModel" where
  "BlockModel_FromEntity b =
     (if bl_ID b = Nil_uuid \<or> bl_NoteID b = Nil_uuid
      then Inl ''block entity must contain valid identifiers''
      else Inr \<lparr>bm_BlockId = bl_ID b, bm_BlockType = bl_BlockType b, bm_Position = bl_Position b,
        bm_TextContent = bl_TextContent b, bm_BlockProperties = NormalizeJSON (bl_BlockProperties b)\<rparr>)"

definition BlockModel_Entity :: "codec \<Rightarrow> uuid \<Rightarrow> BlockModel \<Rightarrow> string + NoteBlock" where
  "BlockModel_Entity cd note m =
     (if note = Nil_uuid \<or> bm_BlockId m = Nil_uuid then Inl ''block identifiers are required''
      else bindE (ValidateBlockType cd (bm_BlockType m)) (\<lambda>_.
        if blank (bm_Position m) then Inl (RequestKeyPosition @ '' is required'')
        else Inr \<lparr>bl_ID = bm_BlockId m, bl_NoteID = note, bl_BlockType = bm_BlockType m,
          bl_TextContent = bm_TextContent m, bl_Position = bm_Position m,
          bl_BlockProperties = NormalizeJSON (bm_BlockProperties m), bl_CreatedAt = zeroTime,
          bl_UpdatedAt = zeroTime, bl_DeletedAt = None\<rparr>))"

record NoteModel =
  nm_ID :: uuid
  nm_OwnerID :: uuid
  nm_Title :: string
  nm_NoteProperties :: raw_message
  nm_CurrentVersion :: int
  nm_CreatedAt :: time
  nm_UpdatedAt :: time
  nm_DeletedAt :: "time option"
  nm_Blocks :: "BlockModel list"

text \<open>The loop over the raw blocks, with the identifiers and positions seen so far.\<close>

fun blocksFromRequest :: "codec \<Rightarrow> nat \<Rightarrow> uuid set \<Rightarrow> string set \<Rightarrow> json list \<Rightarrow>
    string + BlockModel list" where
  "blocksFromRequest cd i blockIDs positions [] = Inr []"
| "blocksFromRequest cd i blockIDs positions (raw # raws) =
     (case BlockModel_FromRequest cd (Some raw) of
        Inl e \<Rightarrow> Inl (RequestKeyBlocks @ ''['' @ itoa i @ '']: '' @ e)
      | Inr block \<Rightarrow>
          if bm_BlockId block \<in> blockIDs then Inl (RequestKeyBlocks @ '' contains duplicate ids'')
          else if bm_Position block \<in> positions
            then Inl (RequestKeyBlocks @ '' contains duplicate positions'')
          else bindE (blocksFromRequest cd (Suc i) (insert (bm_BlockId block) blockIDs)
                  (insert (bm_Position block) positions) raws)
                (\<lambda>blocks. Inr (block # blocks)))"

definition NoteModel_FromRequest :: "codec \<Rightarrow> ClientOperation \<Rightarrow> uuid \<Rightarrow> string + NoteModel" where
  "NoteModel_FromRequest cd oper owner =
     (if op_NoteID oper = Nil_uuid \<or> owner = Nil_uuid then Inl ''note identifiers are required''
      else
      bindE (DecodeChangeObject (op_ChangeData oper)) (\<lambda>flds.
      bindE (require (RequestKeyTitle @ '' is required'') (GetStringField flds RequestKeyTitle)) (\<lambda>title.
      bindE (require (RequestKeyNoteProperties @ '' is required'')
              (GetObjectField cd flds RequestKeyNoteProperties)) (\<lambda>noteProperties.
      bindE (require (RequestKeyBlocks @ '' is required'') (GetArrayField flds RequestKeyBlocks)) (\<lambda>blockValues.
      bindE (blocksFromRequest cd 0 {} {} blockValues) (\<lambda>blocks.
      Inr \<lparr>nm_ID = op_NoteID oper, nm_OwnerID = owner, nm_Title = title,
        nm_NoteProperties = Some noteProperties, nm_CurrentVersion = 0, nm_CreatedAt = zeroTime,
        nm_UpdatedAt = zeroTime, nm_DeletedAt = None, nm_Blocks = blocks\<rparr>))))))"

definition NoteModel_FromEntity :: "NoteDocument \<Rightarrow> string + NoteModel" where
  "NoteModel_FromEntity doc = (let n = nd_Note doc in
     if nt_ID n = Nil_uuid \<or> nt_OwnerID n = Nil_uuid
     then Inl ''note entity must contain valid identifiers''
     else bindE (mapE (\<lambda>b. if bl_NoteID b \<noteq> nt_ID n
                       then Inl ''block entity does not belong to note entity''
                       else BlockModel_FromEntity b) (nd_Blocks doc)) (\<lambda>blocks.
       Inr \<lparr>nm_ID = nt_ID n, nm_OwnerID = nt_OwnerID n, nm_Title = nt_Title n,
         nm_NoteProperties = NormalizeJSON (nt_NoteProperties n),
         nm_CurrentVersion = nt_CurrentVersion n, nm_CreatedAt = nt_CreatedAt n,
         nm_UpdatedAt = nt_UpdatedAt n, nm_DeletedAt = nt_DeletedAt n, nm_Blocks = blocks\<rparr>))"

definition NoteModel_Entity :: "codec \<Rightarrow> NoteModel \<Rightarrow> string + NoteDocument" where
  "NoteModel_Entity cd m =
     (if nm_ID m = Nil_uuid \<or> nm_OwnerID m = Nil_uuid then Inl ''note identifiers are required''
      else bindE (mapE (BlockModel_Entity cd (nm_ID m)) (nm_Blocks m)) (\<lambda>blocks.
        Inr \<lparr>nd_Note = \<lparr>nt_ID = nm_ID m, nt_OwnerID = nm_OwnerID m, nt_Title = nm_Title m,
            nt_NoteProperties = NormalizeJSON (nm_NoteProperties m),
            nt_CurrentVersion = nm_CurrentVersion m, nt_CreatedAt = nm_CreatedAt m,
            nt_UpdatedAt = nm_UpdatedAt m, nt_DeletedAt = nm_DeletedAt m\<rparr>,
          nd_Blocks = blocks, nd_LastAppliedCursor = 0\<rparr>))"

record NoteMutation =
  mu_NoteProperties :: raw_message
  mu_HasProperties :: bool
  mu_TextDelta :: TextDelta
  mu_HasTextDelta :: bool

definition zeroTextDelta :: TextDelta where
  "zeroTextDelta = \<lparr>td_Index = 0, td_DeleteCount = 0, td_InsertText = []\<rparr>"

definition zeroNoteMutation :: NoteMutation where
  "zeroNoteMutation = \<lparr>mu_NoteProperties = None, mu_HasProperties = False,
     mu_TextDelta = zeroTextDelta, mu_HasTextDelta = False\<rparr>"

definition NoteMutation_FromRequest :: "codec \<Rightarrow> raw_message \<Rightarrow> string \<Rightarrow> string + NoteMutation" where
  "NoteMutation_FromRequest cd raw operationType =
     bindE (DecodeObjectFields raw RequestKeyChangeData) (\<lambda>flds.
     if operationType = OperationModifyNoteProperty then
       bindE (require (OperationModifyNoteProperty @ '' requires '' @ RequestKeyNoteProperties)
               (GetObjectField cd flds RequestKeyNoteProperties)) (\<lambda>properties.
       Inr (zeroNoteMutation\<lparr>mu_NoteProperties := Some properties, mu_HasProperties := True\<rparr>))
     else if operationType = OperationModifyNoteTitle then
       bindE (require (OperationModifyNoteTitle @ '' requires '' @ RequestKeyTextDelta)
               (GetObjectField cd flds RequestKeyTextDelta)) (\<lambda>raw_delta.
       bindE (DecodeTextDelta (Some raw_delta) RequestKeyTextDelta) (\<lambda>delta.
       Inr (zeroNoteMutation\<lparr>mu_TextDelta := delta, mu_HasTextDelta := True\<rparr>)))
     else if operationType = OperationDeleteNote then Inr zeroNoteMutation
     else Inl ''unsupported note mutation'')"

record BlockMutation =
  mb_ID :: uuid
  mb_BlockProperties :: raw_message
  mb_HasProperties :: bool
  mb_TextDelta :: TextDelta
  mb_HasTextDelta :: bool

definition BlockMutation_FromRequest :: "codec \<Rightarrow> raw_message \<Rightarrow> string \<Rightarrow> string + BlockMutation" where
  "BlockMutation_FromRequest cd raw operationType =
     bindE (DecodeObjectFields raw RequestKeyChangeData) (\<lambda>flds.
     bindE (require_id (RequestKeyBlockId @ '' is required'') (GetUUIDField cd flds RequestKeyBlockId)) (\<lambda>i.
     let m = \<lparr>mb_ID = i, mb_BlockProperties = None, mb_HasProperties = False,
              mb_TextDelta = zeroTextDelta, mb_HasTextDelta = False\<rparr> in
     if operationType = OperationDeleteBlock then Inr m
     else if operationType \<noteq> OperationModifyBlock then Inl ''unsupported block mutation''
     else
     bindE (GetObjectField cd flds RequestKeyBlockProperties) (\<lambda>properties.
     bindE (GetObjectField cd flds RequestKeyTextDelta) (\<lambda>raw_delta.
     bindE (case raw_delta of None \<Rightarrow> Inr None
            | Some j \<Rightarrow> bindE (DecodeTextDelta (Some j) RequestKeyTextDelta) (\<lambda>d. Inr (Some d))) (\<lambda>delta.
     if properties = None \<and> delta = None
     then Inl (OperationModifyBlock @ '' must include '' @ RequestKeyBlockProperties @ '' or '' @ RequestKeyTextDelta)
     else Inr (m\<lparr>mb_BlockProperties := properties, mb_HasProperties := properties \<noteq> None,
        mb_TextDelta := (case delta of None \<Rightarrow> zeroTextDelta | Some d \<Rightarrow> d),
        mb_HasTextDelta := delta \<noteq> None\<rparr>))))))"

record Category =
  ca_ID :: uuid
  ca_Name :: string

definition Category_FromRequest :: "codec \<Rightarrow> raw_message \<Rightarrow> bool \<Rightarrow> string + Category" where
  "Category_FromRequest cd raw requireName =
     bindE (DecodeObjectFields raw RequestKeyChangeData) (\<lambda>flds.
     bindE (require_id (RequestKeyCategoryId @ '' is required'') (GetUUIDField cd flds RequestKeyCategoryId)) (\<lambda>i.
     if \<not> requireName then Inr \<lparr>ca_ID = i, ca_Name = []\<rparr>
     else
     bindE (require (RequestKeyName @ '' is required'') (GetStringField flds RequestKeyName)) (\<lambda>name.
     if blank name then Inl (RequestKeyName @ '' is required'')
     else Inr \<lparr>ca_ID = i, ca_Name = name\<rparr>)))"

text \<open>\<open>Operation.FromRequest\<close>: the envelope is valid and the payload is absent or an object.\<close>

definition Operation_FromRequest :: "ClientOperation \<Rightarrow> string + fields" where
  "Operation_FromRequest oper =
     bindE (ClientOperation_Validate oper) (\<lambda>_.
     case DecodeChangeObject (op_ChangeData oper) of
       Inl _ \<Rightarrow> Inl (RequestKeyChangeData @ '' is invalid.'')
     | Inr flds \<Rightarrow> Inr flds)"

definition nullableUUID :: "uuid \<Rightarrow> uuid option" where
  "nullableUUID i = (if i = Nil_uuid then None else Some i)"

text \<open>
  \<open>ClientOperation.Entity\<close>; \<open>change\_id\<close> is the value of \<open>uuid.New()\<close>.
\<close>

definition ClientOperation_Entity :: "ClientOperation \<Rightarrow> uuid \<Rightarrow> uuid \<Rightarrow> string \<Rightarrow> uuid option \<Rightarrow> int \<Rightarrow>
    int \<Rightarrow> string + InsertNoteChangeParams" where
  "ClientOperation_Entity oper change_id owner device block baseVersion resultingVersion =
     bindE (ClientOperation_Validate oper) (\<lambda>_.
     if owner = Nil_uuid \<or> \<not> ValidDeviceID device
     then Inl ''owner and device identifiers are required''
     else if block_operation (op_OperationType oper) \<and> (block = None \<or> block = Some Nil_uuid)
     then Inl ''block identifier is required''
     else Inr \<lparr>ip_ID = change_id, ip_OwnerID = owner, ip_NoteID = nullableUUID (op_NoteID oper),
       ip_BlockID = block, ip_DeviceID = device, ip_ClientOperationID = op_OperationID oper,
       ip_OperationType = op_OperationType oper, ip_BaseNoteVersion = baseVersion,
       ip_ResultingNoteVersion = resultingVersion,
       ip_ChangeFormat = NormalizeChangeFormat (op_ChangeFormat oper), ip_SchemaVersion = 1,
       ip_ChangeData = op_ChangeData oper\<rparr>)"

subsection \<open>Response models (\<open>response_models.go\<close>)\<close>

definition PulledChange_FromEntity :: "NoteChange \<Rightarrow> string + PulledChange" where
  "PulledChange_FromEntity c =
     (if ch_ID c = Nil_uuid \<or> ch_ClientOperationID c = Nil_uuid \<or> \<not> ValidDeviceID (ch_DeviceID c)
      then Inl ''change entity must contain valid identifiers''
      else Inr \<lparr>pc_NoteID = ch_NoteID c, pc_DeviceID = ch_DeviceID c,
        pc_OperationType = ch_OperationType c, pc_BaseNoteVersion = ch_BaseNoteVersion c,
        pc_ResultingNoteVersion = ch_ResultingNoteVersion c, pc_ChangeFormat = ch_ChangeFormat c,
        pc_SchemaVersion = ch_SchemaVersion c, pc_ChangeData = NormalizeJSON (ch_ChangeData c),
        pc_GlobalSequence = ch_GlobalSequence c, pc_CreatedAt = ch_CreatedAt c\<rparr>)"

definition BlockSnapshot_FromEntity :: "NoteBlock \<Rightarrow> string + BlockSnapshot" where
  "BlockSnapshot_FromEntity b =
     (if bl_ID b = Nil_uuid \<or> bl_NoteID b = Nil_uuid
      then Inl ''block entity must contain valid identifiers''
      else Inr \<lparr>bs_BlockId = bl_ID b, bs_BlockType = bl_BlockType b,
        bs_TextContent = bl_TextContent b, bs_Position = bl_Position b,
        bs_BlockProperties = NormalizeJSON (bl_BlockProperties b), bs_CreatedAt = bl_CreatedAt b,
        bs_UpdatedAt = bl_UpdatedAt b, bs_DeletedAt = bl_DeletedAt b\<rparr>)"

definition NoteSnapshot_FromEntity :: "NoteDocument \<Rightarrow> string + NoteSnapshot" where
  "NoteSnapshot_FromEntity doc = (let n = nd_Note doc in
     if nt_ID n = Nil_uuid \<or> nt_OwnerID n = Nil_uuid
     then Inl ''note entity must contain valid identifiers''
     else bindE (mapE BlockSnapshot_FromEntity (nd_Blocks doc)) (\<lambda>blocks.
       Inr \<lparr>ns_NoteID = nt_ID n, ns_OwnerID = nt_OwnerID n,
         ns_LastAppliedCursor = nd_LastAppliedCursor doc, ns_Title = nt_Title n,
         ns_NoteProperties = NormalizeJSON (nt_NoteProperties n),
         ns_CurrentVersion = nt_CurrentVersion n, ns_CreatedAt = nt_CreatedAt n,
         ns_UpdatedAt = nt_UpdatedAt n, ns_DeletedAt = nt_DeletedAt n, ns_Blocks = blocks\<rparr>))"

end
