(* ===== verification/Sync_Batch.thy ===== *)
theory Sync_Batch
  imports Sync_Models
begin

section \<open>Sync services: one batch of operations\<close>

text \<open>
  \<open>internal/sync/services/{operation_batch,category_operations,note_operations,
  block_operations,change_persistence}.go\<close>. The batch state of the source (a pointer that every
  handler mutates) is threaded explicitly; a handler returns the state with an outcome, and its
  Go error as the error of the call. A dereference of a nil pointer is the error \<open>ErrPanic\<close>,
  which later theorems exclude.

  The set of dirty blocks is kept in insertion order: the source ranges over a map, whose order
  Go leaves open, and the updates it performs touch different rows.
\<close>

subsection \<open>Service and batch state\<close>

record Service =
  sv_maxOperations :: int
  sv_defaultPullLimit :: int
  sv_maxPullLimit :: int
  sv_snapshotChangeThreshold :: int
  sv_snapshotByteThreshold :: int
  sv_hasEventBus :: bool

record noteBatchState =
  st_note :: "Note option"
  st_noteLoaded :: bool
  st_blocks :: "uuid \<Rightarrow> NoteBlock option"
  st_missingBlocks :: "uuid set"
  st_dirtyBlocks :: "uuid list"

definition newNoteBatchState :: noteBatchState where
  "newNoteBatchState = \<lparr>st_note = None, st_noteLoaded = False, st_blocks = (\<lambda>_. None),
     st_missingBlocks = {}, st_dirtyBlocks = []\<rparr>"

datatype outcome = Accepted AcceptedDTO | Rejected RejectedDTO

definition sortedOperations :: "ClientOperation list \<Rightarrow> ClientOperation list" where
  "sortedOperations operations = sort_key (\<lambda>oper. (op_NoteID oper, op_Sequence oper)) operations"

definition ensureNote :: "env \<Rightarrow> uuid \<Rightarrow> uuid \<Rightarrow> noteBatchState \<Rightarrow> noteBatchState call" where
  "ensureNote env owner note st =
     (if st_noteLoaded st then returnM st
      else catchM (GetNoteForOwnerForUpdate env note owner)
        (\<lambda>err. if err = ErrNotFound then returnM (st\<lparr>st_noteLoaded := True\<rparr>) else failM err)
        (\<lambda>n. returnM (st\<lparr>st_note := Some n, st_noteLoaded := True\<rparr>)))"

text \<open>\<open>ensureBlock\<close>: \<open>None\<close> stands for the returned \<open>store.ErrNotFound\<close>.\<close>

definition ensureBlock :: "env \<Rightarrow> uuid \<Rightarrow> uuid \<Rightarrow> noteBatchState \<Rightarrow>
    (noteBatchState \<times> NoteBlock option) call" where
  "ensureBlock env note block st = (case st_blocks st block of
     Some b \<Rightarrow> returnM (st, Some b)
   | None \<Rightarrow>
       if block \<in> st_missingBlocks st then returnM (st, None)
       else catchM (GetBlockForNoteForUpdate env block note)
         (\<lambda>err. if err = ErrNotFound
                 then returnM (st\<lparr>st_missingBlocks := insert block (st_missingBlocks st)\<rparr>, None)
                 else failM err)
         (\<lambda>b. returnM (st\<lparr>st_blocks := (st_blocks st)(block \<mapsto> b)\<rparr>, Some b)))"

subsection \<open>Persisting a change (\<open>change_persistence.go\<close>)\<close>

definition insertChange :: "env \<Rightarrow> uuid \<Rightarrow> string \<Rightarrow> ClientOperation \<Rightarrow> uuid option \<Rightarrow> int \<Rightarrow> int \<Rightarrow>
    NoteChange call" where
  "insertChange env owner device oper block baseVersion resultingVersion =
     bindM (newUUID env) (\<lambda>i.
     bindM (liftM ErrText (ClientOperation_Entity oper i owner device block baseVersion resultingVersion))
       (InsertNoteChange env))"

definition enqueueSnapshotIfNeeded :: "env \<Rightarrow> Service \<Rightarrow> uuid \<Rightarrow> uuid \<Rightarrow> int \<Rightarrow> unit call" where
  "enqueueSnapshotIfNeeded env sv note owner resultingVersion =
     (if sv_snapshotChangeThreshold sv \<le> 0 \<and> sv_snapshotByteThreshold sv \<le> 0 then returnM ()
      else bindM (CountChangesSinceLastSnapshot env note) (\<lambda>changeCount.
        bindM (SumChangeBytesSinceLastSnapshot env note) (\<lambda>changeBytes.
        if sv_snapshotChangeThreshold sv > 0 \<and> changeCount \<ge> sv_snapshotChangeThreshold sv
           \<or> sv_snapshotByteThreshold sv > 0 \<and> changeBytes \<ge> sv_snapshotByteThreshold sv
        then bindM (EnqueueSnapshotJob env note owner resultingVersion) (\<lambda>_. returnM ())
        else returnM ())))"

definition acceptedFromChange :: "NoteChange \<Rightarrow> AcceptedDTO" where
  "acceptedFromChange c = \<lparr>ac_NoteID = ch_NoteID c,
     ac_ServerNoteVersion = ch_ResultingNoteVersion c, ac_GlobalSequence = ch_GlobalSequence c\<rparr>"

subsection \<open>Category operations (\<open>category_operations.go\<close>)\<close>

text \<open>The common end of the three: the change row of a category operation and its acceptance.\<close>

definition acceptCategoryChange :: "env \<Rightarrow> uuid \<Rightarrow> string \<Rightarrow> ClientOperation \<Rightarrow> outcome call" where
  "acceptCategoryChange env owner device oper =
     bindM (insertChange env owner device oper None 0 0) (\<lambda>change.
     returnM (Accepted (acceptedFromChange change)))"

definition createCategory :: "env \<Rightarrow> uuid \<Rightarrow> string \<Rightarrow> ClientOperation \<Rightarrow> outcome call" where
  "createCategory env owner device oper =
     (case Category_FromRequest (e_codec env) (op_ChangeData oper) True of
        Inl e \<Rightarrow> returnM (Rejected (RejectedInvalid oper e))
      | Inr category \<Rightarrow>
          bindM (CreateCategory env (ca_ID category) owner (ca_Name category)) (\<lambda>_.
          acceptCategoryChange env owner device oper))"

definition deleteCategory :: "env \<Rightarrow> uuid \<Rightarrow> string \<Rightarrow> ClientOperation \<Rightarrow> outcome call" where
  "deleteCategory env owner device oper =
     (case Category_FromRequest (e_codec env) (op_ChangeData oper) False of
        Inl e \<Rightarrow> returnM (Rejected (RejectedInvalid oper e))
      | Inr category \<Rightarrow>
          catchM (LockCategoryForOwner env (ca_ID category) owner)
            (\<lambda>err. if err = ErrNotFound
                    then returnM (Rejected (RejectedNotFound oper ''Category not found.''))
                    else failM err)
            (\<lambda>_. bindM (DeleteCategory env (ca_ID category) owner) (\<lambda>_.
                 acceptCategoryChange env owner device oper)))"

definition modifyCategory :: "env \<Rightarrow> uuid \<Rightarrow> string \<Rightarrow> ClientOperation \<Rightarrow> outcome call" where
  "modifyCategory env owner device oper =
     (case Category_FromRequest (e_codec env) (op_ChangeData oper) True of
        Inl e \<Rightarrow> returnM (Rejected (RejectedInvalid oper e))
      | Inr category \<Rightarrow>
          catchM (LockCategoryForOwner env (ca_ID category) owner)
            (\<lambda>err. if err = ErrNotFound
                    then returnM (Rejected (RejectedNotFound oper ''Category not found.''))
                    else failM err)
            (\<lambda>_. bindM (UpdateCategory env (ca_ID category) owner (ca_Name category)) (\<lambda>_.
                 acceptCategoryChange env owner device oper)))"

subsection \<open>Note operations (\<open>note_operations.go\<close>)\<close>

definition acceptOperationChange :: "env \<Rightarrow> uuid \<Rightarrow> string \<Rightarrow> Note \<Rightarrow> ClientOperation \<Rightarrow> uuid option \<Rightarrow>
    outcome call" where
  "acceptOperationChange env owner device note oper block =
     (let baseVersion = nt_CurrentVersion note in
      bindM (insertChange env owner device oper block baseVersion (int64 (baseVersion + 1))) (\<lambda>change.
      returnM (Accepted (acceptedFromChange change))))"

text \<open>The loop of \<open>createNote\<close> over the blocks of the new note.\<close>

fun createBlocks :: "env \<Rightarrow> ClientOperation \<Rightarrow> NoteBlock list \<Rightarrow> noteBatchState \<Rightarrow>
    (noteBatchState \<times> RejectedDTO option) call" where
  "createBlocks env oper [] st = returnM (st, None)"
| "createBlocks env oper (b # bs) st =
     catchM (CreateBlock env b)
       (\<lambda>err. if IsUniqueViolation err
               then returnM (st, Some (RejectedInvalid oper ''block already exists.''))
               else failM err)
       (\<lambda>_. createBlocks env oper bs (st\<lparr>st_blocks := (st_blocks st)(bl_ID b \<mapsto> b)\<rparr>))"

definition createNote :: "env \<Rightarrow> uuid \<Rightarrow> string \<Rightarrow> noteBatchState \<Rightarrow> ClientOperation \<Rightarrow>
    (noteBatchState \<times> outcome) call" where
  "createNote env owner device st oper =
     (if op_BaseNoteVersion oper \<noteq> 0 then returnM (st, Rejected (RejectedConflict oper 0))
      else case (if st_noteLoaded st then st_note st else None) of
        Some n \<Rightarrow> returnM (st, Rejected (RejectedConflict oper (nt_CurrentVersion n)))
      | None \<Rightarrow>
        (case bindE (NoteModel_FromRequest (e_codec env) oper owner) (NoteModel_Entity (e_codec env)) of
           Inl e \<Rightarrow> returnM (st, Rejected (RejectedInvalid oper e))
         | Inr document \<Rightarrow>
             catchM (CreateNote env (nd_Note document))
               (\<lambda>err. if IsUniqueViolation err
                       then returnM (st, Rejected (RejectedConflict oper 0)) else failM err)
               (\<lambda>_. bindM (createBlocks env oper (nd_Blocks document)
                        (st\<lparr>st_note := Some (nd_Note document), st_noteLoaded := True\<rparr>)) (\<lambda>(st', rejected).
                  case rejected of
                    Some r \<Rightarrow> returnM (st', Rejected r)
                  | None \<Rightarrow>
                      bindM (acceptOperationChange env owner device (nd_Note document) oper None) (\<lambda>out.
                      returnM (st', out))))))"

definition existingNote :: "env \<Rightarrow> uuid \<Rightarrow> noteBatchState \<Rightarrow> ClientOperation \<Rightarrow>
    (noteBatchState \<times> RejectedDTO option) call" where
  "existingNote env owner st oper =
     bindM (ensureNote env owner (op_NoteID oper) st) (\<lambda>st'.
     case st_note st' of
       None \<Rightarrow> returnM (st', Some (RejectedNotFound oper ''Note not found.''))
     | Some n \<Rightarrow>
         if nt_CurrentVersion n \<noteq> op_BaseNoteVersion oper
         then returnM (st', Some (RejectedConflict oper (nt_CurrentVersion n)))
         else returnM (st', None))"

text \<open>
  The pattern the handlers share: stop with the rejection of \<open>existingNote\<close>, or continue with
  the note, which is present then.
\<close>

definition withNote :: "env \<Rightarrow> uuid \<Rightarrow> noteBatchState \<Rightarrow> ClientOperation \<Rightarrow>
    (noteBatchState \<Rightarrow> Note \<Rightarrow> (noteBatchState \<times> outcome) call) \<Rightarrow> (noteBatchState \<times> outcome) call" where
  "withNote env owner st oper k =
     bindM (existingNote env owner st oper) (\<lambda>(st', rejected).
     case rejected of
       Some r \<Rightarrow> returnM (st', Rejected r)
     | None \<Rightarrow> (case st_note st' of None \<Rightarrow> failM ErrPanic | Some n \<Rightarrow> k st' n))"

definition deleteNote :: "env \<Rightarrow> uuid \<Rightarrow> string \<Rightarrow> noteBatchState \<Rightarrow> ClientOperation \<Rightarrow>
    (noteBatchState \<times> outcome) call" where
  "deleteNote env owner device st oper =
     catchM (DeleteNote env (op_NoteID oper) owner (op_BaseNoteVersion oper))
       (\<lambda>err. if err = ErrNotFound then
            catchM (GetNoteForOwnerForUpdate env (op_NoteID oper) owner)
              (\<lambda>lookupErr. if lookupErr = ErrNotFound
                 then returnM (st, Rejected (RejectedNotFound oper ''Note not found.''))
                 else failM lookupErr)
              (\<lambda>current. returnM (st, Rejected (RejectedConflict oper (nt_CurrentVersion current))))
          else failM err)
       (\<lambda>deleted.
          let n = (case st_note st of
                     None \<Rightarrow> deleted
                   | Some n \<Rightarrow> n\<lparr>nt_DeletedAt := nt_DeletedAt deleted, nt_UpdatedAt := nt_UpdatedAt deleted\<rparr>)
          in bindM (acceptOperationChange env owner device n oper None) (\<lambda>out.
             returnM (st\<lparr>st_note := Some n, st_noteLoaded := True\<rparr>, out)))"

definition modifyNoteProperty :: "env \<Rightarrow> uuid \<Rightarrow> string \<Rightarrow> noteBatchState \<Rightarrow> ClientOperation \<Rightarrow>
    (noteBatchState \<times> outcome) call" where
  "modifyNoteProperty env owner device st oper =
     (case NoteMutation_FromRequest (e_codec env) (op_ChangeData oper) OperationModifyNoteProperty of
        Inl e \<Rightarrow> returnM (st, Rejected (RejectedInvalid oper e))
      | Inr mutation \<Rightarrow>
          withNote env owner st oper (\<lambda>st' n.
            let n' = n\<lparr>nt_NoteProperties := mu_NoteProperties mutation\<rparr> in
            bindM (acceptOperationChange env owner device n' oper None) (\<lambda>out.
            returnM (st'\<lparr>st_note := Some n'\<rparr>, out))))"

subsection \<open>Text deltas\<close>

definition applyTextDelta :: "string \<Rightarrow> TextDelta \<Rightarrow> string + string" where
  "applyTextDelta text delta =
     (let textRunes = runes text; len = int (length textRunes) in
      if td_Index delta < 0 \<or> td_Index delta > len then Inl ''Text delta index is out of range.''
      else if td_DeleteCount delta < 0 then Inl ''Text delta delete count is invalid.''
      else if td_DeleteCount delta > len - td_Index delta
        then Inl ''Text delta delete range is out of range.''
      else let end = td_Index delta + td_DeleteCount delta in
        Inr (string_of_runes (take (nat (td_Index delta)) textRunes @ runes (td_InsertText delta)
               @ drop (nat end) textRunes)))"

definition modifyNoteTitle :: "env \<Rightarrow> uuid \<Rightarrow> string \<Rightarrow> noteBatchState \<Rightarrow> ClientOperation \<Rightarrow>
    (noteBatchState \<times> outcome) call" where
  "modifyNoteTitle env owner device st oper =
     (case NoteMutation_FromRequest (e_codec env) (op_ChangeData oper) OperationModifyNoteTitle of
        Inl e \<Rightarrow> returnM (st, Rejected (RejectedInvalid oper e))
      | Inr mutation \<Rightarrow>
          withNote env owner st oper (\<lambda>st' n.
            case applyTextDelta (nt_Title n) (mu_TextDelta mutation) of
              Inl e \<Rightarrow> returnM (st', Rejected (RejectedInvalid oper e))
            | Inr title \<Rightarrow>
                let n' = n\<lparr>nt_Title := title\<rparr> in
                bindM (acceptOperationChange env owner device n' oper None) (\<lambda>out.
                returnM (st'\<lparr>st_note := Some n'\<rparr>, out))))"

subsection \<open>Block operations (\<open>block_operations.go\<close>)\<close>

definition createBlock :: "env \<Rightarrow> uuid \<Rightarrow> string \<Rightarrow> noteBatchState \<Rightarrow> ClientOperation \<Rightarrow>
    (noteBatchState \<times> outcome) call" where
  "createBlock env owner device st oper =
     (case bindE (BlockModel_FromCreateOperation (e_codec env) (op_ChangeData oper))
             (BlockModel_Entity (e_codec env) (op_NoteID oper)) of
        Inl e \<Rightarrow> returnM (st, Rejected (RejectedInvalid oper e))
      | Inr b \<Rightarrow>
          withNote env owner st oper (\<lambda>st' n.
            if st_blocks st' (bl_ID b) \<noteq> None
            then returnM (st', Rejected (RejectedInvalid oper ''block already exists.''))
            else catchM (CreateBlock env b)
              (\<lambda>err. if IsUniqueViolation err
                      then returnM (st', Rejected (RejectedInvalid oper ''block already exists.''))
                      else failM err)
              (\<lambda>_. bindM (acceptOperationChange env owner device n oper (Some (bl_ID b))) (\<lambda>out.
                 returnM (st'\<lparr>st_blocks := (st_blocks st')(bl_ID b \<mapsto> b),
                    st_missingBlocks := st_missingBlocks st' - {bl_ID b}\<rparr>, out)))))"

definition deleteBlock :: "env \<Rightarrow> uuid \<Rightarrow> string \<Rightarrow> noteBatchState \<Rightarrow> ClientOperation \<Rightarrow>
    (noteBatchState \<times> outcome) call" where
  "deleteBlock env owner device st oper =
     (case BlockMutation_FromRequest (e_codec env) (op_ChangeData oper) OperationDeleteBlock of
        Inl e \<Rightarrow> returnM (st, Rejected (RejectedInvalid oper e))
      | Inr mutation \<Rightarrow>
          withNote env owner st oper (\<lambda>st' n. let i = mb_ID mutation in
            case st_blocks st' i of
              Some b \<Rightarrow>
                bindM (timeNow env) (\<lambda>now.
                let b' = b\<lparr>bl_DeletedAt := Some now\<rparr> in
                bindM (UpdateBlockState env b') (\<lambda>_.
                bindM (acceptOperationChange env owner device n oper (Some i)) (\<lambda>out.
                returnM (st'\<lparr>st_blocks := (st_blocks st')(i \<mapsto> b'),
                   st_dirtyBlocks := removeAll i (st_dirtyBlocks st')\<rparr>, out))))
            | None \<Rightarrow>
                catchM (DeleteBlock env i (op_NoteID oper))
                  (\<lambda>err. if err = ErrNotFound
                          then returnM (st', Rejected (RejectedNotFound oper ''Block not found.''))
                          else failM err)
                  (\<lambda>deleted.
                     bindM (acceptOperationChange env owner device n oper (Some i)) (\<lambda>out.
                     returnM (st'\<lparr>st_blocks := (st_blocks st')(i \<mapsto> deleted)\<rparr>, out)))))"

text \<open>The edits of \<open>modifyBlock\<close> on the loaded block.\<close>

definition editBlock :: "BlockMutation \<Rightarrow> NoteBlock \<Rightarrow> string + NoteBlock" where
  "editBlock mutation b =
     (let b1 = (if mb_HasProperties mutation
                then b\<lparr>bl_BlockProperties := mb_BlockProperties mutation\<rparr> else b) in
      if mb_HasTextDelta mutation then
        bindE (applyTextDelta (bl_TextContent b1) (mb_TextDelta mutation))
          (\<lambda>text. Inr (b1\<lparr>bl_TextContent := text\<rparr>))
      else Inr b1)"

definition modifyBlock :: "env \<Rightarrow> uuid \<Rightarrow> string \<Rightarrow> noteBatchState \<Rightarrow> ClientOperation \<Rightarrow>
    (noteBatchState \<times> outcome) call" where
  "modifyBlock env owner device st oper =
     (case BlockMutation_FromRequest (e_codec env) (op_ChangeData oper) OperationModifyBlock of
        Inl e \<Rightarrow> returnM (st, Rejected (RejectedInvalid oper e))
      | Inr mutation \<Rightarrow>
          withNote env owner st oper (\<lambda>st' n. let i = mb_ID mutation in
            bindM (ensureBlock env (op_NoteID oper) i st') (\<lambda>(st2, found).
            case found of
              None \<Rightarrow> returnM (st2, Rejected (RejectedNotFound oper ''Block not found.''))
            | Some b \<Rightarrow>
                (case editBlock mutation b of
                   Inl e \<Rightarrow> returnM (st2, Rejected (RejectedInvalid oper e))
                 | Inr b' \<Rightarrow>
                     bindM (acceptOperationChange env owner device n oper (Some i)) (\<lambda>out.
                     returnM (st2\<lparr>st_blocks := (st_blocks st2)(i \<mapsto> b'),
                        st_dirtyBlocks := List.insert i (st_dirtyBlocks st2)\<rparr>, out))))))"

subsection \<open>One operation (\<open>applyOperation\<close>)\<close>

definition with_state :: "noteBatchState \<Rightarrow> outcome call \<Rightarrow> (noteBatchState \<times> outcome) call" where
  "with_state st m = bindM m (\<lambda>out. returnM (st, out))"

text \<open>The dispatch on the operation type.\<close>

definition dispatchOperation :: "env \<Rightarrow> uuid \<Rightarrow> string \<Rightarrow> noteBatchState \<Rightarrow> ClientOperation \<Rightarrow>
    (noteBatchState \<times> outcome) call" where
  "dispatchOperation env owner device st oper = (let t = op_OperationType oper in
     if t = OperationCreateNote then createNote env owner device st oper
     else if t = OperationDeleteNote then deleteNote env owner device st oper
     else if t = OperationModifyNoteProperty then modifyNoteProperty env owner device st oper
     else if t = OperationModifyNoteTitle then modifyNoteTitle env owner device st oper
     else if t = OperationCreateBlock then createBlock env owner device st oper
     else if t = OperationDeleteBlock then deleteBlock env owner device st oper
     else if t = OperationModifyBlock then modifyBlock env owner device st oper
     else if t = OperationCreateCategory then with_state st (createCategory env owner device oper)
     else if t = OperationDeleteCategory then with_state st (deleteCategory env owner device oper)
     else if t = OperationModifyCategory then with_state st (modifyCategory env owner device oper)
     else returnM (st, Rejected (RejectedInvalid oper (RequestKeyOperationType @ '' is unsupported.''))))"

text \<open>
  \<open>applyOperation\<close>: the state, the outcome, and whether the operation changed something, which
  for a fresh operation is that it was not rejected.
\<close>

definition applyOperation :: "env \<Rightarrow> uuid \<Rightarrow> string \<Rightarrow> noteBatchState \<Rightarrow> ClientOperation \<Rightarrow>
    (noteBatchState \<times> outcome \<times> bool) call" where
  "applyOperation env owner device st oper =
     catchM (FindProcessedOperation env device (op_OperationID oper))
       (\<lambda>err. if err \<noteq> ErrNotFound then failM err
          else case Operation_FromRequest oper of
            Inl e \<Rightarrow> returnM (st, Rejected (RejectedInvalid oper e), False)
          | Inr _ \<Rightarrow>
              bindM (dispatchOperation env owner device st oper) (\<lambda>(st', out).
              returnM (st', out, case out of Accepted _ \<Rightarrow> True | Rejected _ \<Rightarrow> False)))
       (\<lambda>processed.
          bindM (if op_NoteID oper \<noteq> Nil_uuid then ensureNote env owner (op_NoteID oper) st else returnM st)
            (\<lambda>st'. returnM (st', Accepted (acceptedFromChange processed), False)))"

subsection \<open>One batch (\<open>applyOperationBatch\<close>)\<close>

text \<open>The loop inside the savepoint, with \<open>changed\<close> and \<open>latestCursor\<close>.\<close>

fun applyOperations :: "env \<Rightarrow> uuid \<Rightarrow> string \<Rightarrow> ClientOperation list \<Rightarrow> noteBatchState \<Rightarrow> bool \<Rightarrow> int \<Rightarrow>
    (noteBatchState \<times> bool \<times> int) call" where
  "applyOperations env owner device [] st changed latestCursor = returnM (st, changed, latestCursor)"
| "applyOperations env owner device (oper # opers) st changed latestCursor =
     bindM (applyOperation env owner device st oper) (\<lambda>(st', out, operationChanged).
     case out of
       Rejected r \<Rightarrow> failM (ErrBatchRejected r)
     | Accepted a \<Rightarrow>
         applyOperations env owner device opers st' (changed \<or> operationChanged)
           (if operationChanged \<and> ac_GlobalSequence a > latestCursor
            then ac_GlobalSequence a else latestCursor))"

definition rejectedBatchDTO :: "ClientOperation \<Rightarrow> RejectedDTO \<Rightarrow> NoteDocument option \<Rightarrow> RejectedDTO" where
  "rejectedBatchDTO first failed document =
     (let rejected = failed\<lparr>rj_NoteID := op_NoteID first\<rparr> in
      if op_NoteID first = Nil_uuid then rejected
      else case document of
        None \<Rightarrow> rejected
      | Some doc \<Rightarrow> (case NoteSnapshot_FromEntity doc of
          Inl _ \<Rightarrow> rejected
        | Inr snapshot \<Rightarrow>
            let r1 = rejected\<lparr>rj_NoteSnapshot := Some snapshot\<rparr> in
            if rj_ServerNoteVersion r1 = 0
            then r1\<lparr>rj_ServerNoteVersion := nt_CurrentVersion (nd_Note doc)\<rparr> else r1))"

text \<open>The document for a rejected batch; a note that does not exist is no error.\<close>

definition loadRejectionDocument :: "env \<Rightarrow> uuid \<Rightarrow> uuid \<Rightarrow> NoteDocument option call" where
  "loadRejectionDocument env note owner =
     (if note = Nil_uuid then returnM None
      else catchM (GetNoteDocumentForOwnerForUpdate env note owner)
        (\<lambda>err. if err = ErrNotFound then returnM None else failM err)
        (\<lambda>doc. returnM (Some doc)))"

definition updateDirtyBlocks :: "env \<Rightarrow> noteBatchState \<Rightarrow> unit call" where
  "updateDirtyBlocks env st = forM (st_dirtyBlocks st) (\<lambda>i.
     case st_blocks st i of None \<Rightarrow> failM ErrPanic | Some b \<Rightarrow> UpdateBlockState env b)"

text \<open>What follows an accepted loop: the note row, the dirty blocks and the snapshot job.\<close>

definition persistBatch :: "env \<Rightarrow> Service \<Rightarrow> uuid \<Rightarrow> noteBatchState \<Rightarrow> bool \<Rightarrow> Note option call" where
  "persistBatch env sv owner st changed = (case st_note st of
     None \<Rightarrow> returnM None
   | Some n0 \<Rightarrow>
       if \<not> changed then returnM (Some n0)
       else let n = n0\<lparr>nt_CurrentVersion := int64 (nt_CurrentVersion n0 + 1)\<rparr> in
         bindM (UpdateNoteState env n) (\<lambda>_.
         bindM (updateDirtyBlocks env st) (\<lambda>_.
         bindM (enqueueSnapshotIfNeeded env sv (nt_ID n) owner (nt_CurrentVersion n)) (\<lambda>_.
         returnM (Some n)))))"

definition applyOperationBatch :: "env \<Rightarrow> Service \<Rightarrow> uuid \<Rightarrow> string \<Rightarrow> ClientOperation list \<Rightarrow>
    outcome option call" where
  "applyOperationBatch env sv owner device operations0 = (case sortedOperations operations0 of
     [] \<Rightarrow> returnM None
   | first # rest \<Rightarrow>
       catchM (WithSavepoint env (applyOperations env owner device (first # rest) newNoteBatchState False 0))
         (\<lambda>err. case err of
            ErrBatchRejected failed \<Rightarrow>
              bindM (loadRejectionDocument env (op_NoteID first) owner) (\<lambda>document.
              returnM (Some (Rejected (rejectedBatchDTO first failed document))))
          | _ \<Rightarrow> failM err)
         (\<lambda>(st, changed, latestCursor).
            bindM (persistBatch env sv owner st changed) (\<lambda>note.
            returnM (Some (Accepted \<lparr>ac_NoteID = op_NoteID first,
              ac_ServerNoteVersion = (case note of None \<Rightarrow> 0 | Some n \<Rightarrow> nt_CurrentVersion n),
              ac_GlobalSequence = latestCursor\<rparr>)))))"

end
