(* ===== verification/Sync_Service.thy ===== *)
theory Sync_Service
  imports Sync_Batch
begin

section \<open>Sync services: push, pull, update check and full notes\<close>

text \<open>
  \<open>internal/sync/services/{push_service,pull_service,full_note_service,
  notification_service}.go\<close>. A push runs in one transaction and applies the operations note by
  note; a pull returns a page of the history of the other devices and moves the cursor of the
  requesting device. The hint to other devices is published after the commit.
\<close>

subsection \<open>Push\<close>

text \<open>The device check that push and pull share (a lock on the device row in the source).\<close>

definition lockDevice :: "env \<Rightarrow> string \<Rightarrow> uuid \<Rightarrow> SyncDevice call" where
  "lockDevice env device owner =
     catchM (GetDeviceForOwnerForUpdate env device owner)
       (\<lambda>err. if err = ErrNotFound then failM DeviceForbidden else failM err)
       (\<lambda>d. if dv_RevokedAt d \<noteq> None then failM DeviceRevoked else returnM d)"

text \<open>The loop over the runs of operations with the same note identifier.\<close>

function pushBatches :: "env \<Rightarrow> Service \<Rightarrow> uuid \<Rightarrow> string \<Rightarrow> ClientOperation list \<Rightarrow> Response \<Rightarrow> int \<Rightarrow>
    (Response \<times> int) call" where
  "pushBatches env sv owner device [] resp committedCursor = returnM (resp, committedCursor)"
| "pushBatches env sv owner device (oper # opers) resp committedCursor =
     (let same = (\<lambda>o'. op_NoteID o' = op_NoteID oper) in
      bindM (applyOperationBatch env sv owner device (oper # takeWhile same opers)) (\<lambda>out.
      case out of
        Some (Rejected r) \<Rightarrow>
          pushBatches env sv owner device (dropWhile same opers)
            (resp\<lparr>rs_Rejected := rs_Rejected resp @ [r]\<rparr>) committedCursor
      | Some (Accepted a) \<Rightarrow>
          pushBatches env sv owner device (dropWhile same opers)
            (resp\<lparr>rs_Accepted := rs_Accepted resp @ [a]\<rparr>)
            (if ac_GlobalSequence a > committedCursor then ac_GlobalSequence a else committedCursor)
      | None \<Rightarrow> pushBatches env sv owner device (dropWhile same opers) resp committedCursor))"
  by pat_completeness auto
termination
  by (relation "measure (\<lambda>(_, _, _, _, opers, _, _). length opers)")
     (auto simp: le_imp_less_Suc length_dropWhile_le)

text \<open>
  \<open>publishCommittedSyncAvailable\<close>: the event reaches the bus or is logged as lost; the result of
  the push does not depend on it.
\<close>

definition publishCommittedSyncAvailable :: "env \<Rightarrow> Service \<Rightarrow> uuid \<Rightarrow> string \<Rightarrow> int \<Rightarrow> unit call" where
  "publishCommittedSyncAvailable env sv owner device latestCursor w =
     (if latestCursor \<le> 0 \<or> \<not> sv_hasEventBus sv then (Inr (), w)
      else if e_fault env (w_tick w) then (Inr (), tick w)
      else (Inr (), (tick w)\<lparr>w_events := w_events w @ [\<lparr>ev_UserID = owner,
        ev_OriginDeviceID = device, ev_LatestCursor = latestCursor\<rparr>]\<rparr>))"

definition emptyResponse :: Response where
  "emptyResponse = \<lparr>rs_Accepted = [], rs_Rejected = []\<rparr>"

definition syncTx :: "env \<Rightarrow> Service \<Rightarrow> uuid \<Rightarrow> Request \<Rightarrow> (Response \<times> int) call" where
  "syncTx env sv owner req =
     bindM (lockDevice env (rq_DeviceID req) owner) (\<lambda>_.
     pushBatches env sv owner (rq_DeviceID req) (sortedOperations (rq_Operations req)) emptyResponse 0)"

definition Sync :: "env \<Rightarrow> Service \<Rightarrow> uuid \<Rightarrow> Request \<Rightarrow> Response call" where
  "Sync env sv owner req = (case Request_Validate (sv_maxOperations sv) req of
     Some err \<Rightarrow> failM err
   | None \<Rightarrow>
       bindM (WithTx env (syncTx env sv owner req)) (\<lambda>(resp, committedCursor).
       bindM (publishCommittedSyncAvailable env sv owner (rq_DeviceID req) committedCursor) (\<lambda>_.
       returnM resp)))"

subsection \<open>Pull\<close>

definition nextCursor :: "int \<Rightarrow> PulledChange list \<Rightarrow> int" where
  "nextCursor start changes =
     foldl (\<lambda>next c. if pc_GlobalSequence c > next then pc_GlobalSequence c else next) start changes"

definition pullLimit :: "Service \<Rightarrow> int" where
  "pullLimit sv = (if sv_defaultPullLimit sv > sv_maxPullLimit sv
                   then sv_maxPullLimit sv else sv_defaultPullLimit sv)"

text \<open>
  The page that the rows of the query become; \<open>changes[:limit]\<close> with a negative limit panics.
\<close>

definition pullPage :: "int \<Rightarrow> int \<Rightarrow> NoteChange list \<Rightarrow> go_error + PullResponse" where
  "pullPage limit cursor changes =
     (let more = int32 (int (length changes)) > limit in
      if more \<and> limit < 0 then Inl ErrPanic
      else case mapE PulledChange_FromEntity (if more then take (nat limit) changes else changes) of
        Inl e \<Rightarrow> Inl (ErrText e)
      | Inr pulled \<Rightarrow> Inr \<lparr>pl_Changes = pulled, pl_HasMore = more,
          pl_NextCursor = nextCursor cursor pulled\<rparr>)"

definition pullTx :: "env \<Rightarrow> Service \<Rightarrow> uuid \<Rightarrow> PullRequest \<Rightarrow> PullResponse call" where
  "pullTx env sv owner req =
     bindM (lockDevice env (pr_DeviceID req) owner) (\<lambda>_.
     bindM (GetChangesAfterCursor env owner (pr_Cursor req) (pr_DeviceID req)
             (int32 (pullLimit sv + 1))) (\<lambda>changes.
     bindM (liftM id (pullPage (pullLimit sv) (pr_Cursor req) changes)) (\<lambda>resp.
     bindM (UpdateDeviceCursor env (pr_DeviceID req) owner (pl_NextCursor resp)) (\<lambda>_.
     returnM resp))))"

definition Pull :: "env \<Rightarrow> Service \<Rightarrow> uuid \<Rightarrow> PullRequest \<Rightarrow> PullResponse call" where
  "Pull env sv owner req = (case PullRequest_Validate req of
     Some err \<Rightarrow> failM err
   | None \<Rightarrow> WithTx env (pullTx env sv owner req))"

definition UpdatesAvailable :: "env \<Rightarrow> uuid \<Rightarrow> UpdatesAvailableRequest \<Rightarrow> bool call" where
  "UpdatesAvailable env owner req = (case UpdatesAvailableRequest_Validate req of
     Some err \<Rightarrow> failM err
   | None \<Rightarrow>
       catchM (GetDeviceForOwner env (ua_DeviceID req) owner)
         (\<lambda>err. if err = ErrNotFound then failM DeviceForbidden else failM err)
         (\<lambda>d. if dv_RevokedAt d \<noteq> None then failM DeviceRevoked
              else HasChangesAfterCursor env owner (dv_LastGlobalCursor d) (ua_DeviceID req)))"

subsection \<open>Full notes\<close>

fun fullNotes :: "env \<Rightarrow> uuid \<Rightarrow> uuid list \<Rightarrow> NoteSnapshot list call" where
  "fullNotes env owner [] = returnM []"
| "fullNotes env owner (i # is) =
     catchM (GetNoteDocument env i owner)
       (\<lambda>err. if err = ErrNotFound then failM (NotFound ''Note not found.'') else failM err)
       (\<lambda>doc. bindM (liftM ErrText (NoteSnapshot_FromEntity doc)) (\<lambda>snapshot.
          bindM (fullNotes env owner is) (\<lambda>snapshots. returnM (snapshot # snapshots))))"

definition SyncFullNote :: "env \<Rightarrow> Service \<Rightarrow> uuid \<Rightarrow> FullNoteRequest \<Rightarrow> NoteSnapshot list call" where
  "SyncFullNote env sv owner req =
     (if \<not> ValidDeviceID (fr_DeviceID req)
      then failM (InvalidRequest (RequestKeyDeviceID @ '' is required and must be 30 characters or fewer.''))
      else if fr_NoteIDs req = []
      then failM (InvalidRequest ''noteIds must contain at least one note ID.'')
      else if int (length (fr_NoteIDs req)) > sv_maxOperations sv
      then failM (ErrApi (NewError 413 ''PAYLOAD_TOO_LARGE''
             ''The full-note request contains too many note IDs.''))
      else if Nil_uuid \<in> set (fr_NoteIDs req)
      then failM (InvalidRequest ''noteIds must contain valid UUIDs.'')
      else
        catchM (GetDeviceForOwner env (fr_DeviceID req) owner)
          (\<lambda>err. if err = ErrNotFound then failM DeviceForbidden else failM err)
          (\<lambda>d. if dv_RevokedAt d \<noteq> None then failM DeviceRevoked
               else fullNotes env owner (fr_NoteIDs req)))"

end
