(* ===== verification/Uploads.thy ===== *)
theory Uploads
  imports Jobs
begin

section \<open>File uploads\<close>

text \<open>
  \<open>internal/uploads\<close>, \<open>internal/store/uploads.go\<close> with its statements, and the reconciliation of
  abandoned uploads of \<open>internal/jobs/cleanup.go\<close>. A row of \<open>file_uploads\<close> is created before the
  client gets a signed authorization, and moves through the states PENDING, COMPLETED, FAILED,
  EXPIRED, CANCELLED and DELETED.

  The object storage is an HTTP service behind the interface \<open>storage.Storage\<close>: a record of functions
  that give, for each tick of the model's clock, the result of a call. Outside of the repository are
  also the parser of media types and the table of file extensions of the host (\<open>mime\<close>) and the
  Unicode tables of \<open>strings.ToLower\<close>.
\<close>

record SignedUpload =
  su_URL :: string
  su_Token :: string

record ObjectInfo =
  oi_Size :: int
  oi_ContentType :: string

text \<open>\<open>ErrStorageUpstream\<close> stands for \<open>storage.ErrUpstream\<close> and \<open>storage.ErrInvalidResponse\<close>.\<close>

record storage =
  st_CreateSignedUploadURL :: "nat \<Rightarrow> string \<Rightarrow> string \<Rightarrow> go_error + SignedUpload"
  st_GetObjectInfo :: "nat \<Rightarrow> string \<Rightarrow> string \<Rightarrow> go_error + ObjectInfo"
  st_CreateSignedDownloadURL :: "nat \<Rightarrow> string \<Rightarrow> string \<Rightarrow> int \<Rightarrow> go_error + string"
  st_DeleteObject :: "nat \<Rightarrow> string \<Rightarrow> string \<Rightarrow> go_error + unit"

definition storage_call :: "(nat \<Rightarrow> go_error + 'a) \<Rightarrow> 'a call" where
  "storage_call f w = (f (w_tick w), tick w)"

record media =
  md_ParseMediaType :: "string \<Rightarrow> string option"
  md_ExtensionsByType :: "string \<Rightarrow> string list option"
  md_ToLower :: "string \<Rightarrow> string"

abbreviation (input) "StatusPending \<equiv> ''PENDING''"
abbreviation (input) "StatusCompleted \<equiv> ''COMPLETED''"
abbreviation (input) "StatusFailed \<equiv> ''FAILED''"
abbreviation (input) "StatusExpired \<equiv> ''EXPIRED''"
abbreviation (input) "StatusCancelled \<equiv> ''CANCELLED''"
abbreviation (input) "StatusDeleted \<equiv> ''DELETED''"

subsection \<open>Rows and statements\<close>

record FileUpload =
  fu_ID :: uuid
  fu_NoteID :: uuid
  fu_OwnerID :: uuid
  fu_BlockID :: uuid
  fu_Cursor :: int
  fu_DeviceID :: string
  fu_OriginalFilename :: string
  fu_StorageBucket :: string
  fu_StoragePath :: string
  fu_ContentType :: string
  fu_ExpectedSize :: int
  fu_ActualSize :: "int option"
  fu_VerifiedContentType :: "string option"
  fu_Status :: string
  fu_ErrorMessage :: "string option"
  fu_ExpiresAt :: time
  fu_CompletedAt :: "time option"
  fu_CreatedAt :: time
  fu_UpdatedAt :: time

definition zeroFileUpload :: FileUpload where
  "zeroFileUpload = \<lparr>fu_ID = Nil_uuid, fu_NoteID = Nil_uuid, fu_OwnerID = Nil_uuid, fu_BlockID = Nil_uuid,
     fu_Cursor = 0, fu_DeviceID = [], fu_OriginalFilename = [], fu_StorageBucket = [], fu_StoragePath = [],
     fu_ContentType = [], fu_ExpectedSize = 0, fu_ActualSize = None, fu_VerifiedContentType = None,
     fu_Status = [], fu_ErrorMessage = None, fu_ExpiresAt = zeroTime, fu_CompletedAt = None,
     fu_CreatedAt = zeroTime, fu_UpdatedAt = zeroTime\<rparr>"

definition fromDBFileUpload :: "file_upload_row \<Rightarrow> FileUpload" where
  "fromDBFileUpload v = \<lparr>fu_ID = ur_ID v, fu_NoteID = ur_NoteID v, fu_OwnerID = ur_OwnerID v,
     fu_BlockID = ur_BlockID v, fu_Cursor = (case ur_Cursor v of None \<Rightarrow> 0 | Some n \<Rightarrow> n),
     fu_DeviceID = (case ur_DeviceID v of None \<Rightarrow> [] | Some s \<Rightarrow> s),
     fu_OriginalFilename = ur_OriginalFilename v, fu_StorageBucket = ur_StorageBucket v,
     fu_StoragePath = ur_StoragePath v, fu_ContentType = ur_ContentType v,
     fu_ExpectedSize = ur_ExpectedSize v, fu_ActualSize = ur_ActualSize v,
     fu_VerifiedContentType = ur_VerifiedContentType v, fu_Status = ur_Status v,
     fu_ErrorMessage = ur_ErrorMessage v, fu_ExpiresAt = ur_ExpiresAt v,
     fu_CompletedAt = ur_CompletedAt v, fu_CreatedAt = ur_CreatedAt v, fu_UpdatedAt = ur_UpdatedAt v\<rparr>"

definition on_uploads :: "(file_upload_row list \<Rightarrow> file_upload_row list) \<Rightarrow> core \<Rightarrow> core" where
  "on_uploads f c = c\<lparr>c_db := (c_db c)\<lparr>t_file_uploads := f (t_file_uploads (c_db c))\<rparr>\<rparr>"

definition nonempty_text :: "string \<Rightarrow> string option" where
  "nonempty_text s = (if s = [] then None else Some s)"

text \<open>The number of the row is drawn before the constraints are checked.\<close>

definition CreateFileUpload_sql :: "env \<Rightarrow> FileUpload \<Rightarrow> file_upload_row call" where
  "CreateFileUpload_sql env u = exec env (\<lambda>now c.
     let i = c_upload_seq c + 1;
         c' = c\<lparr>c_upload_seq := i\<rparr>;
         device = nonempty_text (fu_DeviceID u);
         rows = t_file_uploads (c_db c);
         row = \<lparr>ur_ID = fu_ID u, ur_NoteID = fu_NoteID u, ur_OwnerID = fu_OwnerID u, ur_BlockID = fu_BlockID u,
           ur_OriginalFilename = fu_OriginalFilename u, ur_StorageBucket = fu_StorageBucket u,
           ur_StoragePath = fu_StoragePath u, ur_ContentType = fu_ContentType u,
           ur_ExpectedSize = fu_ExpectedSize u, ur_ActualSize = None, ur_VerifiedContentType = None,
           ur_Status = StatusPending, ur_ErrorMessage = None, ur_ExpiresAt = pg_micros (fu_ExpiresAt u),
           ur_CompletedAt = None, ur_CreatedAt = now, ur_UpdatedAt = now, ur_Cursor = Some i,
           ur_DeviceID = device\<rparr>
     in if i > max_int64 then (Inl ErrDB, c)
        else if RuneCountInString (fu_DeviceID u) > 30 \<or> fu_ExpectedSize u \<le> 0 then (Inl ErrDB, c')
        else if lookup ur_ID rows (fu_ID u) \<noteq> None
          \<or> lookup (\<lambda>r. (ur_StorageBucket r, ur_StoragePath r)) rows (fu_StorageBucket u, fu_StoragePath u) \<noteq> None
          \<or> lookup ur_Cursor rows (Some i) \<noteq> None
        then (Inl ErrUnique, c')
        else if find (note_owned (fu_NoteID u) (fu_OwnerID u)) (t_notes (c_db c)) = None
          \<or> find (block_in (fu_BlockID u) (fu_NoteID u)) (t_note_blocks (c_db c)) = None
          \<or> (case device of None \<Rightarrow> False | Some d \<Rightarrow> lookup dv_ID (t_sync_devices (c_db c)) d = None)
        then (Inl ErrForeignKey, c')
        else (Inr row, on_uploads (\<lambda>rows. rows @ [row]) c'))"

definition CreateFileUpload :: "env \<Rightarrow> FileUpload \<Rightarrow> FileUpload call" where
  "CreateFileUpload env upload =
     bindM (CreateFileUpload_sql env upload) (\<lambda>row. returnM (fromDBFileUpload row))"

definition one_upload :: "file_upload_row option \<Rightarrow> FileUpload call" where
  "one_upload row = bindM (mapNoRows row) (\<lambda>r. returnM (fromDBFileUpload r))"

definition GetFileUploadForOwner_sql :: "env \<Rightarrow> uuid \<Rightarrow> uuid \<Rightarrow> file_upload_row option call" where
  "GetFileUploadForOwner_sql env i owner = query env (\<lambda>now d.
     find (\<lambda>r. ur_ID r = i \<and> ur_OwnerID r = owner) (t_file_uploads d))"

definition GetFileUploadForOwner :: "env \<Rightarrow> uuid \<Rightarrow> uuid \<Rightarrow> FileUpload call" where
  "GetFileUploadForOwner env uploadID ownerID = bindM (GetFileUploadForOwner_sql env uploadID ownerID) one_upload"

text \<open>\<open>ORDER BY cursor DESC\<close> puts a null first.\<close>

definition GetFileUploadForBlockForOwner_sql :: "env \<Rightarrow> uuid \<Rightarrow> uuid \<Rightarrow> file_upload_row option call" where
  "GetFileUploadForBlockForOwner_sql env block owner = query env (\<lambda>now d.
     case sort_key (\<lambda>r. case ur_Cursor r of None \<Rightarrow> (0 :: int, 0 :: int) | Some n \<Rightarrow> (1, - n))
       (filter (\<lambda>r. ur_BlockID r = block \<and> ur_OwnerID r = owner) (t_file_uploads d)) of
       [] \<Rightarrow> None | r # _ \<Rightarrow> Some r)"

definition GetFileUploadForBlockForOwner :: "env \<Rightarrow> uuid \<Rightarrow> uuid \<Rightarrow> FileUpload call" where
  "GetFileUploadForBlockForOwner env blockID ownerID =
     bindM (GetFileUploadForBlockForOwner_sql env blockID ownerID) one_upload"

definition pending_of :: "uuid \<Rightarrow> time \<Rightarrow> file_upload_row list \<Rightarrow> file_upload_row list" where
  "pending_of owner now rows =
     filter (\<lambda>r. ur_OwnerID r = owner \<and> ur_Status r = StatusPending \<and> ur_ExpiresAt r > now) rows"

definition CountPendingFileUploads_sql :: "env \<Rightarrow> uuid \<Rightarrow> int call" where
  "CountPendingFileUploads_sql env owner = query env (\<lambda>now d. int (length (pending_of owner now (t_file_uploads d))))"

definition CountPendingFileUploads :: "env \<Rightarrow> uuid \<Rightarrow> int call" where
  "CountPendingFileUploads env ownerID = CountPendingFileUploads_sql env ownerID"

definition after_cursor :: "uuid \<Rightarrow> int \<Rightarrow> file_upload_row \<Rightarrow> bool" where
  "after_cursor owner cursor r \<longleftrightarrow> ur_OwnerID r = owner \<and> (case ur_Cursor r of None \<Rightarrow> False | Some n \<Rightarrow> n > cursor)"

definition ListFileUploadsAfterCursor_sql :: "env \<Rightarrow> uuid \<Rightarrow> int \<Rightarrow> file_upload_row list call" where
  "ListFileUploadsAfterCursor_sql env owner cursor = query env (\<lambda>now d.
     sort_key (\<lambda>r. case ur_Cursor r of None \<Rightarrow> 0 | Some n \<Rightarrow> n) (filter (after_cursor owner cursor) (t_file_uploads d)))"

definition ListFileUploadsAfterCursor :: "env \<Rightarrow> uuid \<Rightarrow> int \<Rightarrow> FileUpload list call" where
  "ListFileUploadsAfterCursor env ownerID cursor =
     bindM (ListFileUploadsAfterCursor_sql env ownerID cursor) (\<lambda>rows. returnM (map fromDBFileUpload rows))"

definition ListExpiredFileUploads_sql :: "env \<Rightarrow> time \<Rightarrow> int \<Rightarrow> file_upload_row list call" where
  "ListExpiredFileUploads_sql env cutoff limit = query env (\<lambda>now d.
     take (nat limit) (sort_key ur_ExpiresAt
       (filter (\<lambda>r. ur_Status r = StatusPending \<and> ur_ExpiresAt r < pg_micros cutoff) (t_file_uploads d))))"

definition ListExpiredFileUploads :: "env \<Rightarrow> time \<Rightarrow> int \<Rightarrow> FileUpload list call" where
  "ListExpiredFileUploads env cutoff limit =
     bindM (ListExpiredFileUploads_sql env cutoff limit) (\<lambda>rows. returnM (map fromDBFileUpload rows))"

text \<open>The conditional updates of one row.\<close>

definition update_upload :: "env \<Rightarrow> (file_upload_row \<Rightarrow> bool) \<Rightarrow> (time \<Rightarrow> file_upload_row \<Rightarrow> file_upload_row) \<Rightarrow>
    file_upload_row option call" where
  "update_upload env cond upd = exec env (\<lambda>now c.
     (Inr (update_returning cond (upd now) (t_file_uploads (c_db c))), on_uploads (update_where cond (upd now)) c))"

definition MarkFileUploadFailed_sql :: "env \<Rightarrow> uuid \<Rightarrow> uuid \<Rightarrow> string option \<Rightarrow> file_upload_row option call" where
  "MarkFileUploadFailed_sql env i owner message = update_upload env
     (\<lambda>r. ur_ID r = i \<and> ur_OwnerID r = owner \<and> ur_Status r = StatusPending)
     (\<lambda>now r. r\<lparr>ur_Status := StatusFailed, ur_ErrorMessage := message, ur_UpdatedAt := now\<rparr>)"

definition MarkFileUploadFailed :: "env \<Rightarrow> uuid \<Rightarrow> uuid \<Rightarrow> string \<Rightarrow> FileUpload call" where
  "MarkFileUploadFailed env uploadID ownerID message =
     bindM (MarkFileUploadFailed_sql env uploadID ownerID (nonempty_text message)) one_upload"

text \<open>\<open>CHECK (actual_size IS NULL OR actual_size >= 0)\<close> makes the statement fail on a negative size.\<close>

definition CompleteFileUpload_sql :: "env \<Rightarrow> uuid \<Rightarrow> uuid \<Rightarrow> int \<Rightarrow> string option \<Rightarrow> file_upload_row option call" where
  "CompleteFileUpload_sql env i owner actualSize verified = exec env (\<lambda>now c.
     let cond = (\<lambda>r. ur_ID r = i \<and> ur_OwnerID r = owner \<and> ur_Status r = StatusPending);
         upd = (\<lambda>r. r\<lparr>ur_Status := StatusCompleted, ur_ActualSize := Some actualSize,
           ur_VerifiedContentType := verified, ur_ErrorMessage := None, ur_CompletedAt := Some now,
           ur_UpdatedAt := now\<rparr>) in
     if find cond (t_file_uploads (c_db c)) \<noteq> None \<and> actualSize < 0 then (Inl ErrDB, c)
     else (Inr (update_returning cond upd (t_file_uploads (c_db c))), on_uploads (update_where cond upd) c))"

definition CompleteFileUpload :: "env \<Rightarrow> uuid \<Rightarrow> uuid \<Rightarrow> int \<Rightarrow> string \<Rightarrow> FileUpload call" where
  "CompleteFileUpload env uploadID ownerID actualSize verifiedContentType =
     bindM (CompleteFileUpload_sql env uploadID ownerID actualSize (nonempty_text verifiedContentType)) one_upload"

definition MarkFileUploadDeleted_sql :: "env \<Rightarrow> uuid \<Rightarrow> uuid \<Rightarrow> file_upload_row option call" where
  "MarkFileUploadDeleted_sql env i owner = update_upload env
     (\<lambda>r. ur_ID r = i \<and> ur_OwnerID r = owner \<and> ur_Status r \<noteq> StatusDeleted)
     (\<lambda>now r. r\<lparr>ur_Status := StatusDeleted, ur_ErrorMessage := None, ur_UpdatedAt := now\<rparr>)"

definition MarkFileUploadDeleted :: "env \<Rightarrow> uuid \<Rightarrow> uuid \<Rightarrow> FileUpload call" where
  "MarkFileUploadDeleted env uploadID ownerID = bindM (MarkFileUploadDeleted_sql env uploadID ownerID) one_upload"

definition MarkFileUploadCancelled_sql :: "env \<Rightarrow> uuid \<Rightarrow> uuid \<Rightarrow> file_upload_row option call" where
  "MarkFileUploadCancelled_sql env i owner = update_upload env
     (\<lambda>r. ur_ID r = i \<and> ur_OwnerID r = owner \<and> ur_Status r \<noteq> StatusDeleted)
     (\<lambda>now r. r\<lparr>ur_Status := StatusCancelled, ur_UpdatedAt := now\<rparr>)"

definition MarkFileUploadCancelled :: "env \<Rightarrow> uuid \<Rightarrow> uuid \<Rightarrow> FileUpload call" where
  "MarkFileUploadCancelled env uploadID ownerID =
     bindM (MarkFileUploadCancelled_sql env uploadID ownerID) one_upload"

definition MarkFileUploadExpired_sql :: "env \<Rightarrow> uuid \<Rightarrow> string option \<Rightarrow> file_upload_row option call" where
  "MarkFileUploadExpired_sql env i message = update_upload env
     (\<lambda>r. ur_ID r = i \<and> ur_Status r = StatusPending)
     (\<lambda>now r. r\<lparr>ur_Status := StatusExpired, ur_ErrorMessage := message, ur_UpdatedAt := now\<rparr>)"

definition MarkFileUploadExpired :: "env \<Rightarrow> uuid \<Rightarrow> string \<Rightarrow> FileUpload call" where
  "MarkFileUploadExpired env uploadID message =
     bindM (MarkFileUploadExpired_sql env uploadID (nonempty_text message)) one_upload"

end
