(* ===== verification/Upload_Service.thy ===== *)
theory Upload_Service
  imports Uploads
begin

section \<open>The upload service and the cleaner\<close>

text \<open>
  \<open>internal/uploads/service.go\<close> and \<open>models.go\<close>, and \<open>internal/jobs/cleanup.go\<close>. The service checks
  the request, the device and the target block, keeps the row of an upload and the object in the
  storage consistent, and hands out signed links. The cleaner settles uploads whose authorization has
  expired. The second part of a request that re-reads a row after a lost race is a definition of its
  own, so that a concurrent request can be placed between the two parts.
\<close>

subsection \<open>Requests and responses (\<open>models.go\<close>)\<close>

record InitiateRequest =
  ir_NoteID :: uuid
  ir_BlockID :: uuid
  ir_DeviceID :: string
  ir_Filename :: string
  ir_ContentType :: string
  ir_Size :: int

record InitiateResponse =
  is_UploadID :: uuid
  is_Cursor :: int
  is_Status :: string
  is_Bucket :: string
  is_Path :: string
  is_ContentType :: string
  is_SignedURL :: string
  is_Token :: string
  is_ExpiresAt :: time

record FileMetadata =
  fm_Filename :: string
  fm_ContentType :: string
  fm_Size :: int

record UploadResponse =
  up_UploadID :: uuid
  up_Cursor :: int
  up_NoteID :: uuid
  up_BlockID :: uuid
  up_Status :: string
  up_File :: FileMetadata
  up_ExpectedSize :: int
  up_ActualSize :: "int option"
  up_VerifiedContentType :: string
  up_Bucket :: string
  up_Path :: string
  up_ExpiresAt :: time
  up_CompletedAt :: "time option"
  up_CreatedAt :: time
  up_UpdatedAt :: time

record DownloadURLResponse =
  du_Cursor :: int
  du_NoteID :: uuid
  du_BlockID :: uuid
  du_UploadID :: uuid
  du_SignedURL :: string
  du_ExpiresAt :: time

record DownloadLinksResponse =
  dl_Links :: "DownloadURLResponse list"
  dl_NextCursor :: int

definition responseFromEntity :: "FileUpload \<Rightarrow> UploadResponse" where
  "responseFromEntity u = \<lparr>up_UploadID = fu_ID u, up_Cursor = fu_Cursor u, up_NoteID = fu_NoteID u,
     up_BlockID = fu_BlockID u, up_Status = fu_Status u,
     up_File = \<lparr>fm_Filename = fu_OriginalFilename u,
       fm_ContentType = (case fu_VerifiedContentType u of None \<Rightarrow> fu_ContentType u | Some t \<Rightarrow> t),
       fm_Size = (case fu_ActualSize u of None \<Rightarrow> fu_ExpectedSize u | Some n \<Rightarrow> n)\<rparr>,
     up_ExpectedSize = fu_ExpectedSize u, up_ActualSize = fu_ActualSize u,
     up_VerifiedContentType = (case fu_VerifiedContentType u of None \<Rightarrow> [] | Some t \<Rightarrow> t),
     up_Bucket = fu_StorageBucket u, up_Path = fu_StoragePath u, up_ExpiresAt = fu_ExpiresAt u,
     up_CompletedAt = fu_CompletedAt u, up_CreatedAt = fu_CreatedAt u, up_UpdatedAt = fu_UpdatedAt u\<rparr>"

subsection \<open>Validation\<close>

definition TrimSuffix :: "string \<Rightarrow> string \<Rightarrow> string" where
  "TrimSuffix s suf = (if length suf \<le> length s \<and> drop (length s - length suf) s = suf
     then take (length s - length suf) s else s)"

definition HasSuffix :: "string \<Rightarrow> string \<Rightarrow> bool" where
  "HasSuffix s suf \<longleftrightarrow> length suf \<le> length s \<and> drop (length s - length suf) s = suf"

definition HasPrefix :: "string \<Rightarrow> string \<Rightarrow> bool" where
  "HasPrefix s pre \<longleftrightarrow> take (length pre) s = pre"

text \<open>\<open>utf8.ValidString\<close>: no byte is read as the replacement character of width one.\<close>

fun valid_piece :: "nat \<times> string \<Rightarrow> bool" where
  "valid_piece (r, piece) \<longleftrightarrow> r \<noteq> RuneError \<or> length piece \<noteq> 1"

definition ValidString :: "string \<Rightarrow> bool" where
  "ValidString s \<longleftrightarrow> list_all valid_piece (rune_pieces s)"

lemma valid_piece_code [code]:
  "valid_piece (r, piece) = (if r < 128 then True else r \<noteq> RuneError \<or> length piece \<noteq> 1)"
  by auto

text \<open>\<open>unicode.IsControl\<close>\<close>

definition IsControl :: "nat \<Rightarrow> bool" where
  "IsControl r \<longleftrightarrow> within 0 31 r \<or> within 127 159 r"

definition normalizedContentType :: "media \<Rightarrow> string \<Rightarrow> string" where
  "normalizedContentType md value = (case md_ParseMediaType md (TrimSpace value) of
     None \<Rightarrow> [] | Some mediaType \<Rightarrow> md_ToLower md (TrimSpace mediaType))"

definition mimeAllowed :: "media \<Rightarrow> string \<Rightarrow> string list \<Rightarrow> bool" where
  "mimeAllowed md contentType allowed \<longleftrightarrow> list_ex (\<lambda>raw.
     let value = md_ToLower md (TrimSpace raw) in
     value = contentType \<or> (HasSuffix value ''/*'' \<and> HasPrefix contentType (TrimSuffix value ''*''))) allowed"

definition extensionForContentType :: "media \<Rightarrow> string \<Rightarrow> string" where
  "extensionForContentType md contentType =
     (if contentType = ''application/pdf'' then ''pdf''
      else if contentType = ''image/jpeg'' then ''jpg''
      else if contentType = ''image/png'' then ''png''
      else case md_ExtensionsByType md contentType of
        Some (e # _) \<Rightarrow> (if HasPrefix e ''.'' then drop 1 e else e)
      | _ \<Rightarrow> ''bin'')"

definition validateDeviceID :: "string \<Rightarrow> go_error option" where
  "validateDeviceID deviceID =
     (if deviceID = [] then Some (InvalidRequest (RequestKeyDeviceID @ '' is required.''))
      else if \<not> ValidDeviceID deviceID
      then Some (InvalidRequest (RequestKeyDeviceID @ '' must be 30 characters or fewer.''))
      else None)"

definition validateCursor :: "int \<Rightarrow> go_error option" where
  "validateCursor cursor = (if cursor < 0
     then Some (InvalidRequest (RequestKeyCursor @ '' must be greater than or equal to zero.'')) else None)"

definition validateRequest :: "media \<Rightarrow> InitiateRequest \<Rightarrow> int \<Rightarrow> string list \<Rightarrow> go_error option" where
  "validateRequest md request maxFileSize allowedMIMETypes = (case validateDeviceID (ir_DeviceID request) of
     Some err \<Rightarrow> Some err
   | None \<Rightarrow>
       if ir_NoteID request = Nil_uuid \<or> ir_BlockID request = Nil_uuid
       then Some (InvalidRequest ''Note ID and block ID are required.'')
       else if ir_Size request \<le> 0 then Some (InvalidRequest ''File size must be greater than zero.'')
       else if ir_Size request > maxFileSize
       then Some (ErrApi (NewError 413 ''PAYLOAD_TOO_LARGE'' ''The file exceeds the configured size limit.''))
       else let filename = TrimSpace (ir_Filename request) in
         if filename = [] \<or> length filename > 255 \<or> \<not> ValidString filename
           \<or> list_ex (\<lambda>c. c = CHR ''/'' \<or> c = CHR 0x5C) filename
         then Some (InvalidRequest ''Filename is invalid.'')
         else if list_ex IsControl (runes filename) then Some (InvalidRequest ''Filename is invalid.'')
         else let contentType = normalizedContentType md (ir_ContentType request) in
           if contentType = [] \<or> \<not> mimeAllowed md contentType allowedMIMETypes
           then Some (InvalidRequest ''File type is not allowed.'')
           else None)"

definition checked :: "go_error option \<Rightarrow> unit call" where
  "checked r = (case r of None \<Rightarrow> returnM () | Some e \<Rightarrow> failM e)"

definition validateDevice :: "env \<Rightarrow> uuid \<Rightarrow> string \<Rightarrow> unit call" where
  "validateDevice env ownerID deviceID =
     bindM (checked (validateDeviceID deviceID)) (\<lambda>_.
     catchM (GetDeviceForOwner env deviceID ownerID)
       (\<lambda>err. if err = ErrNotFound then failM DeviceForbidden else failM err)
       (\<lambda>device. if dv_RevokedAt device \<noteq> None then failM DeviceRevoked else returnM ()))"

definition mapRepositoryError :: "go_error \<Rightarrow> string \<Rightarrow> go_error" where
  "mapRepositoryError err notFoundMessage = (if err = ErrNotFound then NotFound notFoundMessage else err)"

definition storageAPIError :: "go_error \<Rightarrow> go_error" where
  "storageAPIError err = (case err of
     ErrStorageUnavailable \<Rightarrow> ErrApi (NewError 503 ''STORAGE_UNAVAILABLE'' ''File storage is temporarily unavailable.'')
   | ErrStorageNotFound \<Rightarrow> NotFound ''Stored file not found.''
   | ErrStorageUpstream \<Rightarrow> ErrApi (NewError 502 ''STORAGE_UNAVAILABLE'' ''File storage returned an invalid response.'')
   | _ \<Rightarrow> err)"

definition conflict :: "string \<Rightarrow> string \<Rightarrow> go_error" where
  "conflict code message = ErrApi (NewError 409 code message)"

subsection \<open>The service\<close>

record UploadService =
  us_storage :: storage
  us_media :: media
  us_bucket :: string
  us_maxFileSize :: int
  us_allowedMIMETypes :: "string list"
  us_uploadTTL :: int
  us_downloadTTL :: int
  us_maxPending :: int

definition pendingUpload :: "env \<Rightarrow> UploadService \<Rightarrow> uuid \<Rightarrow> InitiateRequest \<Rightarrow> uuid \<Rightarrow> time \<Rightarrow> FileUpload" where
  "pendingUpload env s ownerID request uploadID now =
     (let contentType = normalizedContentType (us_media s) (ir_ContentType request);
          fmt = c_format_uuid (e_codec env);
          path = ''notes/'' @ fmt (ir_NoteID request) @ ''/blocks/'' @ fmt (ir_BlockID request) @ ''/uploads/''
            @ fmt uploadID @ ''.'' @ extensionForContentType (us_media s) contentType
      in zeroFileUpload\<lparr>fu_ID := uploadID, fu_NoteID := ir_NoteID request, fu_OwnerID := ownerID,
           fu_BlockID := ir_BlockID request, fu_DeviceID := ir_DeviceID request,
           fu_OriginalFilename := TrimSpace (ir_Filename request), fu_StorageBucket := us_bucket s,
           fu_StoragePath := path, fu_ContentType := contentType, fu_ExpectedSize := ir_Size request,
           fu_Status := StatusPending, fu_ExpiresAt := now + us_uploadTTL s\<rparr>)"

definition Initiate :: "env \<Rightarrow> UploadService \<Rightarrow> uuid \<Rightarrow> InitiateRequest \<Rightarrow> InitiateResponse call" where
  "Initiate env s ownerID request =
     bindM (checked (validateRequest (us_media s) request (us_maxFileSize s) (us_allowedMIMETypes s))) (\<lambda>_.
     bindM (validateDevice env ownerID (ir_DeviceID request)) (\<lambda>_.
     catchM (ValidateUploadTarget env (ir_NoteID request) (ir_BlockID request) ownerID)
       (\<lambda>err. if err = ErrNotFound then failM (NotFound ''Note or block not found.'') else failM err) (\<lambda>_.
     bindM (CountPendingFileUploads env ownerID) (\<lambda>pendingCount.
     if pendingCount \<ge> us_maxPending s
     then failM (ErrApi (NewError 429 ''RATE_LIMITED''
       ''Too many pending uploads. Complete or delete an existing upload first.''))
     else bindM (newUUID env) (\<lambda>uploadID.
       bindM (timeNow env) (\<lambda>now.
       bindM (CreateFileUpload env (pendingUpload env s ownerID request uploadID now)) (\<lambda>entity.
       catchM (storage_call (\<lambda>t. st_CreateSignedUploadURL (us_storage s) t (fu_StorageBucket entity) (fu_StoragePath entity)))
         (\<lambda>err. catchM (MarkFileUploadFailed env (fu_ID entity) ownerID ''storage authorization failed'')
            (\<lambda>_. failM (storageAPIError err)) (\<lambda>_. failM (storageAPIError err)))
         (\<lambda>signed. returnM \<lparr>is_UploadID = fu_ID entity, is_Cursor = fu_Cursor entity, is_Status = StatusPending,
            is_Bucket = fu_StorageBucket entity, is_Path = fu_StoragePath entity, is_ContentType = fu_ContentType entity,
            is_SignedURL = su_URL signed, is_Token = su_Token signed, is_ExpiresAt = fu_ExpiresAt entity\<rparr>))))))))"

definition rejectMetadata :: "env \<Rightarrow> media \<Rightarrow> FileUpload \<Rightarrow> string \<Rightarrow> 'a call" where
  "rejectMetadata env md entity message =
     (let failed = failM (ErrApi (NewError 422 ''UPLOAD_INVALID'' message)) in
      catchM (MarkFileUploadFailed env (fu_ID entity) (fu_OwnerID entity) (md_ToLower md (TrimSuffix message ''.'')))
        (\<lambda>_. failed) (\<lambda>_. failed))"

text \<open>The conditional update, and what a request that lost it returns.\<close>

definition Complete_finish :: "env \<Rightarrow> uuid \<Rightarrow> uuid \<Rightarrow> int \<Rightarrow> string \<Rightarrow> UploadResponse call" where
  "Complete_finish env ownerID uploadID actualSize verifiedContentType =
     catchM (CompleteFileUpload env uploadID ownerID actualSize verifiedContentType)
       (\<lambda>err. if err \<noteq> ErrNotFound then failM err
          else catchM (GetFileUploadForOwner env uploadID ownerID)
            (\<lambda>readErr. failM (mapRepositoryError readErr ''Upload not found.''))
            (\<lambda>latest. if fu_Status latest = StatusCompleted then returnM (responseFromEntity latest)
               else failM (conflict ''CONFLICT'' ''Upload completion is already being finalized.'')))
       (\<lambda>completed. returnM (responseFromEntity completed))"

text \<open>From the row that \<open>Complete\<close> has read as pending.\<close>

definition Complete_pending :: "env \<Rightarrow> UploadService \<Rightarrow> uuid \<Rightarrow> FileUpload \<Rightarrow> UploadResponse call" where
  "Complete_pending env s ownerID entity =
     bindM (timeNow env) (\<lambda>now.
     if now > fu_ExpiresAt entity
     then failM (conflict ''UPLOAD_NOT_READY'' ''The upload authorization has expired.'')
     else catchM (ValidateUploadTarget env (fu_NoteID entity) (fu_BlockID entity) ownerID)
       (\<lambda>err. if err = ErrNotFound then failM (Forbidden ''You no longer have access to this note or block.'')
          else failM err) (\<lambda>_.
       catchM (storage_call (\<lambda>t. st_GetObjectInfo (us_storage s) t (fu_StorageBucket entity) (fu_StoragePath entity)))
         (\<lambda>err. if err = ErrStorageNotFound
            then failM (conflict ''UPLOAD_NOT_READY'' ''The uploaded object is not ready yet.'')
            else failM (storageAPIError err))
         (\<lambda>info.
            if oi_Size info \<noteq> fu_ExpectedSize entity
            then rejectMetadata env (us_media s) entity ''The stored file size does not match the declared size.''
            else let verifiedContentType = normalizedContentType (us_media s) (oi_ContentType info) in
              if verifiedContentType = [] \<or> verifiedContentType \<noteq> fu_ContentType entity
              then rejectMetadata env (us_media s) entity ''The stored file type does not match the declared type.''
              else Complete_finish env ownerID (fu_ID entity) (oi_Size info) verifiedContentType)))"

definition Complete :: "env \<Rightarrow> UploadService \<Rightarrow> uuid \<Rightarrow> uuid \<Rightarrow> UploadResponse call" where
  "Complete env s ownerID uploadID =
     catchM (GetFileUploadForOwner env uploadID ownerID)
       (\<lambda>err. failM (mapRepositoryError err ''Upload not found.''))
       (\<lambda>entity.
          if fu_Status entity = StatusCompleted then returnM (responseFromEntity entity)
          else if fu_Status entity \<noteq> StatusPending
          then failM (conflict ''CONFLICT'' ''Upload is no longer pending.'')
          else Complete_pending env s ownerID entity)"

definition Upload_Get :: "env \<Rightarrow> uuid \<Rightarrow> uuid \<Rightarrow> UploadResponse call" where
  "Upload_Get env ownerID uploadID =
     catchM (GetFileUploadForOwner env uploadID ownerID)
       (\<lambda>err. failM (mapRepositoryError err ''Upload not found.''))
       (\<lambda>entity. returnM (responseFromEntity entity))"

text \<open>Go's division truncates towards zero.\<close>

definition ttlSeconds :: "int \<Rightarrow> int" where
  "ttlSeconds ttl = (if ttl < 0 then - ((- ttl) div second) else ttl div second)"

definition link :: "FileUpload \<Rightarrow> string \<Rightarrow> time \<Rightarrow> DownloadURLResponse" where
  "link entity urlValue expiresAt = \<lparr>du_Cursor = fu_Cursor entity, du_NoteID = fu_NoteID entity,
     du_BlockID = fu_BlockID entity, du_UploadID = fu_ID entity, du_SignedURL = urlValue, du_ExpiresAt = expiresAt\<rparr>"

definition sign :: "UploadService \<Rightarrow> FileUpload \<Rightarrow> string call" where
  "sign s entity = storage_call (\<lambda>t. st_CreateSignedDownloadURL (us_storage s) t (fu_StorageBucket entity)
     (fu_StoragePath entity) (ttlSeconds (us_downloadTTL s)))"

definition DownloadURL :: "env \<Rightarrow> UploadService \<Rightarrow> uuid \<Rightarrow> uuid \<Rightarrow> DownloadURLResponse call" where
  "DownloadURL env s ownerID blockID =
     catchM (GetFileUploadForBlockForOwner env blockID ownerID)
       (\<lambda>err. failM (mapRepositoryError err ''Upload not found.'')) (\<lambda>entity.
     if fu_Status entity \<noteq> StatusCompleted
     then failM (conflict ''CONFLICT'' ''Only completed uploads can be downloaded.'')
     else catchM (ValidateUploadTarget env (fu_NoteID entity) (fu_BlockID entity) ownerID)
       (\<lambda>err. if err = ErrNotFound then failM (Forbidden ''You do not have access to this note or block.'')
          else failM err) (\<lambda>_.
     catchM (sign s entity) (\<lambda>err. failM (storageAPIError err)) (\<lambda>urlValue.
     bindM (timeNow env) (\<lambda>now. returnM (link entity urlValue (now + us_downloadTTL s))))))"

text \<open>The loop of \<open>DownloadURLs\<close>: a row that gives no link is consumed.\<close>

fun DownloadURLs_loop :: "env \<Rightarrow> UploadService \<Rightarrow> uuid \<Rightarrow> string \<Rightarrow> FileUpload list \<Rightarrow> DownloadLinksResponse \<Rightarrow>
    DownloadLinksResponse call" where
  "DownloadURLs_loop env s ownerID deviceID [] response = returnM response"
| "DownloadURLs_loop env s ownerID deviceID (entity # entities) response =
     (let response = response\<lparr>dl_NextCursor := fu_Cursor entity\<rparr>;
          continue = DownloadURLs_loop env s ownerID deviceID entities response in
      if fu_DeviceID entity = deviceID \<or> fu_Status entity \<noteq> StatusCompleted then continue
      else catchM (ValidateUploadTarget env (fu_NoteID entity) (fu_BlockID entity) ownerID) (\<lambda>_. continue) (\<lambda>_.
        catchM (sign s entity) (\<lambda>_. continue) (\<lambda>urlValue.
        bindM (timeNow env) (\<lambda>now.
        DownloadURLs_loop env s ownerID deviceID entities
          (response\<lparr>dl_Links := dl_Links response @ [link entity urlValue (now + us_downloadTTL s)]\<rparr>)))))"

definition DownloadURLs :: "env \<Rightarrow> UploadService \<Rightarrow> uuid \<Rightarrow> string \<Rightarrow> int \<Rightarrow> DownloadLinksResponse call" where
  "DownloadURLs env s ownerID deviceID cursor =
     bindM (checked (validateCursor cursor)) (\<lambda>_.
     bindM (validateDevice env ownerID deviceID) (\<lambda>_.
     bindM (ListFileUploadsAfterCursor env ownerID cursor) (\<lambda>entities.
     DownloadURLs_loop env s ownerID deviceID entities \<lparr>dl_Links = [], dl_NextCursor = cursor\<rparr>)))"

text \<open>What a deletion returns when the conditional update finds no row: the row of \<open>uploadID\<close> decides.\<close>

definition Delete_lost :: "env \<Rightarrow> uuid \<Rightarrow> uuid \<Rightarrow> go_error \<Rightarrow> UploadResponse call" where
  "Delete_lost env ownerID uploadID err =
     (if err = ErrNotFound
      then catchM (GetFileUploadForOwner env uploadID ownerID) (\<lambda>_. failM err)
        (\<lambda>latest. if fu_Status latest = StatusDeleted then returnM (responseFromEntity latest) else failM err)
      else failM err)"

text \<open>
  From the row that \<open>Delete\<close> has read. \<open>entity, err = MarkFileUploadCancelled(...)\<close> assigns \<open>entity\<close> also
  when the call fails: the store then returns the zero \<open>FileUpload\<close>, and its identifier is re-read.
\<close>

definition Delete_found :: "env \<Rightarrow> UploadService \<Rightarrow> uuid \<Rightarrow> FileUpload \<Rightarrow> UploadResponse call" where
  "Delete_found env s ownerID entity =
     catchM (MarkFileUploadCancelled env (fu_ID entity) ownerID)
       (Delete_lost env ownerID (fu_ID zeroFileUpload))
       (\<lambda>entity. catchM (storage_call (\<lambda>t. st_DeleteObject (us_storage s) t (fu_StorageBucket entity) (fu_StoragePath entity)))
          (\<lambda>err. if err \<noteq> ErrStorageNotFound then failM (storageAPIError err)
             else catchM (MarkFileUploadDeleted env (fu_ID entity) ownerID)
               (Delete_lost env ownerID (fu_ID entity)) (\<lambda>deleted. returnM (responseFromEntity deleted)))
          (\<lambda>_. catchM (MarkFileUploadDeleted env (fu_ID entity) ownerID)
             (Delete_lost env ownerID (fu_ID entity)) (\<lambda>deleted. returnM (responseFromEntity deleted))))"

definition Upload_Delete :: "env \<Rightarrow> UploadService \<Rightarrow> uuid \<Rightarrow> uuid \<Rightarrow> UploadResponse call" where
  "Upload_Delete env s ownerID uploadID =
     catchM (GetFileUploadForOwner env uploadID ownerID)
       (\<lambda>err. failM (mapRepositoryError err ''Upload not found.''))
       (\<lambda>entity. if fu_Status entity = StatusDeleted then returnM (responseFromEntity entity)
          else Delete_found env s ownerID entity)"

subsection \<open>The cleaner (\<open>jobs/cleanup.go\<close>)\<close>

record Cleaner =
  cl_storage :: storage
  cl_media :: media
  cl_grace :: int

definition normalizedType :: "media \<Rightarrow> string \<Rightarrow> string" where
  "normalizedType md value = (case md_ParseMediaType md (TrimSpace value) of
     None \<Rightarrow> md_ToLower md (TrimSpace value) | Some mediaType \<Rightarrow> md_ToLower md mediaType)"

definition joinFirst :: "go_error option \<Rightarrow> go_error option \<Rightarrow> go_error option" where
  "joinFirst first_err nxt = (case first_err of Some e \<Rightarrow> Some e | None \<Rightarrow> nxt)"

definition tolerate :: "go_error \<Rightarrow> go_error option \<Rightarrow> go_error \<Rightarrow> go_error option" where
  "tolerate ignored first_err err = (if err = ignored then first_err else joinFirst first_err (Some err))"

text \<open>One upload of the page: the first error so far, in and out.\<close>

definition reconcile :: "env \<Rightarrow> Cleaner \<Rightarrow> go_error option \<Rightarrow> FileUpload \<Rightarrow> go_error option call" where
  "reconcile env c first_err upload =
     (let expire = (\<lambda>message. catchM (MarkFileUploadExpired env (fu_ID upload) message)
            (\<lambda>err. returnM (tolerate ErrNotFound first_err err)) (\<lambda>_. returnM first_err));
          mismatch = ''expired upload metadata did not match'' in
      catchM (storage_call (\<lambda>t. st_GetObjectInfo (cl_storage c) t (fu_StorageBucket upload) (fu_StoragePath upload)))
        (\<lambda>infoErr. if infoErr = ErrStorageNotFound
           then expire ''upload authorization expired before an object was stored''
           else returnM (joinFirst first_err (Some infoErr)))
        (\<lambda>info.
           if oi_Size info = fu_ExpectedSize upload
             \<and> normalizedType (cl_media c) (oi_ContentType info) = normalizedType (cl_media c) (fu_ContentType upload)
           then catchM (CompleteFileUpload env (fu_ID upload) (fu_OwnerID upload) (oi_Size info)
                  (normalizedType (cl_media c) (oi_ContentType info)))
             (\<lambda>err. returnM (tolerate ErrNotFound first_err err)) (\<lambda>_. returnM first_err)
           else catchM (storage_call (\<lambda>t. st_DeleteObject (cl_storage c) t (fu_StorageBucket upload) (fu_StoragePath upload)))
             (\<lambda>err. if err \<noteq> ErrStorageNotFound then returnM (joinFirst first_err (Some err)) else expire mismatch)
             (\<lambda>_. expire mismatch)))"

fun RunOnce_loop :: "env \<Rightarrow> Cleaner \<Rightarrow> FileUpload list \<Rightarrow> go_error option \<Rightarrow> go_error option call" where
  "RunOnce_loop env c [] first_err = returnM first_err"
| "RunOnce_loop env c (upload # uploads) first_err =
     bindM (reconcile env c first_err upload) (RunOnce_loop env c uploads)"

definition RunOnce :: "env \<Rightarrow> Cleaner \<Rightarrow> unit call" where
  "RunOnce env c =
     bindM (timeNow env) (\<lambda>now.
     bindM (ListExpiredFileUploads env (now - cl_grace c) 100) (\<lambda>uploads.
     bindM (RunOnce_loop env c uploads None) checked))"

text \<open>
  The cleanup part of the worker: the time of the last attempt (\<open>None\<close> before the first), kept in
  the process; an error is only logged.
\<close>

definition maybeCleanup :: "env \<Rightarrow> Cleaner option \<Rightarrow> time option \<Rightarrow> time option call" where
  "maybeCleanup env cleaner lastCleanup = (case cleaner of
     None \<Rightarrow> returnM lastCleanup
   | Some c \<Rightarrow>
       bindM (case lastCleanup of
           None \<Rightarrow> returnM False
         | Some t \<Rightarrow> bindM (timeNow env) (\<lambda>now. returnM (now - t < 300 * second))) (\<lambda>recent.
       if recent then returnM lastCleanup
       else bindM (timeNow env) (\<lambda>start.
         catchM (RunOnce env c) (\<lambda>_. returnM (Some start)) (\<lambda>_. returnM (Some start)))))"

end
