(* ===== verification/Handlers.thy ===== *)
theory Handlers
  imports Auth Devices Notes Sync_Service Upload_Service
begin

section \<open>HTTP handlers, middleware and routes\<close>

text \<open>
  The handlers of \<open>internal/{devices,notes,sync,uploads}/handlers\<close>, the middleware of
  \<open>internal/middleware\<close> that the API server installs and the router of \<open>cmd/api/main.go\<close>. A request
  is given by the registered route that it matches, with what the handler reads of it: the values of
  path parameters and of the query, and the outcome of decoding the body. The match of a URL against
  the registered patterns is the router library's.
\<close>

type_synonym 'a body = "'a decode_result \<times> unit decode_result"
type_synonym query_values = "(string \<times> string) list"

definition DecodeBody :: "'a body \<Rightarrow> go_error + 'a" where
  "DecodeBody b = DecodeJSON (fst b) (snd b)"

text \<open>\<open>url.Values.Get\<close>: the first value, or the empty string.\<close>

definition query_get :: "query_values \<Rightarrow> string \<Rightarrow> string" where
  "query_get q key = (case map_of q key of Some v \<Rightarrow> v | None \<Rightarrow> [])"

datatype payload =
    Health_payload string
  | Device_payload DeviceResponse
  | Devices_payload ListDevicesResponse
  | Push_payload Response
  | Snapshots_payload "NoteSnapshot list"
  | Updates_payload bool
  | Pull_payload PullResponse
  | Note_payload NoteResponse
  | Snapshot_payload SnapshotResponse
  | Initiate_payload InitiateResponse
  | Links_payload DownloadLinksResponse
  | Upload_payload UploadResponse
  | URL_payload DownloadURLResponse

text \<open>What the server answers; a panic has no answer until \<open>Recovery\<close> gives it one.\<close>

datatype reply =
    Json nat payload
  | NoContent
  | Error error_envelope
  | Plain nat string
  | Panicked

type_synonym handler = "http_context \<Rightarrow> world \<Rightarrow> reply \<times> world"

definition reply_error :: "http_context \<Rightarrow> go_error \<Rightarrow> world \<Rightarrow> reply \<times> world" where
  "reply_error ctx err w = (Error (WriteError (RequestIDFromContext ctx) err), w)"

text \<open>
  The end of every handler: an error goes to \<open>WriteError\<close>, a result to \<open>WriteJSON\<close> or
  \<open>WriteNoContent\<close>. A panic of the service unwinds the handler.
\<close>

definition reply_call :: "http_context \<Rightarrow> ('a \<Rightarrow> reply) \<Rightarrow> 'a call \<Rightarrow> world \<Rightarrow> reply \<times> world" where
  "reply_call ctx success c w = (case c w of
     (Inl err, w') \<Rightarrow> if err = ErrPanic then (Panicked, w') else reply_error ctx err w'
   | (Inr a, w') \<Rightarrow> (success a, w'))"

text \<open>The start of every handler: the authenticated user, or 401.\<close>

definition with_user :: "(uuid \<Rightarrow> handler) \<Rightarrow> handler" where
  "with_user h ctx w = (case UserIDFromContext ctx of
     None \<Rightarrow> reply_error ctx Unauthorized w
   | Some ownerID \<Rightarrow> h ownerID ctx w)"

definition with_body :: "'a body \<Rightarrow> ('a \<Rightarrow> handler) \<Rightarrow> handler" where
  "with_body b h ctx w = (case DecodeBody b of
     Inl err \<Rightarrow> reply_error ctx err w
   | Inr req \<Rightarrow> h req ctx w)"

definition with_uuid :: "codec \<Rightarrow> string \<Rightarrow> string \<Rightarrow> (uuid \<Rightarrow> handler) \<Rightarrow> handler" where
  "with_uuid cd what param h ctx w = (case c_parse_uuid cd param of
     None \<Rightarrow> reply_error ctx (InvalidRequest (what @ '' must be a UUID.'')) w
   | Some i \<Rightarrow> h i ctx w)"

definition with_int :: "query_values \<Rightarrow> string \<Rightarrow> (int \<Rightarrow> handler) \<Rightarrow> handler" where
  "with_int q key h ctx w = (case ParseInt (query_get q key) of
     None \<Rightarrow> reply_error ctx (InvalidRequest (key @ '' must be an integer.'')) w
   | Some v \<Rightarrow> h v ctx w)"

subsection \<open>Devices\<close>

definition Handle_Register :: "env \<Rightarrow> RegisterDeviceRequest body \<Rightarrow> handler" where
  "Handle_Register env b = with_user (\<lambda>ownerID. with_body b (\<lambda>req ctx.
     reply_call ctx (\<lambda>device. Json 201 (Device_payload device)) (Device_Register env ownerID req)))"

definition Handle_List :: "env \<Rightarrow> handler" where
  "Handle_List env = with_user (\<lambda>ownerID ctx.
     reply_call ctx (\<lambda>result. Json 200 (Devices_payload result)) (Device_List env ownerID))"

definition Handle_Revoke :: "env \<Rightarrow> string \<Rightarrow> handler" where
  "Handle_Revoke env deviceID = with_user (\<lambda>ownerID ctx.
     reply_call ctx (\<lambda>_. NoContent) (Device_Revoke env ownerID deviceID))"

subsection \<open>Notes\<close>

definition Handle_Note :: "env \<Rightarrow> string \<Rightarrow> handler" where
  "Handle_Note env param = with_user (\<lambda>ownerID. with_uuid (e_codec env) ''Note ID'' param (\<lambda>noteID ctx.
     reply_call ctx (\<lambda>n. Json 200 (Note_payload n)) (Note_Get env ownerID noteID)))"

definition Handle_LatestSnapshot :: "env \<Rightarrow> string \<Rightarrow> handler" where
  "Handle_LatestSnapshot env param = with_user (\<lambda>ownerID. with_uuid (e_codec env) ''Note ID'' param (\<lambda>noteID ctx.
     reply_call ctx (\<lambda>s. Json 200 (Snapshot_payload s)) (Note_LatestSnapshot env ownerID noteID)))"

subsection \<open>Sync\<close>

definition Handle_Push :: "env \<Rightarrow> Service \<Rightarrow> Request body \<Rightarrow> handler" where
  "Handle_Push env sv b = with_user (\<lambda>ownerID. with_body b (\<lambda>req ctx.
     reply_call ctx (\<lambda>resp. Json 200 (Push_payload resp)) (Sync env sv ownerID req)))"

definition Handle_FullNote :: "env \<Rightarrow> Service \<Rightarrow> FullNoteRequest body \<Rightarrow> handler" where
  "Handle_FullNote env sv b = with_user (\<lambda>ownerID. with_body b (\<lambda>req ctx.
     reply_call ctx (\<lambda>snapshots. Json 200 (Snapshots_payload snapshots)) (SyncFullNote env sv ownerID req)))"

definition Handle_UpdatesAvailable :: "env \<Rightarrow> query_values \<Rightarrow> handler" where
  "Handle_UpdatesAvailable env q = with_user (\<lambda>ownerID. with_int q RequestKeyProtocolVersion (\<lambda>protocolVersion ctx.
     reply_call ctx (\<lambda>resp. Json 200 (Updates_payload resp)) (UpdatesAvailable env ownerID
       \<lparr>ua_ProtocolVersion = protocolVersion, ua_DeviceID = query_get q RequestKeyDeviceID\<rparr>)))"

definition Handle_Pull :: "env \<Rightarrow> Service \<Rightarrow> query_values \<Rightarrow> handler" where
  "Handle_Pull env sv q = with_user (\<lambda>ownerID. with_int q RequestKeyProtocolVersion (\<lambda>protocolVersion.
     with_int q RequestKeyCursor (\<lambda>cursor ctx.
     reply_call ctx (\<lambda>resp. Json 200 (Pull_payload resp)) (Pull env sv ownerID
       \<lparr>pr_ProtocolVersion = protocolVersion, pr_ClientVersion = query_get q RequestKeyClientVersion,
        pr_DeviceID = query_get q RequestKeyDeviceID, pr_Cursor = cursor\<rparr>))))"

subsection \<open>Uploads\<close>

definition Handle_Initiate :: "env \<Rightarrow> UploadService \<Rightarrow> InitiateRequest body \<Rightarrow> handler" where
  "Handle_Initiate env us b = with_user (\<lambda>ownerID. with_body b (\<lambda>req ctx.
     reply_call ctx (\<lambda>resp. Json 201 (Initiate_payload resp)) (Initiate env us ownerID req)))"

definition Handle_DownloadLinks :: "env \<Rightarrow> UploadService \<Rightarrow> query_values \<Rightarrow> handler" where
  "Handle_DownloadLinks env us q = with_user (\<lambda>ownerID. with_int q RequestKeyCursor (\<lambda>cursor ctx.
     reply_call ctx (\<lambda>resp. Json 200 (Links_payload resp))
       (DownloadURLs env us ownerID (query_get q RequestKeyDeviceID) cursor)))"

definition with_identity :: "codec \<Rightarrow> string \<Rightarrow> (uuid \<Rightarrow> uuid \<Rightarrow> handler) \<Rightarrow> handler" where
  "with_identity cd param h = with_user (\<lambda>ownerID. with_uuid cd ''Upload ID'' param (h ownerID))"

definition with_blockIdentity :: "codec \<Rightarrow> string \<Rightarrow> (uuid \<Rightarrow> uuid \<Rightarrow> handler) \<Rightarrow> handler" where
  "with_blockIdentity cd param h = with_user (\<lambda>ownerID. with_uuid cd ''Block ID'' param (h ownerID))"

definition Handle_Upload :: "env \<Rightarrow> string \<Rightarrow> handler" where
  "Handle_Upload env param = with_identity (e_codec env) param (\<lambda>ownerID uploadID ctx.
     reply_call ctx (\<lambda>resp. Json 200 (Upload_payload resp)) (Upload_Get env ownerID uploadID))"

definition Handle_Complete :: "env \<Rightarrow> UploadService \<Rightarrow> string \<Rightarrow> handler" where
  "Handle_Complete env us param = with_identity (e_codec env) param (\<lambda>ownerID uploadID ctx.
     reply_call ctx (\<lambda>resp. Json 200 (Upload_payload resp)) (Complete env us ownerID uploadID))"

definition Handle_DownloadURL :: "env \<Rightarrow> UploadService \<Rightarrow> string \<Rightarrow> handler" where
  "Handle_DownloadURL env us param = with_blockIdentity (e_codec env) param (\<lambda>ownerID blockID ctx.
     reply_call ctx (\<lambda>resp. Json 200 (URL_payload resp)) (DownloadURL env us ownerID blockID))"

definition Handle_Delete :: "env \<Rightarrow> UploadService \<Rightarrow> string \<Rightarrow> handler" where
  "Handle_Delete env us param = with_identity (e_codec env) param (\<lambda>ownerID uploadID ctx.
     reply_call ctx (\<lambda>_. NoContent) (Upload_Delete env us ownerID uploadID))"

subsection \<open>Routes (\<open>cmd/api/main.go\<close> and the \<open>Routes\<close> of the handlers)\<close>

datatype v1_route =
    POST_devices "RegisterDeviceRequest body"
  | GET_devices
  | DELETE_device string
  | POST_sync "Request body"
  | POST_syncFullNote "FullNoteRequest body"
  | GET_sync_updates_available query_values
  | GET_sync query_values
  | GET_note string
  | GET_note_snapshot string
  | POST_uploads_initiate "InitiateRequest body"
  | GET_uploads_download_links query_values
  | GET_upload string
  | POST_upload_complete string
  | POST_block_download_url string
  | DELETE_upload string

datatype route = GET_health | GET_ready | V1 v1_route

text \<open>
  What the server is configured with: the environment of the store, the services, the verifier, and,
  for each moment at which a request starts, whether its time limit passes before it is answered.
\<close>

record api =
  ap_env :: env
  ap_sync :: Service
  ap_uploads :: UploadService
  ap_verifier :: Verifier
  ap_expired :: "nat \<Rightarrow> bool"

definition v1_handler :: "api \<Rightarrow> v1_route \<Rightarrow> handler" where
  "v1_handler a r = (let env = ap_env a; sv = ap_sync a; us = ap_uploads a in case r of
     POST_devices b \<Rightarrow> Handle_Register env b
   | GET_devices \<Rightarrow> Handle_List env
   | DELETE_device p \<Rightarrow> Handle_Revoke env p
   | POST_sync b \<Rightarrow> Handle_Push env sv b
   | POST_syncFullNote b \<Rightarrow> Handle_FullNote env sv b
   | GET_sync_updates_available q \<Rightarrow> Handle_UpdatesAvailable env q
   | GET_sync q \<Rightarrow> Handle_Pull env sv q
   | GET_note p \<Rightarrow> Handle_Note env p
   | GET_note_snapshot p \<Rightarrow> Handle_LatestSnapshot env p
   | POST_uploads_initiate b \<Rightarrow> Handle_Initiate env us b
   | GET_uploads_download_links q \<Rightarrow> Handle_DownloadLinks env us q
   | GET_upload p \<Rightarrow> Handle_Upload env p
   | POST_upload_complete p \<Rightarrow> Handle_Complete env us p
   | POST_block_download_url p \<Rightarrow> Handle_DownloadURL env us p
   | DELETE_upload p \<Rightarrow> Handle_Delete env us p)"

definition Ping :: "env \<Rightarrow> unit call" where
  "Ping env w = (if e_fault env (w_tick w) then Inl ErrDB else Inr (), tick w)"

definition Handle_health :: handler where
  "Handle_health ctx w = (Json 200 (Health_payload ''ok''), w)"

definition Handle_ready :: "env \<Rightarrow> handler" where
  "Handle_ready env ctx w = (case Ping env w of
     (Inl _, w') \<Rightarrow> reply_error ctx (ErrApi (NewError 503 ''INTERNAL_ERROR'' ''Database is not ready.'')) w'
   | (Inr _, w') \<Rightarrow> (Json 200 (Health_payload ''ready''), w'))"

subsection \<open>Middleware\<close>

text \<open>The state of the server: the store with the bus, and the verifier's keys.\<close>

record server =
  sr_world :: world
  sr_keys :: jwksCache

type_synonym endpoint = "http_context \<Rightarrow> server \<Rightarrow> reply \<times> server"

definition on_world :: "handler \<Rightarrow> endpoint" where
  "on_world h ctx s = (case h ctx (sr_world s) of (r, w) \<Rightarrow> (r, s\<lparr>sr_world := w\<rparr>))"

definition RequireAuth :: "Verifier \<Rightarrow> string \<Rightarrow> endpoint \<Rightarrow> endpoint" where
  "RequireAuth v header next_handler ctx s =
     (case Auth_Middleware v (w_tick (sr_world s)) header (sr_keys s) of
        (None, c) \<Rightarrow> (Error (WriteError (RequestIDFromContext ctx) Unauthorized),
                     s\<lparr>sr_world := tick (sr_world s), sr_keys := c\<rparr>)
      | (Some claims, c) \<Rightarrow>
          next_handler (WithClaims ctx claims) (s\<lparr>sr_world := tick (sr_world s), sr_keys := c\<rparr>))"

definition Recovery :: "endpoint \<Rightarrow> endpoint" where
  "Recovery next_handler ctx s = (case next_handler ctx s of
     (Panicked, s') \<Rightarrow> (Error (WriteError (RequestIDFromContext ctx) (ErrApi Internal)), s')
   | (r, s') \<Rightarrow> (r, s'))"

text \<open>
  \<open>http.TimeoutHandler\<close>: when the limit passes first, the client gets the fixed text, whatever the
  handler, which is not stopped, answers in the end.
\<close>

definition TimeoutMessage :: string where
  "TimeoutMessage = ''{\"error\":{\"code\":\"INTERNAL_ERROR\",\"message\":\"The request timed out.\"}}''"

definition Timeout :: "bool \<Rightarrow> endpoint \<Rightarrow> endpoint" where
  "Timeout expired next_handler ctx s = (case next_handler ctx s of
     (r, s') \<Rightarrow> (if expired then Plain 503 TimeoutMessage else r, s'))"

definition AllowAllLimiter :: "http_context \<Rightarrow> bool" where
  "AllowAllLimiter ctx = True"

definition RateLimit :: "(http_context \<Rightarrow> bool) option \<Rightarrow> endpoint \<Rightarrow> endpoint" where
  "RateLimit limiter next_handler ctx s =
     (let allow = (case limiter of None \<Rightarrow> AllowAllLimiter | Some l \<Rightarrow> l) in
      if \<not> allow ctx
      then (Error (WriteError (RequestIDFromContext ctx) (ErrApi (NewError 429 ''RATE_LIMITED'' ''Rate limit exceeded.''))), s)
      else next_handler ctx s)"

record http_request =
  hq_XRequestId :: string
  hq_Authorization :: string
  hq_route :: route

text \<open>The value of the response header \<open>X-Request-Id\<close> comes with the reply.\<close>

definition RequestID :: "env \<Rightarrow> string \<Rightarrow> (http_context \<Rightarrow> server \<Rightarrow> 'r \<times> server) \<Rightarrow> server \<Rightarrow> (string \<times> 'r) \<times> server" where
  "RequestID env given next_handler s =
     (let n = w_tick (sr_world s);
          requestID = (if given = [] then c_format_uuid (e_codec env) (e_uuid env n) else given);
          s1 = (if given = [] then s\<lparr>sr_world := tick (sr_world s)\<rparr> else s) in
      case next_handler (WithRequestID Background requestID) s1 of (r, s') \<Rightarrow> ((requestID, r), s'))"

definition route_endpoint :: "api \<Rightarrow> string \<Rightarrow> route \<Rightarrow> endpoint" where
  "route_endpoint a authorization r = (case r of
     GET_health \<Rightarrow> on_world Handle_health
   | GET_ready \<Rightarrow> on_world (Handle_ready (ap_env a))
   | V1 r' \<Rightarrow> RequireAuth (ap_verifier a) authorization (on_world (v1_handler a r')))"

definition buildRouter :: "api \<Rightarrow> http_request \<Rightarrow> server \<Rightarrow> (string \<times> reply) \<times> server" where
  "buildRouter a req s =
     RequestID (ap_env a) (hq_XRequestId req)
       (Recovery (Timeout (ap_expired a (w_tick (sr_world s))) (RateLimit (Some AllowAllLimiter)
         (route_endpoint a (hq_Authorization req) (hq_route req))))) s"

end
