(* ===== verification/Tx_Logic.thy ===== *)
theory Tx_Logic
  imports Queries
begin

section \<open>Reasoning about statements, transactions and tables\<close>

text \<open>
  Triples over the core state (tables and counters) of the calls of the store: the rule of a
  statement, in which a failure leaves the core state as it was; the rules of \<open>WithTx\<close> and
  \<open>WithSavepoint\<close> for every relation between core states that is reflexive, transitive and
  closed under putting the old tables back (locale \<open>undoable\<close>); and the laws of tables as lists
  of rows with a key (locale \<open>keyed_update\<close>).
\<close>

subsection \<open>Triples on the core state\<close>

definition ctriple :: "(core \<Rightarrow> bool) \<Rightarrow> 'a call \<Rightarrow> ('a \<Rightarrow> core \<Rightarrow> bool) \<Rightarrow> (go_error \<Rightarrow> core \<Rightarrow> bool) \<Rightarrow>
    bool" where
  "ctriple P m Q E \<longleftrightarrow>
     triple (\<lambda>w. P (w_core w)) m (\<lambda>a w. Q a (w_core w)) (\<lambda>e w. E e (w_core w))"

lemma ctriple_InrD:
  "ctriple P m Q E \<Longrightarrow> P (w_core w) \<Longrightarrow> m w = (Inr a, w') \<Longrightarrow> Q a (w_core w')"
  unfolding ctriple_def by (drule triple_InrD)

lemma ctriple_InlD:
  "ctriple P m Q E \<Longrightarrow> P (w_core w) \<Longrightarrow> m w = (Inl e, w') \<Longrightarrow> E e (w_core w')"
  unfolding ctriple_def by (drule triple_InlD)

lemma ctripleI:
  assumes "\<And>w a w'. P (w_core w) \<Longrightarrow> m w = (Inr a, w') \<Longrightarrow> Q a (w_core w')"
    and "\<And>w e w'. P (w_core w) \<Longrightarrow> m w = (Inl e, w') \<Longrightarrow> E e (w_core w')"
  shows "ctriple P m Q E"
  unfolding ctriple_def using assms by (rule tripleI)

lemma ctriple_weaken:
  assumes "ctriple P' m Q' E'" and "\<And>c. P c \<Longrightarrow> P' c"
    and "\<And>a c. Q' a c \<Longrightarrow> Q a c" and "\<And>e c. E' e c \<Longrightarrow> E e c"
  shows "ctriple P m Q E"
  using assms unfolding ctriple_def by (rule triple_weaken)

lemma ctriple_pre: "ctriple P' m Q E \<Longrightarrow> (\<And>c. P c \<Longrightarrow> P' c) \<Longrightarrow> ctriple P m Q E"
  by (rule ctriple_weaken)

lemma ctriple_return [triple_rules]: "(\<And>c. P c \<Longrightarrow> Q a c) \<Longrightarrow> ctriple P (returnM a) Q E"
  unfolding ctriple_def by (rule triple_return)

lemma ctriple_fail [triple_rules]: "(\<And>c. P c \<Longrightarrow> E e c) \<Longrightarrow> ctriple P (failM e) Q E"
  unfolding ctriple_def by (rule triple_fail)

lemma ctriple_bind:
  "ctriple P m R E \<Longrightarrow> (\<And>a. ctriple (R a) (f a) Q E) \<Longrightarrow> ctriple P (bindM m f) Q E"
  unfolding ctriple_def by (rule triple_bind)

lemma ctriple_catch:
  "ctriple P m R F \<Longrightarrow> (\<And>e. ctriple (F e) (h e) Q E) \<Longrightarrow> (\<And>a. ctriple (R a) (f a) Q E) \<Longrightarrow>
   ctriple P (catchM m h f) Q E"
  unfolding ctriple_def by (rule triple_catch)

lemma ctriple_for:
  "(\<And>x. x \<in> set xs \<Longrightarrow> ctriple P (f x) (\<lambda>_. P) E) \<Longrightarrow> ctriple P (forM xs f) (\<lambda>_. P) E"
  unfolding ctriple_def by (rule triple_for)

lemma ctriple_pure: "(b \<Longrightarrow> ctriple P m Q E) \<Longrightarrow> ctriple (\<lambda>c. b \<and> P c) m Q E"
  unfolding ctriple_def by (rule triple_pre_pure)

lemma ctriple_pure_right: "(b \<Longrightarrow> ctriple P m Q E) \<Longrightarrow> ctriple (\<lambda>c. P c \<and> b) m Q E"
  by (cases b) (auto simp: ctriple_def triple_def)

lemma triple_if_ctriple:
  "(b \<Longrightarrow> ctriple P m Q E) \<Longrightarrow> (\<not> b \<Longrightarrow> ctriple P m' Q E) \<Longrightarrow> ctriple P (if b then m else m') Q E"
  by simp

lemma ctriple_False: "ctriple (\<lambda>_. False) m Q E"
  by (rule ctripleI) auto

lemma ctriple_conjI:
  "ctriple P m Q E \<Longrightarrow> ctriple P m Q' E' \<Longrightarrow>
   ctriple P m (\<lambda>a c. Q a c \<and> Q' a c) (\<lambda>e c. E e c \<and> E' e c)"
  by (rule ctripleI) (auto dest: ctriple_InrD ctriple_InlD)

lemma ctriple_ghost: "(\<And>c0. P c0 \<Longrightarrow> ctriple (\<lambda>c. c = c0) m Q E) \<Longrightarrow> ctriple P m Q E"
  by (rule ctripleI) (auto dest: ctriple_InrD ctriple_InlD)

lemma ctriple_lift [triple_rules]:
  "(\<And>x. r = Inl x \<Longrightarrow> \<forall>c. P c \<longrightarrow> E (g x) c) \<Longrightarrow> (\<And>a. r = Inr a \<Longrightarrow> \<forall>c. P c \<longrightarrow> Q a c) \<Longrightarrow>
   ctriple P (liftM g r) Q E"
  by (cases r) (auto simp: liftM_def intro: ctriple_return ctriple_fail)

subsection \<open>Statements\<close>

lemma core_tick [simp]: "w_core (tick w) = w_core w"
  by (simp add: tick_def)

lemma core_abort [simp]: "w_core (abort w) = w_core w"
  by (simp add: abort_def)

lemma ctriple_exec:
  assumes "\<And>now c a c'. P c \<Longrightarrow> f now c = (Inr a, c') \<Longrightarrow> Q a c'"
    and "\<And>now c e c'. P c \<Longrightarrow> f now c = (Inl e, c') \<Longrightarrow> E e c'"
    and "\<And>c. P c \<Longrightarrow> E ErrDB c" and "\<And>c. P c \<Longrightarrow> E ErrTxAborted c"
  shows "ctriple P (exec env f) Q E"
  by (rule ctripleI) (auto simp: exec_def split: if_splits prod.splits sum.splits intro: assms)

lemma ctriple_query:
  assumes "\<And>now c. P c \<Longrightarrow> Q (f now (c_db c)) c"
    and "\<And>c. P c \<Longrightarrow> E ErrDB c" and "\<And>c. P c \<Longrightarrow> E ErrTxAborted c"
  shows "ctriple P (query env f) Q E"
  unfolding query_def by (rule ctriple_exec) (use assms in auto)

lemma ctriple_mapNoRows [triple_rules]:
  assumes "row = None \<Longrightarrow> \<forall>c. P c \<longrightarrow> E ErrNotFound c" and "\<And>a. row = Some a \<Longrightarrow> \<forall>c. P c \<longrightarrow> Q a c"
  shows "ctriple P (mapNoRows row) Q E"
  using assms by (cases row) (auto simp: mapNoRows_def intro: ctriple_return ctriple_fail)

lemma ctriple_newUUID: "(\<And>i c. P c \<Longrightarrow> Q i c) \<Longrightarrow> ctriple P (newUUID env) Q E"
  by (rule ctripleI) (auto simp: newUUID_def)

lemma ctriple_timeNow: "(\<And>t c. P c \<Longrightarrow> Q t c) \<Longrightarrow> ctriple P (timeNow env) Q E"
  by (rule ctripleI) (auto simp: timeNow_def)

text \<open>Calls that leave the core state alone and fail with one of the given errors only.\<close>

definition reads_in :: "go_error set \<Rightarrow> 'a call \<Rightarrow> bool" where
  "reads_in S m \<longleftrightarrow> (\<forall>P. ctriple P m (\<lambda>_. P) (\<lambda>e c. P c \<and> e \<in> S))"

named_theorems reads_rules "calls that only read"

lemma reads_triple: "reads_in S m \<Longrightarrow> ctriple P m (\<lambda>_. P) (\<lambda>e c. P c \<and> e \<in> S)"
  by (simp add: reads_in_def)

lemma reads_core: "reads_in S m \<Longrightarrow> m w = (r, w') \<Longrightarrow> w_core w' = w_core w"
proof (cases r)
  assume m: "reads_in S m" and run: "m w = (r, w')"
  note t = reads_triple [OF m, of "\<lambda>c. c = w_core w"]
  show ?thesis if "r = Inr a" for a
    using ctriple_InrD [OF t refl, of a w'] run that by simp
  show ?thesis if "r = Inl e" for e
    using ctriple_InlD [OF t refl, of e w'] run that by simp
qed

lemma reads_return [reads_rules]: "reads_in S (returnM a)"
  by (simp add: reads_in_def ctriple_return)

lemma reads_fail [reads_rules]: "e \<in> S \<Longrightarrow> reads_in S (failM e)"
  by (simp add: reads_in_def ctriple_fail)

lemma reads_bind [reads_rules]: "reads_in S m \<Longrightarrow> (\<And>a. reads_in S (f a)) \<Longrightarrow> reads_in S (bindM m f)"
  unfolding reads_in_def
proof (intro allI)
  fix P
  assume m: "\<forall>P. ctriple P m (\<lambda>_. P) (\<lambda>e c. P c \<and> e \<in> S)"
    and f: "\<And>a. \<forall>P. ctriple P (f a) (\<lambda>_. P) (\<lambda>e c. P c \<and> e \<in> S)"
  show "ctriple P (bindM m f) (\<lambda>_. P) (\<lambda>e c. P c \<and> e \<in> S)"
    by (rule ctriple_bind [OF m [rule_format]]) (simp add: f)
qed

lemma reads_catch [reads_rules]:
  "reads_in S' m \<Longrightarrow> (\<And>e. e \<in> S' \<Longrightarrow> reads_in S (h e)) \<Longrightarrow> (\<And>a. reads_in S (f a)) \<Longrightarrow>
   reads_in S (catchM m h f)"
  unfolding reads_in_def
proof (intro allI)
  fix P
  assume m: "\<forall>P. ctriple P m (\<lambda>_. P) (\<lambda>e c. P c \<and> e \<in> S')"
    and h: "\<And>e. e \<in> S' \<Longrightarrow> \<forall>P. ctriple P (h e) (\<lambda>_. P) (\<lambda>e c. P c \<and> e \<in> S)"
    and f: "\<And>a. \<forall>P. ctriple P (f a) (\<lambda>_. P) (\<lambda>e c. P c \<and> e \<in> S)"
  show "ctriple P (catchM m h f) (\<lambda>_. P) (\<lambda>e c. P c \<and> e \<in> S)"
    by (rule ctriple_catch [OF m [rule_format]]) (simp_all add: h f ctriple_pure_right)
qed

lemma reads_if [reads_rules]:
  "(b \<Longrightarrow> reads_in S m) \<Longrightarrow> (\<not> b \<Longrightarrow> reads_in S m') \<Longrightarrow> reads_in S (if b then m else m')"
  by simp

lemma reads_option [reads_rules]:
  "reads_in S m \<Longrightarrow> (\<And>a. reads_in S (f a)) \<Longrightarrow> reads_in S (case x of None \<Rightarrow> m | Some a \<Rightarrow> f a)"
  by (cases x) simp_all

lemma reads_query [reads_rules]: "{ErrDB, ErrTxAborted} \<subseteq> S \<Longrightarrow> reads_in S (query env f)"
  unfolding reads_in_def by (auto intro: ctriple_query)

lemma reads_mapNoRows [reads_rules]: "ErrNotFound \<in> S \<Longrightarrow> reads_in S (mapNoRows row)"
  by (simp add: mapNoRows_def reads_rules)

subsection \<open>Transactions and savepoints\<close>

text \<open>
  A transaction of its own: it did not begin, or its body ran and was kept or undone; a result
  is the result of the body, and then the work was kept.
\<close>

lemma WithTx_cases:
  assumes run: "WithTx env fn w = (r, w')" and out: "\<not> w_in_tx w"
  obtains (1) "r = Inl ErrDB" "w_core w' = w_core w"
  | (2) w1 r2 w2 where "fn w1 = (r2, w2)" "w_core w1 = w_core w" "w_in_tx w1" "\<not> w_aborted w1"
      "w_core w' = w_core w2 \<or> w_core w' = (w_core w2)\<lparr>c_db := w_db w\<rparr>"
      "\<And>a. r = Inr a \<Longrightarrow> r2 = Inr a \<and> w_core w' = w_core w2 \<and> \<not> w_aborted w2"
      "\<And>e. r2 = Inl e \<Longrightarrow> r = Inl e"
      "\<And>e a. r = Inl e \<Longrightarrow> r2 = Inr a \<Longrightarrow> e = ErrDB \<or> e = ErrTxAborted"
proof (cases "e_fault env (w_tick w)")
  case True
  with run out show ?thesis by (auto simp: WithTx_def intro: 1)
next
  case ok: False
  let ?w1 = "(tick w)\<lparr>w_in_tx := True, w_aborted := False, w_tx_now := e_clock env (w_tick w)\<rparr>"
  obtain r2 w2 where fn: "fn ?w1 = (r2, w2)" by (cases "fn ?w1")
  show ?thesis
  proof (rule 2 [OF fn])
    show "w_core w' = w_core w2 \<or> w_core w' = (w_core w2)\<lparr>c_db := w_db w\<rparr>"
      using run out ok fn
      by (auto simp: WithTx_def rollback_def split: if_splits sum.splits commit_outcome.splits)
    show "r2 = Inr a \<and> w_core w' = w_core w2 \<and> \<not> w_aborted w2" if "r = Inr a" for a
      using run out ok fn that
      by (auto simp: WithTx_def split: if_splits sum.splits commit_outcome.splits)
    show "r = Inl e" if "r2 = Inl e" for e
      using run out ok fn that by (simp add: WithTx_def)
    show "e = ErrDB \<or> e = ErrTxAborted" if "r = Inl e" "r2 = Inr a" for e a
      using run out ok fn that
      by (auto simp: WithTx_def split: if_splits sum.splits commit_outcome.splits)
  qed simp_all
qed

text \<open>
  A relation between the core states before and after: nothing done, two steps in a row, and
  work that is undone (the tables are the old ones, the counters may have moved).
\<close>

locale undoable =
  fixes R :: "core \<Rightarrow> core \<Rightarrow> bool"
  assumes R_refl: "R c c"
    and R_trans: "R a b \<Longrightarrow> R b c \<Longrightarrow> R a c"
    and R_undo: "R a b \<Longrightarrow> R a (b\<lparr>c_db := c_db a\<rparr>)"
begin

lemma WithTx_keeps:
  assumes fn: "ctriple (\<lambda>c. c = c0) fn (\<lambda>_. R c0) (\<lambda>_. R c0)"
    and run: "WithTx env fn w = (r, w')" and c0: "w_core w = c0"
  shows "R c0 (w_core w')"
proof (cases "w_in_tx w")
  case True
  with run c0 show ?thesis
    using ctriple_InrD [OF fn, of w] ctriple_InlD [OF fn, of w] by (cases r) (simp_all add: WithTx_def)
next
  case False
  show ?thesis
  proof (cases rule: WithTx_cases [OF run False])
    case 1
    with c0 show ?thesis by (simp add: R_refl)
  next
    case (2 w1 r2 w2)
    with c0 have "R c0 (w_core w2)"
      using ctriple_InrD [OF fn, of w1] ctriple_InlD [OF fn, of w1] by (cases r2) simp_all
    with 2 c0 R_undo [of c0 "w_core w2"] show ?thesis by auto
  qed
qed

lemma WithTx_ctriple:
  assumes "ctriple (\<lambda>c. c = c0) fn (\<lambda>_. R c0) (\<lambda>_. R c0)"
  shows "ctriple (\<lambda>c. c = c0) (WithTx env fn) (\<lambda>_. R c0) (\<lambda>_. R c0)"
  by (rule ctripleI) (use WithTx_keeps [OF assms] in auto)

end

lemma WithTx_error_restores:
  assumes run: "WithTx env fn w = (Inl e, w')" and out: "\<not> w_in_tx w"
    and lost: "\<And>n. e_commit env n \<noteq> Commit_lost"
  shows "w_db w' = w_db w"
  using run out lost
  by (auto simp: WithTx_def rollback_def split: if_splits prod.splits sum.splits commit_outcome.splits)

subsection \<open>Calls that stay inside or outside of a transaction\<close>

text \<open>
  A call that leaves the transaction open or closed as it was, does not heal an aborted one and
  publishes no event.
\<close>

definition tx_stable :: "'a call \<Rightarrow> bool" where
  "tx_stable m \<longleftrightarrow> (\<forall>w. w_in_tx (snd (m w)) = w_in_tx w
     \<and> (w_in_tx w \<and> w_aborted w \<longrightarrow> w_aborted (snd (m w)))
     \<and> w_events (snd (m w)) = w_events w \<and> w_tick w \<le> w_tick (snd (m w)))"

named_theorems stable_rules "calls that leave the transaction as it was"

lemma tx_stableD: "tx_stable m \<Longrightarrow> m w = (r, w') \<Longrightarrow> w_in_tx w' = w_in_tx w"
  unfolding tx_stable_def by (metis snd_conv)

lemma tx_stable_aborted:
  "tx_stable m \<Longrightarrow> m w = (r, w') \<Longrightarrow> w_in_tx w \<Longrightarrow> w_aborted w \<Longrightarrow> w_aborted w'"
  unfolding tx_stable_def by (metis snd_conv)

lemma tx_stable_events: "tx_stable m \<Longrightarrow> m w = (r, w') \<Longrightarrow> w_events w' = w_events w"
  unfolding tx_stable_def by (metis snd_conv)

lemma tx_stable_tick: "tx_stable m \<Longrightarrow> m w = (r, w') \<Longrightarrow> w_tick w \<le> w_tick w'"
  unfolding tx_stable_def by (metis snd_conv)

lemma tx_stableI:
  "(\<And>w r w'. m w = (r, w') \<Longrightarrow> w_in_tx w' = w_in_tx w
     \<and> (w_in_tx w \<and> w_aborted w \<longrightarrow> w_aborted w') \<and> w_events w' = w_events w \<and> w_tick w \<le> w_tick w') \<Longrightarrow> tx_stable m"
  unfolding tx_stable_def by (metis prod.collapse)

lemma stable_return [stable_rules]: "tx_stable (returnM a)"
  by (simp add: tx_stable_def returnM_def)

lemma stable_fail [stable_rules]: "tx_stable (failM e)"
  by (simp add: tx_stable_def failM_def)

lemma stable_catch [stable_rules]:
  assumes "tx_stable m" "\<And>e. tx_stable (h e)" "\<And>a. tx_stable (f a)"
  shows "tx_stable (catchM m h f)"
proof (rule tx_stableI)
  fix w r w' assume run: "catchM m h f w = (r, w')"
  obtain r1 w1 where m: "m w = (r1, w1)" by (cases "m w")
  define k where "k = (case r1 of Inl e \<Rightarrow> h e | Inr a \<Rightarrow> f a)"
  have k: "k w1 = (r, w')" using run m by (auto simp: catchM_def k_def split: sum.splits)
  have "tx_stable k" using assms by (simp add: k_def split: sum.split)
  with k m assms(1) show "w_in_tx w' = w_in_tx w
      \<and> (w_in_tx w \<and> w_aborted w \<longrightarrow> w_aborted w') \<and> w_events w' = w_events w \<and> w_tick w \<le> w_tick w'"
    by (metis le_trans tx_stableD tx_stable_aborted tx_stable_events tx_stable_tick)
qed

lemma bind_catch: "bindM m f = catchM m failM f"
  by (simp add: fun_eq_iff bindM_def catchM_def failM_def split: prod.split sum.split)

lemma stable_bind [stable_rules]: "tx_stable m \<Longrightarrow> (\<And>a. tx_stable (f a)) \<Longrightarrow> tx_stable (bindM m f)"
  unfolding bind_catch by (intro stable_catch stable_fail)

lemma stable_if [stable_rules]: "tx_stable m \<Longrightarrow> tx_stable m' \<Longrightarrow> tx_stable (if b then m else m')"
  by simp

lemma stable_option [stable_rules]:
  "tx_stable m \<Longrightarrow> (\<And>a. tx_stable (f a)) \<Longrightarrow> tx_stable (case x of None \<Rightarrow> m | Some a \<Rightarrow> f a)"
  by (cases x) simp_all

lemma stable_sum [stable_rules]:
  "(\<And>e. tx_stable (g e)) \<Longrightarrow> (\<And>a. tx_stable (f a)) \<Longrightarrow>
   tx_stable (case x of Inl e \<Rightarrow> g e | Inr a \<Rightarrow> f a)"
  by (cases x) simp_all

lemma stable_prod [stable_rules]: "(\<And>a b. tx_stable (f a b)) \<Longrightarrow> tx_stable (case x of (a, b) \<Rightarrow> f a b)"
  by (cases x) simp

lemma stable_lift [stable_rules]: "tx_stable (liftM g r)"
  by (cases r) (simp_all add: liftM_def stable_return stable_fail)

lemma stable_for [stable_rules]: "(\<And>x. tx_stable (f x)) \<Longrightarrow> tx_stable (forM xs f)"
  by (induction xs) (simp_all add: stable_return stable_bind)

lemma in_tx_tick [simp]: "w_in_tx (tick w) = w_in_tx w" "w_in_tx (abort w) = w_in_tx w"
    "w_aborted (tick w) = w_aborted w" "w_aborted (abort w) = w_in_tx w"
    "w_events (tick w) = w_events w" "w_events (abort w) = w_events w"
    "w_tick (tick w) = Suc (w_tick w)" "w_tick (abort w) = w_tick w"
  by (simp_all add: tick_def abort_def)

lemma stable_exec [stable_rules]: "tx_stable (exec env f)"
  by (auto simp: tx_stable_def exec_def split: prod.split sum.split)

lemma stable_query [stable_rules]: "tx_stable (query env f)"
  by (simp add: query_def stable_exec)

lemma stable_mapNoRows [stable_rules]: "tx_stable (mapNoRows row)"
  by (simp add: mapNoRows_def stable_rules)

lemma stable_newUUID [stable_rules]: "tx_stable (newUUID env)"
  by (simp add: tx_stable_def newUUID_def)

lemma stable_timeNow [stable_rules]: "tx_stable (timeNow env)"
  by (simp add: tx_stable_def timeNow_def)

text \<open>
  A savepoint inside of a transaction: when its body fails, the tables are the ones of the
  savepoint again, unless the transaction is left aborted, so that nothing of it will be kept.
\<close>

lemma exec_error: "exec env f w = (Inl e, w') \<Longrightarrow> w_in_tx w \<Longrightarrow> w_aborted w'"
  by (auto simp: exec_def split: if_splits prod.splits sum.splits)

lemma savepoint_stmt_ok: "savepoint_stmt env w = (Inr a, w') \<Longrightarrow> w_core w' = w_core w \<and> \<not> (w_in_tx w \<and> w_aborted w')"
  by (auto simp: savepoint_stmt_def exec_def split: if_splits)

lemma savepoint_stmt_core: "savepoint_stmt env w = (r, w') \<Longrightarrow> w_core w' = w_core w"
  by (auto simp: savepoint_stmt_def exec_def split: if_splits)

lemma WithSavepoint_cases:
  assumes run: "WithSavepoint env fn w = (r, w')" and tx: "w_in_tx w" and fn: "tx_stable fn"
  obtains (1) e where "r = Inl e" "e \<in> {ErrDB, ErrTxAborted}" "w_core w' = w_core w" "w_aborted w'"
  | (2) w1 a w2 where "fn w1 = (Inr a, w2)" "w_core w1 = w_core w" "w_core w' = w_core w2"
      "r = Inr a \<or> r \<in> {Inl ErrDB, Inl ErrTxAborted} \<and> w_aborted w'"
  | (3) w1 e w2 where "fn w1 = (Inl e, w2)" "w_core w1 = w_core w" "r = Inl e"
      "w_core w' = (w_core w2)\<lparr>c_db := w_db w\<rparr> \<or> w_core w' = w_core w2 \<and> w_aborted w'"
proof -
  obtain r0 w1 where sp: "savepoint_stmt env w = (r0, w1)" by (cases "savepoint_stmt env w")
  have sp_err: "e \<in> {ErrDB, ErrTxAborted}" if "savepoint_stmt env v = (Inl e, v')" for e v v'
    using that by (auto simp: savepoint_stmt_def exec_def split: if_splits)
  have w1: "w_core w1 = w_core w" using savepoint_stmt_core [OF sp] .
  have tx1: "w_in_tx w1"
    using sp tx by (auto simp: savepoint_stmt_def dest: tx_stableD [OF stable_exec])
  show ?thesis
  proof (cases r0)
    case (Inl e)
    have "w_aborted w1" using sp Inl tx exec_error by (auto simp: savepoint_stmt_def)
    moreover have "r = Inl e" "w' = w1"
      using run tx sp Inl by (auto simp: WithSavepoint_def bindM_def)
    ultimately show ?thesis using 1 [of e] w1 sp_err sp Inl by blast
  next
    case (Inr u)
    obtain r2 w2 where r2: "fn w1 = (r2, w2)" by (cases "fn w1")
    have tx2: "w_in_tx w2" using tx_stableD [OF fn r2] tx1 by simp
    show ?thesis
    proof (cases r2)
      case (Inr a)
      obtain r3 w3 where rel: "savepoint_stmt env w2 = (r3, w3)" by (cases "savepoint_stmt env w2")
      have "w_core w' = w_core w2"
        using run tx sp \<open>r0 = Inr u\<close> r2 Inr rel savepoint_stmt_core [OF rel]
        by (auto simp: WithSavepoint_def bindM_def catchM_def returnM_def split: sum.splits)
      moreover have "r = Inr a \<or> r \<in> {Inl ErrDB, Inl ErrTxAborted} \<and> w_aborted w'"
        using run tx sp \<open>r0 = Inr u\<close> r2 Inr rel sp_err [of w2] exec_error [of env _ w2] tx2
        by (fastforce simp: WithSavepoint_def bindM_def catchM_def returnM_def savepoint_stmt_def
            split: sum.splits)
      ultimately show ?thesis using 2 r2 Inr w1 by blast
    next
      case (Inl e)
      obtain r3 w3 where rb: "rollback_to env (w_db w) w2 = (r3, w3)"
        by (cases "rollback_to env (w_db w) w2")
      obtain r4 w4 where rel: "savepoint_stmt env w3 = (r4, w4)" by (cases "savepoint_stmt env w3")
      have "r = Inl e"
        using run tx sp \<open>r0 = Inr u\<close> r2 Inl rb rel
        by (auto simp: WithSavepoint_def bindM_def catchM_def failM_def split: sum.splits)
      moreover have "w_core w' = (w_core w2)\<lparr>c_db := w_db w\<rparr> \<or> w_core w' = w_core w2 \<and> w_aborted w'"
        using run tx sp \<open>r0 = Inr u\<close> r2 Inl rb rel savepoint_stmt_core [OF rel] tx2
        by (auto simp: WithSavepoint_def bindM_def catchM_def failM_def rollback_to_def rollback_def
            split: sum.splits if_splits)
      ultimately show ?thesis using 3 r2 Inl w1 by blast
    qed
  qed
qed

lemma WithTx_events:
  "tx_stable fn \<Longrightarrow> WithTx env fn w = (r, w') \<Longrightarrow> w_events w' = w_events w \<and> w_in_tx w' = w_in_tx w"
  by (auto simp: WithTx_def rollback_def split: prod.splits sum.splits commit_outcome.splits if_splits
      dest: tx_stable_events tx_stableD)

lemma WithTx_tick:
  assumes "tx_stable fn" "WithTx env fn w = (r, w')"
  shows "w_tick w \<le> w_tick w'"
proof (cases "w_in_tx w")
  case True
  then show ?thesis using assms tx_stable_tick by (simp add: WithTx_def)
next
  case False
  then show ?thesis
    using assms(2)
    by (auto simp: WithTx_def rollback_def split: prod.splits sum.splits commit_outcome.splits if_splits
        dest!: tx_stable_tick [OF assms(1)])
qed

lemma stable_WithSavepoint [stable_rules]:
  assumes fn: "tx_stable fn"
  shows "tx_stable (WithSavepoint env fn)"
proof (rule tx_stableI)
  fix w r w' assume run: "WithSavepoint env fn w = (r, w')"
  show "w_in_tx w' = w_in_tx w \<and> (w_in_tx w \<and> w_aborted w \<longrightarrow> w_aborted w') \<and> w_events w' = w_events w
      \<and> w_tick w \<le> w_tick w'"
  proof (cases "w_in_tx w")
    case False
    with run WithTx_events [OF fn, of env w] WithTx_tick [OF fn, of env w] show ?thesis by (simp add: WithSavepoint_def)
  next
    case tx: True
    show ?thesis
    proof (cases "w_aborted w")
      case True
      with tx run show ?thesis by (auto simp: WithSavepoint_def bindM_def savepoint_stmt_def exec_def)
    next
      case False
      have rb: "w_in_tx v' = w_in_tx v \<and> w_events v' = w_events v \<and> w_tick v \<le> w_tick v'" if "rollback_to env d v = (x, v')" for d v x v'
        using that by (auto simp: rollback_to_def rollback_def split: if_splits)
      have sp: "w_in_tx v' = w_in_tx v \<and> w_events v' = w_events v \<and> w_tick v \<le> w_tick v'" if "savepoint_stmt env v = (x, v')" for v x v'
        using that by (auto simp: savepoint_stmt_def dest: tx_stableD [OF stable_exec] tx_stable_events [OF stable_exec] tx_stable_tick [OF stable_exec])
      have body: "w_in_tx v' = w_in_tx v \<and> w_events v' = w_events v \<and> w_tick v \<le> w_tick v'" if "fn v = (x, v')" for v x v'
        using that fn by (auto dest: tx_stableD tx_stable_events tx_stable_tick)
      show ?thesis
        using run tx False
        by (auto simp: WithSavepoint_def bindM_def catchM_def failM_def returnM_def
            split: prod.splits sum.splits dest!: rb sp body)
    qed
  qed
qed

subsection \<open>Tables with a key\<close>

lemma lookup_Nil [simp]: "lookup key [] k = None"
  by (simp add: lookup_def)

lemma lookup_append:
  "lookup key (xs @ ys) k = (case lookup key xs k of None \<Rightarrow> lookup key ys k | Some r \<Rightarrow> Some r)"
  by (induction xs) (auto simp: lookup_def)

lemma lookup_Cons [simp]:
  "lookup key (x # xs) k = (if key x = k then Some x else lookup key xs k)"
  by (simp add: lookup_def)

lemma lookup_SomeD: "lookup key xs k = Some r \<Longrightarrow> r \<in> set xs \<and> key r = k"
  by (auto simp: lookup_def find_Some_iff)

lemma lookup_None_iff: "lookup key xs k = None \<longleftrightarrow> k \<notin> key ` set xs"
  by (auto simp: lookup_def find_None_iff)

lemma lookup_distinct:
  "distinct (map key xs) \<Longrightarrow> r \<in> set xs \<Longrightarrow> lookup key xs (key r) = Some r"
  by (induction xs) (auto simp: image_iff)

lemma find_key_cond:
  "distinct (map key xs) \<Longrightarrow>
   find (\<lambda>r. key r = k \<and> Q r) xs = (case lookup key xs k of
     None \<Rightarrow> None | Some r \<Rightarrow> if Q r then Some r else None)"
proof (induction xs)
  case (Cons x xs)
  show ?case
  proof (cases "key x = k")
    case True
    with Cons.prems have "lookup key xs k = None" by (auto simp: lookup_None_iff)
    with True Cons show ?thesis by simp
  qed (use Cons in simp)
qed simp

text \<open>The laws of an \<open>UPDATE\<close> that keeps the key of the rows.\<close>

locale keyed_update =
  fixes key :: "'r \<Rightarrow> 'k" and upd :: "'r \<Rightarrow> 'r"
  assumes upd_key [simp]: "key (upd r) = key r"
begin

lemma map_key_update: "map key (update_where cond upd rows) = map key rows"
  by (induction rows) (simp_all add: update_where_def)

lemma lookup_update:
  "lookup key (update_where cond upd rows) k =
     map_option (\<lambda>r. if cond r then upd r else r) (lookup key rows k)"
  by (induction rows) (simp_all add: update_where_def)

lemma keys_update [simp]: "key ` set (update_where cond upd rows) = key ` set rows"
  using map_key_update [of cond rows] by (metis set_map)

end

lemma set_update_where:
  "set (update_where cond upd rows) = (\<lambda>r. if cond r then upd r else r) ` set rows"
  by (simp add: update_where_def)

lemma max_or_zero_Nil [simp]: "max_or_zero [] = 0"
  by (simp add: max_or_zero_def)

lemma max_or_zero_ge: "x \<in> set xs \<Longrightarrow> x \<le> max_or_zero xs"
  by (auto simp: max_or_zero_def)

end
