(* ===== verification/Sync_Inv.thy ===== *)
theory Sync_Inv
  imports Tx_Logic Sync_Batch
begin

section \<open>The invariant of the database and what a push may change\<close>

text \<open>
  \<open>db_ok\<close> is the invariant of the tables: keys are unique, references resolve (to rows of the
  same owner), the sequence numbers of the history increase and stay below their counter, and
  no note has a higher version than it has changes, so versions cannot overflow.

  \<open>sync_rel owner device c c'\<close> is the contract of everything a push of \<open>device\<close> does for
  \<open>owner\<close>: the history only grows, by rows of that owner and device with new sequence numbers;
  rows of other owners stay as they are; versions never decrease, tombstones are permanent and
  identities of rows never change. The relation is reflexive, transitive and closed under
  rollback, and every statement of a push satisfies it.
\<close>

subsection \<open>The invariant\<close>

abbreviation note_at :: "core \<Rightarrow> uuid \<Rightarrow> Note option" where
  "note_at c \<equiv> lookup nt_ID (t_notes (c_db c))"

abbreviation block_at :: "core \<Rightarrow> uuid \<Rightarrow> NoteBlock option" where
  "block_at c \<equiv> lookup bl_ID (t_note_blocks (c_db c))"

abbreviation device_at :: "core \<Rightarrow> string \<Rightarrow> SyncDevice option" where
  "device_at c \<equiv> lookup dv_ID (t_sync_devices (c_db c))"

abbreviation category_at :: "core \<Rightarrow> uuid \<Rightarrow> Category_row option" where
  "category_at c \<equiv> lookup cg_ID (t_categories (c_db c))"

abbreviation history :: "core \<Rightarrow> note_change_row list" where
  "history c \<equiv> t_note_changes (c_db c)"

definition owns :: "uuid \<Rightarrow> core \<Rightarrow> uuid \<Rightarrow> bool" where
  "owns owner c i \<longleftrightarrow> (\<exists>n. note_at c i = Some n \<and> nt_OwnerID n = owner)"

definition owns_device :: "uuid \<Rightarrow> core \<Rightarrow> string \<Rightarrow> bool" where
  "owns_device owner c i \<longleftrightarrow> (\<exists>d. device_at c i = Some d \<and> dv_OwnerID d = owner)"

definition changes_of :: "core \<Rightarrow> uuid \<Rightarrow> note_change_row list" where
  "changes_of c i = filter (\<lambda>r. cr_NoteID r = Some i) (history c)"

definition notes_ok :: "core \<Rightarrow> bool" where
  "notes_ok c \<longleftrightarrow> distinct (map nt_ID (t_notes (c_db c))) \<and> note_at c Nil_uuid = None
     \<and> (\<forall>i n. note_at c i = Some n \<longrightarrow>
          0 \<le> nt_CurrentVersion n \<and> nt_CurrentVersion n \<le> int (length (changes_of c i)))"

definition blocks_ok :: "core \<Rightarrow> bool" where
  "blocks_ok c \<longleftrightarrow> distinct (map bl_ID (t_note_blocks (c_db c)))
     \<and> (\<forall>i b. block_at c i = Some b \<longrightarrow> note_at c (bl_NoteID b) \<noteq> None)"

definition change_ok :: "core \<Rightarrow> note_change_row \<Rightarrow> bool" where
  "change_ok c r \<longleftrightarrow>
     (\<exists>s. cr_GlobalSequence r = Some s \<and> 1 \<le> s \<and> s \<le> c_change_seq c)
     \<and> (\<forall>i. cr_NoteID r = Some i \<longrightarrow> owns (cr_OwnerID r) c i)
     \<and> owns_device (cr_OwnerID r) c (cr_DeviceID r)
     \<and> cr_ClientOperationID r \<noteq> Nil_uuid \<and> ValidDeviceID (cr_DeviceID r)"

definition changes_ok :: "core \<Rightarrow> bool" where
  "changes_ok c \<longleftrightarrow> distinct (map cr_ID (history c)) \<and> distinct (map op_key (history c))
     \<and> sorted_wrt (<) (map cr_seq (history c)) \<and> 0 \<le> c_change_seq c \<and> c_change_seq c \<le> max_int64
     \<and> list_all (change_ok c) (history c)"

definition db_ok :: "core \<Rightarrow> bool" where
  "db_ok c \<longleftrightarrow> notes_ok c \<and> blocks_ok c \<and> changes_ok c
     \<and> distinct (map dv_ID (t_sync_devices (c_db c)))
     \<and> distinct (map cg_ID (t_categories (c_db c)))"

subsection \<open>The contract of a push\<close>

definition note_step :: "uuid \<Rightarrow> Note option \<Rightarrow> Note option \<Rightarrow> bool" where
  "note_step owner x y \<longleftrightarrow> (case x of
     None \<Rightarrow> (case y of None \<Rightarrow> True | Some n' \<Rightarrow> nt_OwnerID n' = owner)
   | Some n \<Rightarrow> (case y of None \<Rightarrow> False | Some n' \<Rightarrow>
       nt_OwnerID n' = nt_OwnerID n \<and> nt_CreatedAt n' = nt_CreatedAt n
       \<and> nt_CurrentVersion n \<le> nt_CurrentVersion n'
       \<and> (nt_DeletedAt n \<noteq> None \<longrightarrow> nt_DeletedAt n' \<noteq> None)
       \<and> (nt_OwnerID n \<noteq> owner \<longrightarrow> n' = n)))"

definition block_step :: "(uuid \<Rightarrow> bool) \<Rightarrow> (uuid \<Rightarrow> bool) \<Rightarrow> NoteBlock option \<Rightarrow> NoteBlock option \<Rightarrow> bool" where
  "block_step owned owned' x y \<longleftrightarrow> (case x of
     None \<Rightarrow> (case y of None \<Rightarrow> True | Some b' \<Rightarrow> owned' (bl_NoteID b'))
   | Some b \<Rightarrow> (case y of None \<Rightarrow> False | Some b' \<Rightarrow>
       bl_NoteID b' = bl_NoteID b \<and> bl_CreatedAt b' = bl_CreatedAt b
       \<and> (bl_DeletedAt b \<noteq> None \<longrightarrow> bl_DeletedAt b' \<noteq> None)
       \<and> (\<not> owned (bl_NoteID b) \<longrightarrow> b' = b)))"

definition category_step :: "uuid \<Rightarrow> Category_row option \<Rightarrow> Category_row option \<Rightarrow> bool" where
  "category_step owner x y \<longleftrightarrow> (case x of
     None \<Rightarrow> (case y of None \<Rightarrow> True | Some g' \<Rightarrow> cg_OwnerID g' = owner)
   | Some g \<Rightarrow> (case y of None \<Rightarrow> False | Some g' \<Rightarrow>
       cg_OwnerID g' = cg_OwnerID g \<and> cg_CreatedAt g' = cg_CreatedAt g
       \<and> (cg_DeletedAt g \<noteq> None \<longrightarrow> g' = g)
       \<and> (cg_OwnerID g \<noteq> owner \<longrightarrow> g' = g)))"

definition new_change :: "uuid \<Rightarrow> string \<Rightarrow> core \<Rightarrow> note_change_row \<Rightarrow> bool" where
  "new_change owner device c r \<longleftrightarrow>
     cr_OwnerID r = owner \<and> cr_DeviceID r = device \<and> c_change_seq c < cr_seq r"

definition history_rel :: "uuid \<Rightarrow> string \<Rightarrow> core \<Rightarrow> core \<Rightarrow> bool" where
  "history_rel owner device c c' \<longleftrightarrow>
     (\<exists>new. history c' = history c @ new \<and> list_all (new_change owner device c) new)
     \<and> c_change_seq c \<le> c_change_seq c'"

text \<open>The queue grows at its end, by jobs with new numbers.\<close>

definition jobs_rel :: "core \<Rightarrow> core \<Rightarrow> bool" where
  "jobs_rel c c' \<longleftrightarrow> c_job_seq c \<le> c_job_seq c'
     \<and> (\<exists>new. t_outbox_jobs (c_db c') = t_outbox_jobs (c_db c) @ new
          \<and> sorted_wrt (<) (map jb_ID new)
          \<and> list_all (\<lambda>j. c_job_seq c < jb_ID j \<and> jb_ID j \<le> c_job_seq c') new)"

definition other_rel :: "core \<Rightarrow> core \<Rightarrow> bool" where
  "other_rel c c' \<longleftrightarrow>
     t_sync_devices (c_db c') = t_sync_devices (c_db c)
     \<and> t_note_snapshots (c_db c') = t_note_snapshots (c_db c)
     \<and> t_file_uploads (c_db c') = t_file_uploads (c_db c)
     \<and> jobs_rel c c' \<and> c_upload_seq c' = c_upload_seq c"

definition sync_step :: "uuid \<Rightarrow> string \<Rightarrow> core \<Rightarrow> core \<Rightarrow> bool" where
  "sync_step owner device c c' \<longleftrightarrow>
     (\<forall>i. note_step owner (note_at c i) (note_at c' i))
     \<and> (\<forall>i. block_step (owns owner c) (owns owner c') (block_at c i) (block_at c' i))
     \<and> (\<forall>i. category_step owner (category_at c i) (category_at c' i))
     \<and> history_rel owner device c c' \<and> other_rel c c'"

definition sync_rel :: "uuid \<Rightarrow> string \<Rightarrow> core \<Rightarrow> core \<Rightarrow> bool" where
  "sync_rel owner device c c' \<longleftrightarrow> (db_ok c \<longrightarrow> db_ok c' \<and> sync_step owner device c c')"

subsection \<open>Nothing done, two steps in a row, rollback\<close>

lemma note_step_same [simp]: "note_step owner x x"
  by (simp add: note_step_def split: option.split)

lemma note_step_trans: "note_step owner x y \<Longrightarrow> note_step owner y z \<Longrightarrow> note_step owner x z"
  by (auto simp: note_step_def split: option.splits)

lemma category_step_same [simp]: "category_step owner x x"
  by (simp add: category_step_def split: option.split)

lemma category_step_trans: "category_step owner x y \<Longrightarrow> category_step owner y z \<Longrightarrow> category_step owner x z"
  by (auto simp: category_step_def split: option.splits)

lemma history_rel_refl: "history_rel owner device c c"
  by (auto simp: history_rel_def)

lemma history_rel_trans:
  assumes "history_rel owner device a b" "history_rel owner device b c"
  shows "history_rel owner device a c"
proof -
  obtain n1 n2 where n: "history b = history a @ n1" "list_all (new_change owner device a) n1"
      "history c = history b @ n2" "list_all (new_change owner device b) n2"
    using assms by (auto simp: history_rel_def)
  have le: "c_change_seq a \<le> c_change_seq b" "c_change_seq b \<le> c_change_seq c"
    using assms by (auto simp: history_rel_def)
  have "list_all (new_change owner device a) n2"
    using n(4) le by (auto simp: list_all_iff new_change_def)
  with n le show ?thesis
    unfolding history_rel_def by (intro conjI exI [of _ "n1 @ n2"]) auto
qed

lemma owns_step: "note_step owner (note_at a i) (note_at b i) \<Longrightarrow> owns o' a i \<Longrightarrow> owns o' b i"
  by (auto simp: note_step_def owns_def split: option.splits)

lemma block_step_trans:
  assumes "block_step (owns owner a) (owns owner b) x y"
    and "block_step (owns owner b) (owns owner c) y z"
    and ns: "\<And>i. note_step owner (note_at a i) (note_at b i)"
    and ns': "\<And>i. note_step owner (note_at b i) (note_at c i)"
    and fk: "\<And>e. x = Some e \<Longrightarrow> note_at a (bl_NoteID e) \<noteq> None"
  shows "block_step (owns owner a) (owns owner c) x z"
proof (cases x)
  case None
  then show ?thesis
    using assms(1,2) owns_step [OF ns'] by (auto simp: block_step_def split: option.splits)
next
  case (Some e)
  have "\<not> owns owner b (bl_NoteID e)" if "\<not> owns owner a (bl_NoteID e)"
    using fk [OF Some] that ns [of "bl_NoteID e"]
    by (auto simp: note_step_def owns_def split: option.splits)
  with Some assms(1,2) show ?thesis
    by (auto simp: block_step_def split: option.splits)
qed

lemma jobs_rel_same:
  "t_outbox_jobs (c_db c') = t_outbox_jobs (c_db c) \<Longrightarrow> c_job_seq c \<le> c_job_seq c' \<Longrightarrow> jobs_rel c c'"
  by (simp add: jobs_rel_def)

lemma jobs_rel_refl [simp]: "jobs_rel c c"
  by (simp add: jobs_rel_same)

lemma jobs_rel_trans:
  assumes "jobs_rel a b" "jobs_rel b c"
  shows "jobs_rel a c"
proof -
  obtain new where new: "t_outbox_jobs (c_db b) = t_outbox_jobs (c_db a) @ new" "sorted_wrt (<) (map jb_ID new)"
      "list_all (\<lambda>j. c_job_seq a < jb_ID j \<and> jb_ID j \<le> c_job_seq b) new" "c_job_seq a \<le> c_job_seq b"
    using assms(1) by (auto simp: jobs_rel_def)
  obtain more where more: "t_outbox_jobs (c_db c) = t_outbox_jobs (c_db b) @ more" "sorted_wrt (<) (map jb_ID more)"
      "list_all (\<lambda>j. c_job_seq b < jb_ID j \<and> jb_ID j \<le> c_job_seq c) more" "c_job_seq b \<le> c_job_seq c"
    using assms(2) by (auto simp: jobs_rel_def)
  have "sorted_wrt (<) (map jb_ID (new @ more))"
    using new(2,3) more(2,3) by (fastforce simp: sorted_wrt_append list_all_iff)
  moreover have "list_all (\<lambda>j. c_job_seq a < jb_ID j \<and> jb_ID j \<le> c_job_seq c) (new @ more)"
    using new(3,4) more(3,4) by (auto simp: list_all_iff)
  ultimately show ?thesis
    using new(1,4) more(1,4) unfolding jobs_rel_def by (intro conjI exI [where x = "new @ more"]) simp_all
qed

lemma sync_step_refl: "sync_step owner device c c"
  by (auto simp: sync_step_def history_rel_refl other_rel_def block_step_def split: option.split)

lemma sync_step_trans:
  assumes "sync_step owner device a b" "sync_step owner device b c" "db_ok a"
  shows "sync_step owner device a c"
proof -
  have fk: "note_at a (bl_NoteID e) \<noteq> None" if "block_at a i = Some e" for i e
    using \<open>db_ok a\<close> that by (auto simp: db_ok_def blocks_ok_def)
  have "block_step (owns owner a) (owns owner c) (block_at a i) (block_at c i)" for i
    by (rule block_step_trans [where b = b and y = "block_at b i"])
      (use assms(1,2) fk in \<open>auto simp: sync_step_def\<close>)
  moreover have "other_rel a c"
    using assms(1,2) jobs_rel_trans unfolding sync_step_def other_rel_def by force
  ultimately show ?thesis
    using assms(1,2) history_rel_trans note_step_trans category_step_trans
    unfolding sync_step_def by blast
qed

lemma db_ok_undo:
  assumes "db_ok a" "c_change_seq a \<le> c_change_seq b" "c_change_seq b \<le> max_int64"
  shows "db_ok (b\<lparr>c_db := c_db a\<rparr>)"
proof -
  have "change_ok (b\<lparr>c_db := c_db a\<rparr>) r" if "change_ok a r" for r
    using that assms(2) by (auto simp: change_ok_def owns_def owns_device_def)
  with assms show ?thesis
    by (auto simp: db_ok_def notes_ok_def blocks_ok_def changes_ok_def changes_of_def list_all_iff)
qed

interpretation push: undoable "sync_rel owner device" for owner device
proof
  fix a b c
  show "sync_rel owner device c c" by (simp add: sync_rel_def sync_step_refl)
  show "sync_rel owner device a c" if "sync_rel owner device a b" "sync_rel owner device b c"
    using that sync_step_trans unfolding sync_rel_def by blast
  show "sync_rel owner device a (b\<lparr>c_db := c_db a\<rparr>)" if "sync_rel owner device a b"
    using that db_ok_undo [of a b]
    by (auto simp: sync_rel_def sync_step_def history_rel_def other_rel_def db_ok_def changes_ok_def
        block_step_def jobs_rel_def split: option.split)
qed

subsection \<open>The statements of a push\<close>

lemmas sync_defs = sync_rel_def sync_step_def db_ok_def notes_ok_def blocks_ok_def changes_ok_def
  change_ok_def owns_def owns_device_def changes_of_def history_rel_def other_rel_def jobs_rel_def on_table_defs

lemma lookup_note_id: "note_at c i = Some n \<Longrightarrow> nt_ID n = i"
  by (drule lookup_SomeD) simp

lemma lookup_block_id: "block_at c i = Some b \<Longrightarrow> bl_ID b = i"
  by (drule lookup_SomeD) simp

text \<open>Ownership of notes does not change when a note is updated or added.\<close>

lemma change_ok_mono:
  assumes "change_ok c r" and "c_change_seq c \<le> c_change_seq c'"
    and "\<And>o' i. owns o' c i \<Longrightarrow> owns o' c' i"
    and "t_sync_devices (c_db c') = t_sync_devices (c_db c)"
  shows "change_ok c' r"
proof -
  obtain s where s: "cr_GlobalSequence r = Some s" "1 \<le> s" "s \<le> c_change_seq c"
    using assms(1) by (auto simp: change_ok_def)
  then have "s \<le> c_change_seq c'" using assms(2) by linarith
  with s assms show ?thesis by (simp add: change_ok_def owns_device_def)
qed

lemma sync_update_notes:
  assumes "keyed_update nt_ID upd"
    and cond: "\<And>n. cond n \<Longrightarrow> nt_OwnerID n = owner"
    and upd: "\<And>n. cond n \<Longrightarrow> note_at c (nt_ID n) = Some n \<Longrightarrow>
      nt_OwnerID (upd n) = owner \<and> nt_CreatedAt (upd n) = nt_CreatedAt n
      \<and> nt_CurrentVersion n \<le> nt_CurrentVersion (upd n)
      \<and> nt_CurrentVersion (upd n) \<le> int (length (changes_of c (nt_ID n)))
      \<and> (nt_DeletedAt n \<noteq> None \<longrightarrow> nt_DeletedAt (upd n) \<noteq> None)"
  shows "sync_rel owner device c (on_notes (update_where cond upd) c)"
  unfolding sync_rel_def
proof
  assume ok: "db_ok c"
  let ?c = "on_notes (update_where cond upd) c"
  have at: "note_at ?c i = map_option (\<lambda>n. if cond n then upd n else n) (note_at c i)" for i
    using keyed_update.lookup_update [OF assms(1)] by (simp add: on_notes_def)
  have keys: "map nt_ID (t_notes (c_db ?c)) = map nt_ID (t_notes (c_db c))"
    using keyed_update.map_key_update [OF assms(1)] by (simp add: on_notes_def)
  have step: "note_step owner (note_at c i) (note_at ?c i)" for i
  proof (cases "note_at c i")
    case (Some n)
    then have i: "nt_ID n = i" by (rule lookup_note_id)
    show ?thesis
    proof (cases "cond n")
      case True
      with Some i upd [OF True] cond [OF True] show ?thesis by (simp add: at note_step_def)
    qed (simp add: at Some)
  qed (simp add: at note_step_def)
  have same: "history ?c = history c" "t_note_blocks (c_db ?c) = t_note_blocks (c_db c)"
      "t_categories (c_db ?c) = t_categories (c_db c)" "t_sync_devices (c_db ?c) = t_sync_devices (c_db c)"
      "c_change_seq ?c = c_change_seq c"
    by (simp_all add: on_notes_def)
  have own: "owns o' ?c i" if "owns o' c i" for o' i
    using owns_step [OF step that] .
  have "notes_ok ?c"
  proof -
    have "0 \<le> nt_CurrentVersion n' \<and> nt_CurrentVersion n' \<le> int (length (changes_of ?c i))"
      if n': "note_at ?c i = Some n'" for i n'
    proof -
      obtain n where n: "note_at c i = Some n" "n' = (if cond n then upd n else n)"
        using n' by (auto simp: at)
      have i: "nt_ID n = i" using n(1) by (rule lookup_note_id)
      have "0 \<le> nt_CurrentVersion n" "nt_CurrentVersion n \<le> int (length (changes_of c i))"
        using ok n(1) by (auto simp: db_ok_def notes_ok_def)
      with n i upd [of n] show ?thesis by (auto simp: changes_of_def same)
    qed
    with ok keys show ?thesis by (auto simp: db_ok_def notes_ok_def at)
  qed
  moreover have "blocks_ok ?c"
    using ok by (auto simp: db_ok_def blocks_ok_def at same)
  moreover have "changes_ok ?c"
    using ok own by (auto simp: db_ok_def changes_ok_def same list_all_iff intro: change_ok_mono)
  moreover have "block_step (owns owner c) (owns owner ?c) (block_at c i) (block_at ?c i)" for i
    by (simp add: block_step_def same split: option.split)
  ultimately show "db_ok ?c \<and> sync_step owner device c ?c"
    using ok step by (simp add: db_ok_def sync_step_def same history_rel_def other_rel_def jobs_rel_def) (simp add: on_notes_def)
qed

lemma sync_insert_note:
  assumes fresh: "note_at c (nt_ID n) = None" and n: "nt_OwnerID n = owner" "nt_CurrentVersion n = 0" "nt_ID n \<noteq> Nil_uuid"
  shows "sync_rel owner device c (on_notes (\<lambda>rows. rows @ [n]) c)"
  unfolding sync_rel_def
proof
  assume ok: "db_ok c"
  let ?c = "on_notes (\<lambda>rows. rows @ [n]) c"
  have at: "note_at ?c i = (if i = nt_ID n then Some n else note_at c i)" for i
    using fresh by (auto simp: on_notes_def lookup_append split: option.split)
  have same: "history ?c = history c" "t_note_blocks (c_db ?c) = t_note_blocks (c_db c)"
      "t_categories (c_db ?c) = t_categories (c_db c)" "t_sync_devices (c_db ?c) = t_sync_devices (c_db c)"
      "c_change_seq ?c = c_change_seq c"
    by (simp_all add: on_notes_def)
  have step: "note_step owner (note_at c i) (note_at ?c i)" for i
    using fresh n by (auto simp: at note_step_def split: option.split)
  have "notes_ok ?c"
  proof -
    have "distinct (map nt_ID (t_notes (c_db ?c)))"
      using ok fresh by (auto simp: db_ok_def notes_ok_def lookup_None_iff on_notes_def)
    with ok n show ?thesis
      by (simp add: db_ok_def notes_ok_def at same changes_of_def)
  qed
  moreover have "blocks_ok ?c"
    using ok by (auto simp: db_ok_def blocks_ok_def at same)
  moreover have "changes_ok ?c"
    using ok owns_step [OF step] by (auto simp: db_ok_def changes_ok_def same list_all_iff intro: change_ok_mono)
  moreover have "block_step (owns owner c) (owns owner ?c) (block_at c i) (block_at ?c i)" for i
    by (simp add: block_step_def same split: option.split)
  ultimately show "db_ok ?c \<and> sync_step owner device c ?c"
    using ok step by (simp add: db_ok_def sync_step_def same history_rel_def other_rel_def jobs_rel_def) (simp add: on_notes_def)
qed

lemma sync_blocks:
  assumes same: "c' = on_blocks f c"
    and keys: "distinct (map bl_ID (t_note_blocks (c_db c))) \<Longrightarrow> distinct (map bl_ID (t_note_blocks (c_db c')))"
    and step: "\<And>i. block_step (owns owner c) (owns owner c) (block_at c i) (block_at c' i)"
  shows "sync_rel owner device c c'"
  unfolding sync_rel_def
proof
  assume ok: "db_ok c"
  have eq: "history c' = history c" "t_notes (c_db c') = t_notes (c_db c)"
      "t_categories (c_db c') = t_categories (c_db c)" "t_sync_devices (c_db c') = t_sync_devices (c_db c)"
      "c_change_seq c' = c_change_seq c"
    by (simp_all add: same on_blocks_def)
  have own: "owns o' c' = owns o' c" for o'
    by (auto simp: owns_def eq)
  have "note_at c (bl_NoteID b) \<noteq> None" if b: "block_at c' i = Some b" for i b
  proof (cases "block_at c i")
    case None
    with step [of i] b show ?thesis by (auto simp: block_step_def owns_def)
  next
    case (Some x)
    with step [of i] b ok show ?thesis by (auto simp: block_step_def db_ok_def blocks_ok_def)
  qed
  then have "blocks_ok c'"
    using ok keys by (auto simp: db_ok_def blocks_ok_def eq)
  moreover have "notes_ok c'"
    using ok by (simp add: db_ok_def notes_ok_def changes_of_def eq)
  moreover have "changes_ok c'"
    using ok own by (auto simp: db_ok_def changes_ok_def eq list_all_iff intro: change_ok_mono)
  ultimately show "db_ok c' \<and> sync_step owner device c c'"
    using ok step by (simp add: db_ok_def sync_step_def eq own history_rel_def other_rel_def jobs_rel_def)
      (simp add: same on_blocks_def)
qed

lemma sync_update_blocks:
  assumes "keyed_update bl_ID upd"
    and cond: "\<And>b. cond b \<Longrightarrow> owns owner c (bl_NoteID b)"
    and upd: "\<And>b. cond b \<Longrightarrow> block_at c (bl_ID b) = Some b \<Longrightarrow>
      bl_NoteID (upd b) = bl_NoteID b \<and> bl_CreatedAt (upd b) = bl_CreatedAt b
      \<and> (bl_DeletedAt b \<noteq> None \<longrightarrow> bl_DeletedAt (upd b) \<noteq> None)"
  shows "sync_rel owner device c (on_blocks (update_where cond upd) c)"
proof (rule sync_blocks [OF refl])
  let ?c = "on_blocks (update_where cond upd) c"
  have at: "block_at ?c i = map_option (\<lambda>b. if cond b then upd b else b) (block_at c i)" for i
    using keyed_update.lookup_update [OF assms(1)] by (simp add: on_blocks_def)
  show "distinct (map bl_ID (t_note_blocks (c_db ?c)))" if "distinct (map bl_ID (t_note_blocks (c_db c)))"
    using keyed_update.map_key_update [OF assms(1)] that by (simp add: on_blocks_def)
  show "block_step (owns owner c) (owns owner c) (block_at c i) (block_at ?c i)" for i
    using upd cond by (auto simp: at block_step_def lookup_block_id split: option.split)
qed

lemma sync_insert_block:
  assumes fresh: "block_at c (bl_ID b) = None" and own: "owns owner c (bl_NoteID b)"
  shows "sync_rel owner device c (on_blocks (\<lambda>rows. rows @ [b]) c)"
proof (rule sync_blocks [OF refl])
  let ?c = "on_blocks (\<lambda>rows. rows @ [b]) c"
  have at: "block_at ?c i = (if i = bl_ID b then Some b else block_at c i)" for i
    using fresh by (auto simp: on_blocks_def lookup_append split: option.split)
  show "distinct (map bl_ID (t_note_blocks (c_db ?c)))" if "distinct (map bl_ID (t_note_blocks (c_db c)))"
    using that fresh by (auto simp: on_blocks_def lookup_None_iff)
  show "block_step (owns owner c) (owns owner c) (block_at c i) (block_at ?c i)" for i
    using fresh own by (auto simp: at block_step_def split: option.split)
qed

lemma sync_categories:
  assumes same: "c' = on_categories f c"
    and keys: "distinct (map cg_ID (t_categories (c_db c))) \<Longrightarrow> distinct (map cg_ID (t_categories (c_db c')))"
    and step: "\<And>i. category_step owner (category_at c i) (category_at c' i)"
  shows "sync_rel owner device c c'"
proof -
  have eq: "history c' = history c" "t_notes (c_db c') = t_notes (c_db c)"
      "t_note_blocks (c_db c') = t_note_blocks (c_db c)" "t_sync_devices (c_db c') = t_sync_devices (c_db c)"
      "c_change_seq c' = c_change_seq c"
    by (simp_all add: same on_categories_def)
  have own: "owns o' c' = owns o' c" for o'
    by (auto simp: owns_def eq)
  have ch: "change_ok c' = change_ok c"
    by (simp add: change_ok_def fun_eq_iff own owns_device_def eq)
  have "block_step (owns owner c) (owns owner c) x x" for x
    by (simp add: block_step_def split: option.split)
  with keys step show ?thesis
    by (simp add: sync_rel_def db_ok_def notes_ok_def blocks_ok_def changes_ok_def changes_of_def
        sync_step_def eq own ch history_rel_def other_rel_def jobs_rel_def) (simp add: same on_categories_def)
qed

lemma sync_update_categories:
  assumes "keyed_update cg_ID upd"
    and upd: "\<And>g. cg_OwnerID (upd g) = cg_OwnerID g \<and> cg_CreatedAt (upd g) = cg_CreatedAt g"
  shows "sync_rel owner device c (on_categories (update_where (category_active i owner) upd) c)"
proof (rule sync_categories [OF refl])
  let ?c = "on_categories (update_where (category_active i owner) upd) c"
  have at: "category_at ?c j = map_option (\<lambda>g. if category_active i owner g then upd g else g) (category_at c j)" for j
    using keyed_update.lookup_update [OF assms(1)] by (simp add: on_categories_def)
  show "distinct (map cg_ID (t_categories (c_db ?c)))" if "distinct (map cg_ID (t_categories (c_db c)))"
    using keyed_update.map_key_update [OF assms(1)] that by (simp add: on_categories_def)
  show "category_step owner (category_at c j) (category_at ?c j)" for j
    using upd by (auto simp: at category_step_def category_active_def split: option.split)
qed

lemma sync_insert_category:
  assumes fresh: "category_at c (cg_ID g) = None" and own: "cg_OwnerID g = owner"
  shows "sync_rel owner device c (on_categories (\<lambda>rows. rows @ [g]) c)"
proof (rule sync_categories [OF refl])
  let ?c = "on_categories (\<lambda>rows. rows @ [g]) c"
  have at: "category_at ?c i = (if i = cg_ID g then Some g else category_at c i)" for i
    using fresh by (auto simp: on_categories_def lookup_append split: option.split)
  show "distinct (map cg_ID (t_categories (c_db ?c)))" if "distinct (map cg_ID (t_categories (c_db c)))"
    using that fresh by (auto simp: on_categories_def lookup_None_iff)
  show "category_step owner (category_at c i) (category_at ?c i)" for i
    using fresh own by (auto simp: at category_step_def split: option.split)
qed

lemma sync_seq:
  assumes "c_change_seq c + 1 \<le> max_int64"
  shows "sync_rel owner device c (c\<lparr>c_change_seq := c_change_seq c + 1\<rparr>)"
proof -
  let ?c = "c\<lparr>c_change_seq := c_change_seq c + 1\<rparr>"
  have own: "owns o' ?c = owns o' c" for o' by (auto simp: owns_def)
  have "change_ok ?c r" if "change_ok c r" for r
    by (rule change_ok_mono [OF that]) (auto simp: own)
  with assms show ?thesis
    by (auto simp: sync_rel_def db_ok_def notes_ok_def blocks_ok_def changes_ok_def changes_of_def
        sync_step_def own history_rel_def other_rel_def jobs_rel_def list_all_iff block_step_def split: option.split)
qed

lemma sync_insert_change:
  assumes seq: "cr_GlobalSequence r = Some (c_change_seq c + 1)" "c_change_seq c + 1 \<le> max_int64"
    and fresh: "cr_ID r \<notin> cr_ID ` set (history c)" "op_key r \<notin> op_key ` set (history c)"
    and r: "cr_OwnerID r = owner" "cr_DeviceID r = device" "cr_ClientOperationID r \<noteq> Nil_uuid"
      "ValidDeviceID device" "owns_device owner c device"
      "\<And>i. cr_NoteID r = Some i \<Longrightarrow> owns owner c i"
  shows "sync_rel owner device c (on_changes (\<lambda>rows. rows @ [r]) (c\<lparr>c_change_seq := c_change_seq c + 1\<rparr>))"
  unfolding sync_rel_def
proof
  assume ok: "db_ok c"
  let ?c = "on_changes (\<lambda>rows. rows @ [r]) (c\<lparr>c_change_seq := c_change_seq c + 1\<rparr>)"
  have eq: "history ?c = history c @ [r]" "t_notes (c_db ?c) = t_notes (c_db c)"
      "t_note_blocks (c_db ?c) = t_note_blocks (c_db c)" "t_sync_devices (c_db ?c) = t_sync_devices (c_db c)"
      "t_categories (c_db ?c) = t_categories (c_db c)" "c_change_seq ?c = c_change_seq c + 1"
    by (simp_all add: on_changes_def)
  have own: "owns o' ?c = owns o' c" for o' by (auto simp: owns_def eq)
  have old: "change_ok ?c x" if "change_ok c x" for x
    by (rule change_ok_mono [OF that]) (auto simp: own eq)
  have "0 \<le> c_change_seq c" using ok by (simp add: db_ok_def changes_ok_def)
  then have new: "change_ok ?c r"
    using seq r by (simp add: change_ok_def own eq owns_device_def)
  have below: "cr_seq x < c_change_seq c + 1" if "x \<in> set (history c)" for x
    using ok that by (fastforce simp: db_ok_def changes_ok_def list_all_iff change_ok_def)
  have "changes_ok ?c"
    using ok old new fresh seq below
    by (auto simp: db_ok_def changes_ok_def eq list_all_iff sorted_wrt_append)
  moreover have "notes_ok ?c"
    using ok by (fastforce simp: db_ok_def notes_ok_def eq changes_of_def)
  moreover have "blocks_ok ?c"
    using ok by (simp add: db_ok_def blocks_ok_def eq)
  moreover have "sync_step owner device c ?c"
    using seq r by (auto simp: sync_step_def eq own history_rel_def new_change_def block_step_def
        split: option.split) (simp add: other_rel_def jobs_rel_def on_changes_def)
  ultimately show "db_ok ?c \<and> sync_step owner device c ?c"
    using ok by (simp add: db_ok_def eq)
qed

lemma sync_insert_job:
  "jb_ID j = c_job_seq c + 1 \<Longrightarrow> sync_rel owner device c (on_jobs (\<lambda>rows. rows @ [j]) (c\<lparr>c_job_seq := c_job_seq c + 1\<rparr>))"
proof -
  assume j: "jb_ID j = c_job_seq c + 1"
  let ?c = "on_jobs (\<lambda>rows. rows @ [j]) (c\<lparr>c_job_seq := c_job_seq c + 1\<rparr>)"
  have own: "owns o' ?c = owns o' c" for o' by (auto simp: owns_def on_jobs_def)
  have ch: "change_ok ?c = change_ok c"
    by (simp add: change_ok_def fun_eq_iff own) (simp add: owns_device_def on_jobs_def)
  have "block_step (owns owner c) (owns owner c) x x" for x
    by (simp add: block_step_def split: option.split)
  then show ?thesis
    unfolding sync_rel_def sync_step_def own db_ok_def changes_ok_def ch
    by (simp add: notes_ok_def blocks_ok_def changes_of_def history_rel_def other_rel_def jobs_rel_def) (simp add: on_jobs_def j)
qed

subsection \<open>The history is at least as long as any version\<close>

lemma length_increasing:
  assumes "sorted_wrt (<) xs" "\<And>x. x \<in> set xs \<Longrightarrow> 1 \<le> x \<and> x \<le> m" "0 \<le> m"
  shows "int (length xs) \<le> (m :: int)"
proof -
  have "distinct xs" using assms(1) by (simp add: strict_sorted_iff)
  then have "length xs = card (set xs)" by (simp add: distinct_card)
  also have "\<dots> \<le> card {1..m}" using assms(2) by (intro card_mono) auto
  finally show ?thesis using assms(3) by simp
qed

lemma length_history: "db_ok c \<Longrightarrow> int (length (history c)) \<le> c_change_seq c"
proof -
  assume "db_ok c"
  then have "int (length (map cr_seq (history c))) \<le> c_change_seq c"
    by (intro length_increasing) (auto simp: db_ok_def changes_ok_def list_all_iff change_ok_def split: option.splits)
  then show ?thesis by simp
qed

lemma version_bound:
  assumes "db_ok c" "note_at c i = Some n"
  shows "0 \<le> nt_CurrentVersion n \<and> nt_CurrentVersion n \<le> c_change_seq c"
proof -
  have "nt_CurrentVersion n \<le> int (length (changes_of c i))" "0 \<le> nt_CurrentVersion n"
    using assms by (auto simp: db_ok_def notes_ok_def)
  moreover have "length (changes_of c i) \<le> length (history c)"
    by (simp add: changes_of_def)
  ultimately show ?thesis using length_history [OF assms(1)] by linarith
qed

end
