(* ===== verification/Sync_Batch_Inv.thy ===== *)
theory Sync_Batch_Inv
  imports Sync_Inv
begin

section \<open>The invariant of a batch\<close>

text \<open>
  What holds between the operations of one batch (one note identifier, one savepoint), relative
  to the core state \<open>c0\<close> at its start: the contract of a push holds so far; the rows added to the
  history are exactly those of the operations accepted so far, each from the version of the note
  to the next one; no other note has changed and the version of this one has not changed yet; the
  note and the blocks held in memory belong to rows of the database and do not lose a tombstone;
  every dirty block is held in memory, so that writing it back dereferences no nil pointer.

  Every handler is shown to keep the invariant when it accepts, and to stay within the contract
  of a push when it rejects or fails.
\<close>

definition linked_note :: "uuid \<Rightarrow> uuid \<Rightarrow> core \<Rightarrow> Note \<Rightarrow> bool" where
  "linked_note owner nid c n \<longleftrightarrow> nt_ID n = nid \<and> nt_OwnerID n = owner
     \<and> (\<exists>row. note_at c nid = Some row \<and> nt_OwnerID row = owner
          \<and> nt_CurrentVersion row = nt_CurrentVersion n
          \<and> (nt_DeletedAt row \<noteq> None \<longrightarrow> nt_DeletedAt n \<noteq> None))"

definition linked_block :: "uuid \<Rightarrow> core \<Rightarrow> uuid \<Rightarrow> NoteBlock \<Rightarrow> bool" where
  "linked_block nid c i b \<longleftrightarrow> bl_ID b = i \<and> bl_NoteID b = nid
     \<and> (\<exists>row. block_at c i = Some row \<and> bl_NoteID row = nid
          \<and> (bl_DeletedAt row \<noteq> None \<longrightarrow> bl_DeletedAt b \<noteq> None))"

definition batch_row :: "uuid \<Rightarrow> noteBatchState \<Rightarrow> note_change_row \<Rightarrow> bool" where
  "batch_row nid st r \<longleftrightarrow> cr_NoteID r = nullableUUID nid
     \<and> (nid \<noteq> Nil_uuid \<longrightarrow> (\<exists>n. st_note st = Some n \<and> cr_BaseNoteVersion r = nt_CurrentVersion n
          \<and> cr_ResultingNoteVersion r = int64 (nt_CurrentVersion n + 1)))"

definition batch_history :: "uuid \<Rightarrow> core \<Rightarrow> noteBatchState \<Rightarrow> bool \<Rightarrow> int \<Rightarrow> core \<Rightarrow> bool" where
  "batch_history nid c0 st changed latest c \<longleftrightarrow>
     (\<exists>new. history c = history c0 @ new \<and> (changed \<longleftrightarrow> new \<noteq> [])
        \<and> latest = (if new = [] then 0 else cr_seq (last new)) \<and> list_all (batch_row nid st) new)"

definition batch_notes :: "uuid \<Rightarrow> core \<Rightarrow> core \<Rightarrow> bool" where
  "batch_notes nid c0 c \<longleftrightarrow> (\<forall>i. i \<noteq> nid \<longrightarrow> note_at c i = note_at c0 i)
     \<and> (\<forall>n. note_at c nid = Some n \<longrightarrow>
          nt_CurrentVersion n = (case note_at c0 nid of None \<Rightarrow> 0 | Some n0 \<Rightarrow> nt_CurrentVersion n0))"

definition batch_state :: "uuid \<Rightarrow> uuid \<Rightarrow> noteBatchState \<Rightarrow> core \<Rightarrow> bool" where
  "batch_state owner nid st c \<longleftrightarrow>
     (\<forall>n. st_note st = Some n \<longrightarrow> linked_note owner nid c n \<and> st_noteLoaded st)
     \<and> (\<forall>i b. st_blocks st i = Some b \<longrightarrow> linked_block nid c i b)
     \<and> (\<forall>i \<in> set (st_dirtyBlocks st). st_blocks st i \<noteq> None)"

definition batch_inv :: "uuid \<Rightarrow> string \<Rightarrow> uuid \<Rightarrow> core \<Rightarrow> noteBatchState \<Rightarrow> bool \<Rightarrow> int \<Rightarrow> core \<Rightarrow> bool" where
  "batch_inv owner device nid c0 st changed latest c \<longleftrightarrow>
     db_ok c0 \<and> owns_device owner c0 device \<and> sync_rel owner device c0 c
     \<and> batch_history nid c0 st changed latest c \<and> batch_notes nid c0 c
     \<and> batch_state owner nid st c"

definition batch_err :: "uuid \<Rightarrow> string \<Rightarrow> core \<Rightarrow> go_error \<Rightarrow> core \<Rightarrow> bool" where
  "batch_err owner device c0 e c \<longleftrightarrow>
     sync_rel owner device c0 c \<and> e \<noteq> ErrPanic \<and> (\<forall>r. e \<noteq> ErrBatchRejected r)"

text \<open>What a handler establishes, for the state and the outcome it returns.\<close>

definition op_post :: "uuid \<Rightarrow> string \<Rightarrow> uuid \<Rightarrow> core \<Rightarrow> int \<Rightarrow> noteBatchState \<times> outcome \<Rightarrow> core \<Rightarrow> bool" where
  "op_post owner device nid c0 latest res c = (case res of (st, out) \<Rightarrow>
     (case out of
        Accepted a \<Rightarrow> batch_inv owner device nid c0 st True (ac_GlobalSequence a) c
          \<and> latest < ac_GlobalSequence a
      | Rejected _ \<Rightarrow> sync_rel owner device c0 c))"

lemma batch_inv_rel: "batch_inv owner device nid c0 st ch lt c \<Longrightarrow> sync_rel owner device c0 c"
  by (simp add: batch_inv_def)

lemma batch_inv_ok: "batch_inv owner device nid c0 st ch lt c \<Longrightarrow> db_ok c"
  by (simp add: batch_inv_def sync_rel_def)

lemma batch_inv_device: "batch_inv owner device nid c0 st ch lt c \<Longrightarrow> owns_device owner c device"
  by (simp add: batch_inv_def sync_rel_def sync_step_def other_rel_def owns_device_def)

lemma batch_inv_err [simp]:
  "batch_inv owner device nid c0 st ch lt c \<Longrightarrow> e \<noteq> ErrPanic \<Longrightarrow> (\<And>r. e \<noteq> ErrBatchRejected r) \<Longrightarrow>
   batch_err owner device c0 e c"
  by (simp add: batch_err_def batch_inv_rel)

lemma batch_inv_stepI:
  assumes inv: "batch_inv owner device nid c0 st ch lt c" and step: "sync_rel owner device c c'"
    and hist: "history c' = history c"
    and notes_eq: "\<And>i. i \<noteq> nid \<Longrightarrow> note_at c' i = note_at c i"
    and version: "\<And>n. note_at c' nid = Some n \<Longrightarrow>
      nt_CurrentVersion n = (case note_at c nid of None \<Rightarrow> 0 | Some m \<Rightarrow> nt_CurrentVersion m)"
    and state: "batch_state owner nid st' c'"
    and same: "\<And>n. st_note st = Some n \<Longrightarrow>
      \<exists>n'. st_note st' = Some n' \<and> nt_CurrentVersion n' = nt_CurrentVersion n"
  shows "batch_inv owner device nid c0 st' ch lt c'"
proof -
  have rel: "sync_rel owner device c0 c'"
    using inv step push.R_trans by (auto simp: batch_inv_def)
  have "batch_row nid st' r" if "batch_row nid st r" for r
    using that same by (fastforce simp: batch_row_def)
  then have h: "batch_history nid c0 st' ch lt c'"
    using inv hist unfolding batch_inv_def batch_history_def list_all_iff by metis
  have ns: "note_step owner (note_at c0 nid) (note_at c nid)"
    using inv by (simp add: batch_inv_def sync_rel_def sync_step_def)
  have "note_at c0 nid = None" if "note_at c nid = None"
    using ns that by (simp add: note_step_def split: option.splits)
  then have "batch_notes nid c0 c'"
    using inv notes_eq version
    by (auto simp: batch_inv_def batch_notes_def split: option.splits)
  with rel h state inv show ?thesis by (simp add: batch_inv_def)
qed

text \<open>A change of the state in memory only.\<close>

lemma batch_inv_state:
  assumes "batch_inv owner device nid c0 st ch lt c" and "batch_state owner nid st' c"
    and "\<And>n. st_note st = Some n \<Longrightarrow>
      \<exists>n'. st_note st' = Some n' \<and> nt_CurrentVersion n' = nt_CurrentVersion n"
  shows "batch_inv owner device nid c0 st' ch lt c"
  by (rule batch_inv_stepI [OF assms(1) push.R_refl]) (use assms in \<open>auto simp: batch_inv_def batch_notes_def split: option.split\<close>)

subsection \<open>Loading the note and its blocks\<close>

lemma find_note_owned:
  "db_ok c \<Longrightarrow> find (note_owned i owner) (t_notes (c_db c)) =
     (case note_at c i of None \<Rightarrow> None | Some n \<Rightarrow> if nt_OwnerID n = owner then Some n else None)"
  using find_key_cond [of nt_ID "t_notes (c_db c)" i "\<lambda>n. nt_OwnerID n = owner"]
  by (simp add: note_owned_def [abs_def] db_ok_def notes_ok_def)

lemma find_block_in:
  "db_ok c \<Longrightarrow> find (block_in i nid) (t_note_blocks (c_db c)) =
     (case block_at c i of None \<Rightarrow> None | Some b \<Rightarrow> if bl_NoteID b = nid then Some b else None)"
  using find_key_cond [of bl_ID "t_note_blocks (c_db c)" i "\<lambda>b. bl_NoteID b = nid"]
  by (simp add: block_in_def [abs_def] db_ok_def blocks_ok_def)

lemma linked_noteI:
  "db_ok c \<Longrightarrow> find (note_owned nid owner) (t_notes (c_db c)) = Some n \<Longrightarrow>
   linked_note owner nid c (fromDBNote n)"
  by (auto simp: find_note_owned linked_note_def fromDBNote_def split: option.splits if_splits
      dest: lookup_note_id)

lemma linked_blockI:
  "db_ok c \<Longrightarrow> find (block_in i nid) (t_note_blocks (c_db c)) = Some b \<Longrightarrow>
   linked_block nid c i (fromDBBlock b)"
  by (auto simp: find_block_in linked_block_def fromDBBlock_def split: option.splits if_splits
      dest: lookup_block_id)

lemma GetNote_triple:
  assumes "\<And>c. P c \<Longrightarrow> db_ok c"
  shows "ctriple P (GetNoteForOwnerForUpdate env nid owner)
    (\<lambda>n c. P c \<and> linked_note owner nid c n)
    (\<lambda>e c. P c \<and> e \<in> {ErrNotFound, ErrDB, ErrTxAborted})"
  unfolding GetNoteForOwnerForUpdate_def GetNoteForOwnerForUpdate_sql_def
  by (rule ctriple_bind [OF ctriple_query [where Q = "\<lambda>row c. P c \<and> row = find (note_owned nid owner) (t_notes (c_db c))"]])
     (auto intro!: ctriple_bind [where R = "\<lambda>n c. P c \<and> Some n = find (note_owned nid owner) (t_notes (c_db c))"]
        ctriple_mapNoRows ctriple_return linked_noteI assms dest: sym)

lemma GetBlock_triple:
  assumes "\<And>c. P c \<Longrightarrow> db_ok c"
  shows "ctriple P (GetBlockForNoteForUpdate env i nid)
    (\<lambda>b c. P c \<and> linked_block nid c i b)
    (\<lambda>e c. P c \<and> e \<in> {ErrNotFound, ErrDB, ErrTxAborted})"
  unfolding GetBlockForNoteForUpdate_def GetBlockForNoteForUpdate_sql_def
  by (rule ctriple_bind [OF ctriple_query [where Q = "\<lambda>row c. P c \<and> row = find (block_in i nid) (t_note_blocks (c_db c))"]])
     (auto intro!: ctriple_bind [where R = "\<lambda>b c. P c \<and> Some b = find (block_in i nid) (t_note_blocks (c_db c))"]
        ctriple_mapNoRows ctriple_return linked_blockI assms dest: sym)

lemma ensureNote_triple:
  "ctriple (batch_inv owner device nid c0 st ch lt) (ensureNote env owner nid st)
     (\<lambda>st'. batch_inv owner device nid c0 st' ch lt) (batch_err owner device c0)"
proof (cases "st_noteLoaded st")
  case True
  then show ?thesis by (auto simp: ensureNote_def intro: ctriple_return)
next
  case False
  have new: "batch_inv owner device nid c0 (st\<lparr>st_note := x, st_noteLoaded := True\<rparr>) ch lt c"
    if inv: "batch_inv owner device nid c0 st ch lt c"
      and x: "\<And>n. x = Some n \<Longrightarrow> linked_note owner nid c n" for x c
  proof (rule batch_inv_state [OF inv])
    have st: "batch_state owner nid st c" using inv by (simp add: batch_inv_def)
    then show "batch_state owner nid (st\<lparr>st_note := x, st_noteLoaded := True\<rparr>) c"
      using x by (auto simp: batch_state_def)
    show "\<exists>n'. st_note (st\<lparr>st_note := x, st_noteLoaded := True\<rparr>) = Some n'
        \<and> nt_CurrentVersion n' = nt_CurrentVersion n" if "st_note st = Some n" for n
      using st that False by (auto simp: batch_state_def)
  qed
  have unloaded: "batch_inv owner device nid c0 (st\<lparr>st_noteLoaded := True\<rparr>) ch lt c"
    if "batch_inv owner device nid c0 st ch lt c" for c
    by (rule batch_inv_state [OF that]) (use that in \<open>auto simp: batch_inv_def batch_state_def\<close>)
  have get: "ctriple (batch_inv owner device nid c0 st ch lt) (GetNoteForOwnerForUpdate env nid owner)
      (\<lambda>n c. batch_inv owner device nid c0 st ch lt c \<and> linked_note owner nid c n)
      (\<lambda>e c. batch_inv owner device nid c0 st ch lt c \<and> e \<in> {ErrNotFound, ErrDB, ErrTxAborted})"
    by (rule GetNote_triple) (rule batch_inv_ok)
  show ?thesis
    unfolding ensureNote_def if_not_P [OF False]
    by (rule ctriple_catch [OF get]) (auto intro!: ctriple_return ctriple_fail unloaded new)
qed

lemma ensureBlock_triple:
  "ctriple (batch_inv owner device nid c0 st ch lt) (ensureBlock env nid i st)
     (\<lambda>(st', found) c. batch_inv owner device nid c0 st' ch lt c
        \<and> st_note st' = st_note st \<and> (\<forall>b. found = Some b \<longrightarrow> st_blocks st' i = Some b))
     (batch_err owner device c0)"
proof (cases "st_blocks st i")
  case (Some b)
  then show ?thesis by (auto simp: ensureBlock_def intro!: ctriple_return)
next
  case None
  have get: "ctriple (batch_inv owner device nid c0 st ch lt) (GetBlockForNoteForUpdate env i nid)
      (\<lambda>b c. batch_inv owner device nid c0 st ch lt c \<and> linked_block nid c i b)
      (\<lambda>e c. batch_inv owner device nid c0 st ch lt c \<and> e \<in> {ErrNotFound, ErrDB, ErrTxAborted})"
    by (rule GetBlock_triple) (rule batch_inv_ok)
  have missing: "batch_inv owner device nid c0 (st\<lparr>st_missingBlocks := m\<rparr>) ch lt c"
    if "batch_inv owner device nid c0 st ch lt c" for c m
    by (rule batch_inv_state [OF that]) (use that in \<open>auto simp: batch_inv_def batch_state_def\<close>)
  have loaded: "batch_inv owner device nid c0 (st\<lparr>st_blocks := (st_blocks st)(i \<mapsto> b)\<rparr>) ch lt c"
    if "batch_inv owner device nid c0 st ch lt c" "linked_block nid c i b" for c b
    by (rule batch_inv_state [OF that(1)]) (use that in \<open>auto simp: batch_inv_def batch_state_def\<close>)
  show ?thesis
  proof (cases "i \<in> st_missingBlocks st")
    case True
    with None show ?thesis by (auto simp: ensureBlock_def intro!: ctriple_return)
  next
    case False
    with None have eq: "ensureBlock env nid i st = catchM (GetBlockForNoteForUpdate env i nid)
         (\<lambda>err. if err = ErrNotFound
                 then returnM (st\<lparr>st_missingBlocks := insert i (st_missingBlocks st)\<rparr>, None)
                 else failM err)
         (\<lambda>b. returnM (st\<lparr>st_blocks := (st_blocks st)(i \<mapsto> b)\<rparr>, Some b))"
      by (simp add: ensureBlock_def)
    show ?thesis
      unfolding eq
      by (rule ctriple_catch [OF get])
         (auto intro!: ctriple_return ctriple_fail missing loaded)
  qed
qed

subsection \<open>Appending a change\<close>

lemma batch_insert_change:
  assumes inv: "batch_inv owner device nid c0 st ch lt c"
    and seq: "cr_GlobalSequence r = Some (c_change_seq c + 1)" "c_change_seq c + 1 \<le> max_int64"
    and fresh: "cr_ID r \<notin> cr_ID ` set (history c)" "op_key r \<notin> op_key ` set (history c)"
    and r: "cr_OwnerID r = owner" "cr_DeviceID r = device" "cr_ClientOperationID r \<noteq> Nil_uuid"
      "ValidDeviceID device" and row: "batch_row nid st r"
  shows "batch_inv owner device nid c0 st True (c_change_seq c + 1)
     (on_changes (\<lambda>rows. rows @ [r]) (c\<lparr>c_change_seq := c_change_seq c + 1\<rparr>)) \<and> lt < c_change_seq c + 1"
proof -
  let ?c = "on_changes (\<lambda>rows. rows @ [r]) (c\<lparr>c_change_seq := c_change_seq c + 1\<rparr>)"
  have ok: "db_ok c" using inv by (rule batch_inv_ok)
  have own: "owns owner c i" if "cr_NoteID r = Some i" for i
  proof -
    have "i = nid" "nid \<noteq> Nil_uuid"
      using that row by (auto simp: batch_row_def nullableUUID_def split: if_splits)
    with row inv show ?thesis
      by (auto simp: batch_row_def batch_inv_def batch_state_def linked_note_def owns_def)
  qed
  have "sync_rel owner device c ?c"
    by (rule sync_insert_change [OF seq fresh r(1,2,3,4) batch_inv_device [OF inv] own])
  then have rel: "sync_rel owner device c0 ?c"
    using push.R_trans batch_inv_rel [OF inv] by blast
  obtain new where new: "history c = history c0 @ new" "lt = (if new = [] then 0 else cr_seq (last new))"
      "list_all (batch_row nid st) new"
    using inv by (auto simp: batch_inv_def batch_history_def)
  have h: "batch_history nid c0 st True (c_change_seq c + 1) ?c"
    unfolding batch_history_def
    by (rule exI [of _ "new @ [r]"]) (use new seq row in \<open>simp add: on_changes_def\<close>)
  have st: "batch_state owner nid st ?c" "batch_notes nid c0 ?c"
    using inv by (auto simp: batch_inv_def batch_state_def batch_notes_def linked_note_def
        linked_block_def on_changes_def)
  have "cr_seq x \<le> c_change_seq c" if "x \<in> set (history c)" for x
    using ok that by (fastforce simp: db_ok_def changes_ok_def list_all_iff change_ok_def)
  moreover have "0 \<le> c_change_seq c" using ok by (simp add: db_ok_def changes_ok_def)
  ultimately have "lt < c_change_seq c + 1"
    using new by (cases "new = []") (auto simp: less_le_trans dest!: last_in_set)
  with rel h st inv show ?thesis by (simp add: batch_inv_def)
qed

lemma ClientOperation_Entity_Inr:
  "ClientOperation_Entity oper i owner device blk b res = Inr p \<Longrightarrow>
     op_OperationID oper \<noteq> Nil_uuid \<and> ValidDeviceID device \<and>
     p = \<lparr>ip_ID = i, ip_OwnerID = owner, ip_NoteID = nullableUUID (op_NoteID oper),
       ip_BlockID = blk, ip_DeviceID = device, ip_ClientOperationID = op_OperationID oper,
       ip_OperationType = op_OperationType oper, ip_BaseNoteVersion = b,
       ip_ResultingNoteVersion = res, ip_ChangeFormat = NormalizeChangeFormat (op_ChangeFormat oper),
       ip_SchemaVersion = 1, ip_ChangeData = op_ChangeData oper\<rparr>"
  by (auto simp: ClientOperation_Entity_def ClientOperation_Validate_def bindE_Inr split: if_splits)

lemma insertChange_triple:
  assumes nid: "op_NoteID oper = nid"
    and base: "nid \<noteq> Nil_uuid \<Longrightarrow> \<exists>n. st_note st = Some n \<and> b = nt_CurrentVersion n
      \<and> res = int64 (nt_CurrentVersion n + 1)"
  shows "ctriple (batch_inv owner device nid c0 st ch lt)
    (insertChange env owner device oper blk b res)
    (\<lambda>change c. batch_inv owner device nid c0 st True (ch_GlobalSequence change) c
       \<and> lt < ch_GlobalSequence change)
    (batch_err owner device c0)"
proof -
  let ?I = "batch_inv owner device nid c0 st ch lt"
  have ins: "ctriple ?I (InsertNoteChange_sql env (p\<lparr>ip_ChangeData := j\<rparr>))
      (\<lambda>row c. batch_inv owner device nid c0 st True (cr_seq row) c \<and> lt < cr_seq row)
      (batch_err owner device c0)"
    if p: "ClientOperation_Entity oper i owner device blk b res = Inr p" for i p j
    unfolding InsertNoteChange_sql_def
  proof (rule ctriple_exec)
    note pf = ClientOperation_Entity_Inr [OF p]
    fix now c
    assume inv: "?I c"
    let ?row = "change_row env (c_change_seq c + 1) now (p\<lparr>ip_ChangeData := j\<rparr>)"
    let ?f = "let seq = c_change_seq c + 1; d = c_db c; c1 = c\<lparr>c_change_seq := seq\<rparr>;
         row = change_row env seq now (p\<lparr>ip_ChangeData := j\<rparr>) in
     if seq > max_int64 then (Inl ErrDB, c)
     else if lookup cr_ID (t_note_changes d) (ip_ID (p\<lparr>ip_ChangeData := j\<rparr>)) \<noteq> None
        \<or> lookup op_key (t_note_changes d) (ip_DeviceID (p\<lparr>ip_ChangeData := j\<rparr>), ip_ClientOperationID (p\<lparr>ip_ChangeData := j\<rparr>)) \<noteq> None
     then (Inl ErrUnique, c1)
     else if (case ip_NoteID (p\<lparr>ip_ChangeData := j\<rparr>) of None \<Rightarrow> False | Some i \<Rightarrow> lookup nt_ID (t_notes d) i = None)
        \<or> lookup dv_ID (t_sync_devices d) (ip_DeviceID (p\<lparr>ip_ChangeData := j\<rparr>)) = None
     then (Inl ErrForeignKey, c1)
     else (Inr row, on_changes (\<lambda>rows. rows @ [row]) c1)"
    {
      fix row c'
      assume f: "?f = (Inr row, c')"
      then have row: "row = ?row" "c' = on_changes (\<lambda>rows. rows @ [?row]) (c\<lparr>c_change_seq := c_change_seq c + 1\<rparr>)"
        and le: "c_change_seq c + 1 \<le> max_int64"
        and fresh: "lookup cr_ID (history c) (ip_ID p) = None"
          "lookup op_key (history c) (ip_DeviceID p, ip_ClientOperationID p) = None"
        by (auto simp: Let_def split: if_splits)
      have "batch_row nid st ?row"
        using pf nid base by (auto simp: batch_row_def change_row_def)
      then show "batch_inv owner device nid c0 st True (cr_seq row) c' \<and> lt < cr_seq row"
        using batch_insert_change [OF inv, of ?row] le fresh pf
        by (simp add: row change_row_def op_key_def lookup_None_iff)
    next
      fix e c'
      assume f: "?f = (Inl e, c')"
      then have "c' = c \<or> c' = c\<lparr>c_change_seq := c_change_seq c + 1\<rparr> \<and> c_change_seq c + 1 \<le> max_int64"
        and e: "e \<in> {ErrDB, ErrUnique, ErrForeignKey}"
        by (auto simp: Let_def split: if_splits)
      then have "sync_rel owner device c c'"
        using sync_seq push.R_refl by blast
      then show "batch_err owner device c0 e c'"
        using push.R_trans batch_inv_rel [OF inv] e unfolding batch_err_def by blast
    }
  qed auto
  show ?thesis
    unfolding insertChange_def
  proof (rule ctriple_bind [OF ctriple_newUUID [where Q = "\<lambda>_. ?I"]])
    fix i
    show "ctriple ?I (bindM (liftM ErrText (ClientOperation_Entity oper i owner device blk b res)) (InsertNoteChange env))
       (\<lambda>change c. batch_inv owner device nid c0 st True (ch_GlobalSequence change) c \<and> lt < ch_GlobalSequence change)
       (batch_err owner device c0)"
    proof (cases "ClientOperation_Entity oper i owner device blk b res")
      case (Inl e)
      then show ?thesis
        by (auto simp: liftM_def intro!: ctriple_bind [where R = "\<lambda>_ _. False"] ctriple_fail ctriple_False)
    next
      case (Inr p)
      have "ctriple ?I (InsertNoteChange env p)
         (\<lambda>change c. batch_inv owner device nid c0 st True (ch_GlobalSequence change) c \<and> lt < ch_GlobalSequence change)
         (batch_err owner device c0)"
        unfolding InsertNoteChange_def
        by (rule ctriple_bind [OF ins [OF Inr]]) (auto intro!: ctriple_return simp: fromDBChange_def)
      then show ?thesis
        unfolding Inr liftM_def sum.case
        by (intro ctriple_bind [where R = "\<lambda>q c. q = p \<and> ?I c"] ctriple_return ctriple_pure) auto
    qed
  qed auto
qed

lemma acceptOperationChange_triple:
  assumes "op_NoteID oper = nid" "st_note st = Some n'" "nt_CurrentVersion n' = nt_CurrentVersion n"
  shows "ctriple (batch_inv owner device nid c0 st ch lt)
    (bindM (acceptOperationChange env owner device n oper blk) (\<lambda>out. returnM (st, out)))
    (op_post owner device nid c0 lt) (batch_err owner device c0)"
proof -
  have "ctriple (batch_inv owner device nid c0 st ch lt)
      (insertChange env owner device oper blk (nt_CurrentVersion n) (int64 (nt_CurrentVersion n + 1)))
      (\<lambda>change c. batch_inv owner device nid c0 st True (ch_GlobalSequence change) c
         \<and> lt < ch_GlobalSequence change) (batch_err owner device c0)"
    by (rule insertChange_triple [OF assms(1)]) (use assms in auto)
  then have "ctriple (batch_inv owner device nid c0 st ch lt)
      (acceptOperationChange env owner device n oper blk)
      (\<lambda>out c. op_post owner device nid c0 lt (st, out) c) (batch_err owner device c0)"
    unfolding acceptOperationChange_def Let_def
    by (rule ctriple_bind) (auto intro!: ctriple_return simp: op_post_def acceptedFromChange_def)
  then show ?thesis
    by (rule ctriple_bind) (auto intro!: ctriple_return)
qed

lemma op_post_Rejected [simp]:
  "op_post owner device nid c0 lt (st, Rejected r) c \<longleftrightarrow> sync_rel owner device c0 c"
  by (simp add: op_post_def)

subsection \<open>Statements on the note and its blocks\<close>

lemma batch_owns:
  "batch_inv owner device nid c0 st ch lt c \<Longrightarrow> st_note st \<noteq> None \<Longrightarrow> owns owner c nid"
  by (auto simp: batch_inv_def batch_state_def linked_note_def owns_def)

text \<open>A statement on the blocks table, for the state that results in memory.\<close>

lemma batch_inv_blocks:
  assumes inv: "batch_inv owner device nid c0 st ch lt c"
    and rel: "sync_rel owner device c (on_blocks f c)"
    and st': "st_note st' = st_note st" "st_noteLoaded st' = st_noteLoaded st"
    and blocks: "\<And>i b. st_blocks st' i = Some b \<Longrightarrow> linked_block nid (on_blocks f c) i b"
    and dirty: "\<And>i. i \<in> set (st_dirtyBlocks st') \<Longrightarrow> st_blocks st' i \<noteq> None"
  shows "batch_inv owner device nid c0 st' ch lt (on_blocks f c)"
proof (rule batch_inv_stepI [OF inv rel])
  have eq: "t_notes (c_db (on_blocks f c)) = t_notes (c_db c)" by (simp add: on_blocks_def)
  show "batch_state owner nid st' (on_blocks f c)"
    using inv st' blocks dirty by (auto simp: batch_inv_def batch_state_def linked_note_def eq)
  show "history (on_blocks f c) = history c" by (simp add: on_blocks_def)
  show "note_at (on_blocks f c) i = note_at c i" for i by (simp add: eq)
  show "nt_CurrentVersion n = (case note_at c nid of None \<Rightarrow> 0 | Some m \<Rightarrow> nt_CurrentVersion m)"
    if "note_at (on_blocks f c) nid = Some n" for n
    using that by (simp add: eq)
  show "\<exists>n'. st_note st' = Some n' \<and> nt_CurrentVersion n' = nt_CurrentVersion n"
    if "st_note st = Some n" for n
    using that st' by simp
qed

lemma linked_insert:
  assumes "linked_block nid c i x" "block_at c (bl_ID row) = None"
  shows "linked_block nid (on_blocks (\<lambda>rows. rows @ [row]) c) i x"
  using assms by (auto simp: linked_block_def on_blocks_def lookup_append)

lemma CreateBlock_triple:
  assumes "st_note st \<noteq> None" "bl_NoteID b = nid"
  shows "ctriple (batch_inv owner device nid c0 st ch lt) (CreateBlock env b)
    (\<lambda>_. batch_inv owner device nid c0 (st\<lparr>st_blocks := (st_blocks st)(bl_ID b \<mapsto> b)\<rparr>) ch lt)
    (\<lambda>e c. batch_inv owner device nid c0 st ch lt c \<and> e \<in> {ErrUnique, ErrForeignKey, ErrDB, ErrTxAborted})"
  unfolding CreateBlock_def CreateBlock_sql_def
proof (rule ctriple_exec, goal_cases)
  case (1 now c u c')
  let ?row = "\<lparr>bl_ID = bl_ID b, bl_NoteID = bl_NoteID b, bl_BlockType = bl_BlockType b,
        bl_TextContent = bl_TextContent b, bl_Position = bl_Position b,
        bl_BlockProperties = jsonb env (NormalizeJSON (bl_BlockProperties b)),
        bl_CreatedAt = now, bl_UpdatedAt = now, bl_DeletedAt = None\<rparr>"
  have c': "c' = on_blocks (\<lambda>rows. rows @ [?row]) c" and fresh: "block_at c (bl_ID ?row) = None"
    using 1(2) by (auto split: if_splits)
  have "sync_rel owner device c c'"
    unfolding c' by (rule sync_insert_block [OF fresh]) (use batch_owns [OF 1(1) assms(1)] assms(2) in simp)
  moreover have "linked_block nid c' (bl_ID b) b"
    using fresh assms(2) by (auto simp: c' linked_block_def on_blocks_def lookup_append)
  moreover have "linked_block nid c' i x" if "st_blocks st i = Some x" for i x
    unfolding c' by (rule linked_insert [OF _ fresh]) (use 1(1) that in \<open>auto simp: batch_inv_def batch_state_def\<close>)
  ultimately show ?case
    using 1(1) unfolding c'
    by (intro batch_inv_blocks [OF 1(1)]) (auto simp: batch_inv_def batch_state_def split: if_splits)
qed (auto split: if_splits)

interpretation update_block_state: keyed_update bl_ID
  "\<lambda>b. b\<lparr>bl_BlockType := ty, bl_TextContent := tx, bl_Position := po, bl_BlockProperties := pr,
       bl_UpdatedAt := up, bl_DeletedAt := de\<rparr>" for ty tx po pr up de
  by unfold_locales simp

interpretation delete_block: keyed_update bl_ID
  "\<lambda>b. b\<lparr>bl_UpdatedAt := now, bl_DeletedAt := de\<rparr>" for now de
  by unfold_locales simp

lemma linked_update:
  assumes k: "keyed_update bl_ID upd" and note_id: "\<And>b. bl_NoteID (upd b) = bl_NoteID b"
    and x: "linked_block nid c j x" and y: "bl_ID y = j" "bl_NoteID y = nid"
    and tomb: "\<And>row. block_at c j = Some row \<Longrightarrow>
      bl_DeletedAt (if j = i then upd row else row) \<noteq> None \<Longrightarrow> bl_DeletedAt y \<noteq> None"
  shows "linked_block nid (on_blocks (update_where (block_in i nid) upd) c) j y"
proof -
  obtain row where row: "block_at c j = Some row" "bl_NoteID row = nid"
    using x by (auto simp: linked_block_def)
  have "block_in i nid row \<longleftrightarrow> j = i"
    using row lookup_block_id [OF row(1)] by (auto simp: block_in_def)
  then have "block_at (on_blocks (update_where (block_in i nid) upd) c) j
      = Some (if j = i then upd row else row)"
    using row keyed_update.lookup_update [OF k] by (simp add: on_blocks_def)
  with row y tomb [OF row(1)] note_id show ?thesis
    unfolding linked_block_def by auto
qed

lemma UpdateBlockState_triple:
  assumes "st_note st \<noteq> None" "st_blocks st i = Some b0" "bl_ID b = i" "bl_NoteID b = nid"
    and "bl_DeletedAt b0 \<noteq> None \<Longrightarrow> bl_DeletedAt b \<noteq> None"
  shows "ctriple (batch_inv owner device nid c0 st ch lt) (UpdateBlockState env b)
    (\<lambda>_. batch_inv owner device nid c0 (st\<lparr>st_blocks := (st_blocks st)(i \<mapsto> b),
       st_dirtyBlocks := removeAll i (st_dirtyBlocks st)\<rparr>) ch lt)
    (batch_err owner device c0)"
  unfolding UpdateBlockState_def UpdateBlockState_sql_def
proof (rule ctriple_exec, goal_cases)
  case (1 now c u c')
  let ?upd = "\<lambda>r. r\<lparr>bl_BlockType := bl_BlockType b, bl_TextContent := bl_TextContent b,
     bl_Position := bl_Position b, bl_BlockProperties := jsonb env (NormalizeJSON (bl_BlockProperties b)),
     bl_UpdatedAt := now, bl_DeletedAt := map_option pg_micros (bl_DeletedAt b)\<rparr>"
  have c': "c' = on_blocks (update_where (block_in i nid) ?upd) c" using 1(2) assms by simp
  have links: "linked_block nid c j x" if "st_blocks st j = Some x" for j x
    using 1(1) that by (auto simp: batch_inv_def batch_state_def)
  have tomb: "bl_DeletedAt b \<noteq> None" if "block_at c i = Some row" "bl_DeletedAt row \<noteq> None" for row
    using links [OF assms(2)] that assms(5) by (auto simp: linked_block_def)
  have "sync_rel owner device c c'"
    unfolding c'
    by (rule sync_update_blocks [OF update_block_state.keyed_update_axioms])
      (use batch_owns [OF 1(1) assms(1)] tomb in \<open>auto simp: block_in_def\<close>)
  moreover have "linked_block nid c' i b"
    unfolding c'
    by (rule linked_update [OF update_block_state.keyed_update_axioms _ links [OF assms(2)]])
      (use assms in auto)
  moreover have "linked_block nid c' j x" if "st_blocks st j = Some x" "j \<noteq> i" for j x
    unfolding c'
    by (rule linked_update [OF update_block_state.keyed_update_axioms _ links [OF that(1)]])
      (use links [OF that(1)] that(2) in \<open>auto simp: linked_block_def\<close>)
  ultimately show ?case
    using 1(1) unfolding c'
    by (intro batch_inv_blocks [OF 1(1)]) (auto simp: batch_inv_def batch_state_def split: if_splits)
qed auto

lemma DeleteBlock_triple:
  assumes "st_note st \<noteq> None" "st_blocks st i = None"
  shows "ctriple (batch_inv owner device nid c0 st ch lt) (DeleteBlock env i nid)
    (\<lambda>b. batch_inv owner device nid c0 (st\<lparr>st_blocks := (st_blocks st)(i \<mapsto> b)\<rparr>) ch lt)
    (\<lambda>e c. sync_rel owner device c0 c \<and> e \<in> {ErrNotFound, ErrDB, ErrTxAborted})"
proof -
  let ?upd = "\<lambda>now b. b\<lparr>bl_UpdatedAt := now, bl_DeletedAt := Some now\<rparr>"
  let ?Q = "\<lambda>row c. sync_rel owner device c0 c \<and> (\<forall>b. row = Some b \<longrightarrow>
      batch_inv owner device nid c0 (st\<lparr>st_blocks := (st_blocks st)(i \<mapsto> fromDBBlock b)\<rparr>) ch lt c)"
  have "ctriple (batch_inv owner device nid c0 st ch lt) (DeleteBlock_sql env i nid) ?Q
    (\<lambda>e c. sync_rel owner device c0 c \<and> e \<in> {ErrNotFound, ErrDB, ErrTxAborted})"
    unfolding DeleteBlock_sql_def
  proof (rule ctriple_exec, goal_cases)
    case (1 now c row c')
    have c': "c' = on_blocks (update_where (block_in i nid) (?upd now)) c"
      and row: "row = map_option (?upd now) (find (block_in i nid) (t_note_blocks (c_db c)))"
      using 1(2) by (auto simp: Let_def update_returning_def)
    have ok: "db_ok c" using 1(1) by (rule batch_inv_ok)
    have rel: "sync_rel owner device c c'"
      unfolding c' by (rule sync_update_blocks [OF delete_block.keyed_update_axioms])
        (use batch_owns [OF 1(1) assms(1)] in \<open>auto simp: block_in_def\<close>)
    have link: "linked_block nid c' j x" if "st_blocks st j = Some x" for j x
    proof -
      have x: "linked_block nid c j x" and "j \<noteq> i"
        using 1(1) that assms(2) by (auto simp: batch_inv_def batch_state_def)
      then show ?thesis
        unfolding c' by (intro linked_update [OF delete_block.keyed_update_axioms _ x])
          (auto simp: linked_block_def)
    qed
    have "linked_block nid c' i (fromDBBlock b)" if r: "row = Some b" for b
    proof -
      obtain b0 where b0: "find (block_in i nid) (t_note_blocks (c_db c)) = Some b0" "b = ?upd now b0"
        using r row by auto
      show ?thesis
        unfolding c'
        by (rule linked_update [OF delete_block.keyed_update_axioms _ linked_blockI [OF ok b0(1)]])
          (use linked_blockI [OF ok b0(1)] b0(2) in \<open>auto simp: linked_block_def fromDBBlock_def\<close>)
    qed
    then have "batch_inv owner device nid c0 (st\<lparr>st_blocks := (st_blocks st)(i \<mapsto> fromDBBlock b)\<rparr>) ch lt c'"
      if "row = Some b" for b
      using rel link that 1(1) unfolding c'
      by (intro batch_inv_blocks [OF 1(1)]) (auto simp: batch_inv_def batch_state_def split: if_splits)
    with rel push.R_trans [OF batch_inv_rel [OF 1(1)]] show ?case by blast
  qed (auto simp: Let_def dest: batch_inv_rel)
  then show ?thesis
    unfolding DeleteBlock_def
    by (rule ctriple_bind)
       (auto intro!: ctriple_bind [where R = "\<lambda>n c. ?Q (Some n) c"] ctriple_mapNoRows ctriple_return)
qed

lemma batch_inv_notes:
  assumes inv: "batch_inv owner device nid c0 st ch lt c"
    and rel: "sync_rel owner device c (on_notes f c)"
    and others: "\<And>i. i \<noteq> nid \<Longrightarrow> note_at (on_notes f c) i = note_at c i"
    and version: "\<And>n. note_at (on_notes f c) nid = Some n \<Longrightarrow>
      nt_CurrentVersion n = (case note_at c nid of None \<Rightarrow> 0 | Some m \<Rightarrow> nt_CurrentVersion m)"
    and n: "linked_note owner nid (on_notes f c) n"
    and same: "\<And>m. st_note st = Some m \<Longrightarrow> nt_CurrentVersion n = nt_CurrentVersion m"
  shows "batch_inv owner device nid c0 (st\<lparr>st_note := Some n, st_noteLoaded := True\<rparr>) ch lt (on_notes f c)"
proof (rule batch_inv_stepI [OF inv rel _ others version])
  show "history (on_notes f c) = history c" by (simp add: on_notes_def)
  show "batch_state owner nid (st\<lparr>st_note := Some n, st_noteLoaded := True\<rparr>) (on_notes f c)"
    using inv n by (simp add: batch_inv_def batch_state_def linked_block_def) (simp add: on_notes_def)
qed (use same in auto)

lemma CreateNote_triple:
  assumes n: "nt_ID n = nid" "nt_OwnerID n = owner" "nt_CurrentVersion n = 0" "nid \<noteq> Nil_uuid"
  shows "ctriple (batch_inv owner device nid c0 st ch lt) (CreateNote env n)
    (\<lambda>_. batch_inv owner device nid c0 (st\<lparr>st_note := Some n, st_noteLoaded := True\<rparr>) ch lt)
    (\<lambda>e c. batch_inv owner device nid c0 st ch lt c \<and> e \<in> {ErrUnique, ErrDB, ErrTxAborted})"
  unfolding CreateNote_def CreateNote_sql_def
proof (rule ctriple_exec, goal_cases)
  case (1 now c u c')
  let ?row = "\<lparr>nt_ID = nt_ID n, nt_OwnerID = nt_OwnerID n, nt_Title = nt_Title n,
        nt_NoteProperties = jsonb env (NormalizeJSON (nt_NoteProperties n)),
        nt_CurrentVersion = nt_CurrentVersion n,
        nt_CreatedAt = now, nt_UpdatedAt = now, nt_DeletedAt = None\<rparr>"
  have c': "c' = on_notes (\<lambda>rows. rows @ [?row]) c" and fresh: "note_at c (nt_ID ?row) = None"
    using 1(2) by (auto split: if_splits)
  have at: "note_at c' i = (if i = nid then Some ?row else note_at c i)" for i
    using fresh n by (auto simp: c' on_notes_def lookup_append split: option.split)
  have "st_note st = None"
    using 1(1) fresh n by (cases "st_note st") (auto simp: batch_inv_def batch_state_def linked_note_def)
  moreover have "sync_rel owner device c c'"
    unfolding c' by (rule sync_insert_note [OF fresh]) (use n in simp_all)
  moreover have "linked_note owner nid c' n" using n by (simp add: linked_note_def at)
  ultimately show ?case
    using at fresh n unfolding c' by (intro batch_inv_notes [OF 1(1)]) auto
qed (auto split: if_splits)

interpretation delete_note: keyed_update nt_ID
  "\<lambda>n. n\<lparr>nt_UpdatedAt := now, nt_DeletedAt := de\<rparr>" for now de
  by unfold_locales simp

interpretation update_note_state: keyed_update nt_ID
  "\<lambda>n. n\<lparr>nt_Title := ti, nt_NoteProperties := pr, nt_CurrentVersion := ve, nt_UpdatedAt := up,
       nt_DeletedAt := de\<rparr>" for ti pr ve up de
  by unfold_locales simp

definition delete_in_state :: "noteBatchState \<Rightarrow> Note \<Rightarrow> Note" where
  "delete_in_state st deleted = (case st_note st of None \<Rightarrow> deleted
     | Some n \<Rightarrow> n\<lparr>nt_DeletedAt := nt_DeletedAt deleted, nt_UpdatedAt := nt_UpdatedAt deleted\<rparr>)"

lemma DeleteNote_triple:
  "ctriple (batch_inv owner device nid c0 st ch lt) (DeleteNote env nid owner version)
    (\<lambda>deleted. batch_inv owner device nid c0
       (st\<lparr>st_note := Some (delete_in_state st deleted), st_noteLoaded := True\<rparr>) ch lt)
    (\<lambda>e c. sync_rel owner device c0 c \<and> db_ok c \<and> e \<in> {ErrNotFound, ErrDB, ErrTxAborted})"
proof -
  let ?upd = "\<lambda>now n. n\<lparr>nt_UpdatedAt := now, nt_DeletedAt := Some now\<rparr>"
  let ?cond = "note_at_version nid owner version"
  let ?Q = "\<lambda>row c. sync_rel owner device c0 c \<and> db_ok c \<and> (\<forall>n. row = Some n \<longrightarrow>
      batch_inv owner device nid c0
       (st\<lparr>st_note := Some (delete_in_state st (fromDBNote n)), st_noteLoaded := True\<rparr>) ch lt c)"
  have "ctriple (batch_inv owner device nid c0 st ch lt) (DeleteNote_sql env nid owner version) ?Q
    (\<lambda>e c. sync_rel owner device c0 c \<and> db_ok c \<and> e \<in> {ErrNotFound, ErrDB, ErrTxAborted})"
    unfolding DeleteNote_sql_def
  proof (rule ctriple_exec, goal_cases)
    case (1 now c row c')
    have c': "c' = on_notes (update_where ?cond (?upd now)) c"
      and row: "row = map_option (?upd now) (find ?cond (t_notes (c_db c)))"
      using 1(2) by (auto simp: Let_def update_returning_def)
    have ok: "db_ok c" using 1(1) by (rule batch_inv_ok)
    have rel: "sync_rel owner device c c'"
      unfolding c' by (rule sync_update_notes [OF delete_note.keyed_update_axioms])
        (use ok in \<open>auto simp: note_at_version_def note_owned_def db_ok_def notes_ok_def\<close>)
    have at: "note_at c' i = map_option (\<lambda>n. if ?cond n then ?upd now n else n) (note_at c i)" for i
      unfolding c' by (simp add: on_notes_def delete_note.lookup_update)
    have "batch_inv owner device nid c0
       (st\<lparr>st_note := Some (delete_in_state st (fromDBNote n)), st_noteLoaded := True\<rparr>) ch lt c'"
      if r: "row = Some n" for n
    proof -
      obtain n0 where n0: "find ?cond (t_notes (c_db c)) = Some n0" "n = ?upd now n0"
        using r row by auto
      have c0': "?cond n0" "n0 \<in> set (t_notes (c_db c))"
        using n0(1) by (auto simp: find_Some_iff)
      then have at0: "note_at c nid = Some n0"
        using ok lookup_distinct [of nt_ID "t_notes (c_db c)" n0]
        by (auto simp: note_at_version_def note_owned_def db_ok_def notes_ok_def)
      have link: "linked_note owner nid c m" if "st_note st = Some m" for m
        using 1(1) that by (auto simp: batch_inv_def batch_state_def)
      have "linked_note owner nid c' (delete_in_state st (fromDBNote n))"
      proof -
        have at1: "note_at c' nid = Some (?upd now n0)" using at0 c0'(1) by (simp add: at)
        have n0': "nt_ID n0 = nid" "nt_OwnerID n0 = owner"
          using c0'(1) by (simp_all add: note_at_version_def note_owned_def)
        show ?thesis
        proof (cases "st_note st")
          case None
          with at1 n0' n0(2) show ?thesis
            by (simp add: linked_note_def delete_in_state_def fromDBNote_def)
        next
          case (Some m)
          then have "nt_ID m = nid" "nt_OwnerID m = owner" "nt_CurrentVersion n0 = nt_CurrentVersion m"
            using link [OF Some] at0 by (simp_all add: linked_note_def)
          with at1 n0' n0(2) Some show ?thesis
            by (simp add: linked_note_def delete_in_state_def fromDBNote_def)
        qed
      qed
      moreover have "nt_CurrentVersion (delete_in_state st (fromDBNote n)) = nt_CurrentVersion m"
        if "st_note st = Some m" for m
        using that by (simp add: delete_in_state_def)
      moreover have "note_at c' i = note_at c i" if "i \<noteq> nid" for i
      proof (cases "note_at c i")
        case (Some m)
        then have "\<not> ?cond m"
          using that lookup_note_id [OF Some] by (auto simp: note_at_version_def note_owned_def)
        with Some show ?thesis by (simp add: at)
      qed (simp add: at)
      ultimately show ?thesis
        using rel at0 at [of nid] unfolding c' by (intro batch_inv_notes [OF 1(1)]) (auto split: if_splits)
    qed
    moreover have "db_ok c'" using rel ok by (simp add: sync_rel_def)
    ultimately show ?case using rel push.R_trans [OF batch_inv_rel [OF 1(1)]] by blast
  qed (auto simp: Let_def dest: batch_inv_rel batch_inv_ok)
  then show ?thesis
    unfolding DeleteNote_def
    by (rule ctriple_bind)
       (auto intro!: ctriple_bind [where R = "\<lambda>n c. ?Q (Some n) c"] ctriple_mapNoRows ctriple_return)
qed

end
