(* ===== verification/Sync_Ops_Inv.thy ===== *)
theory Sync_Ops_Inv
  imports Sync_Batch_Inv
begin

section \<open>Every handler keeps the invariant of its batch\<close>

text \<open>
  For each handler of \<open>internal/sync/services\<close> and for every input: an accepted operation leads
  from a state with the batch invariant to one with it, with one more row in the history; a
  rejected operation and an error (never a nil dereference) stay within the contract of a push.
\<close>

lemma existingNote_triple:
  assumes "op_NoteID oper = nid"
  shows "ctriple (batch_inv owner device nid c0 st ch lt) (existingNote env owner st oper)
    (\<lambda>(st', rejected) c. batch_inv owner device nid c0 st' ch lt c \<and> (rejected = None \<longrightarrow>
       (\<exists>n. st_note st' = Some n \<and> nt_CurrentVersion n = op_BaseNoteVersion oper)))
    (batch_err owner device c0)"
  unfolding existingNote_def assms
  by (rule ctriple_bind [OF ensureNote_triple])
     (auto split: option.split intro!: ctriple_return)

lemma withNote_triple:
  assumes "op_NoteID oper = nid"
    and k: "\<And>st' n. st_note st' = Some n \<Longrightarrow> nt_CurrentVersion n = op_BaseNoteVersion oper \<Longrightarrow>
      ctriple (batch_inv owner device nid c0 st' ch lt) (k st' n) (op_post owner device nid c0 lt)
        (batch_err owner device c0)"
  shows "ctriple (batch_inv owner device nid c0 st ch lt) (withNote env owner st oper k)
    (op_post owner device nid c0 lt) (batch_err owner device c0)"
  unfolding withNote_def
proof (rule ctriple_bind [OF existingNote_triple [OF assms(1)]], clarsimp, goal_cases)
  case (1 st' rejected)
  show ?case
  proof (cases rejected)
    case None
    then show ?thesis
      using k by (cases "st_note st'") (auto intro!: ctriple_False ctriple_pure_right)
  next
    case (Some r)
    then show ?thesis by (auto intro!: ctriple_return dest: batch_inv_rel)
  qed
qed

lemma reject_triple:
  "ctriple (batch_inv owner device nid c0 st ch lt) (returnM (st', Rejected r))
     (op_post owner device nid c0 lt') (batch_err owner device c0)"
  by (auto intro!: ctriple_return dest: batch_inv_rel)

lemma modifyNoteProperty_triple:
  assumes "op_NoteID oper = nid"
  shows "ctriple (batch_inv owner device nid c0 st ch lt) (modifyNoteProperty env owner device st oper)
    (op_post owner device nid c0 lt) (batch_err owner device c0)"
proof -
  have st': "batch_inv owner device nid c0 (st'\<lparr>st_note := Some (n\<lparr>nt_NoteProperties := p\<rparr>)\<rparr>) ch lt c"
    if "batch_inv owner device nid c0 st' ch lt c" "st_note st' = Some n" for st' n p c
    by (rule batch_inv_state [OF that(1)])
      (use that in \<open>auto simp: batch_inv_def batch_state_def linked_note_def\<close>)
  show ?thesis
    unfolding modifyNoteProperty_def Let_def
    by (auto split: sum.split intro!: reject_triple withNote_triple [OF assms]
        ctriple_pre [OF acceptOperationChange_triple [OF assms]] st')
qed

lemma modifyNoteTitle_triple:
  assumes "op_NoteID oper = nid"
  shows "ctriple (batch_inv owner device nid c0 st ch lt) (modifyNoteTitle env owner device st oper)
    (op_post owner device nid c0 lt) (batch_err owner device c0)"
proof -
  have st': "batch_inv owner device nid c0 (st'\<lparr>st_note := Some (n\<lparr>nt_Title := t\<rparr>)\<rparr>) ch lt c"
    if "batch_inv owner device nid c0 st' ch lt c" "st_note st' = Some n" for st' n t c
    by (rule batch_inv_state [OF that(1)])
      (use that in \<open>auto simp: batch_inv_def batch_state_def linked_note_def\<close>)
  show ?thesis
    unfolding modifyNoteTitle_def Let_def
    by (auto split: sum.split intro!: reject_triple withNote_triple [OF assms]
        ctriple_pre [OF acceptOperationChange_triple [OF assms]] st')
qed

lemma deleteNote_triple:
  assumes "op_NoteID oper = nid"
  shows "ctriple (batch_inv owner device nid c0 st ch lt) (deleteNote env owner device st oper)
    (op_post owner device nid c0 lt) (batch_err owner device c0)"
  unfolding deleteNote_def Let_def assms delete_in_state_def [symmetric]
proof (rule ctriple_catch [OF DeleteNote_triple], goal_cases)
  case (1 e)
  have get: "ctriple (\<lambda>c. sync_rel owner device c0 c \<and> db_ok c) (GetNoteForOwnerForUpdate env nid owner)
      (\<lambda>n c. (sync_rel owner device c0 c \<and> db_ok c) \<and> linked_note owner nid c n)
      (\<lambda>e c. (sync_rel owner device c0 c \<and> db_ok c) \<and> e \<in> {ErrNotFound, ErrDB, ErrTxAborted})"
    by (rule GetNote_triple) simp
  have "ctriple (\<lambda>c. sync_rel owner device c0 c \<and> db_ok c)
      (catchM (GetNoteForOwnerForUpdate env nid owner)
        (\<lambda>lookupErr. if lookupErr = ErrNotFound
           then returnM (st, Rejected (RejectedNotFound oper ''Note not found.'')) else failM lookupErr)
        (\<lambda>current. returnM (st, Rejected (RejectedConflict oper (nt_CurrentVersion current)))))
      (op_post owner device nid c0 lt) (batch_err owner device c0)"
    by (rule ctriple_catch [OF get]) (auto intro!: ctriple_return ctriple_fail simp: batch_err_def)
  then show ?case
    by (auto intro!: ctriple_fail simp: batch_err_def elim!: ctriple_pre)
next
  case (2 deleted)
  show ?case by (rule acceptOperationChange_triple [OF assms]) simp_all
qed

lemma createBlocks_triple:
  assumes "st_note st \<noteq> None" "\<And>b. b \<in> set bs \<Longrightarrow> bl_NoteID b = nid"
  shows "ctriple (batch_inv owner device nid c0 st ch lt) (createBlocks env oper bs st)
    (\<lambda>(st', rejected) c. sync_rel owner device c0 c \<and> (rejected = None \<longrightarrow>
       batch_inv owner device nid c0 st' ch lt c \<and> st_note st' = st_note st))
    (batch_err owner device c0)"
  using assms
proof (induction bs arbitrary: st)
  case Nil
  then show ?case by (auto intro!: ctriple_return dest: batch_inv_rel)
next
  case (Cons b bs)
  let ?st = "st\<lparr>st_blocks := (st_blocks st)(bl_ID b \<mapsto> b)\<rparr>"
  have "ctriple (batch_inv owner device nid c0 ?st ch lt) (createBlocks env oper bs ?st)
    (\<lambda>(st', rejected) c. sync_rel owner device c0 c \<and> (rejected = None \<longrightarrow>
       batch_inv owner device nid c0 st' ch lt c \<and> st_note st' = st_note st))
    (batch_err owner device c0)"
    using Cons.IH [of ?st] Cons.prems by simp
  moreover have "ctriple (batch_inv owner device nid c0 st ch lt) (CreateBlock env b)
    (\<lambda>_. batch_inv owner device nid c0 ?st ch lt)
    (\<lambda>e c. batch_inv owner device nid c0 st ch lt c \<and> e \<in> {ErrUnique, ErrForeignKey, ErrDB, ErrTxAborted})"
    by (rule CreateBlock_triple) (use Cons.prems in auto)
  ultimately show ?case
    by (auto intro!: ctriple_catch ctriple_return ctriple_fail dest: batch_inv_rel)
qed

lemma BlockModel_Entity_Inr:
  "BlockModel_Entity cd nid m = Inr b \<Longrightarrow> bl_NoteID b = nid \<and> bl_ID b = bm_BlockId m \<and> bl_ID b \<noteq> Nil_uuid"
  by (auto simp: BlockModel_Entity_def bindE_Inr split: if_splits)

lemmas BlockModel_Entity_note = BlockModel_Entity_Inr [THEN conjunct1]

lemma createNote_document:
  assumes "bindE (NoteModel_FromRequest cd oper owner) (NoteModel_Entity cd) = Inr doc"
  shows "nt_ID (nd_Note doc) = op_NoteID oper" "nt_OwnerID (nd_Note doc) = owner"
    "nt_CurrentVersion (nd_Note doc) = 0" "op_NoteID oper \<noteq> Nil_uuid"
    "b \<in> set (nd_Blocks doc) \<Longrightarrow> bl_NoteID b = op_NoteID oper"
proof -
  obtain m bs where m: "NoteModel_FromRequest cd oper owner = Inr m"
      "mapE (BlockModel_Entity cd (nm_ID m)) (nm_Blocks m) = Inr bs"
    and doc: "nt_ID (nd_Note doc) = nm_ID m" "nt_OwnerID (nd_Note doc) = nm_OwnerID m"
      "nt_CurrentVersion (nd_Note doc) = nm_CurrentVersion m" "nd_Blocks doc = bs"
    using assms by (auto simp: bindE_Inr NoteModel_Entity_def split: if_splits)
  have f: "nm_ID m = op_NoteID oper" "nm_OwnerID m = owner" "nm_CurrentVersion m = 0"
      "op_NoteID oper \<noteq> Nil_uuid"
    using m(1) by (auto simp: NoteModel_FromRequest_def bindE_Inr split: if_splits)
  show "nt_ID (nd_Note doc) = op_NoteID oper" "nt_OwnerID (nd_Note doc) = owner"
    "nt_CurrentVersion (nd_Note doc) = 0" "op_NoteID oper \<noteq> Nil_uuid"
    using f doc by simp_all
  show "bl_NoteID b = op_NoteID oper" if "b \<in> set (nd_Blocks doc)"
    using mapE_Inr_list_all2 [OF m(2)] that doc(4) f(1) BlockModel_Entity_Inr
    by (fastforce simp: list_all2_conv_all_nth in_set_conv_nth)
qed

lemma createNote_triple:
  assumes nid: "op_NoteID oper = nid"
  shows "ctriple (batch_inv owner device nid c0 st ch lt) (createNote env owner device st oper)
    (op_post owner device nid c0 lt) (batch_err owner device c0)"
proof -
  have *: "ctriple (batch_inv owner device nid c0 st ch lt)
      (catchM (CreateNote env (nd_Note doc))
         (\<lambda>err. if IsUniqueViolation err then returnM (st, Rejected (RejectedConflict oper 0)) else failM err)
         (\<lambda>_. bindM (createBlocks env oper (nd_Blocks doc)
                 (st\<lparr>st_note := Some (nd_Note doc), st_noteLoaded := True\<rparr>)) (\<lambda>(st', rejected).
            case rejected of Some r \<Rightarrow> returnM (st', Rejected r)
            | None \<Rightarrow> bindM (acceptOperationChange env owner device (nd_Note doc) oper None) (\<lambda>out.
                returnM (st', out)))))
      (op_post owner device nid c0 lt) (batch_err owner device c0)"
    if doc: "bindE (NoteModel_FromRequest (e_codec env) oper owner) (NoteModel_Entity (e_codec env)) = Inr doc"
    for doc
  proof (rule ctriple_catch [OF CreateNote_triple], goal_cases)
    case (6 u)
    show ?case
    proof (rule ctriple_bind [OF createBlocks_triple], goal_cases)
      case (3 res)
      obtain st' rejected where res: "res = (st', rejected)" by (cases res)
      show ?case
      proof (cases rejected)
        case None
        then show ?thesis
          unfolding res
          by (auto intro!: ctriple_pre [where P' = "\<lambda>c. st_note st' = Some (nd_Note doc) \<and> batch_inv owner device nid c0 st' ch lt c"]
              ctriple_pure acceptOperationChange_triple [OF nid])
      next
        case (Some r)
        then show ?thesis unfolding res by (auto intro!: ctriple_return)
      qed
    qed (use createNote_document [OF doc] nid in auto)
  qed (use createNote_document [OF doc] nid in \<open>auto intro!: ctriple_return ctriple_fail simp: IsUniqueViolation_def dest: batch_inv_rel\<close>)
  show ?thesis
    unfolding createNote_def
    by (auto split: option.split sum.split intro!: reject_triple *)
qed

subsection \<open>Blocks\<close>

lemma createBlock_triple:
  assumes nid: "op_NoteID oper = nid"
  shows "ctriple (batch_inv owner device nid c0 st ch lt) (createBlock env owner device st oper)
    (op_post owner device nid c0 lt) (batch_err owner device c0)"
proof -
  have "ctriple (batch_inv owner device nid c0 st' ch lt)
      (catchM (CreateBlock env b)
         (\<lambda>err. if IsUniqueViolation err then returnM (st', Rejected r) else failM err)
         (\<lambda>_. bindM (acceptOperationChange env owner device n oper (Some (bl_ID b))) (\<lambda>out.
            returnM (st'\<lparr>st_blocks := (st_blocks st')(bl_ID b \<mapsto> b),
               st_missingBlocks := st_missingBlocks st' - {bl_ID b}\<rparr>, out))))
      (op_post owner device nid c0 lt) (batch_err owner device c0)"
    if b: "bl_NoteID b = nid" and n: "st_note st' = Some n" for b st' n r
  proof (rule ctriple_catch [OF CreateBlock_triple])
    let ?st = "st'\<lparr>st_blocks := (st_blocks st')(bl_ID b \<mapsto> b),
       st_missingBlocks := st_missingBlocks st' - {bl_ID b}\<rparr>"
    have "batch_inv owner device nid c0 ?st ch lt c"
      if "batch_inv owner device nid c0 (st'\<lparr>st_blocks := (st_blocks st')(bl_ID b \<mapsto> b)\<rparr>) ch lt c" for c
      by (rule batch_inv_state [OF that]) (use that in \<open>auto simp: batch_inv_def batch_state_def\<close>)
    then show "ctriple (batch_inv owner device nid c0 (st'\<lparr>st_blocks := (st_blocks st')(bl_ID b \<mapsto> b)\<rparr>) ch lt)
        (bindM (acceptOperationChange env owner device n oper (Some (bl_ID b))) (\<lambda>out. returnM (?st, out)))
        (op_post owner device nid c0 lt) (batch_err owner device c0)" for a
      by (intro ctriple_pre [OF acceptOperationChange_triple [OF nid]]) (use n in auto)
  qed (use b n in \<open>auto intro!: ctriple_return ctriple_fail dest: batch_inv_rel\<close>)
  then show ?thesis
    unfolding createBlock_def
    by (auto split: sum.split simp: bindE_Inr nid dest!: BlockModel_Entity_note
        intro!: reject_triple withNote_triple [OF nid])
qed

lemma deleteBlock_triple:
  assumes nid: "op_NoteID oper = nid"
  shows "ctriple (batch_inv owner device nid c0 st ch lt) (deleteBlock env owner device st oper)
    (op_post owner device nid c0 lt) (batch_err owner device c0)"
proof -
  have held: "ctriple (batch_inv owner device nid c0 st' ch lt)
      (bindM (timeNow env) (\<lambda>now. bindM (UpdateBlockState env (b\<lparr>bl_DeletedAt := Some now\<rparr>)) (\<lambda>_.
         bindM (acceptOperationChange env owner device n oper (Some i)) (\<lambda>out.
         returnM (st'\<lparr>st_blocks := (st_blocks st')(i \<mapsto> b\<lparr>bl_DeletedAt := Some now\<rparr>),
            st_dirtyBlocks := removeAll i (st_dirtyBlocks st')\<rparr>, out)))))
      (op_post owner device nid c0 lt) (batch_err owner device c0)"
    if b: "st_blocks st' i = Some b" and n: "st_note st' = Some n" for st' n i b
  proof (rule ctriple_ghost)
    fix c1
    assume "batch_inv owner device nid c0 st' ch lt c1"
    with b have "bl_ID b = i" "bl_NoteID b = nid"
      by (auto simp: batch_inv_def batch_state_def linked_block_def)
    then have "ctriple (batch_inv owner device nid c0 st' ch lt)
      (bindM (timeNow env) (\<lambda>now. bindM (UpdateBlockState env (b\<lparr>bl_DeletedAt := Some now\<rparr>)) (\<lambda>_.
         bindM (acceptOperationChange env owner device n oper (Some i)) (\<lambda>out.
         returnM (st'\<lparr>st_blocks := (st_blocks st')(i \<mapsto> b\<lparr>bl_DeletedAt := Some now\<rparr>),
            st_dirtyBlocks := removeAll i (st_dirtyBlocks st')\<rparr>, out)))))
      (op_post owner device nid c0 lt) (batch_err owner device c0)"
      using b n
      by (intro ctriple_bind [OF ctriple_timeNow [where Q = "\<lambda>_. batch_inv owner device nid c0 st' ch lt"]]
            ctriple_bind [OF UpdateBlockState_triple [where i = i and ?b0.0 = b]])
         (assumption | rule acceptOperationChange_triple [OF nid] | simp)+
    then show "ctriple (\<lambda>c. c = c1)
      (bindM (timeNow env) (\<lambda>now. bindM (UpdateBlockState env (b\<lparr>bl_DeletedAt := Some now\<rparr>)) (\<lambda>_.
         bindM (acceptOperationChange env owner device n oper (Some i)) (\<lambda>out.
         returnM (st'\<lparr>st_blocks := (st_blocks st')(i \<mapsto> b\<lparr>bl_DeletedAt := Some now\<rparr>),
            st_dirtyBlocks := removeAll i (st_dirtyBlocks st')\<rparr>, out)))))
      (op_post owner device nid c0 lt) (batch_err owner device c0)"
      by (rule ctriple_pre) (use \<open>batch_inv owner device nid c0 st' ch lt c1\<close> in simp)
  qed
  have direct: "ctriple (batch_inv owner device nid c0 st' ch lt)
      (catchM (DeleteBlock env i nid)
         (\<lambda>err. if err = ErrNotFound then returnM (st', Rejected r) else failM err)
         (\<lambda>deleted. bindM (acceptOperationChange env owner device n oper (Some i)) (\<lambda>out.
            returnM (st'\<lparr>st_blocks := (st_blocks st')(i \<mapsto> deleted)\<rparr>, out))))
      (op_post owner device nid c0 lt) (batch_err owner device c0)"
    if "st_blocks st' i = None" "st_note st' = Some n" for st' n i r
    by (rule ctriple_catch [OF DeleteBlock_triple])
       (use that in \<open>auto intro!: ctriple_return ctriple_fail acceptOperationChange_triple [OF nid] simp: batch_err_def\<close>)
  show ?thesis
    unfolding deleteBlock_def Let_def nid
    by (auto split: sum.split option.split intro!: reject_triple withNote_triple [OF nid] held direct)
qed

lemma editBlock_Inr:
  "editBlock m b = Inr b' \<Longrightarrow> bl_ID b' = bl_ID b \<and> bl_NoteID b' = bl_NoteID b \<and> bl_DeletedAt b' = bl_DeletedAt b"
  by (auto simp: editBlock_def Let_def bindE_Inr split: if_splits)

lemma modifyBlock_triple:
  assumes nid: "op_NoteID oper = nid"
  shows "ctriple (batch_inv owner device nid c0 st ch lt) (modifyBlock env owner device st oper)
    (op_post owner device nid c0 lt) (batch_err owner device c0)"
proof -
  have edit: "batch_inv owner device nid c0 (st2\<lparr>st_blocks := (st_blocks st2)(i \<mapsto> b'),
        st_dirtyBlocks := List.insert i (st_dirtyBlocks st2)\<rparr>) ch lt c"
    if "batch_inv owner device nid c0 st2 ch lt c" "st_blocks st2 i = Some b" "editBlock m b = Inr b'"
    for st2 i b b' c m
    by (rule batch_inv_state [OF that(1)])
      (use that editBlock_Inr [OF that(3)] in \<open>auto simp: batch_inv_def batch_state_def linked_block_def\<close>)
  have body: "ctriple (batch_inv owner device nid c0 st' ch lt)
      (bindM (ensureBlock env nid i st') (\<lambda>(st2, found). case found of
           None \<Rightarrow> returnM (st2, Rejected (RejectedNotFound oper ''Block not found.''))
         | Some b \<Rightarrow> (case editBlock m b of
              Inl e \<Rightarrow> returnM (st2, Rejected (RejectedInvalid oper e))
            | Inr b' \<Rightarrow> bindM (acceptOperationChange env owner device n oper (Some i)) (\<lambda>out.
                returnM (st2\<lparr>st_blocks := (st_blocks st2)(i \<mapsto> b'),
                  st_dirtyBlocks := List.insert i (st_dirtyBlocks st2)\<rparr>, out)))))
      (op_post owner device nid c0 lt) (batch_err owner device c0)"
    if n: "st_note st' = Some n" for st' n i m
  proof (rule ctriple_bind [OF ensureBlock_triple], clarsimp, goal_cases)
    case (1 st2 found)
    let ?P = "\<lambda>c. batch_inv owner device nid c0 st2 ch lt c \<and> st_note st2 = st_note st'
      \<and> (\<forall>b. found = Some b \<longrightarrow> st_blocks st2 i = Some b)"
    have "ctriple ?P (bindM (acceptOperationChange env owner device n oper (Some i)) (\<lambda>out.
        returnM (st2\<lparr>st_blocks := (st_blocks st2)(i \<mapsto> b'),
           st_dirtyBlocks := List.insert i (st_dirtyBlocks st2)\<rparr>, out)))
      (op_post owner device nid c0 lt) (batch_err owner device c0)"
      if "found = Some b" "editBlock m b = Inr b'" for b b'
    proof (rule ctriple_ghost)
      fix c1 assume c1: "?P c1"
      show "ctriple (\<lambda>c. c = c1) (bindM (acceptOperationChange env owner device n oper (Some i)) (\<lambda>out.
          returnM (st2\<lparr>st_blocks := (st_blocks st2)(i \<mapsto> b'),
           st_dirtyBlocks := List.insert i (st_dirtyBlocks st2)\<rparr>, out)))
        (op_post owner device nid c0 lt) (batch_err owner device c0)"
        by (rule ctriple_pre [OF acceptOperationChange_triple [OF nid, where n' = n]])
          (use c1 n that edit in auto)
    qed
    then show ?case
      by (auto split: option.split sum.split intro!: ctriple_return dest: batch_inv_rel)
  qed
  show ?thesis
    unfolding modifyBlock_def Let_def nid
    by (auto split: sum.split intro!: reject_triple withNote_triple [OF nid] body)
qed

subsection \<open>Categories\<close>

lemma batch_inv_categories:
  assumes inv: "batch_inv owner device nid c0 st ch lt c"
    and rel: "sync_rel owner device c (on_categories f c)"
  shows "batch_inv owner device nid c0 st ch lt (on_categories f c)"
  by (rule batch_inv_stepI [OF inv rel])
     (use inv in \<open>auto simp: batch_inv_def batch_state_def linked_note_def linked_block_def on_categories_def\<close>)

interpretation delete_category: keyed_update cg_ID
  "\<lambda>g. g\<lparr>cg_UpdatedAt := up, cg_DeletedAt := de\<rparr>" for up de
  by unfold_locales simp

interpretation update_category: keyed_update cg_ID
  "\<lambda>g. g\<lparr>cg_Name := na, cg_UpdatedAt := up\<rparr>" for na up
  by unfold_locales simp

lemma CreateCategory_triple:
  "ctriple (batch_inv owner device nid c0 st ch lt) (CreateCategory env i owner name)
     (\<lambda>_. batch_inv owner device nid c0 st ch lt) (batch_err owner device c0)"
  unfolding CreateCategory_def CreateCategory_sql_def Let_def
  by (rule ctriple_exec)
     (auto split: if_splits intro!: batch_inv_categories sync_insert_category)

lemma DeleteCategory_triple:
  "ctriple (batch_inv owner device nid c0 st ch lt) (DeleteCategory env i owner)
     (\<lambda>_. batch_inv owner device nid c0 st ch lt) (batch_err owner device c0)"
  unfolding DeleteCategory_def DeleteCategory_sql_def
  by (rule ctriple_exec)
     (auto intro!: batch_inv_categories sync_update_categories [OF delete_category.keyed_update_axioms])

lemma UpdateCategory_triple:
  "ctriple (batch_inv owner device nid c0 st ch lt) (UpdateCategory env i owner name)
     (\<lambda>_. batch_inv owner device nid c0 st ch lt) (batch_err owner device c0)"
  unfolding UpdateCategory_def UpdateCategory_sql_def Let_def
  by (rule ctriple_exec)
     (auto split: if_splits intro!: batch_inv_categories sync_update_categories [OF update_category.keyed_update_axioms])

lemma LockCategory_triple:
  "ctriple (batch_inv owner device nid c0 st ch lt) (LockCategoryForOwner env i owner)
     (\<lambda>_. batch_inv owner device nid c0 st ch lt)
     (\<lambda>e c. batch_inv owner device nid c0 st ch lt c \<and> e \<in> {ErrNotFound, ErrDB, ErrTxAborted})"
  unfolding LockCategoryForOwner_def GetCategoryForOwnerForUpdate_sql_def
  by (rule ctriple_bind [OF ctriple_query [where Q = "\<lambda>_. batch_inv owner device nid c0 st ch lt"]])
     (auto intro!: ctriple_bind [OF ctriple_mapNoRows [where Q = "\<lambda>_. batch_inv owner device nid c0 st ch lt"]]
        ctriple_return)

lemma acceptCategoryChange_triple:
  assumes "op_NoteID oper = nid" "nid = Nil_uuid"
  shows "ctriple (batch_inv owner device nid c0 st ch lt) (acceptCategoryChange env owner device oper)
    (\<lambda>out. op_post owner device nid c0 lt (st, out)) (batch_err owner device c0)"
  unfolding acceptCategoryChange_def
  by (rule ctriple_bind [OF insertChange_triple [OF assms(1)]])
     (auto intro!: ctriple_return simp: op_post_def acceptedFromChange_def assms(2))

lemma category_triples:
  assumes "op_NoteID oper = nid" "nid = Nil_uuid"
  shows "ctriple (batch_inv owner device nid c0 st ch lt) (createCategory env owner device oper)
      (\<lambda>out. op_post owner device nid c0 lt (st, out)) (batch_err owner device c0)"
    and "ctriple (batch_inv owner device nid c0 st ch lt) (deleteCategory env owner device oper)
      (\<lambda>out. op_post owner device nid c0 lt (st, out)) (batch_err owner device c0)"
    and "ctriple (batch_inv owner device nid c0 st ch lt) (modifyCategory env owner device oper)
      (\<lambda>out. op_post owner device nid c0 lt (st, out)) (batch_err owner device c0)"
  unfolding createCategory_def deleteCategory_def modifyCategory_def
  by (auto split: sum.split intro!: ctriple_return ctriple_fail ctriple_catch [OF LockCategory_triple]
      ctriple_bind [OF CreateCategory_triple] ctriple_bind [OF DeleteCategory_triple]
      ctriple_bind [OF UpdateCategory_triple] acceptCategoryChange_triple [OF assms] dest: batch_inv_rel)
     (auto dest: batch_inv_rel)

subsection \<open>One operation\<close>

lemma with_state_triple:
  "ctriple P m (\<lambda>out. Q (st, out)) E \<Longrightarrow> ctriple P (with_state st m) Q E"
  unfolding with_state_def by (rule ctriple_bind) (auto intro: ctriple_return)

lemma Validate_category:
  "ClientOperation_Validate oper = Inr () \<Longrightarrow> category_operation (op_OperationType oper) \<Longrightarrow>
   op_NoteID oper = Nil_uuid"
  by (auto simp: ClientOperation_Validate_def bindE_Inr split: if_splits)

lemma dispatchOperation_triple:
  assumes nid: "op_NoteID oper = nid" and valid: "ClientOperation_Validate oper = Inr ()"
  shows "ctriple (batch_inv owner device nid c0 st ch lt) (dispatchOperation env owner device st oper)
    (op_post owner device nid c0 lt) (batch_err owner device c0)"
proof -
  note cat = with_state_triple [OF category_triples(1) [OF nid]] with_state_triple [OF category_triples(2) [OF nid]]
    with_state_triple [OF category_triples(3) [OF nid]]
  have "nid = Nil_uuid" if "op_OperationType oper \<in> {OperationCreateCategory, OperationDeleteCategory, OperationModifyCategory}"
    using Validate_category [OF valid] that nid by (simp add: category_operation_def)
  then show ?thesis
    unfolding dispatchOperation_def Let_def
    by (intro triple_if_ctriple createNote_triple [OF nid] deleteNote_triple [OF nid] modifyNoteProperty_triple [OF nid]
        modifyNoteTitle_triple [OF nid] createBlock_triple [OF nid] deleteBlock_triple [OF nid]
        modifyBlock_triple [OF nid] cat reject_triple) auto
qed

end
