(* ===== verification/Sync_Push_Inv.thy ===== *)
theory Sync_Push_Inv
  imports Sync_Ops_Inv Sync_Service
begin

section \<open>Operations, batches and pushes keep the contract\<close>

text \<open>
  From the handlers upwards: one operation with its idempotency check, the loop of a batch, the
  writes that follow it, the batch with its savepoint, the loop over the batches of a request,
  and the request in its transaction.
\<close>

subsection \<open>Read-only calls\<close>

abbreviation read_errors :: "go_error set" where
  "read_errors \<equiv> {ErrNotFound, ErrDB, ErrTxAborted}"

lemma reads_FindProcessedOperation [reads_rules]: "reads_in read_errors (FindProcessedOperation env d i)"
  unfolding FindProcessedOperation_def FindProcessedOperation_sql_def by (intro reads_rules) auto

lemma reads_GetNoteForOwnerForUpdate [reads_rules]: "reads_in read_errors (GetNoteForOwnerForUpdate env i owner)"
  unfolding GetNoteForOwnerForUpdate_def GetNoteForOwnerForUpdate_sql_def by (intro reads_rules) auto

lemma reads_ListBlocksForNote [reads_rules]: "reads_in read_errors (ListBlocksForNote env i)"
  unfolding ListBlocksForNote_def ListBlocksForNote_sql_def by (intro reads_rules) auto

lemma reads_GetLastAppliedCursorForNote [reads_rules]: "reads_in read_errors (GetLastAppliedCursorForNote env i)"
  unfolding GetLastAppliedCursorForNote_def GetLastAppliedCursorForNote_sql_def by (intro reads_rules) auto

lemma reads_GetNoteDocumentForOwnerForUpdate [reads_rules]:
  "reads_in read_errors (GetNoteDocumentForOwnerForUpdate env i owner)"
  unfolding GetNoteDocumentForOwnerForUpdate_def GetNoteForOwnerForUpdate_sql_def by (intro reads_rules) auto

lemma reads_GetNoteForOwner [reads_rules]: "reads_in read_errors (GetNoteForOwner env i owner)"
  unfolding GetNoteForOwner_def GetNoteForOwner_sql_def by (intro reads_rules) auto

lemma reads_GetNoteDocument [reads_rules]: "reads_in read_errors (GetNoteDocument env i owner)"
  unfolding GetNoteDocument_def by (intro reads_rules)

lemma reads_counts [reads_rules]:
  "reads_in read_errors (CountChangesSinceLastSnapshot env i)"
  "reads_in read_errors (SumChangeBytesSinceLastSnapshot env i)"
  unfolding CountChangesSinceLastSnapshot_def SumChangeBytesSinceLastSnapshot_def
    CountChangesSinceLastSnapshot_sql_def SumChangeBytesSinceLastSnapshot_sql_def
  by (intro reads_rules; simp)+

lemma reads_GetDevice [reads_rules]:
  "reads_in read_errors (GetDeviceForOwner env i owner)"
  "reads_in read_errors (GetDeviceForOwnerForUpdate env i owner)"
  unfolding GetDeviceForOwner_def GetDeviceForOwnerForUpdate_def
    GetDeviceForOwner_sql_def GetDeviceForOwnerForUpdate_sql_def
  by (intro reads_rules; simp)+

lemma reads_loadRejectionDocument [reads_rules]: "reads_in read_errors (loadRejectionDocument env i owner)"
  unfolding loadRejectionDocument_def
  by (intro reads_if reads_return reads_catch [OF reads_GetNoteDocumentForOwnerForUpdate] reads_fail) auto

subsection \<open>One operation, one loop\<close>

definition step_post :: "uuid \<Rightarrow> string \<Rightarrow> uuid \<Rightarrow> core \<Rightarrow> bool \<Rightarrow> int \<Rightarrow> noteBatchState \<times> outcome \<times> bool \<Rightarrow>
    core \<Rightarrow> bool" where
  "step_post owner device nid c0 ch lt res c = (case res of (st, out, flag) \<Rightarrow> (case out of
     Accepted a \<Rightarrow> if flag then batch_inv owner device nid c0 st True (ac_GlobalSequence a) c
                     \<and> lt < ac_GlobalSequence a
                   else batch_inv owner device nid c0 st ch lt c
   | Rejected _ \<Rightarrow> sync_rel owner device c0 c))"

lemma applyOperation_triple:
  assumes nid: "op_NoteID oper = nid"
  shows "ctriple (batch_inv owner device nid c0 st ch lt) (applyOperation env owner device st oper)
    (step_post owner device nid c0 ch lt) (batch_err owner device c0)"
  unfolding applyOperation_def
proof (rule ctriple_catch [OF reads_triple [OF reads_FindProcessedOperation]], goal_cases)
  case (1 e)
  have fresh: "ctriple (batch_inv owner device nid c0 st ch lt)
      (bindM (dispatchOperation env owner device st oper) (\<lambda>(st', out).
         returnM (st', out, case out of Accepted _ \<Rightarrow> True | Rejected _ \<Rightarrow> False)))
      (step_post owner device nid c0 ch lt) (batch_err owner device c0)"
    if "Operation_FromRequest oper = Inr f" for f
  proof (rule ctriple_bind [OF dispatchOperation_triple [OF nid]])
    show "ClientOperation_Validate oper = Inr ()"
      using that by (auto simp: Operation_FromRequest_def bindE_Inr)
  qed (auto intro!: ctriple_return simp: op_post_def step_post_def split: outcome.splits)
  show ?case
    by (rule ctriple_pure_right)
      (auto intro!: ctriple_fail ctriple_return fresh simp: step_post_def dest: batch_inv_rel split: sum.split)
next
  case (2 processed)
  show ?case
    unfolding nid
    by (intro ctriple_bind [where R = "\<lambda>st'. batch_inv owner device nid c0 st' ch lt"] triple_if_ctriple
        ensureNote_triple ctriple_return) (auto simp: step_post_def)
qed

lemma applyOperations_triple:
  assumes "\<And>oper. oper \<in> set opers \<Longrightarrow> op_NoteID oper = nid"
  shows "ctriple (batch_inv owner device nid c0 st ch lt)
    (applyOperations env owner device opers st ch lt)
    (\<lambda>(st', ch', lt'). batch_inv owner device nid c0 st' ch' lt')
    (\<lambda>e c. sync_rel owner device c0 c \<and> e \<noteq> ErrPanic)"
  using assms
proof (induction opers arbitrary: st ch lt)
  case Nil
  then show ?case by (auto intro!: ctriple_return)
next
  case (Cons oper opers)
  have nid: "op_NoteID oper = nid" using Cons.prems by simp
  note IH = Cons.IH [OF Cons.prems [OF list.set_intros(2)]]
  have "ctriple (step_post owner device nid c0 ch lt (st', out, flag))
      (case out of Rejected r \<Rightarrow> failM (ErrBatchRejected r)
       | Accepted a \<Rightarrow> applyOperations env owner device opers st' (ch \<or> flag)
           (if flag \<and> ac_GlobalSequence a > lt then ac_GlobalSequence a else lt))
      (\<lambda>(st', ch', lt'). batch_inv owner device nid c0 st' ch' lt')
      (\<lambda>e c. sync_rel owner device c0 c \<and> e \<noteq> ErrPanic)" for st' out flag
  proof (cases out)
    case (Accepted a)
    show ?thesis
    proof (cases flag)
      case True
      show ?thesis
        unfolding Accepted step_post_def prod.case outcome.case if_P [OF True]
        by (rule ctriple_pure_right) (use IH [of st' True "ac_GlobalSequence a"] True in simp)
    next
      case False
      show ?thesis
        unfolding Accepted step_post_def prod.case outcome.case if_not_P [OF False]
        using IH [of st' ch lt] False by simp
    qed
  next
    case (Rejected r)
    then show ?thesis by (auto intro!: ctriple_fail simp: step_post_def)
  qed
  moreover have "ctriple (batch_inv owner device nid c0 st ch lt) (applyOperation env owner device st oper)
      (step_post owner device nid c0 ch lt) (\<lambda>e c. sync_rel owner device c0 c \<and> e \<noteq> ErrPanic)"
    by (rule ctriple_weaken [OF applyOperation_triple [OF nid]]) (auto simp: batch_err_def)
  ultimately show ?case
    unfolding applyOperations.simps
    by (intro ctriple_bind [where R = "step_post owner device nid c0 ch lt"]) (auto split: prod.split)
qed

subsection \<open>Writing a batch back\<close>

definition version_at :: "core \<Rightarrow> uuid \<Rightarrow> int" where
  "version_at c i = (case note_at c i of None \<Rightarrow> 0 | Some n \<Rightarrow> nt_CurrentVersion n)"

definition bump_row :: "core \<Rightarrow> uuid \<Rightarrow> note_change_row \<Rightarrow> bool" where
  "bump_row c0 nid r \<longleftrightarrow> cr_NoteID r = nullableUUID nid \<and> (nid \<noteq> Nil_uuid \<longrightarrow>
     cr_BaseNoteVersion r = version_at c0 nid \<and> cr_ResultingNoteVersion r = version_at c0 nid + 1)"

text \<open>The effect of an accepted batch: the rows it appended and the version of its note.\<close>

definition batch_effect :: "uuid \<Rightarrow> string \<Rightarrow> uuid \<Rightarrow> core \<Rightarrow> bool \<Rightarrow> int \<Rightarrow> Note option \<Rightarrow> core \<Rightarrow> bool" where
  "batch_effect owner device nid c0 ch lt final c \<longleftrightarrow> sync_rel owner device c0 c
     \<and> (\<forall>i. i \<noteq> nid \<longrightarrow> note_at c i = note_at c0 i)
     \<and> (\<exists>new. history c = history c0 @ new \<and> (ch \<longleftrightarrow> new \<noteq> [])
          \<and> lt = (if new = [] then 0 else cr_seq (last new)) \<and> list_all (bump_row c0 nid) new
          \<and> version_at c nid = (if nid \<noteq> Nil_uuid \<and> new \<noteq> [] then version_at c0 nid + 1 else version_at c0 nid))
     \<and> (\<forall>n. final = Some n \<longrightarrow> nt_CurrentVersion n = version_at c nid)
     \<and> (final = None \<longrightarrow> nid = Nil_uuid \<or> \<not> ch)"

lemma batch_effect_step:
  assumes "batch_effect owner device nid c0 ch lt final c" "sync_rel owner device c c'"
    and "history c' = history c" "t_notes (c_db c') = t_notes (c_db c)"
  shows "batch_effect owner device nid c0 ch lt final c'"
proof -
  have "sync_rel owner device c0 c'"
    using assms(1,2) push.R_trans unfolding batch_effect_def by blast
  moreover have "version_at c' = version_at c" by (simp add: version_at_def fun_eq_iff assms(4))
  ultimately show ?thesis using assms(1) unfolding batch_effect_def assms(3,4) by simp
qed

text \<open>The next version does not overflow: it is bounded by the length of the history.\<close>

lemma next_version:
  assumes inv: "batch_inv owner device nid c0 st True lt c" and n: "st_note st = Some n"
  shows "nid \<noteq> Nil_uuid" "nt_CurrentVersion n = version_at c0 nid"
    "int64 (nt_CurrentVersion n + 1) = nt_CurrentVersion n + 1"
    "nt_CurrentVersion n + 1 \<le> int (length (changes_of c nid))"
proof -
  have ok: "db_ok c" "db_ok c0" using inv batch_inv_ok by (auto simp: batch_inv_def)
  obtain row where row: "note_at c nid = Some row" "nt_CurrentVersion row = nt_CurrentVersion n"
    using inv n by (auto simp: batch_inv_def batch_state_def linked_note_def)
  then show nid: "nid \<noteq> Nil_uuid" using ok by (auto simp: db_ok_def notes_ok_def)
  show v: "nt_CurrentVersion n = version_at c0 nid"
    using inv row by (auto simp: batch_inv_def batch_notes_def version_at_def split: option.splits)
  obtain new where new: "history c = history c0 @ new" "new \<noteq> []" "list_all (batch_row nid st) new"
    using inv by (auto simp: batch_inv_def batch_history_def)
  have "changes_of c nid = changes_of c0 nid @ new"
    using new nid by (auto simp: changes_of_def list_all_iff batch_row_def nullableUUID_def
        intro!: filter_True)
  moreover have "version_at c0 nid \<le> int (length (changes_of c0 nid))" "0 \<le> version_at c0 nid"
    using ok(2) by (auto simp: version_at_def db_ok_def notes_ok_def split: option.splits)
  moreover have "1 \<le> length new" using new(2) by (cases new) auto
  ultimately show b: "nt_CurrentVersion n + 1 \<le> int (length (changes_of c nid))"
    using v by simp
  have "length (changes_of c nid) \<le> length (history c)" by (simp add: changes_of_def)
  then have "nt_CurrentVersion n + 1 \<le> max_int64"
    using b length_history [OF ok(1)] ok(1) by (simp add: db_ok_def changes_ok_def)
  with v \<open>0 \<le> version_at c0 nid\<close> show "int64 (nt_CurrentVersion n + 1) = nt_CurrentVersion n + 1"
    by (intro int64_id) auto
qed

text \<open>What holds after the note row is written, while the dirty blocks are written.\<close>

definition writing :: "uuid \<Rightarrow> string \<Rightarrow> uuid \<Rightarrow> core \<Rightarrow> int \<Rightarrow> Note \<Rightarrow> noteBatchState \<Rightarrow> core \<Rightarrow> bool" where
  "writing owner device nid c0 lt n st c \<longleftrightarrow>
     db_ok c0 \<and> batch_effect owner device nid c0 True lt (Some n) c \<and> owns owner c nid
     \<and> (\<forall>i b. st_blocks st i = Some b \<longrightarrow> linked_block nid c i b)"

lemma writing_ok: "writing owner device nid c0 lt n st c \<Longrightarrow> db_ok c"
  by (simp add: writing_def batch_effect_def sync_rel_def)

lemma writing_err:
  "writing owner device nid c0 lt n st c \<Longrightarrow> e \<in> {ErrNotFound, ErrDB, ErrTxAborted} \<Longrightarrow>
   batch_err owner device c0 e c"
  by (auto simp: writing_def batch_effect_def batch_err_def)

lemma UpdateNoteState_triple:
  assumes n0: "st_note st = Some n0"
  shows "ctriple (batch_inv owner device nid c0 st True lt)
    (UpdateNoteState env (n0\<lparr>nt_CurrentVersion := int64 (nt_CurrentVersion n0 + 1)\<rparr>))
    (\<lambda>_. writing owner device nid c0 lt (n0\<lparr>nt_CurrentVersion := int64 (nt_CurrentVersion n0 + 1)\<rparr>) st)
    (batch_err owner device c0)"
  unfolding UpdateNoteState_def UpdateNoteState_sql_def
proof (rule ctriple_exec, goal_cases)
  case (1 now c u c')
  let ?n = "n0\<lparr>nt_CurrentVersion := int64 (nt_CurrentVersion n0 + 1)\<rparr>"
  note nv = next_version [OF 1(1) n0]
  let ?upd = "\<lambda>n. n\<lparr>nt_Title := nt_Title n0, nt_NoteProperties := jsonb env (NormalizeJSON (nt_NoteProperties n0)),
      nt_CurrentVersion := nt_CurrentVersion n0 + 1, nt_UpdatedAt := now,
      nt_DeletedAt := map_option pg_micros (nt_DeletedAt n0)\<rparr>"
  have ok: "db_ok c" by (rule batch_inv_ok [OF 1(1)])
  have link: "nt_ID n0 = nid" "nt_OwnerID n0 = owner" and ok0: "db_ok c0"
    using 1(1) n0 by (auto simp: batch_inv_def batch_state_def linked_note_def)
  obtain row where row: "note_at c nid = Some row" "nt_OwnerID row = owner"
      "nt_CurrentVersion row = nt_CurrentVersion n0" "nt_DeletedAt row \<noteq> None \<longrightarrow> nt_DeletedAt n0 \<noteq> None"
    using 1(1) n0 by (auto simp: batch_inv_def batch_state_def linked_note_def)
  have c': "c' = on_notes (update_where (note_owned nid owner) ?upd) c"
    using 1(2) nv(3) link by simp
  have at: "note_at c' i = map_option (\<lambda>n. if note_owned nid owner n then ?upd n else n) (note_at c i)" for i
    unfolding c' by (simp add: on_notes_def update_note_state.lookup_update)
  have rowid: "nt_ID row = nid" using row(1) by (rule lookup_note_id)
  have at_nid: "note_at c' nid = Some (?upd row)"
    using row rowid by (simp add: at note_owned_def)
  have rel: "sync_rel owner device c c'"
    unfolding c'
    by (rule sync_update_notes [OF update_note_state.keyed_update_axioms])
      (use row rowid nv(4) in \<open>auto simp: note_owned_def\<close>)
  have others: "note_at c' i = note_at c i" if "i \<noteq> nid" for i
    using that by (cases "note_at c i") (auto simp: at note_owned_def dest: lookup_note_id)
  have same: "history c' = history c" "t_note_blocks (c_db c') = t_note_blocks (c_db c)"
    unfolding c' by (simp_all add: on_notes_def)
  obtain new where new: "history c = history c0 @ new" "new \<noteq> []" "lt = cr_seq (last new)"
      "list_all (batch_row nid st) new"
    using 1(1) by (auto simp: batch_inv_def batch_history_def split: if_splits)
  have bump: "list_all (bump_row c0 nid) new"
    using new(4) n0 nv by (auto simp: list_all_iff bump_row_def batch_row_def)
  have v: "version_at c' nid = version_at c0 nid + 1"
    using at_nid nv(2) by (simp add: version_at_def)
  have "batch_effect owner device nid c0 True lt (Some ?n) c'"
    unfolding batch_effect_def
  proof (intro conjI allI impI)
    show "sync_rel owner device c0 c'"
      using push.R_trans [OF batch_inv_rel [OF 1(1)] rel] .
    show "note_at c' i = note_at c0 i" if "i \<noteq> nid" for i
      using others [OF that] 1(1) that by (simp add: batch_inv_def batch_notes_def)
    show "\<exists>new. history c' = history c0 @ new \<and> (True \<longleftrightarrow> new \<noteq> [])
        \<and> lt = (if new = [] then 0 else cr_seq (last new)) \<and> list_all (bump_row c0 nid) new
        \<and> version_at c' nid = (if nid \<noteq> Nil_uuid \<and> new \<noteq> [] then version_at c0 nid + 1 else version_at c0 nid)"
      by (rule exI [of _ new]) (use same new bump v nv(1) in simp)
  qed (use nv v in auto)
  moreover have "linked_block nid c' i b" if "st_blocks st i = Some b" for i b
    using 1(1) that by (simp add: batch_inv_def batch_state_def linked_block_def same)
  ultimately show ?case
    using ok0 at_nid row by (simp add: writing_def owns_def)
qed auto

lemma writing_block:
  assumes b: "st_blocks st i = Some b"
  shows "ctriple (writing owner device nid c0 lt n st) (UpdateBlockState env b)
    (\<lambda>_. writing owner device nid c0 lt n st) (batch_err owner device c0)"
  unfolding UpdateBlockState_def UpdateBlockState_sql_def
proof (rule ctriple_exec, goal_cases)
  case (1 now c u c')
  let ?upd = "\<lambda>r. r\<lparr>bl_BlockType := bl_BlockType b, bl_TextContent := bl_TextContent b,
     bl_Position := bl_Position b, bl_BlockProperties := jsonb env (NormalizeJSON (bl_BlockProperties b)),
     bl_UpdatedAt := now, bl_DeletedAt := map_option pg_micros (bl_DeletedAt b)\<rparr>"
  have links: "linked_block nid c j x" if "st_blocks st j = Some x" for j x
    using 1(1) that by (auto simp: writing_def)
  have ids: "bl_ID b = i" "bl_NoteID b = nid"
    using links [OF b] by (simp_all add: linked_block_def)
  have c': "c' = on_blocks (update_where (block_in i nid) ?upd) c" using 1(2) ids by simp
  have tomb: "bl_DeletedAt b \<noteq> None" if "block_at c i = Some row" "bl_DeletedAt row \<noteq> None" for row
    using links [OF b] that by (auto simp: linked_block_def)
  have rel: "sync_rel owner device c c'"
    unfolding c'
    by (rule sync_update_blocks [OF update_block_state.keyed_update_axioms])
      (use 1(1) tomb in \<open>auto simp: block_in_def writing_def\<close>)
  have same: "history c' = history c" "t_notes (c_db c') = t_notes (c_db c)"
    unfolding c' by (simp_all add: on_blocks_def)
  have "linked_block nid c' j x" if x: "st_blocks st j = Some x" for j x
    unfolding c'
    by (rule linked_update [OF update_block_state.keyed_update_axioms _ links [OF x]])
      (use links [OF x] b x in \<open>auto simp: linked_block_def split: if_splits\<close>)
  then show ?case
    using 1(1) batch_effect_step [OF _ rel same] by (simp add: writing_def owns_def same)
qed (auto intro: writing_err)

lemma updateDirtyBlocks_triple:
  assumes "\<And>i. i \<in> set (st_dirtyBlocks st) \<Longrightarrow> st_blocks st i \<noteq> None"
  shows "ctriple (writing owner device nid c0 lt n st) (updateDirtyBlocks env st)
    (\<lambda>_. writing owner device nid c0 lt n st) (batch_err owner device c0)"
  unfolding updateDirtyBlocks_def
proof (rule ctriple_for)
  fix i assume "i \<in> set (st_dirtyBlocks st)"
  then obtain b where b: "st_blocks st i = Some b" using assms by blast
  show "ctriple (writing owner device nid c0 lt n st)
      (case st_blocks st i of None \<Rightarrow> failM ErrPanic | Some b \<Rightarrow> UpdateBlockState env b)
      (\<lambda>_. writing owner device nid c0 lt n st) (batch_err owner device c0)"
    using writing_block [OF b] by (simp add: b)
qed

lemma enqueueSnapshot_triple:
  "ctriple (writing owner device nid c0 lt n st) (enqueueSnapshotIfNeeded env sv i o' v)
    (\<lambda>_. batch_effect owner device nid c0 True lt (Some n)) (batch_err owner device c0)"
proof -
  let ?W = "writing owner device nid c0 lt n st"
  have eff: "?W c \<Longrightarrow> batch_effect owner device nid c0 True lt (Some n) c" for c
    by (simp add: writing_def)
  have job: "ctriple ?W (EnqueueSnapshotJob env i o' v)
      (\<lambda>_. batch_effect owner device nid c0 True lt (Some n)) (batch_err owner device c0)"
    unfolding EnqueueSnapshotJob_def EnqueueOutboxJob_sql_def
  proof (rule ctriple_exec, goal_cases)
    case (1 now c row c')
    then have c': "c' = on_jobs (\<lambda>rows. rows @ [row]) (c\<lparr>c_job_seq := c_job_seq c + 1\<rparr>)" "jb_ID row = c_job_seq c + 1"
      by (auto simp: Let_def split: if_splits)
    show ?case
      unfolding c'(1) by (rule batch_effect_step [OF eff [OF 1(1)] sync_insert_job [OF c'(2)]]) (simp_all add: on_jobs_def)
  qed (auto simp: Let_def split: if_splits intro: writing_err)
  have count: "ctriple ?W (CountChangesSinceLastSnapshot env i) (\<lambda>_. ?W) (batch_err owner device c0)"
    by (rule ctriple_weaken [OF reads_triple [OF reads_counts(1)]]) (auto intro: writing_err)
  have bytes: "ctriple ?W (SumChangeBytesSinceLastSnapshot env i) (\<lambda>_. ?W) (batch_err owner device c0)"
    by (rule ctriple_weaken [OF reads_triple [OF reads_counts(2)]]) (auto intro: writing_err)
  show ?thesis
    unfolding enqueueSnapshotIfNeeded_def
    by (intro triple_if_ctriple ctriple_return ctriple_bind [OF count] ctriple_bind [OF bytes]
        ctriple_bind [OF job]) (auto dest: eff)
qed

lemma persistBatch_triple:
  "ctriple (batch_inv owner device nid c0 st ch lt) (persistBatch env sv owner st ch)
    (\<lambda>final. batch_effect owner device nid c0 ch lt final) (batch_err owner device c0)"
proof -
  have idle: "batch_effect owner device nid c0 ch lt (st_note st) c"
    if inv: "batch_inv owner device nid c0 st ch lt c" and "st_note st = None \<or> \<not> ch" for c
  proof -
    obtain new where new: "history c = history c0 @ new" "ch \<longleftrightarrow> new \<noteq> []"
        "lt = (if new = [] then 0 else cr_seq (last new))" "list_all (batch_row nid st) new"
      using inv by (auto simp: batch_inv_def batch_history_def)
    have nil: "nid \<noteq> Nil_uuid \<Longrightarrow> new = []"
      using that(2) new by (cases new) (auto simp: batch_row_def)
    have ns: "note_step owner (note_at c0 nid) (note_at c nid)"
      using inv by (simp add: batch_inv_def sync_rel_def sync_step_def)
    have v: "version_at c nid = version_at c0 nid"
      using inv ns by (auto simp: batch_inv_def batch_notes_def version_at_def note_step_def split: option.splits)
    have rows: "list_all (bump_row c0 nid) new"
      using nil new(4) by (auto simp: list_all_iff bump_row_def batch_row_def)
    have fin: "nt_CurrentVersion n = version_at c nid" if "st_note st = Some n" for n
      using inv that by (auto simp: batch_inv_def batch_state_def linked_note_def version_at_def)
    have "\<exists>new. history c = history c0 @ new \<and> (ch \<longleftrightarrow> new \<noteq> [])
        \<and> lt = (if new = [] then 0 else cr_seq (last new)) \<and> list_all (bump_row c0 nid) new
        \<and> version_at c nid = (if nid \<noteq> Nil_uuid \<and> new \<noteq> [] then version_at c0 nid + 1 else version_at c0 nid)"
      by (rule exI [of _ new]) (use new(1-3) nil v rows in auto)
    with inv fin nil new show ?thesis
      unfolding batch_effect_def by (auto simp: batch_inv_def batch_notes_def)
  qed
  show ?thesis
  proof (cases "st_note st = None \<or> \<not> ch")
    case True
    then show ?thesis
      using idle by (auto simp: persistBatch_def split: option.splits intro!: ctriple_return)
  next
    case False
    then obtain n0 where n0: "st_note st = Some n0" and ch: "ch = True" by auto
    have run: "persistBatch env sv owner st True = (let n = n0\<lparr>nt_CurrentVersion := int64 (nt_CurrentVersion n0 + 1)\<rparr> in
         bindM (UpdateNoteState env n) (\<lambda>_.
         bindM (updateDirtyBlocks env st) (\<lambda>_.
         bindM (enqueueSnapshotIfNeeded env sv (nt_ID n) owner (nt_CurrentVersion n)) (\<lambda>_.
         returnM (Some n)))))"
      by (simp add: persistBatch_def n0)
    have "ctriple (\<lambda>c. c = c1) (persistBatch env sv owner st True)
        (\<lambda>final. batch_effect owner device nid c0 True lt final) (batch_err owner device c0)"
      if prems: "batch_inv owner device nid c0 st True lt c1" for c1
    proof -
      have dirty: "st_blocks st i \<noteq> None" if "i \<in> set (st_dirtyBlocks st)" for i
          using prems that by (auto simp: batch_inv_def batch_state_def)
      have "ctriple (batch_inv owner device nid c0 st True lt) (persistBatch env sv owner st True)
          (\<lambda>final. batch_effect owner device nid c0 True lt final) (batch_err owner device c0)"
        unfolding run Let_def
        by (intro ctriple_bind [OF UpdateNoteState_triple [OF n0]] ctriple_bind [OF updateDirtyBlocks_triple]
            ctriple_bind [OF enqueueSnapshot_triple] ctriple_return dirty)
      then show ?thesis by (rule ctriple_pre) (use prems in simp)
    qed
    then show ?thesis unfolding ch by (rule ctriple_ghost)
  qed
qed

end
