(* ===== verification/Sync_Log.thy ===== *)
theory Sync_Log
  imports Sync_Push_Inv
begin

section \<open>The history as a log of the operations\<close>

text \<open>
  Which rows a batch appends to \<open>note_changes\<close>: one for every operation that the device had not
  sent before (in an earlier request or earlier in the batch), in the order of the operations,
  and none for an operation that is replayed. First the calls that leave a part of the core
  state alone (\<open>keeps\<close>), then the handlers, which append exactly one row when they accept and
  none when they reject (\<open>logs\<close>), then the loop.
\<close>

subsection \<open>Calls that keep a part of the state\<close>

definition keeps :: "(core \<Rightarrow> 'p) \<Rightarrow> 'a call \<Rightarrow> bool" where
  "keeps p m \<longleftrightarrow> (\<forall>w. p (w_core (snd (m w))) = p (w_core w))"

named_theorems keeps_rules "calls that keep a part of the core state"

lemma keepsD: "keeps p m \<Longrightarrow> m w = (r, w') \<Longrightarrow> p (w_core w') = p (w_core w)"
  unfolding keeps_def by (metis snd_conv)

lemma keepsI: "(\<And>w r w'. m w = (r, w') \<Longrightarrow> p (w_core w') = p (w_core w)) \<Longrightarrow> keeps p m"
  unfolding keeps_def by (metis prod.collapse)

lemma keeps_return [keeps_rules]: "keeps p (returnM a)"
  by (simp add: keeps_def returnM_def)

lemma keeps_fail [keeps_rules]: "keeps p (failM e)"
  by (simp add: keeps_def failM_def)

lemma keeps_bind [keeps_rules]: "keeps p m \<Longrightarrow> (\<And>a. keeps p (f a)) \<Longrightarrow> keeps p (bindM m f)"
  by (rule keepsI) (auto simp: bindM_def split: prod.splits sum.splits, (metis keepsD)+)

lemma keeps_catch [keeps_rules]:
  "keeps p m \<Longrightarrow> (\<And>e. keeps p (h e)) \<Longrightarrow> (\<And>a. keeps p (f a)) \<Longrightarrow> keeps p (catchM m h f)"
  by (rule keepsI) (auto simp: catchM_def split: prod.splits sum.splits, (metis keepsD)+)

lemma keeps_if [keeps_rules]: "keeps p m \<Longrightarrow> keeps p m' \<Longrightarrow> keeps p (if b then m else m')"
  by simp

lemma keeps_option [keeps_rules]:
  "keeps p m \<Longrightarrow> (\<And>a. keeps p (f a)) \<Longrightarrow> keeps p (case x of None \<Rightarrow> m | Some a \<Rightarrow> f a)"
  by (cases x) simp_all

lemma keeps_prod [keeps_rules]: "(\<And>a b. keeps p (f a b)) \<Longrightarrow> keeps p (case x of (a, b) \<Rightarrow> f a b)"
  by (cases x) simp

lemma keeps_for [keeps_rules]: "(\<And>x. keeps p (f x)) \<Longrightarrow> keeps p (forM xs f)"
  by (induction xs) (simp_all add: keeps_return keeps_bind)

lemma keeps_exec [keeps_rules]:
  "(\<And>now c. p (snd (f now c)) = p c) \<Longrightarrow> keeps p (exec env f)"
  unfolding keeps_def exec_def
  by (simp split: prod.split sum.split) (metis snd_conv)

lemma keeps_reads: "reads_in S m \<Longrightarrow> keeps p m"
  by (rule keepsI) (simp add: reads_core)

lemma keeps_mapNoRows [keeps_rules]: "keeps p (mapNoRows row)"
  by (simp add: mapNoRows_def keeps_rules)

lemma keeps_newUUID [keeps_rules]: "keeps p (newUUID env)"
  by (simp add: keeps_def newUUID_def)

lemma keeps_timeNow [keeps_rules]: "keeps p (timeNow env)"
  by (simp add: keeps_def timeNow_def)

lemma reads_blocks_categories [reads_rules]:
  "reads_in read_errors (GetBlockForNoteForUpdate env i nid)"
  "reads_in read_errors (LockCategoryForOwner env i owner)"
  unfolding GetBlockForNoteForUpdate_def GetBlockForNoteForUpdate_sql_def
    LockCategoryForOwner_def GetCategoryForOwnerForUpdate_sql_def
  by (intro reads_rules; simp)+

lemmas keeps_queries [keeps_rules] = reads_rules(9-) [THEN keeps_reads]

lemma keeps_history_notes [keeps_rules]:
  "keeps history (CreateNote env n)" "keeps history (UpdateNoteState env n)"
  "keeps history (DeleteNote env i owner v)"
  unfolding CreateNote_def CreateNote_sql_def UpdateNoteState_def UpdateNoteState_sql_def
    DeleteNote_def DeleteNote_sql_def
  by (intro keeps_rules; simp add: on_notes_def Let_def)+

lemma keeps_history_blocks [keeps_rules]:
  "keeps history (CreateBlock env b)" "keeps history (UpdateBlockState env b)"
  "keeps history (DeleteBlock env i nid)"
  unfolding CreateBlock_def CreateBlock_sql_def UpdateBlockState_def UpdateBlockState_sql_def
    DeleteBlock_def DeleteBlock_sql_def
  by (intro keeps_rules; simp add: on_blocks_def Let_def)+

lemma keeps_history_categories [keeps_rules]:
  "keeps history (CreateCategory env i owner name)" "keeps history (UpdateCategory env i owner name)"
  "keeps history (DeleteCategory env i owner)"
  unfolding CreateCategory_def CreateCategory_sql_def UpdateCategory_def UpdateCategory_sql_def
    DeleteCategory_def DeleteCategory_sql_def
  by (intro keeps_rules; simp add: on_categories_def Let_def)+

lemma keeps_history_jobs [keeps_rules]: "keeps history (EnqueueSnapshotJob env i owner v)"
  unfolding EnqueueSnapshotJob_def EnqueueOutboxJob_sql_def
  by (intro keeps_rules; simp add: on_jobs_def Let_def)

lemma keeps_history_state [keeps_rules]:
  "keeps history (ensureNote env owner i st)" "keeps history (ensureBlock env nid i st)"
  "keeps history (existingNote env owner st oper)"
  unfolding existingNote_def ensureNote_def ensureBlock_def by (intro keeps_rules)+

lemma keeps_history_createBlocks [keeps_rules]: "keeps history (createBlocks env oper bs st)"
  by (induction bs arbitrary: st) (simp_all add: keeps_rules)

lemma keeps_history_persist [keeps_rules]: "keeps history (persistBatch env sv owner st ch)"
  unfolding persistBatch_def updateDirtyBlocks_def enqueueSnapshotIfNeeded_def Let_def
  by (intro keeps_rules)

subsection \<open>A handler logs its operation\<close>

definition log_row :: "env \<Rightarrow> uuid \<Rightarrow> string \<Rightarrow> ClientOperation \<Rightarrow> note_change_row \<Rightarrow> bool" where
  "log_row env owner device oper r \<longleftrightarrow>
     cr_OwnerID r = owner \<and> cr_DeviceID r = device \<and> cr_ClientOperationID r = op_OperationID oper
     \<and> cr_NoteID r = nullableUUID (op_NoteID oper) \<and> cr_OperationType r = op_OperationType oper
     \<and> cr_ChangeFormat r = NormalizeChangeFormat (op_ChangeFormat oper)
     \<and> cr_ChangeData r = jsonb env (NormalizeJSON (op_ChangeData oper))"

definition logged :: "(note_change_row \<Rightarrow> bool) \<Rightarrow> note_change_row list \<Rightarrow> outcome \<Rightarrow> core \<Rightarrow> bool" where
  "logged is_row h out c = (case out of
     Accepted a \<Rightarrow> \<exists>r. history c = h @ [r] \<and> is_row r
   | Rejected _ \<Rightarrow> history c = h)"

definition logs :: "(note_change_row \<Rightarrow> bool) \<Rightarrow> ('s \<times> outcome) call \<Rightarrow> bool" where
  "logs is_row m \<longleftrightarrow>
     (\<forall>h. ctriple (\<lambda>c. history c = h) m (\<lambda>(_, out). logged is_row h out) (\<lambda>_ _. True))"

named_theorems logs_rules "handlers that log their operation"

lemma keeps_ctriple: "keeps p m \<Longrightarrow> ctriple (\<lambda>c. p c = x) m (\<lambda>_ c. p c = x) (\<lambda>_ c. p c = x)"
  by (rule ctripleI) (auto dest: keepsD)

lemma logs_rejected [logs_rules]: "logs is_row (returnM (st, Rejected r))"
  by (auto simp: logs_def logged_def intro!: ctriple_return)

lemma logs_fail [logs_rules]: "logs is_row (failM e)"
  by (auto simp: logs_def intro!: ctriple_fail)

lemma logs_catch [logs_rules]:
  "keeps history m \<Longrightarrow> (\<And>e. logs is_row (g e)) \<Longrightarrow> (\<And>a. logs is_row (f a)) \<Longrightarrow> logs is_row (catchM m g f)"
  unfolding logs_def
proof
  fix h
  assume m: "keeps history m"
    and g: "\<And>e. \<forall>h. ctriple (\<lambda>c. history c = h) (g e) (\<lambda>(_, out). logged is_row h out) (\<lambda>_ _. True)"
    and f: "\<And>a. \<forall>h. ctriple (\<lambda>c. history c = h) (f a) (\<lambda>(_, out). logged is_row h out) (\<lambda>_ _. True)"
  show "ctriple (\<lambda>c. history c = h) (catchM m g f) (\<lambda>(_, out). logged is_row h out) (\<lambda>_ _. True)"
    by (rule ctriple_catch [OF keeps_ctriple [OF m] g [rule_format] f [rule_format]])
qed

lemma logs_bind [logs_rules]: "keeps history m \<Longrightarrow> (\<And>a. logs is_row (f a)) \<Longrightarrow> logs is_row (bindM m f)"
  using logs_catch [of m is_row failM f] by (simp add: bind_catch logs_fail)

lemma logs_if [logs_rules]: "logs is_row m \<Longrightarrow> logs is_row m' \<Longrightarrow> logs is_row (if b then m else m')"
  by simp

lemma logs_option [logs_rules]:
  "logs is_row m \<Longrightarrow> (\<And>a. logs is_row (f a)) \<Longrightarrow> logs is_row (case x of None \<Rightarrow> m | Some a \<Rightarrow> f a)"
  by (cases x) simp_all

lemma logs_sum [logs_rules]:
  "(\<And>e. logs is_row (g e)) \<Longrightarrow> (\<And>a. logs is_row (f a)) \<Longrightarrow>
   logs is_row (case x of Inl e \<Rightarrow> g e | Inr a \<Rightarrow> f a)"
  by (cases x) simp_all

lemma logs_prod [logs_rules]: "(\<And>a b. logs is_row (f a b)) \<Longrightarrow> logs is_row (case x of (a, b) \<Rightarrow> f a b)"
  by (cases x) simp

lemma bind_return: "bindM (returnM a) f = f a"
  by (simp add: fun_eq_iff bindM_def returnM_def)

lemma insertChange_log:
  "ctriple (\<lambda>c. history c = h) (insertChange env owner device oper block v v')
     (\<lambda>_ c. \<exists>r. history c = h @ [r] \<and> log_row env owner device oper r) (\<lambda>_ _. True)"
  unfolding insertChange_def
proof (rule ctriple_bind [where R = "\<lambda>_ c. history c = h"], goal_cases)
  case (2 i)
  show ?case
  proof (cases "ClientOperation_Entity oper i owner device block v v'")
    case (Inr arg)
    have "ctriple (\<lambda>c. history c = h) (InsertNoteChange env arg)
        (\<lambda>_ c. \<exists>r. history c = h @ [r] \<and> log_row env owner device oper r) (\<lambda>_ _. True)"
      unfolding InsertNoteChange_def InsertNoteChange_sql_def Let_def
      by (intro ctriple_bind [where R = "\<lambda>_ c. \<exists>r. history c = h @ [r] \<and> log_row env owner device oper r"]
          ctriple_exec ctriple_return)
        (use Inr in \<open>auto simp: ClientOperation_Entity_def bindE_Inr on_changes_def log_row_def change_row_def
          split: if_splits\<close>)
    then show ?thesis by (simp add: Inr liftM_def bind_return)
  qed (auto simp: ctriple_def triple_def liftM_def failM_def bindM_def)
qed (auto intro: ctriple_newUUID)

lemma logs_accept [logs_rules]:
  "logs (log_row env owner device oper)
     (bindM (acceptOperationChange env owner device n oper block) (\<lambda>out. returnM (st, out)))"
  unfolding logs_def acceptOperationChange_def Let_def
proof
  fix h
  show "ctriple (\<lambda>c. history c = h) (bindM (bindM (insertChange env owner device oper block
      (nt_CurrentVersion n) (int64 (nt_CurrentVersion n + 1))) (\<lambda>change. returnM (Accepted (acceptedFromChange change))))
        (\<lambda>out. returnM (st, out)))
      (\<lambda>(_, out). logged (log_row env owner device oper) h out) (\<lambda>_ _. True)"
    by (intro ctriple_bind [OF ctriple_bind [OF insertChange_log]] ctriple_return
        [where Q = "\<lambda>out. logged (log_row env owner device oper) h out"] ctriple_return)
      (auto simp: logged_def)
qed

lemma logs_category [logs_rules]:
  assumes "keeps history m"
  shows "logs (log_row env owner device oper)
    (with_state st (bindM m (\<lambda>_. acceptCategoryChange env owner device oper)))"
  unfolding logs_def acceptCategoryChange_def with_state_def
proof
  fix h
  show "ctriple (\<lambda>c. history c = h) (bindM (bindM m (\<lambda>_. bindM (insertChange env owner device oper None 0 0)
      (\<lambda>change. returnM (Accepted (acceptedFromChange change))))) (\<lambda>out. returnM (st, out)))
      (\<lambda>(_, out). logged (log_row env owner device oper) h out) (\<lambda>_ _. True)"
    by (intro ctriple_bind [OF ctriple_bind [OF ctriple_weaken [OF keeps_ctriple [OF assms]]
          ctriple_bind [OF insertChange_log]]] ctriple_return
        [where Q = "\<lambda>out. logged (log_row env owner device oper) h out"] ctriple_return)
      (auto simp: logged_def)
qed

lemma with_state_simps:
  "with_state st (returnM out) = returnM (st, out)"
  "with_state st (failM e) = failM e"
  "with_state st (catchM m g f) = catchM m (\<lambda>e. with_state st (g e)) (\<lambda>a. with_state st (f a))"
  "with_state st (case x of Inl e \<Rightarrow> g' e | Inr a \<Rightarrow> f' a) =
     (case x of Inl e \<Rightarrow> with_state st (g' e) | Inr a \<Rightarrow> with_state st (f' a))"
  "with_state st (if b then k else k') = (if b then with_state st k else with_state st k')"
  by (auto simp: with_state_def fun_eq_iff bindM_def catchM_def returnM_def failM_def
      split: prod.split sum.split)

lemma logs_categories [logs_rules]:
  "logs (log_row env owner device oper) (with_state st (createCategory env owner device oper))"
  "logs (log_row env owner device oper) (with_state st (deleteCategory env owner device oper))"
  "logs (log_row env owner device oper) (with_state st (modifyCategory env owner device oper))"
  unfolding createCategory_def deleteCategory_def modifyCategory_def with_state_simps
  by (intro logs_rules keeps_rules)+

lemma logs_withNote [logs_rules]:
  "(\<And>st' n. logs is_row (k st' n)) \<Longrightarrow> logs is_row (withNote env owner st oper k)"
  unfolding withNote_def by (intro logs_rules keeps_rules)

lemma logs_notes [logs_rules]:
  "logs (log_row env owner device oper) (createNote env owner device st oper)"
  "logs (log_row env owner device oper) (deleteNote env owner device st oper)"
  "logs (log_row env owner device oper) (modifyNoteProperty env owner device st oper)"
  "logs (log_row env owner device oper) (modifyNoteTitle env owner device st oper)"
  unfolding createNote_def deleteNote_def modifyNoteProperty_def modifyNoteTitle_def Let_def
  by (intro logs_rules keeps_rules)+

lemma logs_blocks [logs_rules]:
  "logs (log_row env owner device oper) (createBlock env owner device st oper)"
  "logs (log_row env owner device oper) (deleteBlock env owner device st oper)"
  "logs (log_row env owner device oper) (modifyBlock env owner device st oper)"
  unfolding createBlock_def deleteBlock_def modifyBlock_def Let_def
  by (intro logs_rules keeps_rules)+

lemma logs_dispatch:
  "logs (log_row env owner device oper) (dispatchOperation env owner device st oper)"
  unfolding dispatchOperation_def Let_def by (intro logs_rules keeps_rules)

subsection \<open>The loop of a batch\<close>

text \<open>The operations that the device has not sent before; \<open>known\<close> are the identifiers it has sent.\<close>

fun fresh_operations :: "uuid set \<Rightarrow> ClientOperation list \<Rightarrow> ClientOperation list" where
  "fresh_operations known [] = []"
| "fresh_operations known (oper # opers) =
     (if op_OperationID oper \<in> known then fresh_operations known opers
      else oper # fresh_operations (insert (op_OperationID oper) known) opers)"

definition known_operations :: "string \<Rightarrow> note_change_row list \<Rightarrow> uuid set" where
  "known_operations device h = set (map cr_ClientOperationID (filter (\<lambda>r. cr_DeviceID r = device) h))"

lemma known_snoc:
  "log_row env owner device oper r \<Longrightarrow>
   known_operations device (h @ [r]) = insert (op_OperationID oper) (known_operations device h)"
  by (auto simp: known_operations_def log_row_def)

lemma find_row: "find P rows = Some r \<Longrightarrow> r \<in> set rows \<and> P r"
  by (metis find_Some_iff nth_mem)

lemma FindProcessedOperation_known:
  "ctriple (\<lambda>c. history c = h) (FindProcessedOperation env device i)
     (\<lambda>ch c. history c = h \<and> i \<in> known_operations device h)
     (\<lambda>e c. history c = h \<and> (e = ErrNotFound \<longrightarrow> i \<notin> known_operations device h))"
proof -
  let ?row = "find (\<lambda>r. cr_DeviceID r = device \<and> cr_ClientOperationID r = i) h"
  have "ctriple (\<lambda>c. history c = h) (FindProcessedOperation_sql env device i)
      (\<lambda>row c. history c = h \<and> row = ?row) (\<lambda>e c. history c = h \<and> (e = ErrNotFound \<longrightarrow> i \<notin> known_operations device h))"
    unfolding FindProcessedOperation_sql_def by (rule ctriple_query) auto
  moreover have "ctriple (\<lambda>c. history c = h \<and> row = ?row) (bindM (mapNoRows row) (\<lambda>r. returnM (fromDBChange r)))
      (\<lambda>ch c. history c = h \<and> i \<in> known_operations device h)
      (\<lambda>e c. history c = h \<and> (e = ErrNotFound \<longrightarrow> i \<notin> known_operations device h))" for row
    by (rule ctriple_pure_right)
      (auto simp: known_operations_def find_None_iff image_iff dest!: find_row
        intro!: ctriple_bind [where R = "\<lambda>ch c. history c = h \<and> i \<in> known_operations device h"]
          ctriple_mapNoRows ctriple_return)
  ultimately show ?thesis
    unfolding FindProcessedOperation_def by (rule ctriple_bind)
qed

definition batch_log :: "env \<Rightarrow> uuid \<Rightarrow> string \<Rightarrow> ClientOperation list \<Rightarrow> note_change_row list \<Rightarrow>
    note_change_row list \<Rightarrow> bool" where
  "batch_log env owner device opers h h' \<longleftrightarrow> (\<exists>rows. h' = h @ rows
     \<and> list_all2 (log_row env owner device) (fresh_operations (known_operations device h) opers) rows)"

lemma applyOperation_log:
  "ctriple (\<lambda>c. history c = h) (applyOperation env owner device st oper)
     (\<lambda>(_, out, _) c. (\<exists>a. out = Accepted a) \<longrightarrow> batch_log env owner device [oper] h (history c)) (\<lambda>_ _. True)"
  unfolding applyOperation_def
proof (rule ctriple_catch [OF FindProcessedOperation_known], goal_cases)
  case (1 e)
  let ?K = "known_operations device h"
  have fresh: "ctriple (\<lambda>c. history c = h) (bindM (dispatchOperation env owner device st oper) (\<lambda>(st', out).
         returnM (st', out, case out of Accepted _ \<Rightarrow> True | Rejected _ \<Rightarrow> False)))
      (\<lambda>(_, out, _) c. (\<exists>a. out = Accepted a) \<longrightarrow> batch_log env owner device [oper] h (history c)) (\<lambda>_ _. True)"
    if "op_OperationID oper \<notin> ?K"
    by (rule ctriple_bind [OF logs_dispatch [unfolded logs_def, rule_format]])
      (use that in \<open>auto intro!: ctriple_return simp: batch_log_def logged_def split: prod.split outcome.splits\<close>)
  show ?case
    by (rule ctriple_pure_right)
      (auto intro!: ctriple_fail ctriple_return fresh split: sum.split)
next
  case (2 processed)
  show ?case
    by (rule ctriple_pure_right, rule ctriple_bind [where R = "\<lambda>_ c. history c = h"],
        rule ctriple_weaken [OF keeps_ctriple])
      (auto intro!: keeps_rules ctriple_return simp: batch_log_def)
qed

lemma batch_log_append:
  assumes "batch_log env owner device [oper] h h1" "batch_log env owner device opers h1 h2"
  shows "batch_log env owner device (oper # opers) h h2"
proof -
  obtain rows where rows: "h2 = h1 @ rows"
      "list_all2 (log_row env owner device) (fresh_operations (known_operations device h1) opers) rows"
    using assms(2) by (auto simp: batch_log_def)
  show ?thesis
  proof (cases "op_OperationID oper \<in> known_operations device h")
    case True
    with assms(1) rows show ?thesis by (auto simp: batch_log_def)
  next
    case False
    with assms(1) obtain r where "h1 = h @ [r]" "log_row env owner device oper r"
      by (auto simp: batch_log_def list_all2_Cons1)
    with rows False show ?thesis by (auto simp: batch_log_def known_snoc intro!: exI [of _ "r # rows"])
  qed
qed

lemma applyOperations_log:
  "ctriple (\<lambda>c. history c = h) (applyOperations env owner device opers st ch lt)
     (\<lambda>_ c. batch_log env owner device opers h (history c)) (\<lambda>_ _. True)"
proof (induction opers arbitrary: st ch lt h)
  case Nil
  then show ?case by (auto intro!: ctriple_return simp: batch_log_def)
next
  case (Cons oper opers)
  have "ctriple (\<lambda>c. (\<exists>a. out = Accepted a) \<longrightarrow> batch_log env owner device [oper] h (history c))
      (case out of Rejected r \<Rightarrow> failM (ErrBatchRejected r)
       | Accepted a \<Rightarrow> applyOperations env owner device opers st' (ch \<or> flag)
           (if flag \<and> ac_GlobalSequence a > lt then ac_GlobalSequence a else lt))
      (\<lambda>_ c. batch_log env owner device (oper # opers) h (history c)) (\<lambda>_ _. True)" for st' out flag
  proof (cases out)
    case (Accepted a)
    show ?thesis
      unfolding Accepted outcome.case
    proof (rule ctriple_ghost)
      fix c1 assume "(\<exists>a'. Accepted a = Accepted a') \<longrightarrow> batch_log env owner device [oper] h (history c1)"
      then show "ctriple (\<lambda>c. c = c1) (applyOperations env owner device opers st' (ch \<or> flag)
           (if flag \<and> ac_GlobalSequence a > lt then ac_GlobalSequence a else lt))
          (\<lambda>_ c. batch_log env owner device (oper # opers) h (history c)) (\<lambda>_ _. True)"
        by (intro ctriple_weaken [OF Cons.IH [of "history c1"]]) (auto intro: batch_log_append)
    qed
  qed (auto intro!: ctriple_fail)
  then show ?case
    unfolding applyOperations.simps
    by (intro ctriple_bind [OF applyOperation_log]) (auto split: prod.split)
qed

end
