(* ===== verification/Sync_Guard.thy ===== *)
theory Sync_Guard
  imports Sync_Log
begin

section \<open>Optimistic concurrency: an accepted operation saw the current version\<close>

text \<open>
  An operation on a note is accepted only if its \<open>baseNoteVersion\<close> is the version the note has on
  the server when the batch starts (\<open>0\<close> for a note that does not exist yet). Since the accepted
  batch raises the version, of two devices that edit the same version only the first is accepted.
\<close>

definition guarded :: "uuid \<Rightarrow> core \<Rightarrow> ClientOperation \<Rightarrow> bool" where
  "guarded nid c0 oper \<longleftrightarrow> (nid \<noteq> Nil_uuid \<longrightarrow> op_BaseNoteVersion oper = version_at c0 nid)"

definition guard_post :: "uuid \<Rightarrow> core \<Rightarrow> ClientOperation \<Rightarrow> 's \<times> outcome \<Rightarrow> core \<Rightarrow> bool" where
  "guard_post nid c0 oper = (\<lambda>(_, out) _. (\<exists>a. out = Accepted a) \<longrightarrow> guarded nid c0 oper)"

lemma guard_any: "guarded nid c0 oper \<Longrightarrow> ctriple P m (guard_post nid c0 oper) (\<lambda>_ _. True)"
  by (rule ctripleI) (auto simp: guard_post_def)

lemma guard_pre: "ctriple (\<lambda>_. guarded nid c0 oper) m (guard_post nid c0 oper) (\<lambda>_ _. True)"
  by (rule ctripleI) (auto simp: guard_post_def)

lemma guard_rejected: "ctriple P (returnM (st, Rejected r)) (guard_post nid c0 oper) (\<lambda>_ _. True)"
  by (auto intro!: ctriple_return simp: guard_post_def)

lemma inv_version:
  assumes "batch_inv owner device nid c0 st ch lt c" "st_note st = Some n"
  shows "nt_CurrentVersion n = version_at c0 nid"
  using assms by (auto simp: batch_inv_def batch_state_def linked_note_def batch_notes_def version_at_def
      split: option.splits)

lemma guard_withNote:
  assumes "op_NoteID oper = nid"
  shows "ctriple (batch_inv owner device nid c0 st ch lt) (withNote env owner st oper k)
    (guard_post nid c0 oper) (\<lambda>_ _. True)"
  unfolding withNote_def
proof (rule ctriple_bind)
  show "ctriple (batch_inv owner device nid c0 st ch lt) (existingNote env owner st oper)
      (\<lambda>(st', rejected) c. batch_inv owner device nid c0 st' ch lt c \<and> (rejected = None \<longrightarrow>
         (\<exists>n. st_note st' = Some n \<and> nt_CurrentVersion n = op_BaseNoteVersion oper))) (\<lambda>_ _. True)"
    by (rule ctriple_weaken [OF existingNote_triple [OF assms]]) auto
  have ok: "ctriple (\<lambda>c. c = c1) (case st_note st' of None \<Rightarrow> failM ErrPanic | Some n \<Rightarrow> k st' n)
      (guard_post nid c0 oper) (\<lambda>_ _. True)"
    if inv: "batch_inv owner device nid c0 st' ch lt c1"
      and n: "st_note st' = Some n" "nt_CurrentVersion n = op_BaseNoteVersion oper" for c1 st' n
    using n inv_version [OF inv n(1)] by (auto intro!: guard_any simp: guarded_def)
  show "ctriple ((\<lambda>(st', rejected) c. batch_inv owner device nid c0 st' ch lt c \<and> (rejected = None \<longrightarrow>
         (\<exists>n. st_note st' = Some n \<and> nt_CurrentVersion n = op_BaseNoteVersion oper))) res)
      ((\<lambda>(st', rejected). case rejected of Some r \<Rightarrow> returnM (st', Rejected r)
         | None \<Rightarrow> (case st_note st' of None \<Rightarrow> failM ErrPanic | Some n \<Rightarrow> k st' n)) res)
      (guard_post nid c0 oper) (\<lambda>_ _. True)" for res
  proof (cases res)
    case (Pair st' rejected)
    show ?thesis
    proof (cases rejected)
      case None
      show ?thesis unfolding Pair None prod.case option.case by (rule ctriple_ghost) (use ok in blast)
    qed (simp add: Pair guard_rejected)
  qed
qed

lemma guard_createNote:
  assumes nid: "op_NoteID oper = nid"
  shows "ctriple (batch_inv owner device nid c0 st ch lt) (createNote env owner device st oper)
    (guard_post nid c0 oper) (\<lambda>_ _. True)"
proof (cases "op_BaseNoteVersion oper = 0")
  case False
  then show ?thesis by (simp add: createNote_def guard_rejected)
next
  case base: True
  have none: "version_at c0 nid = 0" if "batch_inv owner device nid c0 st ch lt c" "note_at c nid = None" for c
  proof -
    have "note_step owner (note_at c0 nid) (note_at c nid)"
      using that(1) by (simp add: batch_inv_def sync_rel_def sync_step_def)
    with that(2) show ?thesis by (simp add: note_step_def version_at_def split: option.splits)
  qed
  have new: "ctriple (batch_inv owner device nid c0 st ch lt) (CreateNote env n)
      (\<lambda>_ _. guarded nid c0 oper) (\<lambda>_ _. True)" if "nt_ID n = nid" for n
    unfolding CreateNote_def CreateNote_sql_def
    by (rule ctriple_exec) (use that none base in \<open>auto simp: guarded_def split: if_splits\<close>)
  have "ctriple (batch_inv owner device nid c0 st ch lt) (catchM (CreateNote env (nd_Note document))
      (\<lambda>err. if IsUniqueViolation err then returnM (st, Rejected (RejectedConflict oper 0)) else failM err) f)
      (guard_post nid c0 oper) (\<lambda>_ _. True)"
    if "bindE (NoteModel_FromRequest (e_codec env) oper owner) (NoteModel_Entity (e_codec env)) = Inr document" for document f
    by (rule ctriple_catch [OF new])
      (use createNote_document [OF that] nid in \<open>auto intro!: guard_rejected ctriple_fail guard_pre\<close>)
  then show ?thesis
    unfolding createNote_def using base
    by (auto intro!: guard_rejected split: option.split sum.split)
qed

lemma guard_deleteNote:
  assumes nid: "op_NoteID oper = nid"
  shows "ctriple (batch_inv owner device nid c0 st ch lt) (deleteNote env owner device st oper)
    (guard_post nid c0 oper) (\<lambda>_ _. True)"
  unfolding deleteNote_def nid
proof (rule ctriple_catch [where R = "\<lambda>_ _. guarded nid c0 oper" and F = "\<lambda>_ _. True"], goal_cases)
  case 1
  have row: "guarded nid c0 oper"
    if inv: "batch_inv owner device nid c0 st ch lt c"
      and found: "find (note_at_version nid owner (op_BaseNoteVersion oper)) (t_notes (c_db c)) = Some n" for c n
  proof -
    have "n \<in> set (t_notes (c_db c))" "nt_ID n = nid" "nt_CurrentVersion n = op_BaseNoteVersion oper"
      using find_row [OF found] by (auto simp: note_at_version_def note_owned_def)
    moreover have "distinct (map nt_ID (t_notes (c_db c)))"
      using batch_inv_ok [OF inv] by (simp add: db_ok_def notes_ok_def)
    ultimately have "note_at c nid = Some n" using lookup_distinct by fastforce
    with inv \<open>nt_CurrentVersion n = _\<close> show ?thesis
      by (auto simp: batch_inv_def batch_notes_def guarded_def version_at_def)
  qed
  have "ctriple (batch_inv owner device nid c0 st ch lt) (DeleteNote_sql env nid owner (op_BaseNoteVersion oper))
      (\<lambda>r _. r = None \<or> guarded nid c0 oper) (\<lambda>_ _. True)"
    unfolding DeleteNote_sql_def Let_def
  proof (rule ctriple_exec, goal_cases)
    case (1 now c r c')
    then show ?case
      using row [OF 1(1)]
      by (cases "find (note_at_version nid owner (op_BaseNoteVersion oper)) (t_notes (c_db c))")
        (auto simp: update_returning_def)
  qed auto
  moreover have "ctriple (\<lambda>_. r = None \<or> guarded nid c0 oper) (bindM (mapNoRows r) (\<lambda>n. returnM (fromDBNote n)))
      (\<lambda>_ _. guarded nid c0 oper) (\<lambda>_ _. True)" for r
    by (cases r) (auto simp: mapNoRows_def bind_return intro!: ctriple_return ctripleI simp: bindM_def failM_def)
  ultimately show ?case unfolding DeleteNote_def by (rule ctriple_bind)
next
  case (2 err)
  show ?case
    by (intro triple_if_ctriple ctriple_fail guard_rejected
        ctriple_catch [where R = "\<lambda>_ _. True" and F = "\<lambda>_ _. True"]) (auto intro: ctripleI)
next
  case (3 deleted)
  show ?case by (rule guard_pre)
qed

lemma guard_dispatch:
  assumes nid: "op_NoteID oper = nid" and valid: "ClientOperation_Validate oper = Inr ()"
  shows "ctriple (batch_inv owner device nid c0 st ch lt) (dispatchOperation env owner device st oper)
    (guard_post nid c0 oper) (\<lambda>_ _. True)"
proof -
  have "ctriple (batch_inv owner device nid c0 st ch lt) m (guard_post nid c0 oper) (\<lambda>_ _. True)"
    if "op_OperationType oper \<in> {OperationCreateCategory, OperationDeleteCategory, OperationModifyCategory}"
    for m :: "(noteBatchState \<times> outcome) call"
    by (rule guard_any) (use Validate_category [OF valid] that nid in \<open>simp add: category_operation_def guarded_def\<close>)
  then show ?thesis
    unfolding dispatchOperation_def modifyNoteProperty_def modifyNoteTitle_def createBlock_def deleteBlock_def
      modifyBlock_def Let_def
    by (auto intro!: guard_createNote [OF nid] guard_deleteNote [OF nid] guard_withNote [OF nid] guard_rejected
        split: sum.split)
qed

lemma guard_applyOperation:
  assumes nid: "op_NoteID oper = nid"
  shows "ctriple (\<lambda>c. batch_inv owner device nid c0 st ch lt c \<and> history c = h)
    (applyOperation env owner device st oper)
    (\<lambda>(_, out, _) _. (\<exists>a. out = Accepted a) \<and> op_OperationID oper \<notin> known_operations device h \<longrightarrow>
       guarded nid c0 oper) (\<lambda>_ _. True)"
  unfolding applyOperation_def
proof (rule ctriple_catch [where R = "\<lambda>_ _. op_OperationID oper \<in> known_operations device h"
      and F = "\<lambda>_. batch_inv owner device nid c0 st ch lt"], goal_cases)
  case 1
  show ?case
    by (rule ctriple_weaken [OF ctriple_conjI [OF reads_triple [OF reads_FindProcessedOperation, where
          P = "\<lambda>c. batch_inv owner device nid c0 st ch lt c \<and> history c = h"]
          ctriple_pre [OF FindProcessedOperation_known [where h = h]]]]) auto
next
  case (2 e)
  have "ctriple (batch_inv owner device nid c0 st ch lt)
      (bindM (dispatchOperation env owner device st oper) (\<lambda>(st', out).
         returnM (st', out, case out of Accepted _ \<Rightarrow> True | Rejected _ \<Rightarrow> False)))
      (\<lambda>(_, out, _) _. (\<exists>a. out = Accepted a) \<and> op_OperationID oper \<notin> known_operations device h \<longrightarrow>
       guarded nid c0 oper) (\<lambda>_ _. True)" if "Operation_FromRequest oper = Inr u" for u
  proof (rule ctriple_bind [OF guard_dispatch [OF nid]])
    show "ClientOperation_Validate oper = Inr ()"
      using that by (auto simp: Operation_FromRequest_def bindE_Inr)
  qed (auto intro!: ctriple_return simp: guard_post_def split: prod.split)
  then show ?case by (auto intro!: ctriple_fail ctriple_return split: sum.split)
next
  case (3 processed)
  show ?case by (rule ctripleI) (auto simp: bindM_def returnM_def split: prod.splits sum.splits)
qed

text \<open>All the operations of a batch that the device had not sent before.\<close>

lemma guard_applyOperations:
  assumes "\<And>oper. oper \<in> set opers \<Longrightarrow> op_NoteID oper = nid"
  shows "ctriple (\<lambda>c. batch_inv owner device nid c0 st ch lt c \<and> history c = h)
    (applyOperations env owner device opers st ch lt)
    (\<lambda>_ _. list_all (guarded nid c0) (fresh_operations (known_operations device h) opers)) (\<lambda>_ _. True)"
  using assms
proof (induction opers arbitrary: st ch lt h)
  case Nil
  show ?case by (auto intro!: ctriple_return)
next
  case (Cons oper opers)
  let ?K = "known_operations device"
  have nid: "op_NoteID oper = nid" using Cons.prems by simp
  note IH = Cons.IH [OF Cons.prems [OF list.set_intros(2)]]
  define mid where "mid = (\<lambda>(st', out, flag) c. step_post owner device nid c0 ch lt (st', out, flag) c
      \<and> ((\<exists>a. out = Accepted a) \<longrightarrow> batch_log env owner device [oper] h (history c))
      \<and> ((\<exists>a. out = Accepted a) \<and> op_OperationID oper \<notin> ?K h \<longrightarrow> guarded nid c0 oper))"
  have "ctriple (\<lambda>c. batch_inv owner device nid c0 st ch lt c \<and> history c = h)
      (applyOperation env owner device st oper) mid (\<lambda>_ _. True)"
    by (rule ctriple_weaken [OF ctriple_conjI [OF ctriple_pre [OF applyOperation_triple [OF nid]]
          ctriple_conjI [OF ctriple_pre [OF applyOperation_log] guard_applyOperation [OF nid]]]])
      (auto simp: mid_def)
  moreover have "ctriple (mid (st', out, flag))
      (case out of Rejected r \<Rightarrow> failM (ErrBatchRejected r)
       | Accepted a \<Rightarrow> applyOperations env owner device opers st' (ch \<or> flag)
           (if flag \<and> ac_GlobalSequence a > lt then ac_GlobalSequence a else lt))
      (\<lambda>_ _. list_all (guarded nid c0) (fresh_operations (?K h) (oper # opers))) (\<lambda>_ _. True)"
    for st' out flag
  proof (cases out)
    case (Accepted a)
    show ?thesis
      unfolding Accepted outcome.case
    proof (rule ctriple_ghost)
      fix c1 assume m: "mid (st', Accepted a, flag) c1"
      have known: "?K (history c1) = insert (op_OperationID oper) (?K h)"
        using m by (auto simp: mid_def batch_log_def list_all2_Cons1 known_snoc [of env owner] split: if_splits)
      have inv: "batch_inv owner device nid c0 st' (ch \<or> flag)
          (if flag \<and> ac_GlobalSequence a > lt then ac_GlobalSequence a else lt) c1"
        using m by (auto simp: mid_def step_post_def split: if_splits)
      have "op_OperationID oper \<notin> ?K h \<Longrightarrow> guarded nid c0 oper" using m by (simp add: mid_def)
      then have "list_all (guarded nid c0) (fresh_operations (?K h) (oper # opers))"
        if "list_all (guarded nid c0) (fresh_operations (?K (history c1)) opers)"
        using that by (auto simp: known insert_absorb)
      then show "ctriple (\<lambda>c. c = c1) (applyOperations env owner device opers st' (ch \<or> flag)
           (if flag \<and> ac_GlobalSequence a > lt then ac_GlobalSequence a else lt))
          (\<lambda>_ _. list_all (guarded nid c0) (fresh_operations (?K h) (oper # opers))) (\<lambda>_ _. True)"
        by (rule ctriple_weaken [OF IH [of st' _ _ "history c1"], rotated 2]) (use inv in auto)
    qed
  qed (auto intro!: ctriple_fail)
  ultimately show ?case
    unfolding applyOperations.simps
    by (intro ctriple_bind [where R = mid]) (auto split: prod.split)
qed

end
