(* ===== verification/Sync_Push.thy ===== *)
theory Sync_Push
  imports Sync_Guard
begin

section \<open>A push, from the batch to the request\<close>

text \<open>
  \<open>batch_done\<close> says what one batch has done when its outcome is known: an accepted batch has
  logged the operations the device had not sent before, raised the version of its note by one
  (if there were any) and touched no other note; a rejected batch has changed no table.
  \<open>push_run\<close> is the specification of a request: its batches, done one after the other.
  The push of the source, with its savepoints and its transaction, is shown to implement it:
  the response it returns is the one of a \<open>push_run\<close>, whatever statements failed on the way.
\<close>

subsection \<open>The calls of a batch stay in their transaction\<close>

lemma stable_lookups [stable_rules]:
  "tx_stable (FindProcessedOperation env device i)" "tx_stable (GetNoteForOwnerForUpdate env i owner)"
  "tx_stable (GetBlockForNoteForUpdate env i nid)" "tx_stable (LockCategoryForOwner env i owner)"
  "tx_stable (ListBlocksForNote env i)" "tx_stable (GetLastAppliedCursorForNote env i)"
  "tx_stable (CountChangesSinceLastSnapshot env i)" "tx_stable (SumChangeBytesSinceLastSnapshot env i)"
  "tx_stable (GetNoteDocumentForOwnerForUpdate env i owner)"
  "tx_stable (GetDeviceForOwnerForUpdate env device owner)"
  unfolding FindProcessedOperation_def FindProcessedOperation_sql_def GetNoteForOwnerForUpdate_def
    GetNoteForOwnerForUpdate_sql_def GetBlockForNoteForUpdate_def GetBlockForNoteForUpdate_sql_def
    LockCategoryForOwner_def GetCategoryForOwnerForUpdate_sql_def ListBlocksForNote_def
    ListBlocksForNote_sql_def GetLastAppliedCursorForNote_def GetLastAppliedCursorForNote_sql_def
    CountChangesSinceLastSnapshot_def CountChangesSinceLastSnapshot_sql_def
    SumChangeBytesSinceLastSnapshot_def SumChangeBytesSinceLastSnapshot_sql_def
    GetNoteDocumentForOwnerForUpdate_def GetDeviceForOwnerForUpdate_def GetDeviceForOwnerForUpdate_sql_def
  by (intro stable_rules)+

lemma stable_writes [stable_rules]:
  "tx_stable (CreateNote env n)" "tx_stable (UpdateNoteState env n)" "tx_stable (DeleteNote env i owner v)"
  "tx_stable (CreateBlock env b)" "tx_stable (UpdateBlockState env b)" "tx_stable (DeleteBlock env i nid)"
  "tx_stable (CreateCategory env i owner name)" "tx_stable (UpdateCategory env i owner name)"
  "tx_stable (DeleteCategory env i owner)" "tx_stable (EnqueueSnapshotJob env i owner v)"
  "tx_stable (InsertNoteChange env arg)"
  unfolding CreateNote_def CreateNote_sql_def UpdateNoteState_def UpdateNoteState_sql_def
    DeleteNote_def DeleteNote_sql_def CreateBlock_def CreateBlock_sql_def UpdateBlockState_def
    UpdateBlockState_sql_def DeleteBlock_def DeleteBlock_sql_def CreateCategory_def
    CreateCategory_sql_def UpdateCategory_def UpdateCategory_sql_def DeleteCategory_def
    DeleteCategory_sql_def EnqueueSnapshotJob_def EnqueueOutboxJob_sql_def InsertNoteChange_def
    InsertNoteChange_sql_def
  by (intro stable_rules)+

lemma stable_state [stable_rules]:
  "tx_stable (ensureNote env owner i st)" "tx_stable (ensureBlock env nid i st)"
  "tx_stable (existingNote env owner st oper)"
  "tx_stable (insertChange env owner device oper block v v')"
  "tx_stable (acceptOperationChange env owner device n oper block)"
  "tx_stable (acceptCategoryChange env owner device oper)"
  unfolding existingNote_def ensureNote_def ensureBlock_def insertChange_def acceptOperationChange_def
    acceptCategoryChange_def Let_def
  by (intro stable_rules)+

lemma stable_createBlocks [stable_rules]: "tx_stable (createBlocks env oper bs st)"
  by (induction bs arbitrary: st) (simp_all add: stable_rules)

lemma stable_withNote [stable_rules]:
  "(\<And>st' n. tx_stable (k st' n)) \<Longrightarrow> tx_stable (withNote env owner st oper k)"
  unfolding withNote_def by (intro stable_rules)

lemma stable_handlers [stable_rules]:
  "tx_stable (createCategory env owner device oper)" "tx_stable (deleteCategory env owner device oper)"
  "tx_stable (modifyCategory env owner device oper)" "tx_stable (createNote env owner device st oper)"
  "tx_stable (deleteNote env owner device st oper)" "tx_stable (modifyNoteProperty env owner device st oper)"
  "tx_stable (modifyNoteTitle env owner device st oper)" "tx_stable (createBlock env owner device st oper)"
  "tx_stable (deleteBlock env owner device st oper)" "tx_stable (modifyBlock env owner device st oper)"
  unfolding createCategory_def deleteCategory_def modifyCategory_def createNote_def deleteNote_def
    modifyNoteProperty_def modifyNoteTitle_def createBlock_def deleteBlock_def modifyBlock_def Let_def
  by (intro stable_rules)+

lemma stable_applyOperation [stable_rules]: "tx_stable (applyOperation env owner device st oper)"
  unfolding applyOperation_def dispatchOperation_def with_state_def Let_def by (intro stable_rules)

lemma stable_outcome [stable_rules]:
  "(\<And>a. tx_stable (f a)) \<Longrightarrow> (\<And>r. tx_stable (g r)) \<Longrightarrow>
   tx_stable (case out of Accepted a \<Rightarrow> f a | Rejected r \<Rightarrow> g r)"
  by (cases out) simp_all

lemma stable_applyOperations [stable_rules]: "tx_stable (applyOperations env owner device opers st ch lt)"
  by (induction opers arbitrary: st ch lt) (simp_all add: stable_rules)

lemma stable_persistBatch [stable_rules]: "tx_stable (persistBatch env sv owner st ch)"
  unfolding persistBatch_def updateDirtyBlocks_def enqueueSnapshotIfNeeded_def Let_def
  by (intro stable_rules)

lemma stable_loadRejection [stable_rules]: "tx_stable (loadRejectionDocument env i owner)"
  unfolding loadRejectionDocument_def by (intro stable_rules)

lemma stable_error [stable_rules]:
  "(\<And>r. tx_stable (f r)) \<Longrightarrow> tx_stable (case err of ErrBatchRejected r \<Rightarrow> f r | _ \<Rightarrow> failM err)"
  by (cases err) (simp_all add: stable_rules)

lemma stable_list [stable_rules]:
  "tx_stable m \<Longrightarrow> (\<And>a as. tx_stable (f a as)) \<Longrightarrow> tx_stable (case xs of [] \<Rightarrow> m | a # as \<Rightarrow> f a as)"
  by (cases xs) simp_all

lemma stable_applyOperationBatch [stable_rules]: "tx_stable (applyOperationBatch env sv owner device opers)"
  unfolding applyOperationBatch_def by (intro stable_rules)

lemma stable_pushBatches [stable_rules]: "tx_stable (pushBatches env sv owner device opers resp cur)"
proof (induction env sv owner device opers resp cur rule: pushBatches.induct)
  case (2 env sv owner device oper opers resp cur)
  then show ?case
    unfolding pushBatches.simps Let_def by (intro stable_rules) auto
qed (simp add: stable_rules)

subsection \<open>A replayed batch\<close>

lemma applyOperations_idle:
  "ctriple (\<lambda>c. c = c0 \<or> ch) (applyOperations env owner device opers st ch lt)
     (\<lambda>(_, ch', _) c. c = c0 \<or> ch') (\<lambda>_ _. True)"
proof (induction opers arbitrary: st ch lt)
  case Nil
  show ?case by (auto intro!: ctriple_return)
next
  case (Cons oper opers)
  have "ctriple (\<lambda>c. c = c0 \<or> ch) (applyOperation env owner device st oper)
      (\<lambda>(_, out, flag) c. c = c0 \<or> ch \<or> flag \<or> (\<exists>r. out = Rejected r)) (\<lambda>_ _. True)"
    unfolding applyOperation_def
  proof (rule ctriple_catch [OF reads_triple [OF reads_FindProcessedOperation]], goal_cases)
    case (1 e)
    have any: "ctriple P (bindM (dispatchOperation env owner device st oper) (\<lambda>(st', out).
         returnM (st', out, case out of Accepted _ \<Rightarrow> True | Rejected _ \<Rightarrow> False)))
        (\<lambda>(_, out, flag) c. c = c0 \<or> ch \<or> flag \<or> (\<exists>r. out = Rejected r)) (\<lambda>_ _. True)" for P
      by (rule ctriple_bind [where R = "\<lambda>_ _. True"], rule ctripleI)
        (auto intro!: ctriple_return split: prod.split outcome.split)
    show ?case by (auto intro!: any ctriple_fail ctriple_return split: sum.split)
  next
    case (2 processed)
    have "reads_in read_errors (if op_NoteID oper \<noteq> Nil_uuid then ensureNote env owner (op_NoteID oper) st
        else returnM st)"
      unfolding ensureNote_def
      by (intro reads_if reads_return reads_catch [OF reads_GetNoteForOwnerForUpdate] reads_fail) auto
    then show ?case
      by (intro ctriple_bind [OF ctriple_weaken [OF reads_triple]] ctriple_return) auto
  qed
  moreover have "ctriple (\<lambda>c. c = c0 \<or> ch \<or> flag \<or> (\<exists>r. out = Rejected r))
      (case out of Rejected r \<Rightarrow> failM (ErrBatchRejected r)
       | Accepted a \<Rightarrow> applyOperations env owner device opers st' (ch \<or> flag)
           (if flag \<and> ac_GlobalSequence a > lt then ac_GlobalSequence a else lt))
      (\<lambda>(_, ch', _) c. c = c0 \<or> ch') (\<lambda>_ _. True)" for st' out flag
    by (cases out) (auto intro: ctriple_fail ctriple_pre [OF Cons.IH])
  ultimately show ?case
    unfolding applyOperations.simps
    by (intro ctriple_bind [where R = "\<lambda>(_, out, flag) c. c = c0 \<or> ch \<or> flag \<or> (\<exists>r. out = Rejected r)"])
      (auto split: prod.split)
qed

subsection \<open>One batch\<close>

definition accepted_rows :: "env \<Rightarrow> uuid \<Rightarrow> string \<Rightarrow> ClientOperation list \<Rightarrow> core \<Rightarrow>
    note_change_row list \<Rightarrow> bool" where
  "accepted_rows env owner device opers c0 rows \<longleftrightarrow>
     (let fresh = fresh_operations (known_operations device (history c0)) opers in
      list_all2 (log_row env owner device) fresh rows
      \<and> list_all (guarded (op_NoteID (hd opers)) c0) fresh
      \<and> list_all (bump_row c0 (op_NoteID (hd opers))) rows)"

definition batch_done :: "env \<Rightarrow> uuid \<Rightarrow> string \<Rightarrow> core \<Rightarrow> ClientOperation list \<Rightarrow> outcome \<Rightarrow> core \<Rightarrow> bool" where
  "batch_done env owner device c0 opers out c \<longleftrightarrow> (let nid = op_NoteID (hd opers) in case out of
     Accepted a \<Rightarrow> ac_NoteID a = nid
       \<and> (\<exists>rows. history c = history c0 @ rows \<and> accepted_rows env owner device opers c0 rows
            \<and> ac_GlobalSequence a = (if rows = [] then 0 else cr_seq (last rows))
            \<and> version_at c nid = version_at c0 nid + (if rows = [] \<or> nid = Nil_uuid then 0 else 1)
            \<and> (rows = [] \<longrightarrow> c = c0)
            \<and> (rows \<noteq> [] \<longrightarrow> ac_ServerNoteVersion a = version_at c nid))
       \<and> (\<forall>i. i \<noteq> nid \<longrightarrow> note_at c i = note_at c0 i)
   | Rejected r \<Rightarrow> rj_NoteID r = nid \<and> c_db c = c_db c0)"

lemma batch_effect_done:
  assumes eff: "batch_effect owner device nid c0 ch lt final c"
    and log: "batch_log env owner device opers (history c0) (history c)"
    and guard: "list_all (guarded nid c0) (fresh_operations (known_operations device (history c0)) opers)"
    and idle: "c = c0 \<or> ch" and nid: "op_NoteID (hd opers) = nid" and ok: "db_ok c0"
  shows "batch_done env owner device c0 opers (Accepted \<lparr>ac_NoteID = nid,
     ac_ServerNoteVersion = (case final of None \<Rightarrow> 0 | Some n \<Rightarrow> nt_CurrentVersion n),
     ac_GlobalSequence = lt\<rparr>) c"
proof -
  obtain rows where rows: "history c = history c0 @ rows" "ch \<longleftrightarrow> rows \<noteq> []"
      "lt = (if rows = [] then 0 else cr_seq (last rows))" "list_all (bump_row c0 nid) rows"
      "version_at c nid = (if nid \<noteq> Nil_uuid \<and> rows \<noteq> [] then version_at c0 nid + 1 else version_at c0 nid)"
    using eff by (auto simp: batch_effect_def)
  have "db_ok c" using eff ok by (simp add: batch_effect_def sync_rel_def)
  then have nil: "version_at c Nil_uuid = 0" by (simp add: db_ok_def notes_ok_def version_at_def)
  have fin: "(case final of None \<Rightarrow> 0 | Some n \<Rightarrow> nt_CurrentVersion n) = version_at c nid" if "rows \<noteq> []"
    using eff that rows(2) nil by (auto simp: batch_effect_def split: option.split)
  have acc: "accepted_rows env owner device opers c0 rows"
    using log guard rows(1,4) nid by (auto simp: batch_log_def accepted_rows_def Let_def)
  have "\<forall>i. i \<noteq> nid \<longrightarrow> note_at c i = note_at c0 i" using eff by (simp add: batch_effect_def)
  with rows acc fin idle nid show ?thesis by (auto simp: batch_done_def Let_def)
qed

lemma batch_effect_rel: "batch_effect owner device nid c0 ch lt final c \<Longrightarrow> sync_rel owner device c0 c"
  by (simp add: batch_effect_def)

lemma batch_inv_start:
  assumes "db_ok c0" "owns_device owner c0 device"
  shows "batch_inv owner device nid c0 newNoteBatchState False 0 c0"
  using assms by (auto simp: batch_inv_def push.R_refl batch_history_def batch_notes_def batch_state_def
      newNoteBatchState_def split: option.split)

text \<open>The state after the loop inside the savepoint.\<close>

definition loop_post :: "env \<Rightarrow> uuid \<Rightarrow> string \<Rightarrow> uuid \<Rightarrow> ClientOperation list \<Rightarrow> core \<Rightarrow>
    noteBatchState \<times> bool \<times> int \<Rightarrow> core \<Rightarrow> bool" where
  "loop_post env owner device nid opers c0 = (\<lambda>(st, ch, lt) c. batch_inv owner device nid c0 st ch lt c
     \<and> batch_log env owner device opers (history c0) (history c) \<and> (c = c0 \<or> ch)
     \<and> list_all (guarded nid c0) (fresh_operations (known_operations device (history c0)) opers))"

lemma loop_triple:
  assumes "db_ok c0" "owns_device owner c0 device" "\<And>oper. oper \<in> set opers \<Longrightarrow> op_NoteID oper = nid"
  shows "ctriple (\<lambda>c. c = c0) (applyOperations env owner device opers newNoteBatchState False 0)
    (loop_post env owner device nid opers c0) (\<lambda>e c. sync_rel owner device c0 c \<and> e \<noteq> ErrPanic)"
proof -
  let ?loop = "applyOperations env owner device opers newNoteBatchState False 0"
  have "ctriple (\<lambda>c. c = c0) ?loop (\<lambda>(st, ch, lt) c. batch_inv owner device nid c0 st ch lt c)
      (\<lambda>e c. sync_rel owner device c0 c \<and> e \<noteq> ErrPanic)"
    by (rule ctriple_pre [OF applyOperations_triple [OF assms(3)]]) (simp_all add: batch_inv_start [OF assms(1,2)])
  moreover have "ctriple (\<lambda>c. c = c0) ?loop (\<lambda>_ c. batch_log env owner device opers (history c0) (history c))
      (\<lambda>_ _. True)"
    by (rule ctriple_pre [OF applyOperations_log]) simp
  moreover have "ctriple (\<lambda>c. c = c0) ?loop (\<lambda>(_, ch, _) c. c = c0 \<or> ch) (\<lambda>_ _. True)"
    by (rule ctriple_pre [OF applyOperations_idle]) simp
  moreover have "ctriple (\<lambda>c. c = c0) ?loop (\<lambda>_ _. list_all (guarded nid c0)
      (fresh_operations (known_operations device (history c0)) opers)) (\<lambda>_ _. True)"
    by (rule ctriple_pre [OF guard_applyOperations [OF assms(3)]]) (simp_all add: batch_inv_start [OF assms(1,2)])
  ultimately show ?thesis
    by (rule ctriple_weaken [OF ctriple_conjI [OF _ ctriple_conjI [OF _ ctriple_conjI]]]) (auto simp: loop_post_def)
qed

lemma persist_done:
  assumes nid: "op_NoteID (hd opers) = nid"
  shows "ctriple (loop_post env owner device nid opers c0 (st, ch, lt))
    (bindM (persistBatch env sv owner st ch) (\<lambda>note. returnM (Some (Accepted \<lparr>ac_NoteID = nid,
       ac_ServerNoteVersion = (case note of None \<Rightarrow> 0 | Some n \<Rightarrow> nt_CurrentVersion n), ac_GlobalSequence = lt\<rparr>))))
    (\<lambda>out c. sync_rel owner device c0 c \<and> (\<exists>o'. out = Some o' \<and> batch_done env owner device c0 opers o' c))
    (batch_err owner device c0)"
proof (rule ctriple_bind)
  let ?log = "\<lambda>c. batch_log env owner device opers (history c0) (history c)
      \<and> list_all (guarded nid c0) (fresh_operations (known_operations device (history c0)) opers)"
  have idle: "ctriple (\<lambda>c. c = c0 \<or> ch) (persistBatch env sv owner st ch) (\<lambda>_ c. c = c0 \<or> ch) (\<lambda>_ _. True)"
  proof (cases ch)
    case True
    then show ?thesis by (intro ctripleI) auto
  next
    case False
    then show ?thesis
      by (auto simp: persistBatch_def intro!: ctriple_return split: option.split)
  qed
  have log: "ctriple ?log (persistBatch env sv owner st ch) (\<lambda>_. ?log) (\<lambda>_ _. True)"
    using keepsD [OF keeps_history_persist] by (intro ctripleI) metis+
  show "ctriple (loop_post env owner device nid opers c0 (st, ch, lt)) (persistBatch env sv owner st ch)
      (\<lambda>final c. (batch_effect owner device nid c0 ch lt final c \<and> db_ok c0) \<and> ?log c \<and> (c = c0 \<or> ch))
      (batch_err owner device c0)"
  proof (rule ctriple_weaken)
    show "ctriple (\<lambda>c. db_ok c0 \<and> loop_post env owner device nid opers c0 (st, ch, lt) c)
        (persistBatch env sv owner st ch)
        (\<lambda>final c. (batch_effect owner device nid c0 ch lt final c \<and> db_ok c0) \<and> ?log c \<and> (c = c0 \<or> ch))
        (\<lambda>e c. batch_err owner device c0 e c \<and> True \<and> True)"
    proof (rule ctriple_pure)
      assume ok: "db_ok c0"
      show "ctriple (loop_post env owner device nid opers c0 (st, ch, lt)) (persistBatch env sv owner st ch)
        (\<lambda>final c. (batch_effect owner device nid c0 ch lt final c \<and> db_ok c0) \<and> ?log c \<and> (c = c0 \<or> ch))
        (\<lambda>e c. batch_err owner device c0 e c \<and> True \<and> True)"
        by (intro ctriple_conjI ctriple_pre [OF log] ctriple_pre [OF idle]
            ctriple_weaken [OF persistBatch_triple [where nid = nid and lt = lt]]) (auto simp: loop_post_def ok)
    qed
  qed (auto simp: loop_post_def batch_inv_def)
  show "ctriple (\<lambda>c. (batch_effect owner device nid c0 ch lt final c \<and> db_ok c0) \<and> ?log c \<and> (c = c0 \<or> ch))
      (returnM (Some (Accepted \<lparr>ac_NoteID = nid,
         ac_ServerNoteVersion = (case final of None \<Rightarrow> 0 | Some n \<Rightarrow> nt_CurrentVersion n), ac_GlobalSequence = lt\<rparr>)))
      (\<lambda>out c. sync_rel owner device c0 c \<and> (\<exists>o'. out = Some o' \<and> batch_done env owner device c0 opers o' c))
      (batch_err owner device c0)" for final
    using batch_effect_done [OF _ _ _ _ nid] by (intro ctriple_return) (blast dest: batch_effect_rel)
qed

lemma sortedOperations_same:
  assumes "sortedOperations opers = first # rest" "\<And>oper. oper \<in> set opers \<Longrightarrow> op_NoteID oper = nid"
  shows "op_NoteID first = nid" "\<And>oper. oper \<in> set (first # rest) \<Longrightarrow> op_NoteID oper = nid"
proof -
  have "set (first # rest) = set opers" unfolding assms(1) [symmetric] by (simp add: sortedOperations_def)
  with assms(2) show "op_NoteID first = nid" "\<And>oper. oper \<in> set (first # rest) \<Longrightarrow> op_NoteID oper = nid"
    by auto
qed

lemma rejectedBatchDTO_note [simp]: "rj_NoteID (rejectedBatchDTO first failed document) = op_NoteID first"
  by (simp add: rejectedBatchDTO_def Let_def split: option.split sum.split)

lemma applyOperationBatch_cases:
  assumes run: "applyOperationBatch env sv owner device opers w = (r, w')" and tx: "w_in_tx w"
    and ok: "db_ok (w_core w)" and dev: "owns_device owner (w_core w) device"
    and same: "\<And>oper. oper \<in> set opers \<Longrightarrow> op_NoteID oper = nid" and ne: "opers \<noteq> []"
  shows "sync_rel owner device (w_core w) (w_core w') \<and> r \<noteq> Inl ErrPanic
    \<and> (\<forall>out. r = Inr out \<longrightarrow> \<not> w_aborted w' \<longrightarrow>
         (\<exists>o'. out = Some o' \<and> batch_done env owner device (w_core w) (sortedOperations opers) o' (w_core w')))"
proof -
  let ?c0 = "w_core w"
  have "sortedOperations opers \<noteq> []" using ne by (simp add: sortedOperations_def) (metis length_0_conv length_sort)
  then obtain first rest where fr: "sortedOperations opers = first # rest" by (cases "sortedOperations opers") auto
  have nid: "op_NoteID first = nid" "\<And>oper. oper \<in> set (first # rest) \<Longrightarrow> op_NoteID oper = nid"
    using sortedOperations_same [OF fr] same by blast+
  let ?loop = "applyOperations env owner device (first # rest) newNoteBatchState False 0"
  let ?ok = "\<lambda>(st, changed, latestCursor). bindM (persistBatch env sv owner st changed) (\<lambda>note.
       returnM (Some (Accepted \<lparr>ac_NoteID = op_NoteID first,
         ac_ServerNoteVersion = (case note of None \<Rightarrow> 0 | Some n \<Rightarrow> nt_CurrentVersion n),
         ac_GlobalSequence = latestCursor\<rparr>)))"
  have loop: "ctriple (\<lambda>c. c = ?c0) ?loop (loop_post env owner device nid (first # rest) ?c0)
      (\<lambda>e c. sync_rel owner device ?c0 c \<and> e \<noteq> ErrPanic)"
    by (rule loop_triple [OF ok dev]) (rule nid(2))
  obtain r1 w1 where sp: "WithSavepoint env ?loop w = (r1, w1)" by (cases "WithSavepoint env ?loop w")
  have tx1: "w_in_tx w1" using tx_stableD [OF stable_WithSavepoint [OF stable_applyOperations] sp] tx by simp
  have rest: "(case r1 of Inl (ErrBatchRejected failed) \<Rightarrow>
        bindM (loadRejectionDocument env (op_NoteID first) owner) (\<lambda>document.
        returnM (Some (Rejected (rejectedBatchDTO first failed document)))) w1
      | Inl err \<Rightarrow> failM err w1 | Inr a \<Rightarrow> ?ok a w1) = (r, w')"
  proof (cases r1)
    case (Inl e)
    with run sp show ?thesis
      unfolding applyOperationBatch_def fr list.case by (cases e) (simp_all add: catchM_def)
  next
    case (Inr a)
    with run sp show ?thesis
      unfolding applyOperationBatch_def fr list.case by (simp add: catchM_def)
  qed
  show ?thesis
  proof (cases rule: WithSavepoint_cases [OF sp tx stable_applyOperations])
    case (1 e)
    with rest show ?thesis by (auto simp: failM_def push.R_refl)
  next
    case (2 v a v')
    then have post: "loop_post env owner device nid (first # rest) ?c0 a (w_core w1)"
      using ctriple_InrD [OF loop, of v a v'] by simp
    show ?thesis
    proof (cases "r1 = Inr a")
      case True
      obtain st ch lt where a: "a = (st, ch, lt)" by (cases a)
      have T: "ctriple (loop_post env owner device nid (first # rest) ?c0 a) (?ok a)
          (\<lambda>out c. sync_rel owner device ?c0 c
             \<and> (\<exists>o'. out = Some o' \<and> batch_done env owner device ?c0 (first # rest) o' c))
          (batch_err owner device ?c0)"
        unfolding a prod.case nid(1) by (rule persist_done) (simp add: nid)
      show ?thesis
        using rest True ctriple_InrD [OF T post, of _ w'] ctriple_InlD [OF T post, of _ w'] fr
        by (cases r) (auto simp: batch_err_def)
    next
      case False
      then show ?thesis
        using 2(4) rest post by (auto simp: failM_def loop_post_def batch_inv_def split: prod.splits)
    qed
  next
    case (3 v e v')
    then have err: "sync_rel owner device ?c0 (w_core v')" "e \<noteq> ErrPanic"
      using ctriple_InlD [OF loop, of v e v'] by simp_all
    then have rel: "sync_rel owner device ?c0 (w_core w1)"
      using 3(4) push.R_undo [OF err(1)] by auto
    show ?thesis
    proof (cases "\<exists>failed. e = ErrBatchRejected failed")
      case False
      with rest 3(3) have "r = Inl e \<and> w' = w1" by (cases e) (auto simp: failM_def)
      with rel err show ?thesis by simp
    next
      case True
      then obtain failed where e: "e = ErrBatchRejected failed" by blast
      obtain r2 w2 where ld: "loadRejectionDocument env (op_NoteID first) owner w1 = (r2, w2)"
        by (cases "loadRejectionDocument env (op_NoteID first) owner w1")
      have core: "w_core w2 = w_core w1" by (rule reads_core [OF reads_loadRejectionDocument ld])
      have ab: "w_aborted w1 \<Longrightarrow> w_aborted w2" using tx_stable_aborted [OF stable_loadRejection ld tx1] .
      have e2: "e2 \<noteq> ErrPanic" if "r2 = Inl e2" for e2
        using ctriple_InlD [OF reads_triple [OF reads_loadRejectionDocument], of "\<lambda>_. True"] ld that by fastforce
      have "w' = w2 \<and> r = (case r2 of Inl e2 \<Rightarrow> Inl e2
          | Inr d \<Rightarrow> Inr (Some (Rejected (rejectedBatchDTO first failed d))))"
        using rest 3(3) e ld by (auto simp: bindM_def returnM_def split: sum.splits)
      with rel core ab e2 3(4) nid(1) fr show ?thesis
        by (auto simp: batch_done_def split: sum.splits)
    qed
  qed
qed

subsection \<open>The batches of a request\<close>

text \<open>The runs of operations with the same note, as the loop of \<open>Sync\<close> cuts them.\<close>

function note_batches :: "ClientOperation list \<Rightarrow> ClientOperation list list" where
  "note_batches [] = []"
| "note_batches (oper # opers) =
     (let same = (\<lambda>o'. op_NoteID o' = op_NoteID oper) in
      (oper # takeWhile same opers) # note_batches (dropWhile same opers))"
  by pat_completeness auto
termination
  by (relation "measure length") (auto simp: le_imp_less_Suc length_dropWhile_le)

abbreviation op_order :: "ClientOperation \<Rightarrow> uuid \<times> int" where
  "op_order oper \<equiv> (op_NoteID oper, op_Sequence oper)"

lemma sortedOperations_sorted: "sorted (map op_order opers) \<Longrightarrow> sortedOperations opers = opers"
  unfolding sortedOperations_def by (induction opers) (auto simp: insort_is_Cons)

lemma sorted_split:
  assumes "sorted (map k (x # xs))"
  shows "sorted (map k (x # takeWhile P xs))" "sorted (map k (dropWhile P xs))"
  using assms sorted_append [of "map k (x # takeWhile P xs)" "map k (dropWhile P xs)"]
  by (simp_all only: map_append [symmetric] append_Cons takeWhile_dropWhile_id simp_thms)

inductive push_run :: "env \<Rightarrow> uuid \<Rightarrow> string \<Rightarrow> core \<Rightarrow> ClientOperation list list \<Rightarrow> outcome list \<Rightarrow> core \<Rightarrow> bool"
  for env owner device where
  push_end: "push_run env owner device c [] [] c"
| push_batch: "batch_done env owner device c opers out c1 \<Longrightarrow> push_run env owner device c1 bs outs c2 \<Longrightarrow>
    push_run env owner device c (opers # bs) (out # outs) c2"

inductive_simps push_run_Nil [simp]: "push_run env owner device c [] outs c'"
inductive_simps push_run_Cons: "push_run env owner device c (b # bs) outs c'"

definition accepted_of :: "outcome list \<Rightarrow> AcceptedDTO list" where
  "accepted_of outs = concat (map (\<lambda>out. case out of Accepted a \<Rightarrow> [a] | Rejected _ \<Rightarrow> []) outs)"

definition rejected_of :: "outcome list \<Rightarrow> RejectedDTO list" where
  "rejected_of outs = concat (map (\<lambda>out. case out of Accepted _ \<Rightarrow> [] | Rejected r \<Rightarrow> [r]) outs)"

lemma outcomes_of_simps [simp]:
  "accepted_of [] = []" "accepted_of (Accepted a # outs) = a # accepted_of outs"
  "accepted_of (Rejected r # outs) = accepted_of outs"
  "rejected_of [] = []" "rejected_of (Accepted a # outs) = rejected_of outs"
  "rejected_of (Rejected r # outs) = r # rejected_of outs"
  by (simp_all add: accepted_of_def rejected_of_def)

definition committed_cursor :: "int \<Rightarrow> AcceptedDTO list \<Rightarrow> int" where
  "committed_cursor cur accs = foldl (\<lambda>cur a. if ac_GlobalSequence a > cur then ac_GlobalSequence a else cur) cur accs"

lemma owns_device_rel: "sync_rel owner device c c' \<Longrightarrow> db_ok c \<Longrightarrow> owns_device o' c d \<Longrightarrow> owns_device o' c' d"
  by (simp add: sync_rel_def sync_step_def other_rel_def owns_device_def)

lemma pushBatches_run:
  assumes "pushBatches env sv owner device opers resp cur w = (r, w')" "w_in_tx w"
    and "db_ok (w_core w)" "owns_device owner (w_core w) device" "sorted (map op_order opers)"
  shows "sync_rel owner device (w_core w) (w_core w') \<and> r \<noteq> Inl ErrPanic
    \<and> (\<forall>resp' cur'. r = Inr (resp', cur') \<longrightarrow> \<not> w_aborted w' \<longrightarrow>
         (\<exists>outs. push_run env owner device (w_core w) (note_batches opers) outs (w_core w')
            \<and> resp' = \<lparr>rs_Accepted = rs_Accepted resp @ accepted_of outs,
                 rs_Rejected = rs_Rejected resp @ rejected_of outs\<rparr>
            \<and> cur' = committed_cursor cur (accepted_of outs)))"
  using assms
proof (induction env sv owner device opers resp cur arbitrary: w r w' rule: pushBatches.induct)
  case (1 env sv owner device resp cur)
  then show ?case by (auto simp: returnM_def push.R_refl committed_cursor_def intro!: exI [of _ "[]"])
next
  case (2 env sv owner device oper opers resp cur)
  let ?same = "\<lambda>o'. op_NoteID o' = op_NoteID oper"
  let ?batch = "oper # takeWhile ?same opers"
  let ?rest = "dropWhile ?same opers"
  obtain r1 w1 where b: "applyOperationBatch env sv owner device ?batch w = (r1, w1)"
    by (cases "applyOperationBatch env sv owner device ?batch w")
  note sorted = sorted_split [OF 2(8), of ?same]
  have nid: "op_NoteID o' = op_NoteID oper" if "o' \<in> set ?batch" for o'
    using that by (auto dest: set_takeWhileD)
  note cases = applyOperationBatch_cases [OF b 2(5-7) nid, unfolded sortedOperations_sorted [OF sorted(1)]]
  have tx1: "w_in_tx w1" using tx_stableD [OF stable_applyOperationBatch b] 2(5) by simp
  have inv1: "db_ok (w_core w1)" "owns_device owner (w_core w1) device"
    using cases 2(6,7) by (auto simp: sync_rel_def intro: owns_device_rel)
  show ?case
  proof (cases r1)
    case (Inl e)
    then have "r = Inl e" "w' = w1" using 2(4) b by (auto simp: Let_def bindM_def)
    with Inl cases show ?thesis by auto
  next
    case (Inr out)
    define resp1 where "resp1 = (case out of Some (Rejected x) \<Rightarrow> resp\<lparr>rs_Rejected := rs_Rejected resp @ [x]\<rparr>
      | Some (Accepted a) \<Rightarrow> resp\<lparr>rs_Accepted := rs_Accepted resp @ [a]\<rparr> | None \<Rightarrow> resp)"
    define cur1 where "cur1 = (case out of Some (Accepted a) \<Rightarrow>
      (if ac_GlobalSequence a > cur then ac_GlobalSequence a else cur) | _ \<Rightarrow> cur)"
    have next_run: "pushBatches env sv owner device ?rest resp1 cur1 w1 = (r, w')"
      using 2(4) b Inr by (auto simp: Let_def bindM_def resp1_def cur1_def split: option.splits outcome.splits)
    have IH: "sync_rel owner device (w_core w1) (w_core w') \<and> r \<noteq> Inl ErrPanic
      \<and> (\<forall>resp' cur'. r = Inr (resp', cur') \<longrightarrow> \<not> w_aborted w' \<longrightarrow>
         (\<exists>outs. push_run env owner device (w_core w1) (note_batches ?rest) outs (w_core w')
            \<and> resp' = \<lparr>rs_Accepted = rs_Accepted resp1 @ accepted_of outs,
                 rs_Rejected = rs_Rejected resp1 @ rejected_of outs\<rparr>
            \<and> cur' = committed_cursor cur1 (accepted_of outs)))"
      using 2(1-3) [OF refl _ tx1 inv1 sorted(2)] next_run
      unfolding resp1_def cur1_def by (cases out rule: option.exhaust; cases "the out") simp_all
    show ?thesis
    proof (intro conjI allI impI)
      show "sync_rel owner device (w_core w) (w_core w')" using cases IH push.R_trans by blast
      show "r \<noteq> Inl ErrPanic" using IH by blast
      fix resp' cur' assume r: "r = Inr (resp', cur')" and "\<not> w_aborted w'"
      then have "\<not> w_aborted w1" using tx_stable_aborted [OF stable_pushBatches next_run tx1] by blast
      then obtain o' where o': "out = Some o'"
          "batch_done env owner device (w_core w) ?batch o' (w_core w1)"
        using cases Inr by auto
      obtain outs where outs: "push_run env owner device (w_core w1) (note_batches ?rest) outs (w_core w')"
          "resp' = \<lparr>rs_Accepted = rs_Accepted resp1 @ accepted_of outs, rs_Rejected = rs_Rejected resp1 @ rejected_of outs\<rparr>"
          "cur' = committed_cursor cur1 (accepted_of outs)"
        using IH r \<open>\<not> w_aborted w'\<close> by blast
      show "\<exists>outs. push_run env owner device (w_core w) (note_batches (oper # opers)) outs (w_core w')
            \<and> resp' = \<lparr>rs_Accepted = rs_Accepted resp @ accepted_of outs,
                 rs_Rejected = rs_Rejected resp @ rejected_of outs\<rparr>
            \<and> cur' = committed_cursor cur (accepted_of outs)"
        by (rule exI [of _ "o' # outs"])
          (use o' outs in \<open>auto simp: Let_def resp1_def cur1_def committed_cursor_def split: outcome.split
            intro: push_batch\<close>)
    qed
  qed
qed

end
