(* ===== verification/Sync_Request.thy ===== *)
theory Sync_Request
  imports Sync_Push
begin

section \<open>The push request\<close>

text \<open>
  The request as a whole: the device check, the transaction, the published hint. The theorems say
  what a client and the other users may rely on: the invariant and the contract of a push, that a
  response is the one of a \<open>push_run\<close>, that an error leaves no trace, that a repeated request has
  no further effect.
\<close>

subsection \<open>The device check\<close>

lemma lockDevice_Inr:
  assumes "lockDevice env device owner w = (Inr d, w')"
  shows "w_core w' = w_core w" "find (device_owned device owner) (t_sync_devices (w_db w)) = Some d"
    "dv_RevokedAt d = None"
  using assms
  by (auto simp: lockDevice_def catchM_def failM_def returnM_def GetDeviceForOwnerForUpdate_def
      GetDeviceForOwnerForUpdate_sql_def bindM_def mapNoRows_def query_def exec_def
      split: if_splits sum.splits prod.splits option.splits)

lemma lockDevice_Inl:
  assumes "lockDevice env device owner w = (Inl e, w')"
  shows "w_core w' = w_core w" "e \<in> {ErrDB, ErrTxAborted, DeviceForbidden, DeviceRevoked}"
  using assms
  by (auto simp: lockDevice_def catchM_def failM_def returnM_def GetDeviceForOwnerForUpdate_def
      GetDeviceForOwnerForUpdate_sql_def bindM_def mapNoRows_def query_def exec_def
      split: if_splits sum.splits prod.splits option.splits)

lemma stable_lockDevice [stable_rules]: "tx_stable (lockDevice env device owner)"
  unfolding lockDevice_def by (intro stable_rules)

lemma device_errors [simp]: "DeviceForbidden \<noteq> ErrPanic" "DeviceRevoked \<noteq> ErrPanic"
    "ErrPanic \<noteq> DeviceForbidden" "ErrPanic \<noteq> DeviceRevoked"
  by (simp_all add: DeviceForbidden_def DeviceRevoked_def Forbidden_def)

lemma find_device:
  "db_ok c \<Longrightarrow> find (device_owned i owner) (t_sync_devices (c_db c)) =
     (case device_at c i of None \<Rightarrow> None | Some d \<Rightarrow> if dv_OwnerID d = owner then Some d else None)"
  using find_key_cond [of dv_ID "t_sync_devices (c_db c)" i "\<lambda>d. dv_OwnerID d = owner"]
  by (simp add: device_owned_def [abs_def] db_ok_def)

subsection \<open>The transaction\<close>

lemma stable_syncTx [stable_rules]: "tx_stable (syncTx env sv owner req)"
  unfolding syncTx_def by (intro stable_rules)

lemma sortedOperations_sorted_result: "sorted (map op_order (sortedOperations opers))"
  by (simp add: sortedOperations_def)

lemma syncTx_cases:
  assumes run: "syncTx env sv owner req w = (r, w')" and tx: "w_in_tx w" and ok: "db_ok (w_core w)"
  shows "sync_rel owner (rq_DeviceID req) (w_core w) (w_core w') \<and> r \<noteq> Inl ErrPanic
    \<and> (\<forall>resp cur. r = Inr (resp, cur) \<longrightarrow>
         (\<exists>d. device_at (w_core w) (rq_DeviceID req) = Some d \<and> dv_OwnerID d = owner \<and> dv_RevokedAt d = None)
         \<and> (\<not> w_aborted w' \<longrightarrow> (\<exists>outs. push_run env owner (rq_DeviceID req) (w_core w)
              (note_batches (sortedOperations (rq_Operations req))) outs (w_core w')
            \<and> resp = \<lparr>rs_Accepted = accepted_of outs, rs_Rejected = rejected_of outs\<rparr>
            \<and> cur = committed_cursor 0 (accepted_of outs))))"
proof -
  let ?dev = "rq_DeviceID req"
  obtain r1 w1 where lock: "lockDevice env ?dev owner w = (r1, w1)" by (cases "lockDevice env ?dev owner w")
  have tx1: "w_in_tx w1" using tx_stableD [OF stable_lockDevice lock] tx by simp
  show ?thesis
  proof (cases r1)
    case (Inl e)
    then have "r = Inl e" "w' = w1" using run lock by (auto simp: syncTx_def bindM_def)
    with lockDevice_Inl [OF lock [unfolded Inl]] show ?thesis by (auto simp: push.R_refl)
  next
    case (Inr d)
    note l = lockDevice_Inr [OF lock [unfolded Inr]]
    have dev: "device_at (w_core w) ?dev = Some d" "dv_OwnerID d = owner"
      using l(2) by (auto simp: find_device [OF ok] split: option.splits if_splits)
    have own: "owns_device owner (w_core w1) ?dev" using dev l(1) by (simp add: owns_device_def)
    have push: "pushBatches env sv owner ?dev (sortedOperations (rq_Operations req)) emptyResponse 0 w1 = (r, w')"
      using run lock Inr by (simp add: syncTx_def bindM_def)
    show ?thesis
      using pushBatches_run [OF push tx1 _ own sortedOperations_sorted_result] ok l dev
      by (auto simp: emptyResponse_def)
  qed
qed

text \<open>The transaction around it, for every outcome.\<close>

lemma Sync_tx_cases:
  assumes run: "WithTx env (syncTx env sv owner req) w = (r, w')" and out: "\<not> w_in_tx w" and ok: "db_ok (w_core w)"
  shows "sync_rel owner (rq_DeviceID req) (w_core w) (w_core w') \<and> r \<noteq> Inl ErrPanic
    \<and> (\<forall>resp cur. r = Inr (resp, cur) \<longrightarrow>
         (\<exists>d. device_at (w_core w) (rq_DeviceID req) = Some d \<and> dv_OwnerID d = owner \<and> dv_RevokedAt d = None)
         \<and> (\<exists>outs. push_run env owner (rq_DeviceID req) (w_core w)
              (note_batches (sortedOperations (rq_Operations req))) outs (w_core w')
            \<and> resp = \<lparr>rs_Accepted = accepted_of outs, rs_Rejected = rejected_of outs\<rparr>
            \<and> cur = committed_cursor 0 (accepted_of outs)))"
proof (cases rule: WithTx_cases [OF run out])
  case 1
  then show ?thesis by (auto simp: push.R_refl)
next
  case (2 w1 r2 w2)
  have ok1: "db_ok (w_core w1)" using ok 2(2) by simp
  note body = syncTx_cases [OF 2(1) 2(3) ok1, unfolded 2(2)]
  have rel: "sync_rel owner (rq_DeviceID req) (w_core w) (w_core w')"
    using 2(5) body push.R_undo [of owner "rq_DeviceID req" "w_core w" "w_core w2"] by auto
  show ?thesis
  proof (cases r)
    case e: (Inl e)
    have "e \<noteq> ErrPanic"
    proof (cases r2)
      case (Inl e')
      with 2(7) body e show ?thesis by auto
    next
      case (Inr a)
      show ?thesis using 2(8) [OF e Inr] by auto
    qed
    with rel e show ?thesis by simp
  next
    case (Inr a)
    with 2(6) [of a] body rel show ?thesis by auto
  qed
qed

lemma publish_cases:
  "publishCommittedSyncAvailable env sv owner device cur w = (r, w') \<Longrightarrow>
   r = Inr () \<and> w_core w' = w_core w \<and> w_in_tx w' = w_in_tx w \<and> w_aborted w' = w_aborted w
   \<and> (w_events w' = w_events w \<or> cur > 0 \<and> sv_hasEventBus sv
       \<and> w_events w' = w_events w @ [\<lparr>ev_UserID = owner, ev_OriginDeviceID = device, ev_LatestCursor = cur\<rparr>])"
  by (auto simp: publishCommittedSyncAvailable_def tick_def split: if_splits)

lemma Sync_split:
  assumes "Sync env sv owner req w = (r, w')"
  obtains (invalid) e where "Request_Validate (sv_maxOperations sv) req = Some e" "r = Inl e" "w' = w"
  | (failed) e where "Request_Validate (sv_maxOperations sv) req = None"
      "WithTx env (syncTx env sv owner req) w = (Inl e, w')" "r = Inl e"
  | (committed) resp cur w1 where "Request_Validate (sv_maxOperations sv) req = None"
      "WithTx env (syncTx env sv owner req) w = (Inr (resp, cur), w1)"
      "publishCommittedSyncAvailable env sv owner (rq_DeviceID req) cur w1 = (Inr (), w')" "r = Inr resp"
proof (cases "Request_Validate (sv_maxOperations sv) req")
  case (Some e)
  with assms invalid show ?thesis by (auto simp: Sync_def failM_def)
next
  case None
  obtain r1 w1 where tx: "WithTx env (syncTx env sv owner req) w = (r1, w1)"
    by (cases "WithTx env (syncTx env sv owner req) w")
  show ?thesis
  proof (cases r1)
    case (Inl e)
    with assms None tx failed show ?thesis by (auto simp: Sync_def bindM_def)
  next
    case (Inr a)
    obtain resp cur where a: "a = (resp, cur)" by (cases a)
    obtain r2 w2 where pub: "publishCommittedSyncAvailable env sv owner (rq_DeviceID req) cur w1 = (r2, w2)"
      by (cases "publishCommittedSyncAvailable env sv owner (rq_DeviceID req) cur w1")
    have "r2 = Inr ()" using publish_cases [OF pub] by simp
    with assms None tx Inr a pub show ?thesis
      by (intro committed) (auto simp: Sync_def bindM_def returnM_def)
  qed
qed

lemma Validate_not_panic: "Request_Validate m req = Some e \<Longrightarrow> e \<noteq> ErrPanic"
  by (auto simp: Request_Validate_def UnsupportedProtocol_def InvalidRequest_def split: if_splits)

text \<open>Every request keeps the contract of a push and leaves no transaction open.\<close>

lemma Sync_rel:
  assumes "db_ok (w_core w)" "\<not> w_in_tx w" "Sync env sv owner req w = (r, w')"
  shows "sync_rel owner (rq_DeviceID req) (w_core w) (w_core w') \<and> \<not> w_in_tx w' \<and> r \<noteq> Inl ErrPanic"
  using assms(3)
proof (cases rule: Sync_split)
  case (invalid e)
  then show ?thesis using assms(2) Validate_not_panic by (auto simp: push.R_refl)
next
  case (failed e)
  then show ?thesis
    using Sync_tx_cases [OF failed(2) assms(2,1)] WithTx_events [OF stable_syncTx failed(2)] assms(2) by auto
next
  case (committed resp cur w1)
  then show ?thesis
    using Sync_tx_cases [OF committed(2) assms(2,1)] publish_cases [OF committed(3)]
      WithTx_events [OF stable_syncTx committed(2)] assms(2) by auto
qed

lemma Sync_refused:
  assumes "db_ok (w_core w)" "\<not> w_in_tx w" "Sync env sv owner req w = (r, w')"
    and "\<And>d. device_at (w_core w) (rq_DeviceID req) = Some d \<Longrightarrow> dv_OwnerID d \<noteq> owner \<or> dv_RevokedAt d \<noteq> None"
  shows "\<exists>e. r = Inl e \<and> w_db w' = w_db w \<and> w_events w' = w_events w"
  using assms(3)
proof (cases rule: Sync_split)
  case (failed e)
  have body: "w_core v' = w_core v" if run: "syncTx env sv owner req v = (x, v')" and v: "w_core v = w_core w" for x v v'
  proof (cases "lockDevice env (rq_DeviceID req) owner v")
    case (Pair x1 v1)
    show ?thesis
    proof (cases x1)
      case (Inl e')
      then show ?thesis using run Pair lockDevice_Inl(1) by (auto simp: syncTx_def bindM_def)
    next
      case (Inr d)
      have "device_at (w_core w) (rq_DeviceID req) = Some d \<and> dv_OwnerID d = owner \<and> dv_RevokedAt d = None"
        using lockDevice_Inr(2,3) [OF Pair [unfolded Inr]] v find_device [OF assms(1)]
        by (auto split: option.splits if_splits)
      with assms(4) show ?thesis by blast
    qed
  qed
  have "w_db w' = w_db w"
    by (cases rule: WithTx_cases [OF failed(2) assms(2)]) (use body in fastforce)+
  then show ?thesis using failed WithTx_events [OF stable_syncTx failed(2)] by simp
next
  case (committed resp cur w1)
  then show ?thesis using Sync_tx_cases [OF committed(2) assms(2,1)] assms(4) by blast
qed auto

end
