(* ===== verification/Sync_Pull.thy ===== *)
theory Sync_Pull
  imports Sync_Request
begin

section \<open>Pulling the history of the other devices\<close>

text \<open>
  The history that a device sees is the list of the changes of its user that other devices made,
  in the order of their sequence numbers. A pull returns a page of it. The laws of paging are
  proved once, in the locale \<open>paged_feed\<close>, and interpreted on the query of the store; the contract
  of a pull on the tables (only the cursor of the device moves, and never back) is another
  instance of \<open>undoable\<close>.
\<close>

subsection \<open>Paging through a sorted list\<close>

locale paged_feed =
  fixes key :: "'a \<Rightarrow> int" and items :: "'a list"
  assumes items_sorted: "sorted (map key items)"
begin

definition after :: "int \<Rightarrow> 'a list" where
  "after cursor = filter (\<lambda>x. cursor < key x) items"

definition page :: "nat \<Rightarrow> int \<Rightarrow> 'a list" where
  "page n cursor = take n (after cursor)"

definition next_cursor :: "nat \<Rightarrow> int \<Rightarrow> int" where
  "next_cursor n cursor = (if page n cursor = [] then cursor else key (last (page n cursor)))"

lemma after_sorted: "sorted (map key (after cursor))"
  using items_sorted by (simp add: after_def sorted_wrt_filter sorted_map)

lemma page_sorted: "sorted (map key (page n cursor))"
  using after_sorted [of cursor] by (simp add: page_def take_map [symmetric] sorted_wrt_take)

lemma page_after: "x \<in> set (page n cursor) \<Longrightarrow> x \<in> set items \<and> cursor < key x"
  by (auto simp: page_def after_def dest: in_set_takeD)

lemma next_cursor_ge: "cursor \<le> next_cursor n cursor"
  using page_after [of _ n cursor] last_in_set [of "page n cursor"] by (fastforce simp: next_cursor_def)

lemma next_cursor_max: "x \<in> set (page n cursor) \<Longrightarrow> key x \<le> next_cursor n cursor"
proof -
  assume x: "x \<in> set (page n cursor)"
  then have ne: "page n cursor \<noteq> []" by auto
  have "sorted (map key (butlast (page n cursor)) @ [key (last (page n cursor))])"
    using page_sorted [of n cursor] append_butlast_last_id [OF ne]
    by (metis list.simps(8) list.simps(9) map_append)
  moreover have "x \<in> set (butlast (page n cursor)) \<or> x = last (page n cursor)"
    using x append_butlast_last_id [OF ne] by (metis Un_iff empty_iff insertE list.set(1,2) set_append)
  ultimately show ?thesis using ne by (auto simp: sorted_append next_cursor_def)
qed

text \<open>What follows the next cursor is what the page has left.\<close>

lemma after_next:
  assumes "distinct (map key items)"
  shows "after (next_cursor n cursor) = drop n (after cursor)"
proof (cases "page n cursor = []")
  case True
  then show ?thesis by (auto simp: next_cursor_def page_def)
next
  case False
  let ?k = "key (last (page n cursor))"
  have split: "after cursor = page n cursor @ drop n (after cursor)" by (simp add: page_def)
  have d: "distinct (map key (after cursor))"
    using assms by (simp add: after_def distinct_map inj_on_def)
  have rest: "?k < key x" if "x \<in> set (drop n (after cursor))" for x
  proof -
    have "last (page n cursor) \<in> set (page n cursor)" using False by simp
    then have "?k \<le> key x"
      using after_sorted [of cursor] that unfolding split [symmetric]
      by (subst (asm) split) (auto simp: sorted_append simp del: append_take_drop_id)
    moreover have "?k \<noteq> key x"
      using d last_in_set [OF False] that
      by (subst (asm) split) (fastforce simp: disjoint_iff simp del: append_take_drop_id)
    ultimately show ?thesis by simp
  qed
  have cur: "cursor \<le> ?k" using next_cursor_ge [of cursor n] False by (simp add: next_cursor_def)
  have "after ?k = filter (\<lambda>x. ?k < key x) (after cursor)"
    using cur unfolding after_def filter_filter by (intro filter_cong) auto
  also have "\<dots> = filter (\<lambda>x. ?k < key x) (page n cursor) @ filter (\<lambda>x. ?k < key x) (drop n (after cursor))"
    by (subst split) (simp only: filter_append)
  also have "filter (\<lambda>x. ?k < key x) (page n cursor) = []"
    using next_cursor_max [of _ n cursor] False by (auto simp: filter_empty_conv next_cursor_def not_less)
  also have "filter (\<lambda>x. ?k < key x) (drop n (after cursor)) = drop n (after cursor)"
    using rest by (simp add: filter_id_conv)
  finally show ?thesis using False by (simp add: next_cursor_def)
qed

end

definition visible :: "uuid \<Rightarrow> string \<Rightarrow> core \<Rightarrow> note_change_row list" where
  "visible owner device c = sort_key cr_seq (filter (\<lambda>r. cr_OwnerID r = owner \<and> cr_GlobalSequence r \<noteq> None
     \<and> cr_DeviceID r \<noteq> device) (history c))"

interpretation feed: paged_feed cr_seq "visible owner device c" for owner device c
  by unfold_locales (simp add: visible_def)

lemma visible_after:
  "sort_key cr_seq (filter (change_after owner cursor device) (history c)) = feed.after owner device c cursor"
proof -
  have "filter (change_after owner cursor device) (history c) = filter (\<lambda>r. cursor < cr_seq r)
      (filter (\<lambda>r. cr_OwnerID r = owner \<and> cr_GlobalSequence r \<noteq> None \<and> cr_DeviceID r \<noteq> device) (history c))"
    unfolding filter_filter by (intro filter_cong) (auto simp: change_after_def split: option.splits)
  then show ?thesis
    unfolding feed.after_def by (simp add: visible_def filter_sort)
qed

lemma visible_ok:
  assumes "db_ok c"
  shows "distinct (map cr_seq (visible owner device c))"
    and "visible owner device c = filter (\<lambda>r. cr_OwnerID r = owner \<and> cr_DeviceID r \<noteq> device) (history c)"
proof -
  let ?rows = "filter (\<lambda>r. cr_OwnerID r = owner \<and> cr_GlobalSequence r \<noteq> None \<and> cr_DeviceID r \<noteq> device) (history c)"
  have s: "sorted_wrt (<) (map cr_seq (history c))" using assms by (simp add: db_ok_def changes_ok_def)
  have "sorted_wrt (\<lambda>x y. cr_seq x < cr_seq y) ?rows"
    using s by (intro sorted_wrt_filter) (simp add: sorted_wrt_map)
  then have strict: "sorted_wrt (<) (map cr_seq ?rows)" by (simp add: sorted_wrt_map)
  have sorted: "sorted (map cr_seq ?rows)" and distinct: "distinct (map cr_seq ?rows)"
    using strict by (simp_all add: strict_sorted_iff)
  then show "distinct (map cr_seq (visible owner device c))"
    by (simp add: visible_def distinct_map inj_on_def)
  have "visible owner device c = ?rows"
    unfolding visible_def using sorted by (rule sort_key_id_if_sorted)
  also have "\<dots> = filter (\<lambda>r. cr_OwnerID r = owner \<and> cr_DeviceID r \<noteq> device) (history c)"
    using assms by (intro filter_cong) (auto simp: db_ok_def changes_ok_def list_all_iff change_ok_def)
  finally show "visible owner device c = filter (\<lambda>r. cr_OwnerID r = owner \<and> cr_DeviceID r \<noteq> device) (history c)" .
qed

subsection \<open>What a pull may change\<close>

definition device_step :: "(SyncDevice \<Rightarrow> bool) \<Rightarrow> SyncDevice \<Rightarrow> SyncDevice \<Rightarrow> bool" where
  "device_step mine d d' \<longleftrightarrow> (\<not> mine d \<longrightarrow> d' = d)
     \<and> d' = d\<lparr>dv_LastGlobalCursor := dv_LastGlobalCursor d', dv_LastSeenAt := dv_LastSeenAt d'\<rparr>
     \<and> dv_LastGlobalCursor d \<le> dv_LastGlobalCursor d'"

definition pull_rel :: "uuid \<Rightarrow> string \<Rightarrow> core \<Rightarrow> core \<Rightarrow> bool" where
  "pull_rel owner device c c' \<longleftrightarrow> c' = on_devices (\<lambda>_. t_sync_devices (c_db c')) c
     \<and> list_all2 (device_step (device_owned device owner)) (t_sync_devices (c_db c)) (t_sync_devices (c_db c'))"

lemma device_step_mine: "device_step (device_owned i owner) d d' \<Longrightarrow> device_owned i owner d' = device_owned i owner d"
  by (metis (no_types, lifting) SyncDevice.select_convs(1,2) SyncDevice.surjective SyncDevice.update_convs(7,8)
      device_owned_def device_step_def)

lemma device_step_trans:
  "device_step (device_owned i owner) a b \<Longrightarrow> device_step (device_owned i owner) b c \<Longrightarrow>
   device_step (device_owned i owner) a c"
  using device_step_mine [of i owner a b]
  by (cases a; cases b; cases c) (auto simp: device_step_def)

interpretation pull: undoable "pull_rel owner device" for owner device
proof
  show "pull_rel owner device c c" for c
    by (auto simp: pull_rel_def on_devices_def device_step_def intro: list_all2_refl)
  show "pull_rel owner device a c" if "pull_rel owner device a b" "pull_rel owner device b c" for a b c
  proof -
    have "list_all2 (device_step (device_owned device owner)) (t_sync_devices (c_db a)) (t_sync_devices (c_db c))"
      by (rule list_all2_trans [OF device_step_trans]) (use that in \<open>auto simp: pull_rel_def\<close>)
    moreover have "c = on_devices (\<lambda>_. t_sync_devices (c_db c)) a"
      using that by (cases a; cases b; cases c; cases "c_db a"; cases "c_db b"; cases "c_db c")
        (auto simp: pull_rel_def on_devices_def)
    ultimately show ?thesis by (simp add: pull_rel_def)
  qed
  show "pull_rel owner device a (b\<lparr>c_db := c_db a\<rparr>)" if "pull_rel owner device a b" for a b
  proof -
    have "b\<lparr>c_db := c_db a\<rparr> = a"
      using that by (cases a; cases b) (auto simp: pull_rel_def on_devices_def)
    then show ?thesis
      by (auto simp: pull_rel_def on_devices_def device_step_def intro: list_all2_refl)
  qed
qed

interpretation update_cursor: keyed_update dv_ID
  "\<lambda>r. r\<lparr>dv_LastGlobalCursor := max (dv_LastGlobalCursor r) cursor, dv_LastSeenAt := now\<rparr>" for cursor now
  by unfold_locales simp

lemma UpdateDeviceCursor_triple:
  "ctriple (\<lambda>c. c = c0) (UpdateDeviceCursor env i owner cursor)
     (\<lambda>_ c. pull_rel owner i c0 c \<and> (\<forall>d. device_at c0 i = Some d \<longrightarrow> dv_OwnerID d = owner \<longrightarrow>
        (\<exists>d'. device_at c i = Some d' \<and> dv_LastGlobalCursor d' = max (dv_LastGlobalCursor d) cursor)))
     (\<lambda>e c. c = c0 \<and> e \<in> {ErrDB, ErrTxAborted})"
  unfolding UpdateDeviceCursor_def UpdateDeviceCursor_sql_def
proof (rule ctriple_exec, goal_cases)
  case (1 now c u c')
  let ?upd = "\<lambda>r. r\<lparr>dv_LastGlobalCursor := max (dv_LastGlobalCursor r) cursor, dv_LastSeenAt := now\<rparr>"
  have c': "c' = on_devices (update_where (device_owned i owner) ?upd) c0" using 1 by auto
  have "pull_rel owner i c0 c'"
    unfolding c' by (auto simp: pull_rel_def on_devices_def update_where_def list_all2_map2 device_step_def
        intro!: list_all2_refl)
  moreover have "device_at c' i = map_option (\<lambda>r. if device_owned i owner r then ?upd r else r) (device_at c0 i)"
    unfolding c' by (simp add: on_devices_def update_cursor.lookup_update)
  moreover have "dv_ID d = i" if "device_at c0 i = Some d" for d
    using lookup_SomeD [OF that] by simp
  ultimately show ?case by (auto simp: device_owned_def)
qed auto

lemma db_ok_pull:
  assumes "pull_rel owner device c c'" "db_ok c"
  shows "db_ok c'"
proof -
  have c': "c' = on_devices (\<lambda>_. t_sync_devices (c_db c')) c" using assms(1) by (simp add: pull_rel_def)
  have tables: "t_notes (c_db c') = t_notes (c_db c)" "t_note_blocks (c_db c') = t_note_blocks (c_db c)"
      "history c' = history c" "t_categories (c_db c') = t_categories (c_db c)" "c_change_seq c' = c_change_seq c"
    by (subst c', simp add: on_devices_def)+
  have l: "list_all2 (\<lambda>d d'. dv_ID d' = dv_ID d \<and> dv_OwnerID d' = dv_OwnerID d)
      (t_sync_devices (c_db c)) (t_sync_devices (c_db c'))"
    using assms(1) unfolding pull_rel_def
    by (elim conjE list_all2_mono) (metis SyncDevice.ext_inject SyncDevice.surjective SyncDevice.update_convs(7,8) device_step_def)
  have ids: "map dv_ID (t_sync_devices (c_db c')) = map dv_ID (t_sync_devices (c_db c))"
    using l by (induction rule: list_all2_induct) auto
  have at: "map_option dv_OwnerID (device_at c' i) = map_option dv_OwnerID (device_at c i)" for i
    using l by (induction rule: list_all2_induct) auto
  have "owns_device o' c' i = owns_device o' c i" for o' i
    using at [of i] by (cases "device_at c i"; cases "device_at c' i") (auto simp: owns_device_def)
  then have "change_ok c' = change_ok c"
    by (simp add: fun_eq_iff change_ok_def tables owns_def)
  with assms(2) ids show ?thesis
    by (simp add: db_ok_def notes_ok_def blocks_ok_def changes_ok_def changes_of_def tables)
qed

subsection \<open>The page\<close>

text \<open>What a device has not seen: the changes of its user by other devices after its cursor.\<close>

definition unseen :: "uuid \<Rightarrow> string \<Rightarrow> int \<Rightarrow> core \<Rightarrow> note_change_row list" where
  "unseen owner device cursor c =
     filter (\<lambda>r. cr_OwnerID r = owner \<and> cr_DeviceID r \<noteq> device \<and> cursor < cr_seq r) (history c)"

lemma after_unseen: "db_ok c \<Longrightarrow> feed.after owner device c cursor = unseen owner device cursor c"
  unfolding feed.after_def by (auto simp: visible_ok(2) unseen_def intro!: filter_cong)

text \<open>The wire form of a row.\<close>

definition wire :: "note_change_row \<Rightarrow> string + PulledChange" where
  "wire r = PulledChange_FromEntity (fromDBChange r)"

lemma wire_seq: "wire r = Inr p \<Longrightarrow> pc_GlobalSequence p = cr_seq r"
  by (auto simp: wire_def PulledChange_FromEntity_def fromDBChange_def split: if_splits)

lemma mapE_wire: "mapE PulledChange_FromEntity (map fromDBChange rows) = mapE wire rows"
  by (induction rows) (simp_all add: wire_def split: sum.split)

lemma mapE_seq: "mapE wire rows = Inr ps \<Longrightarrow> map pc_GlobalSequence ps = map cr_seq rows"
  by (induction rows arbitrary: ps) (auto simp: wire_seq split: sum.splits)

lemma nextCursor_sorted:
  "sorted (map pc_GlobalSequence ps) \<Longrightarrow> (\<And>p. p \<in> set ps \<Longrightarrow> start < pc_GlobalSequence p) \<Longrightarrow>
   nextCursor start ps = (if ps = [] then start else pc_GlobalSequence (last ps))"
proof (induction ps arbitrary: start)
  case (Cons p ps)
  let ?step = "\<lambda>next c. if pc_GlobalSequence c > next then pc_GlobalSequence c else next"
  have eq: "foldl ?step x qs = (if qs = [] then x else pc_GlobalSequence (last qs))"
    if "sorted (x # map pc_GlobalSequence qs)" for x qs
    using that by (induction qs arbitrary: x) auto
  show ?case
    using Cons.prems(2) [of p] eq [of "pc_GlobalSequence p" ps] Cons.prems(1) by (simp add: nextCursor_def)
qed (simp add: nextCursor_def)

definition page_of :: "nat \<Rightarrow> int \<Rightarrow> note_change_row list \<Rightarrow> PullResponse \<Rightarrow> bool" where
  "page_of n cursor rows resp \<longleftrightarrow>
     mapE wire (take n rows) = Inr (pl_Changes resp) \<and> pl_HasMore resp = (n < length rows)
     \<and> pl_NextCursor resp = (if take n rows = [] then cursor else cr_seq (last (take n rows)))"

lemma pullPage_unseen:
  assumes ok: "db_ok c" and lim: "0 \<le> limit" "limit < max_int32"
    and run: "pullPage limit cursor (map fromDBChange (take (nat (limit + 1)) (unseen owner device cursor c))) = Inr resp"
  shows "page_of (nat limit) cursor (unseen owner device cursor c) resp"
proof -
  let ?u = "unseen owner device cursor c"
  let ?got = "take (nat (limit + 1)) ?u"
  have len: "int (length ?got) \<le> limit + 1" using lim by (simp add: nat_add_distrib)
  have more: "(int32 (int (length (map fromDBChange ?got))) > limit) = (nat limit < length ?u)"
    using len lim by (simp add: nat_add_distrib) linarith
  have page: "(if nat limit < length ?u then take (nat limit) (map fromDBChange ?got) else map fromDBChange ?got)
      = map fromDBChange (take (nat limit) ?u)"
    using lim by (auto simp: take_map nat_add_distrib min_def)
  obtain ps where ps: "mapE wire (take (nat limit) ?u) = Inr ps"
      "resp = \<lparr>pl_Changes = ps, pl_HasMore = (nat limit < length ?u), pl_NextCursor = nextCursor cursor ps\<rparr>"
    using run lim unfolding pullPage_def Let_def more page mapE_wire by (auto split: sum.splits if_splits)
  have seqs: "map pc_GlobalSequence ps = map cr_seq (take (nat limit) ?u)" by (rule mapE_seq [OF ps(1)])
  have "sorted (map pc_GlobalSequence ps)"
    unfolding seqs using feed.page_sorted [of owner device c "nat limit" cursor]
    by (simp add: feed.page_def after_unseen [OF ok])
  moreover have "cursor < pc_GlobalSequence p" if "p \<in> set ps" for p
  proof -
    have "pc_GlobalSequence p \<in> cr_seq ` set (take (nat limit) ?u)" using that seqs by (metis image_eqI set_map)
    then show ?thesis by (auto simp: unseen_def dest!: in_set_takeD)
  qed
  ultimately have "nextCursor cursor ps = (if ps = [] then cursor else pc_GlobalSequence (last ps))"
    by (rule nextCursor_sorted)
  also have "\<dots> = (if take (nat limit) ?u = [] then cursor else cr_seq (last (take (nat limit) ?u)))"
    using seqs by (metis last_map list.map_disc_iff)
  finally show ?thesis using ps by (simp add: page_of_def)
qed

lemma GetChangesAfterCursor_triple:
  assumes "db_ok c0"
  shows "ctriple (\<lambda>c. c = c0) (GetChangesAfterCursor env owner cursor device limit)
    (\<lambda>rows c. c = c0 \<and> 0 \<le> limit \<and> rows = map fromDBChange (take (nat limit) (unseen owner device cursor c0)))
    (\<lambda>e c. c = c0 \<and> e \<in> {ErrDB, ErrTxAborted})"
  unfolding GetChangesAfterCursor_def GetChangesAfterCursor_sql_def
  by (rule ctriple_bind [where R = "\<lambda>rows c. c = c0 \<and> 0 \<le> limit \<and> rows = take (nat limit) (unseen owner device cursor c0)"],
      rule ctriple_exec)
    (auto simp: visible_after after_unseen [OF assms] split: if_splits intro!: ctriple_return)

definition pull_effect :: "Service \<Rightarrow> uuid \<Rightarrow> PullRequest \<Rightarrow> core \<Rightarrow> PullResponse \<Rightarrow> core \<Rightarrow> bool" where
  "pull_effect sv owner req c0 resp c \<longleftrightarrow>
     page_of (nat (pullLimit sv)) (pr_Cursor req) (unseen owner (pr_DeviceID req) (pr_Cursor req) c0) resp
     \<and> (\<exists>d d'. device_at c0 (pr_DeviceID req) = Some d \<and> dv_OwnerID d = owner \<and> dv_RevokedAt d = None
          \<and> device_at c (pr_DeviceID req) = Some d'
          \<and> dv_LastGlobalCursor d' = max (dv_LastGlobalCursor d) (pl_NextCursor resp))"

lemma lockDevice_triple:
  assumes ok: "db_ok c0"
  shows "ctriple (\<lambda>c. c = c0) (lockDevice env device owner)
    (\<lambda>d c. c = c0 \<and> (device_at c0 device = Some d \<and> dv_OwnerID d = owner \<and> dv_RevokedAt d = None))
    (\<lambda>e c. c = c0 \<and> e \<noteq> ErrPanic)"
proof (rule ctripleI)
  fix w d w' assume w: "w_core w = c0" and run: "lockDevice env device owner w = (Inr d, w')"
  note l = lockDevice_Inr [OF run]
  have "device_at c0 device = Some d \<and> dv_OwnerID d = owner"
    using l(2) w by (simp add: find_device [OF ok] split: option.splits if_splits)
  with l w show "w_core w' = c0 \<and> (device_at c0 device = Some d \<and> dv_OwnerID d = owner \<and> dv_RevokedAt d = None)"
    by simp
next
  fix w e w' assume w: "w_core w = c0" and run: "lockDevice env device owner w = (Inl e, w')"
  show "w_core w' = c0 \<and> e \<noteq> ErrPanic" using lockDevice_Inl [OF run] w by auto
qed

lemma pullTx_triple:
  assumes ok: "db_ok c0" and lim: "0 \<le> pullLimit sv" "pullLimit sv < max_int32"
  shows "ctriple (\<lambda>c. c = c0) (pullTx env sv owner req)
    (\<lambda>resp c. pull_rel owner (pr_DeviceID req) c0 c \<and> pull_effect sv owner req c0 resp c)
    (\<lambda>e c. pull_rel owner (pr_DeviceID req) c0 c \<and> e \<noteq> ErrPanic)"
  unfolding pullTx_def
proof (rule ctriple_bind [where R = "\<lambda>d c. c = c0 \<and> (device_at c0 (pr_DeviceID req) = Some d \<and> dv_OwnerID d = owner \<and> dv_RevokedAt d = None)"])
  show "ctriple (\<lambda>c. c = c0) (lockDevice env (pr_DeviceID req) owner)
      (\<lambda>d c. c = c0 \<and> (device_at c0 (pr_DeviceID req) = Some d \<and> dv_OwnerID d = owner \<and> dv_RevokedAt d = None))
      (\<lambda>e c. pull_rel owner (pr_DeviceID req) c0 c \<and> e \<noteq> ErrPanic)"
    by (rule ctriple_weaken [OF lockDevice_triple [OF ok]]) (auto simp: pull.R_refl)
  fix d
  have lim32: "int32 (pullLimit sv + 1) = pullLimit sv + 1" using lim by simp
  have upd: "ctriple (\<lambda>c. c = c0) (bindM (UpdateDeviceCursor env (pr_DeviceID req) owner (pl_NextCursor resp)) (\<lambda>_. returnM resp))
      (\<lambda>resp c. pull_rel owner (pr_DeviceID req) c0 c \<and> pull_effect sv owner req c0 resp c)
      (\<lambda>e c. pull_rel owner (pr_DeviceID req) c0 c \<and> e \<noteq> ErrPanic)"
    if "page_of (nat (pullLimit sv)) (pr_Cursor req) (unseen owner (pr_DeviceID req) (pr_Cursor req) c0) resp"
      "device_at c0 (pr_DeviceID req) = Some d \<and> dv_OwnerID d = owner \<and> dv_RevokedAt d = None" for resp
    by (rule ctriple_bind [OF ctriple_weaken [OF UpdateDeviceCursor_triple]], assumption, assumption)
      (use that in \<open>auto simp: pull.R_refl pull_effect_def intro!: ctriple_return\<close>)
  show "ctriple (\<lambda>c. c = c0 \<and> (device_at c0 (pr_DeviceID req) = Some d \<and> dv_OwnerID d = owner \<and> dv_RevokedAt d = None))
      (bindM (GetChangesAfterCursor env owner (pr_Cursor req) (pr_DeviceID req) (int32 (pullLimit sv + 1))) (\<lambda>changes.
        bindM (liftM id (pullPage (pullLimit sv) (pr_Cursor req) changes)) (\<lambda>resp.
        bindM (UpdateDeviceCursor env (pr_DeviceID req) owner (pl_NextCursor resp)) (\<lambda>_. returnM resp))))
      (\<lambda>resp c. pull_rel owner (pr_DeviceID req) c0 c \<and> pull_effect sv owner req c0 resp c)
      (\<lambda>e c. pull_rel owner (pr_DeviceID req) c0 c \<and> e \<noteq> ErrPanic)"
  proof (rule ctriple_pure_right)
    assume dev: "device_at c0 (pr_DeviceID req) = Some d \<and> dv_OwnerID d = owner \<and> dv_RevokedAt d = None"
    let ?rows = "map fromDBChange (take (nat (pullLimit sv + 1)) (unseen owner (pr_DeviceID req) (pr_Cursor req) c0))"
    have panic: "x \<noteq> ErrPanic" if "pullPage (pullLimit sv) (pr_Cursor req) changes = Inl x" for x changes
      using that lim by (auto simp: pullPage_def Let_def split: if_splits sum.splits)
    have rest: "ctriple (\<lambda>c. c = c0) (bindM (liftM id (pullPage (pullLimit sv) (pr_Cursor req) ?rows)) (\<lambda>resp.
        bindM (UpdateDeviceCursor env (pr_DeviceID req) owner (pl_NextCursor resp)) (\<lambda>_. returnM resp)))
      (\<lambda>resp c. pull_rel owner (pr_DeviceID req) c0 c \<and> pull_effect sv owner req c0 resp c)
      (\<lambda>e c. pull_rel owner (pr_DeviceID req) c0 c \<and> e \<noteq> ErrPanic)"
    proof (cases "pullPage (pullLimit sv) (pr_Cursor req) ?rows")
      case (Inl x)
      then show ?thesis
        using panic [OF Inl] by (auto simp: liftM_def ctriple_def triple_def failM_def bindM_def pull.R_refl)
    next
      case (Inr resp)
      then show ?thesis
        using upd [OF pullPage_unseen [OF ok lim Inr] dev] by (simp add: liftM_def bind_return)
    qed
    show "ctriple (\<lambda>c. c = c0) (bindM (GetChangesAfterCursor env owner (pr_Cursor req) (pr_DeviceID req) (int32 (pullLimit sv + 1))) (\<lambda>changes.
        bindM (liftM id (pullPage (pullLimit sv) (pr_Cursor req) changes)) (\<lambda>resp.
        bindM (UpdateDeviceCursor env (pr_DeviceID req) owner (pl_NextCursor resp)) (\<lambda>_. returnM resp))))
      (\<lambda>resp c. pull_rel owner (pr_DeviceID req) c0 c \<and> pull_effect sv owner req c0 resp c)
      (\<lambda>e c. pull_rel owner (pr_DeviceID req) c0 c \<and> e \<noteq> ErrPanic)"
      unfolding lim32
      by (rule ctriple_bind [where R = "\<lambda>rows c. c = c0 \<and> rows = ?rows"],
          rule ctriple_weaken [OF GetChangesAfterCursor_triple [OF ok]])
        (auto simp: pull.R_refl intro!: ctriple_pure_right rest)
  qed
qed

end
