(* ===== verification/Jobs_Inv.thy ===== *)
theory Jobs_Inv
  imports Jobs Sync_Pull
begin

section \<open>The queue under interleaving\<close>

text \<open>
  Any number of workers, and the requests that fill the queue, take turns statement by statement.
  What a claim gives its worker: for \<open>lockTimeout\<close> no other claim returns the job, unless it is
  completed or released in between. The relation \<open>queue_run\<close> is one such schedule; its rule
  induction rests on one lemma per statement about the row of a job (\<open>job_step\<close>).
\<close>

subsection \<open>What each statement does to a job\<close>

abbreviation job_at :: "core \<Rightarrow> int \<Rightarrow> OutboxJob option" where
  "job_at c \<equiv> lookup jb_ID (t_outbox_jobs (c_db c))"

definition jobs_ok :: "core \<Rightarrow> bool" where
  "jobs_ok c \<longleftrightarrow> distinct (map jb_ID (t_outbox_jobs (c_db c)))
     \<and> list_all (\<lambda>j. jb_ID j \<le> c_job_seq c) (t_outbox_jobs (c_db c))"

text \<open>
  The row of job \<open>i\<close> before and after: a completed job stays completed; unless \<open>i\<close> may be finished,
  its lock stays, or is renewed after it has timed out.
\<close>

definition relocked :: "int \<Rightarrow> OutboxJob \<Rightarrow> OutboxJob \<Rightarrow> bool" where
  "relocked timeout j j' \<longleftrightarrow> (\<exists>s. jb_LockedAt j' = Some s \<and> (\<forall>t. jb_LockedAt j = Some t \<longrightarrow> t + timeout < s))"

definition job_step :: "int \<Rightarrow> bool \<Rightarrow> OutboxJob \<Rightarrow> OutboxJob \<Rightarrow> bool" where
  "job_step timeout may_finish j j' \<longleftrightarrow>
     (jb_CompletedAt j \<noteq> None \<longrightarrow> jb_CompletedAt j' \<noteq> None)
     \<and> (may_finish \<or> jb_LockedAt j' = jb_LockedAt j \<or> relocked timeout j j')"

definition queue_rel :: "int \<Rightarrow> (int \<Rightarrow> bool) \<Rightarrow> core \<Rightarrow> core \<Rightarrow> bool" where
  "queue_rel timeout fin c c' \<longleftrightarrow> (jobs_ok c \<longrightarrow> jobs_ok c')
     \<and> (\<forall>i j. job_at c i = Some j \<longrightarrow> (\<exists>j'. job_at c' i = Some j' \<and> job_step timeout (fin i) j j'))"

lemma queue_rel_same:
  "t_outbox_jobs (c_db c') = t_outbox_jobs (c_db c) \<Longrightarrow> c_job_seq c \<le> c_job_seq c' \<Longrightarrow> queue_rel timeout fin c c'"
  by (auto simp: queue_rel_def jobs_ok_def job_step_def list_all_iff)

lemma queue_rel_grow: "jobs_rel c c' \<Longrightarrow> queue_rel timeout fin c c'"
proof -
  assume "jobs_rel c c'"
  then obtain new where new: "t_outbox_jobs (c_db c') = t_outbox_jobs (c_db c) @ new" "sorted_wrt (<) (map jb_ID new)"
      "list_all (\<lambda>j. c_job_seq c < jb_ID j \<and> jb_ID j \<le> c_job_seq c') new" "c_job_seq c \<le> c_job_seq c'"
    by (auto simp: jobs_rel_def)
  have "jobs_ok c'" if "jobs_ok c"
    using that new by (force simp: jobs_ok_def list_all_iff strict_sorted_iff)
  then show ?thesis
    by (auto simp: queue_rel_def new(1) lookup_append job_step_def)
qed

lemma queue_rel_update:
  assumes "keyed_update jb_ID upd" and "\<And>j. jb_ID j = k \<Longrightarrow> job_at c k = Some j \<Longrightarrow> job_step timeout (fin k) j (upd j)"
  shows "queue_rel timeout fin c (on_jobs (update_where (\<lambda>r. jb_ID r = k) upd) c)"
proof -
  let ?c = "on_jobs (update_where (\<lambda>r. jb_ID r = k) upd) c"
  have at: "job_at ?c i = map_option (\<lambda>r. if jb_ID r = k then upd r else r) (job_at c i)" for i
    using keyed_update.lookup_update [OF assms(1)] by (simp add: on_jobs_def)
  have "\<exists>j'. job_at ?c i = Some j' \<and> job_step timeout (fin i) j j'" if j: "job_at c i = Some j" for i j
    using assms(2) [of j] j lookup_SomeD [OF j] by (auto simp: at job_step_def)
  moreover have "jobs_ok ?c" if "jobs_ok c"
    using that keyed_update.map_key_update [OF assms(1)] keyed_update.keys_update [OF assms(1)]
    by (simp add: jobs_ok_def on_jobs_def list_all_iff) (metis (no_types, lifting) imageE image_eqI)
  ultimately show ?thesis by (simp add: queue_rel_def)
qed

lemma exec_core:
  assumes "exec env f w = (r, w')"
  shows "w_core w' = w_core w \<or> w_core w' = snd (f (pg_now env w) (w_core w))"
  using assms by (auto simp: exec_def split: if_splits prod.splits sum.splits)

lemma Complete_queue:
  assumes "CompleteOutboxJob env k w = (r, w')" "fin k"
  shows "queue_rel timeout fin (w_core w) (w_core w')"
proof -
  have "queue_rel timeout fin c (on_jobs (update_where (\<lambda>r. jb_ID r = k)
      (\<lambda>j. j\<lparr>jb_CompletedAt := Some now, jb_LockedAt := None, jb_LockedBy := None, jb_LastError := None\<rparr>)) c)" for now c
    by (rule queue_rel_update) (use assms(2) in \<open>auto simp: keyed_update_def job_step_def\<close>)
  with assms(1) show ?thesis
    by (auto simp: CompleteOutboxJob_def CompleteOutboxJob_sql_def queue_rel_same dest!: exec_core)
qed

lemma Fail_queue:
  assumes "FailOutboxJob env k message delay w = (r, w')" "fin k"
  shows "queue_rel timeout fin (w_core w) (w_core w')"
proof -
  have "queue_rel timeout fin c (on_jobs (update_where (\<lambda>r. jb_ID r = k)
      (\<lambda>j. j\<lparr>jb_LockedAt := None, jb_LockedBy := None, jb_LastError := Some message, jb_AvailableAt := now + delay\<rparr>)) c)" for now c
    by (rule queue_rel_update) (use assms(2) in \<open>auto simp: keyed_update_def job_step_def\<close>)
  with assms(1) show ?thesis
    by (auto simp: FailOutboxJob_def FailOutboxJob_sql_def queue_rel_same dest!: exec_core)
qed

subsection \<open>Claims\<close>

lemma candidate_SomeD:
  assumes "candidate now timeout jobs = Some j"
  shows "j \<in> set jobs" "claimable now timeout j"
    "\<And>k. k \<in> set jobs \<Longrightarrow> claimable now timeout k \<Longrightarrow> (jb_AvailableAt j, jb_ID j) \<le> (jb_AvailableAt k, jb_ID k)"
proof -
  let ?key = "\<lambda>j. (jb_AvailableAt j, jb_ID j)"
  obtain js where js: "sort_key ?key (filter (claimable now timeout) jobs) = j # js"
    using assms by (auto simp: candidate_def split: list.splits)
  have set: "set (j # js) = {k \<in> set jobs. claimable now timeout k}"
    unfolding js [symmetric] by auto
  then show "j \<in> set jobs" "claimable now timeout j" by auto
  have "sorted (map ?key (j # js))" unfolding js [symmetric] by (rule sorted_sort_key)
  then show "?key j \<le> ?key k" if "k \<in> set jobs" "claimable now timeout k" for k
    using that set by auto
qed

lemma candidate_None: "candidate now timeout jobs = None \<longleftrightarrow> (\<forall>j \<in> set jobs. \<not> claimable now timeout j)"
  unfolding candidate_def
  by (auto split: list.splits simp: filter_empty_conv)
    (metis filter_empty_conv length_0_conv length_sort, metis filter_False list.distinct(1) sort_key_simps(1))

abbreviation claimed :: "time \<Rightarrow> string \<Rightarrow> OutboxJob \<Rightarrow> OutboxJob" where
  "claimed now worker j \<equiv> j\<lparr>jb_LockedAt := Some now, jb_LockedBy := Some worker, jb_Attempts := jb_Attempts j + 1\<rparr>"

lemma Claim_Inr:
  assumes "ClaimOutboxJob env worker timeout w = (Inr j, w')"
  obtains k where "candidate (pg_now env w) timeout (t_outbox_jobs (w_db w)) = Some k"
    "j = claimed (pg_now env w) worker k" "jb_Attempts k + 1 \<le> max_int32"
    "w_core w' = on_jobs (update_where (\<lambda>r. jb_ID r = jb_ID k) (claimed (pg_now env w) worker)) (w_core w)"
  using assms
  by (auto simp: ClaimOutboxJob_def ClaimOutboxJob_sql_def bindM_def mapNoRows_def failM_def returnM_def exec_def Let_def
      split: if_splits prod.splits sum.splits option.splits)

lemma job_at_member: "jobs_ok c \<Longrightarrow> j \<in> set (t_outbox_jobs (c_db c)) \<Longrightarrow> job_at c (jb_ID j) = Some j"
  by (simp add: jobs_ok_def lookup_distinct)

lemma Claim_queue:
  assumes "ClaimOutboxJob env worker timeout w = (r, w')" "jobs_ok (w_core w)"
  shows "queue_rel timeout fin (w_core w) (w_core w')"
proof (cases r)
  case (Inl e)
  then have "w_core w' = w_core w"
    using assms(1)
    by (auto simp: ClaimOutboxJob_def ClaimOutboxJob_sql_def bindM_def mapNoRows_def failM_def returnM_def exec_def Let_def
      split: if_splits prod.splits sum.splits option.splits)
  then show ?thesis by (simp add: queue_rel_same)
next
  case (Inr j)
  let ?now = "pg_now env w"
  obtain k where k: "candidate ?now timeout (t_outbox_jobs (w_db w)) = Some k"
      "w_core w' = on_jobs (update_where (\<lambda>r. jb_ID r = jb_ID k) (claimed ?now worker)) (w_core w)"
    by (rule Claim_Inr [OF assms(1) [unfolded Inr]])
  have "job_at (w_core w) (jb_ID k) = Some k" by (rule job_at_member [OF assms(2) candidate_SomeD(1) [OF k(1)]])
  moreover have "relocked timeout k (claimed ?now worker k)"
    using candidate_SomeD(2) [OF k(1)] by (auto simp: relocked_def claimable_def)
  ultimately show ?thesis
    unfolding k(2) by (intro queue_rel_update) (auto simp: keyed_update_def job_step_def)
qed

subsection \<open>Processing a job\<close>

text \<open>Everything but the snapshots; what a worker may not touch while it processes a job.\<close>

definition no_snapshots :: "core \<Rightarrow> core" where
  "no_snapshots c = on_snapshots (\<lambda>_. []) c"

lemma keeps_WithTx:
  assumes "keeps p fn" "\<And>a b. p a = p b \<Longrightarrow> p (b\<lparr>c_db := c_db a\<rparr>) = p a"
  shows "keeps p (WithTx env fn)"
proof (rule keepsI)
  fix w r w' assume run: "WithTx env fn w = (r, w')"
  show "p (w_core w') = p (w_core w)"
  proof (cases "w_in_tx w")
    case True
    then show ?thesis using run keepsD [OF assms(1)] by (simp add: WithTx_def)
  next
    case False
    show ?thesis
      by (cases rule: WithTx_cases [OF run False])
        (use keepsD [OF assms(1)] assms(2) in \<open>simp, metis\<close>)
  qed
qed

lemma no_snapshots_undo: "no_snapshots a = no_snapshots b \<Longrightarrow> no_snapshots (b\<lparr>c_db := c_db a\<rparr>) = no_snapshots a"
  by (cases a; cases b) (simp add: no_snapshots_def on_snapshots_def)

lemma reads_note_document [reads_rules]:
  "reads_in {ErrDB, ErrTxAborted, ErrNotFound} (GetNoteDocument env i owner)"
  unfolding GetNoteDocument_def GetNoteForOwner_def GetNoteForOwner_sql_def ListBlocksForNote_def
    ListBlocksForNote_sql_def GetLastAppliedCursorForNote_def GetLastAppliedCursorForNote_sql_def
  by (intro reads_rules; simp)

lemma keeps_InsertSnapshot: "keeps no_snapshots (InsertSnapshot env s)"
  unfolding InsertSnapshot_def InsertSnapshot_sql_def
  by (intro keeps_rules) (simp add: Let_def no_snapshots_def on_snapshots_def split: option.split)

lemma keeps_CreateSnapshot: "keeps no_snapshots (CreateSnapshot env jc payload)"
  unfolding CreateSnapshot_def EncodeSnapshot_def Let_def liftM_def
  by (intro keeps_rules keeps_reads [OF reads_note_document])
    (auto intro!: keeps_rules keeps_InsertSnapshot split: sum.split)

lemma keeps_processJob: "keeps no_snapshots (processJob env jc job)"
proof -
  have "keeps no_snapshots (WithTx env (bindM (CreateSnapshot env jc payload) (\<lambda>_. returnM ())))" for payload
    by (rule keeps_WithTx [OF keeps_bind [OF keeps_CreateSnapshot keeps_return] no_snapshots_undo])
  then show ?thesis
    unfolding processJob_def liftM_def by (auto intro!: keeps_rules split: sum.split)
qed

lemma no_snapshots_eq:
  assumes "no_snapshots c' = no_snapshots c"
  shows "t_outbox_jobs (c_db c') = t_outbox_jobs (c_db c)" "c_job_seq c' = c_job_seq c" "db_ok c' = db_ok c"
    "c' = on_snapshots (\<lambda>_. t_note_snapshots (c_db c')) c"
proof -
  show eq: "c' = on_snapshots (\<lambda>_. t_note_snapshots (c_db c')) c"
    using assms by (cases c; cases c'; cases "c_db c"; cases "c_db c'") (simp add: no_snapshots_def on_snapshots_def)
  show "t_outbox_jobs (c_db c') = t_outbox_jobs (c_db c)" "c_job_seq c' = c_job_seq c"
    by (subst eq, simp add: on_snapshots_def)+
  show "db_ok c' = db_ok c"
    by (subst eq) (simp add: db_ok_def notes_ok_def blocks_ok_def changes_ok_def change_ok_def [abs_def] changes_of_def
        owns_def owns_device_def on_snapshots_def)
qed

lemma no_snapshots_fields:
  assumes "no_snapshots c' = no_snapshots c"
  shows "t_notes (c_db c') = t_notes (c_db c)" "t_sync_devices (c_db c') = t_sync_devices (c_db c)" "history c' = history c"
  by (subst no_snapshots_eq(4) [OF assms], simp add: on_snapshots_def)+

lemma stable_WithTx [stable_rules]:
  assumes "tx_stable fn"
  shows "tx_stable (WithTx env fn)"
proof (rule tx_stableI)
  fix w r w' assume run: "WithTx env fn w = (r, w')"
  have "w_aborted w'" if "w_in_tx w" "w_aborted w"
    using that run assms by (metis WithTx_def snd_conv tx_stable_def)
  then show "w_in_tx w' = w_in_tx w \<and> (w_in_tx w \<and> w_aborted w \<longrightarrow> w_aborted w') \<and> w_events w' = w_events w
      \<and> w_tick w \<le> w_tick w'"
    using WithTx_events [OF assms run] WithTx_tick [OF assms run] by blast
qed

lemma stable_CreateSnapshot [stable_rules]: "tx_stable (CreateSnapshot env jc payload)"
  unfolding CreateSnapshot_def InsertSnapshot_def InsertSnapshot_sql_def EncodeSnapshot_def Let_def liftM_def
    GetNoteDocument_def GetNoteForOwner_def GetNoteForOwner_sql_def ListBlocksForNote_def
    ListBlocksForNote_sql_def GetLastAppliedCursorForNote_def GetLastAppliedCursorForNote_sql_def
  by (auto intro!: stable_rules split: sum.split)

lemma stable_processJob [stable_rules]: "tx_stable (processJob env jc job)"
  unfolding processJob_def liftM_def by (auto intro!: stable_rules split: sum.split)

subsection \<open>Schedules\<close>

inductive queue_run :: "int \<Rightarrow> (int \<Rightarrow> bool) \<Rightarrow> world \<Rightarrow> world \<Rightarrow> bool" for timeout fin where
  run_refl: "queue_run timeout fin w w"
| run_claim: "queue_run timeout fin w w1 \<Longrightarrow> ClaimOutboxJob env worker timeout w1 = (r, w2) \<Longrightarrow> queue_run timeout fin w w2"
| run_complete: "queue_run timeout fin w w1 \<Longrightarrow> fin k \<Longrightarrow> CompleteOutboxJob env k w1 = (r', w2) \<Longrightarrow> queue_run timeout fin w w2"
| run_fail: "queue_run timeout fin w w1 \<Longrightarrow> fin k \<Longrightarrow> FailOutboxJob env k message delay w1 = (r', w2) \<Longrightarrow>
    queue_run timeout fin w w2"
| run_process: "queue_run timeout fin w w1 \<Longrightarrow> processJob env jc job w1 = (r', w2) \<Longrightarrow> queue_run timeout fin w w2"
| run_push: "queue_run timeout fin w w1 \<Longrightarrow> Sync env sv owner req w1 = (r'', w2) \<Longrightarrow> queue_run timeout fin w w2"

definition idle :: "world \<Rightarrow> bool" where
  "idle w \<longleftrightarrow> \<not> w_in_tx w \<and> db_ok (w_core w) \<and> jobs_ok (w_core w)"

lemma stable_out: "tx_stable m \<Longrightarrow> m w = (r, w') \<Longrightarrow> w_in_tx w' = w_in_tx w"
  by (metis snd_conv tx_stable_def)

lemma stable_queue:
  "tx_stable (ClaimOutboxJob env worker timeout)" "tx_stable (CompleteOutboxJob env k)"
  "tx_stable (FailOutboxJob env k message delay)"
  unfolding ClaimOutboxJob_def ClaimOutboxJob_sql_def CompleteOutboxJob_def CompleteOutboxJob_sql_def
    FailOutboxJob_def FailOutboxJob_sql_def
  by (intro stable_rules)+

definition no_jobs :: "core \<Rightarrow> core" where
  "no_jobs c = on_jobs (\<lambda>_. []) c"

lemma keeps_queue:
  "keeps no_jobs (ClaimOutboxJob env worker timeout)" "keeps no_jobs (CompleteOutboxJob env k)"
  "keeps no_jobs (FailOutboxJob env k message delay)"
  unfolding ClaimOutboxJob_def ClaimOutboxJob_sql_def CompleteOutboxJob_def CompleteOutboxJob_sql_def
    FailOutboxJob_def FailOutboxJob_sql_def
  by (intro keeps_rules; simp add: Let_def no_jobs_def on_jobs_def split: option.split)+

lemma no_jobs_eq:
  assumes "no_jobs c' = no_jobs c"
  shows "c' = on_jobs (\<lambda>_. t_outbox_jobs (c_db c')) c" "db_ok c' = db_ok c"
proof -
  show eq: "c' = on_jobs (\<lambda>_. t_outbox_jobs (c_db c')) c"
    using assms by (cases c; cases c'; cases "c_db c"; cases "c_db c'") (simp add: no_jobs_def on_jobs_def)
  show "db_ok c' = db_ok c"
    by (subst eq) (simp add: db_ok_def notes_ok_def blocks_ok_def changes_ok_def change_ok_def [abs_def] changes_of_def
        owns_def owns_device_def on_jobs_def)
qed

lemma queue_idle:
  "idle w \<Longrightarrow> ClaimOutboxJob env worker timeout w = (r, w') \<Longrightarrow> idle w'"
  "idle w \<Longrightarrow> CompleteOutboxJob env k w = (r', w') \<Longrightarrow> idle w'"
  "idle w \<Longrightarrow> FailOutboxJob env k message delay w = (r', w') \<Longrightarrow> idle w'"
  using Claim_queue [of env worker timeout w r w' "\<lambda>_. True"] Complete_queue [of env k w r' w' "\<lambda>_. True"]
    Fail_queue [of env k message delay w r' w' "\<lambda>_. True"]
    stable_out [OF stable_queue(1), of env worker timeout w] stable_out [OF stable_queue(2), of env k w]
    stable_out [OF stable_queue(3), of env k message delay w]
    no_jobs_eq(2) [OF keepsD [OF keeps_queue(1)], of env worker timeout w]
    no_jobs_eq(2) [OF keepsD [OF keeps_queue(2)], of env k w]
    no_jobs_eq(2) [OF keepsD [OF keeps_queue(3)], of env k message delay w]
  by (auto simp: idle_def queue_rel_def)

lemma process_idle:
  assumes "idle w" "processJob env jc job w = (r, w')"
  shows "idle w' \<and> queue_rel timeout fin (w_core w) (w_core w')"
proof -
  have same: "no_snapshots (w_core w') = no_snapshots (w_core w)" by (rule keepsD [OF keeps_processJob assms(2)])
  then show ?thesis
    using no_snapshots_eq(1-3) [OF same] stable_out [OF stable_processJob assms(2)] assms(1)
    by (simp add: idle_def queue_rel_same jobs_ok_def)
qed

lemma push_idle:
  assumes "idle w" "Sync env sv owner req w = (r, w')"
  shows "idle w' \<and> queue_rel timeout fin (w_core w) (w_core w')"
proof -
  note s = Sync_rel [OF _ _ assms(2)]
  have "jobs_rel (w_core w) (w_core w')" "db_ok (w_core w')" "\<not> w_in_tx w'"
    using s assms(1) by (auto simp: idle_def sync_rel_def sync_step_def other_rel_def)
  then show ?thesis
    using queue_rel_grow [of "w_core w" "w_core w'"] assms(1) by (auto simp: idle_def queue_rel_def)
qed

lemma queue_run_idle:
  assumes "queue_run timeout fin w w'" "idle w"
  shows "idle w'"
  using assms by (induction rule: queue_run.induct) (auto dest: queue_idle process_idle push_idle)

text \<open>What one step of a schedule does to every job.\<close>

lemma queue_run_steps:
  assumes "queue_run timeout fin w w'" "idle w" "P (w_core w)"
    and step: "\<And>c c'. P c \<Longrightarrow> jobs_ok c \<Longrightarrow> queue_rel timeout fin c c' \<Longrightarrow> P c'"
  shows "P (w_core w')"
  using assms(1-3)
proof (induction rule: queue_run.induct)
  case (run_claim w w1 env worker r w2)
  have i: "idle w1" using run_claim.hyps(1) run_claim.prems(1) by (rule queue_run_idle)
  have "P (w_core w1)" using run_claim.IH run_claim.prems by blast
  then show ?case
    by (rule step) (use i Claim_queue [OF run_claim.hyps(2)] in \<open>auto simp: idle_def\<close>)
next
  case (run_complete w w1 k env r' w2)
  have i: "idle w1" using run_complete.hyps(1) run_complete.prems(1) by (rule queue_run_idle)
  have "P (w_core w1)" using run_complete.IH run_complete.prems by blast
  then show ?case
    by (rule step) (use i Complete_queue [OF run_complete.hyps(3), of fin] run_complete.hyps(2) in \<open>auto simp: idle_def\<close>)
next
  case (run_fail w w1 k env message delay r' w2)
  have i: "idle w1" using run_fail.hyps(1) run_fail.prems(1) by (rule queue_run_idle)
  have "P (w_core w1)" using run_fail.IH run_fail.prems by blast
  then show ?case
    by (rule step) (use i Fail_queue [OF run_fail.hyps(3), of fin] run_fail.hyps(2) in \<open>auto simp: idle_def\<close>)
next
  case (run_process w w1 env jc job r' w2)
  have i: "idle w1" using run_process.hyps(1) run_process.prems(1) by (rule queue_run_idle)
  have "P (w_core w1)" using run_process.IH run_process.prems by blast
  then show ?case
    by (rule step) (use i process_idle [OF i run_process.hyps(2)] in \<open>auto simp: idle_def\<close>)
next
  case (run_push w w1 env sv owner req r'' w2)
  have i: "idle w1" using run_push.hyps(1) run_push.prems(1) by (rule queue_run_idle)
  have "P (w_core w1)" using run_push.IH run_push.prems by blast
  then show ?case
    by (rule step) (use i push_idle [OF i run_push.hyps(2)] in \<open>auto simp: idle_def\<close>)
qed simp

end
