(* ===== verification/Uploads_Inv.thy ===== *)
theory Uploads_Inv
  imports Upload_Service Jobs_Inv
begin

section \<open>The life of an upload\<close>

text \<open>
  The relation between the tables before and after any upload request, whole or resumed after other
  requests have run: rows are only added, what identifies a row and what was declared about the file
  never changes, the status moves forward, and a completed row holds what was verified. A request
  that acts on a row it has read earlier relies on that row being there still; \<open>known\<close> says so,
  and is kept by the relation. The locale \<open>guarded_calls\<close> has the rules for composing such calls.
\<close>

subsection \<open>Calls that stay inside a relation\<close>

definition stays :: "(core \<Rightarrow> core \<Rightarrow> bool) \<Rightarrow> (core \<Rightarrow> bool) \<Rightarrow> 'a call \<Rightarrow> bool" where
  "stays R P m \<longleftrightarrow> (\<forall>w. P (w_core w) \<longrightarrow> R (w_core w) (w_core (snd (m w))))"

lemma staysD: "stays R P m \<Longrightarrow> P (w_core w) \<Longrightarrow> m w = (r, w') \<Longrightarrow> R (w_core w) (w_core w')"
  unfolding stays_def by (metis snd_conv)

lemma staysI: "(\<And>w r w'. P (w_core w) \<Longrightarrow> m w = (r, w') \<Longrightarrow> R (w_core w) (w_core w')) \<Longrightarrow> stays R P m"
  unfolding stays_def by (metis prod.collapse)

lemma stays_mono: "stays R P m \<Longrightarrow> (\<And>c. P' c \<Longrightarrow> P c) \<Longrightarrow> stays R P' m"
  by (auto simp: stays_def)

named_theorems stays_rules "calls that stay inside a relation"

lemma stays_if [stays_rules]:
  "(b \<Longrightarrow> stays R P m) \<Longrightarrow> (\<not> b \<Longrightarrow> stays R P m') \<Longrightarrow> stays R P (if b then m else m')"
  by simp

lemma stays_option [stays_rules]:
  "(x = None \<Longrightarrow> stays R P m) \<Longrightarrow> (\<And>a. x = Some a \<Longrightarrow> stays R P (f a)) \<Longrightarrow>
   stays R P (case x of None \<Rightarrow> m | Some a \<Rightarrow> f a)"
  by (cases x) simp_all

lemma stays_exec:
  assumes "\<And>now c. P c \<Longrightarrow> R c (snd (f now c))" "\<And>c. R c c"
  shows "stays R P (exec env f)"
  using assms by (auto simp: stays_def exec_def split: prod.split sum.split) (metis snd_conv)+

locale guarded_calls =
  fixes R :: "core \<Rightarrow> core \<Rightarrow> bool" and K :: "'k \<Rightarrow> core \<Rightarrow> bool"
  assumes R_refl: "R c c"
    and R_trans: "R a b \<Longrightarrow> R b c \<Longrightarrow> R a c"
    and K_closed: "K k a \<Longrightarrow> R a b \<Longrightarrow> K k b"
begin

lemma stays_return [stays_rules]: "stays R P (returnM a)"
  by (simp add: stays_def returnM_def R_refl)

lemma stays_fail [stays_rules]: "stays R P (failM e)"
  by (simp add: stays_def failM_def R_refl)

lemma stays_keeps: "keeps id m \<Longrightarrow> stays R P m"
  by (simp add: keeps_def stays_def R_refl)

lemma stays_reads: "reads_in S m \<Longrightarrow> stays R P m"
  by (intro stays_keeps keeps_reads)

text \<open>A call whose result is known afterwards, for the rest of the request.\<close>

lemma stays_learn:
  assumes m: "stays R P m" and h: "\<And>e. stays R P (h e)" and f: "\<And>a. stays R (K (g a)) (f a)"
    and learn: "\<And>w a w'. m w = (Inr a, w') \<Longrightarrow> P (w_core w) \<Longrightarrow> K (g a) (w_core w')"
    and P: "\<And>a b. P a \<Longrightarrow> R a b \<Longrightarrow> P b"
  shows "stays R P (catchM m h f)"
proof (rule staysI)
  fix w r w' assume w: "P (w_core w)" and run: "catchM m h f w = (r, w')"
  obtain r1 w1 where w1: "m w = (r1, w1)" by (cases "m w")
  have first_step: "R (w_core w) (w_core w1)" by (rule staysD [OF m w w1])
  have "R (w_core w1) (w_core w')"
  proof (cases r1)
    case (Inl e)
    with run w1 have "h e w1 = (r, w')" by (simp add: catchM_def)
    then show ?thesis by (rule staysD [OF h P [OF w first_step]])
  next
    case (Inr a)
    with run w1 have "f a w1 = (r, w')" by (simp add: catchM_def)
    then show ?thesis by (rule staysD [OF f learn [OF w1 [unfolded Inr] w]])
  qed
  with first_step show "R (w_core w) (w_core w')" by (rule R_trans)
qed

lemma stays_catch [stays_rules]:
  assumes "stays R (K k) m" "\<And>e. stays R (K k) (h e)" "\<And>a. stays R (K k) (f a)"
  shows "stays R (K k) (catchM m h f)"
  using assms by (rule stays_learn) (use assms(1) in \<open>auto intro: K_closed dest: staysD\<close>)

lemma stays_bind [stays_rules]:
  "stays R (K k) m \<Longrightarrow> (\<And>a. stays R (K k) (f a)) \<Longrightarrow> stays R (K k) (bindM m f)"
  unfolding bind_catch by (intro stays_catch stays_fail)

lemma stays_learn_bind:
  assumes "stays R P m" "\<And>a. stays R (K (g a)) (f a)"
    and "\<And>w a w'. m w = (Inr a, w') \<Longrightarrow> P (w_core w) \<Longrightarrow> K (g a) (w_core w')"
    and "\<And>a b. P a \<Longrightarrow> R a b \<Longrightarrow> P b"
  shows "stays R P (bindM m f)"
  unfolding bind_catch using assms(1) stays_fail assms(2-) by (rule stays_learn)

end

subsection \<open>Rows\<close>

abbreviation uploads :: "core \<Rightarrow> file_upload_row list" where
  "uploads c \<equiv> t_file_uploads (c_db c)"

text \<open>What identifies a row and what was declared: every column but the ones of the outcome.\<close>

definition frozen :: "file_upload_row \<Rightarrow> file_upload_row" where
  "frozen r = r\<lparr>ur_ActualSize := None, ur_VerifiedContentType := None, ur_Status := [], ur_ErrorMessage := None,
     ur_CompletedAt := None, ur_UpdatedAt := zeroTime\<rparr>"

text \<open>The status moves forward; \<open>DELETED\<close> is final, and \<open>CANCELLED\<close> leads to \<open>DELETED\<close> only.\<close>

definition forward :: "string \<Rightarrow> string \<Rightarrow> bool" where
  "forward s s' \<longleftrightarrow> s' = s
     \<or> (s = StatusPending \<and> s' \<in> {StatusCompleted, StatusFailed, StatusExpired, StatusCancelled, StatusDeleted})
     \<or> (s \<in> {StatusCompleted, StatusFailed, StatusExpired, StatusCancelled} \<and> s' \<in> {StatusCancelled, StatusDeleted})"

definition unverified :: "file_upload_row \<Rightarrow> bool" where
  "unverified r \<longleftrightarrow> ur_ActualSize r = None \<and> ur_VerifiedContentType r = None \<and> ur_CompletedAt r = None"

definition verified :: "file_upload_row \<Rightarrow> bool" where
  "verified r \<longleftrightarrow> ur_ActualSize r = Some (ur_ExpectedSize r) \<and> ur_VerifiedContentType r = Some (ur_ContentType r)
     \<and> ur_CompletedAt r \<noteq> None"

definition upload_ok :: "media \<Rightarrow> file_upload_row \<Rightarrow> bool" where
  "upload_ok md r \<longleftrightarrow> 0 < ur_ExpectedSize r \<and> ur_ContentType r \<noteq> []
     \<and> normalizedType md (ur_ContentType r) = ur_ContentType r
     \<and> (ur_Status r \<in> {StatusPending, StatusFailed, StatusExpired} \<and> unverified r
        \<or> ur_Status r = StatusCompleted \<and> verified r
        \<or> ur_Status r \<in> {StatusCancelled, StatusDeleted} \<and> (unverified r \<or> verified r))"

definition row_step :: "media \<Rightarrow> file_upload_row \<Rightarrow> file_upload_row \<Rightarrow> bool" where
  "row_step md r r' \<longleftrightarrow> frozen r' = frozen r
     \<and> (upload_ok md r \<longrightarrow> upload_ok md r' \<and> forward (ur_Status r) (ur_Status r')
          \<and> (ur_Status r = StatusCompleted \<and> ur_Status r' = StatusCompleted \<longrightarrow> r' = r))"

definition no_uploads :: "core \<Rightarrow> core" where
  "no_uploads c = on_uploads (\<lambda>_. []) (c\<lparr>c_upload_seq := 0\<rparr>)"

definition new_upload :: "media \<Rightarrow> int \<Rightarrow> int \<Rightarrow> file_upload_row \<Rightarrow> bool" where
  "new_upload md lo hi r \<longleftrightarrow> upload_ok md r \<and> (\<exists>k. ur_Cursor r = Some k \<and> lo < k \<and> k \<le> hi)"

definition uploads_rel :: "media \<Rightarrow> core \<Rightarrow> core \<Rightarrow> bool" where
  "uploads_rel md c c' \<longleftrightarrow> no_uploads c' = no_uploads c \<and> c_upload_seq c \<le> c_upload_seq c'
     \<and> (\<exists>olds new. uploads c' = olds @ new \<and> list_all2 (row_step md) (uploads c) olds
          \<and> list_all (new_upload md (c_upload_seq c) (c_upload_seq c')) new
          \<and> sorted_wrt (<) (map (the \<circ> ur_Cursor) new))
     \<and> (distinct (map ur_ID (uploads c)) \<longrightarrow> distinct (map ur_ID (uploads c')))"

text \<open>The rows that a request has read and still holds.\<close>

definition read_from :: "FileUpload \<Rightarrow> file_upload_row \<Rightarrow> bool" where
  "read_from u r \<longleftrightarrow> ur_ID r = fu_ID u \<and> ur_OwnerID r = fu_OwnerID u \<and> ur_ExpectedSize r = fu_ExpectedSize u
     \<and> ur_ContentType r = fu_ContentType u"

definition known :: "FileUpload list \<Rightarrow> core \<Rightarrow> bool" where
  "known us c \<longleftrightarrow> distinct (map ur_ID (uploads c)) \<and> (\<forall>u \<in> set us. \<exists>r \<in> set (uploads c). read_from u r)"

lemma forward_refl: "forward s s"
  by (simp add: forward_def)

lemma forward_trans: "forward s s' \<Longrightarrow> forward s' s'' \<Longrightarrow> forward s s''"
  by (auto simp: forward_def)

lemma frozen_fields:
  assumes "frozen r' = frozen r"
  shows "ur_ID r' = ur_ID r" "ur_NoteID r' = ur_NoteID r" "ur_OwnerID r' = ur_OwnerID r" "ur_BlockID r' = ur_BlockID r"
    "ur_Cursor r' = ur_Cursor r" "ur_DeviceID r' = ur_DeviceID r" "ur_ExpectedSize r' = ur_ExpectedSize r"
    "ur_ContentType r' = ur_ContentType r" "ur_StorageBucket r' = ur_StorageBucket r"
    "ur_StoragePath r' = ur_StoragePath r" "ur_ExpiresAt r' = ur_ExpiresAt r"
  using assms by (cases r; cases r'; simp add: frozen_def)+

lemma row_step_refl: "row_step md r r"
  by (simp add: row_step_def forward_refl)

lemma forward_completed: "forward StatusCompleted s \<Longrightarrow> forward s StatusCompleted \<Longrightarrow> s = StatusCompleted"
  by (auto simp: forward_def)

lemma row_step_trans:
  assumes "row_step md a b" "row_step md b c"
  shows "row_step md a c"
proof -
  have "c = a" if "upload_ok md a" "ur_Status a = StatusCompleted" "ur_Status c = StatusCompleted"
    using assms that forward_completed [of "ur_Status b"] by (auto simp: row_step_def)
  then show ?thesis using assms by (auto simp: row_step_def intro: forward_trans)
qed

lemma row_step_fields:
  assumes "row_step md r r'"
  shows "ur_ID r' = ur_ID r" "ur_OwnerID r' = ur_OwnerID r" "ur_Cursor r' = ur_Cursor r"
    "ur_ExpectedSize r' = ur_ExpectedSize r" "ur_ContentType r' = ur_ContentType r"
  using assms frozen_fields [of r' r] by (simp_all add: row_step_def)

lemma row_step_new: "row_step md r r' \<Longrightarrow> new_upload md lo hi r \<Longrightarrow> new_upload md lo hi r'"
  by (auto simp: row_step_def new_upload_def dest: frozen_fields(5))

lemma rows_step_new:
  assumes "list_all2 (row_step md) rs rs'" "list_all (new_upload md lo hi) rs"
  shows "list_all (new_upload md lo hi) rs' \<and> map (the \<circ> ur_Cursor) rs' = map (the \<circ> ur_Cursor) rs"
  using assms
  by (induction rule: list_all2_induct) (auto intro: row_step_new simp: row_step_fields(3))

lemma new_upload_mono: "new_upload md lo hi r \<Longrightarrow> lo' \<le> lo \<Longrightarrow> hi \<le> hi' \<Longrightarrow> new_upload md lo' hi' r"
  by (auto simp: new_upload_def)

lemma uploads_rel_refl: "uploads_rel md c c"
  unfolding uploads_rel_def
  by (intro conjI exI [of _ "uploads c"] exI [of _ "[]"]) (simp_all add: list_all2_same row_step_refl)

lemma uploads_rel_trans:
  assumes "uploads_rel md a b" "uploads_rel md b c"
  shows "uploads_rel md a c"
proof -
  obtain olds new where ab: "uploads b = olds @ new" "list_all2 (row_step md) (uploads a) olds"
      "list_all (new_upload md (c_upload_seq a) (c_upload_seq b)) new" "sorted_wrt (<) (map (the \<circ> ur_Cursor) new)"
    using assms(1) by (auto simp: uploads_rel_def)
  obtain olds' new' where bc: "uploads c = olds' @ new'" "list_all2 (row_step md) (uploads b) olds'"
      "list_all (new_upload md (c_upload_seq b) (c_upload_seq c)) new'" "sorted_wrt (<) (map (the \<circ> ur_Cursor) new')"
    using assms(2) by (auto simp: uploads_rel_def)
  obtain o1 o2 where o: "olds' = o1 @ o2" "list_all2 (row_step md) olds o1" "list_all2 (row_step md) new o2"
    using bc(2) unfolding ab(1) by (auto simp: list_all2_append1)
  have seq: "c_upload_seq a \<le> c_upload_seq b" "c_upload_seq b \<le> c_upload_seq c"
    using assms by (auto simp: uploads_rel_def)
  have o2: "list_all (new_upload md (c_upload_seq a) (c_upload_seq b)) o2"
      "map (the \<circ> ur_Cursor) o2 = map (the \<circ> ur_Cursor) new"
    using rows_step_new [OF o(3) ab(3)] by auto
  have "list_all (new_upload md (c_upload_seq a) (c_upload_seq c)) (o2 @ new')"
    using o2(1) bc(3) seq by (auto simp: list_all_iff intro: new_upload_mono)
  moreover have "sorted_wrt (<) (map (the \<circ> ur_Cursor) (o2 @ new'))"
  proof -
    have "the (ur_Cursor x) < the (ur_Cursor y)" if "x \<in> set o2" "y \<in> set new'" for x y
      using that o2(1) bc(3) by (force simp: list_all_iff new_upload_def)
    moreover have "sorted_wrt (<) (map (the \<circ> ur_Cursor) o2)" using o2(2) ab(4) by simp
    ultimately show ?thesis using bc(4) by (auto simp: sorted_wrt_append)
  qed
  moreover have "list_all2 (row_step md) (uploads a) o1"
    using list_all2_trans [OF row_step_trans ab(2) o(2)] .
  ultimately show ?thesis
    using assms seq bc(1) o(1) unfolding uploads_rel_def
    by (intro conjI exI [of _ o1] exI [of _ "o2 @ new'"]) auto
qed

lemma known_closed:
  assumes "known us a" "uploads_rel md a b"
  shows "known us b"
proof -
  obtain olds new where ab: "uploads b = olds @ new" "list_all2 (row_step md) (uploads a) olds"
    using assms(2) by (auto simp: uploads_rel_def)
  have "\<exists>r' \<in> set (uploads b). read_from u r'" if r: "r \<in> set (uploads a)" "read_from u r" for u r
  proof -
    obtain r' where "r' \<in> set olds" "row_step md r r'"
      using ab(2) r(1) by (metis in_set_conv_nth list_all2_conv_all_nth)
    then show ?thesis
      using r(2) ab(1) row_step_fields [of md r r'] by (intro bexI [of _ r']) (auto simp: read_from_def)
  qed
  then show ?thesis using assms by (fastforce simp: known_def uploads_rel_def)
qed

interpretation upload: guarded_calls "uploads_rel md" known for md
  by unfold_locales (auto intro: uploads_rel_refl uploads_rel_trans known_closed)

subsection \<open>Statements\<close>

lemma uploads_on [simp]: "uploads (on_uploads f c) = f (uploads c)" "c_upload_seq (on_uploads f c) = c_upload_seq c"
  by (simp_all add: on_uploads_def)

lemma uploads_update:
  assumes "\<And>r. r \<in> set (uploads c) \<Longrightarrow> cond r \<Longrightarrow> row_step md r (upd r)"
  shows "uploads_rel md c (on_uploads (update_where cond upd) c)"
proof -
  have step: "row_step md r (if cond r then upd r else r)" if "r \<in> set (uploads c)" for r
    using that assms by (simp add: row_step_refl)
  have "map ur_ID (update_where cond upd (uploads c)) = map ur_ID (uploads c)"
    using row_step_fields(1) [OF step] by (simp add: update_where_def)
  moreover have "list_all2 (row_step md) (uploads c) (update_where cond upd (uploads c))"
    using step by (simp add: update_where_def list_all2_conv_all_nth)
  ultimately show ?thesis
    unfolding uploads_rel_def
    by (intro conjI exI [of _ "update_where cond upd (uploads c)"] exI [of _ "[]"])
      (simp_all add: no_uploads_def on_uploads_def)
qed

lemma stays_update_upload:
  assumes "\<And>now r. cond r \<Longrightarrow> row_step md r (upd now r)"
  shows "stays (uploads_rel md) P (update_upload env cond upd)"
  unfolding update_upload_def by (rule stays_exec) (auto intro: uploads_update assms uploads_rel_refl)

lemma stays_one_upload [stays_rules]: "stays (uploads_rel md) P (one_upload row)"
  unfolding one_upload_def by (intro upload.stays_keeps keeps_rules)

lemma row_step_outcome:
  "ur_Status r = StatusPending \<Longrightarrow>
     row_step md r (r\<lparr>ur_Status := StatusFailed, ur_ErrorMessage := message, ur_UpdatedAt := now\<rparr>)"
  "ur_Status r = StatusPending \<Longrightarrow>
     row_step md r (r\<lparr>ur_Status := StatusExpired, ur_ErrorMessage := message, ur_UpdatedAt := now\<rparr>)"
  "ur_Status r \<noteq> StatusDeleted \<Longrightarrow>
     row_step md r (r\<lparr>ur_Status := StatusDeleted, ur_ErrorMessage := None, ur_UpdatedAt := now\<rparr>)"
  "ur_Status r \<noteq> StatusDeleted \<Longrightarrow> row_step md r (r\<lparr>ur_Status := StatusCancelled, ur_UpdatedAt := now\<rparr>)"
  by (auto simp: row_step_def frozen_def upload_ok_def unverified_def verified_def forward_def)

lemma stays_marks:
  "stays (uploads_rel md) (known us) (MarkFileUploadFailed env i owner message)"
  "stays (uploads_rel md) (known us) (MarkFileUploadDeleted env i owner)"
  "stays (uploads_rel md) (known us) (MarkFileUploadCancelled env i owner)"
  "stays (uploads_rel md) (known us) (MarkFileUploadExpired env i message)"
  unfolding MarkFileUploadFailed_def MarkFileUploadFailed_sql_def MarkFileUploadDeleted_def MarkFileUploadDeleted_sql_def
    MarkFileUploadCancelled_def MarkFileUploadCancelled_sql_def MarkFileUploadExpired_def MarkFileUploadExpired_sql_def
  by (intro upload.stays_bind stays_update_upload stays_one_upload; simp add: row_step_outcome)+

declare stays_marks [stays_rules]

text \<open>The owner of a row, its size and its type are what the request has read.\<close>

lemma known_row:
  assumes "known us c" "u \<in> set us" "r \<in> set (uploads c)" "ur_ID r = fu_ID u"
  shows "read_from u r"
proof -
  obtain r' where "r' \<in> set (uploads c)" "read_from u r'" using assms(1,2) by (auto simp: known_def)
  moreover have "r' = r"
    using assms calculation by (simp add: known_def read_from_def distinct_map) (metis inj_onD)
  ultimately show ?thesis by simp
qed

lemma stays_CompleteFileUpload [stays_rules]:
  assumes u: "u \<in> set us" and verified: "actualSize = fu_ExpectedSize u"
    "contentType = fu_ContentType u \<or> contentType = normalizedType md (fu_ContentType u)"
  shows "stays (uploads_rel md) (known us) (CompleteFileUpload env (fu_ID u) owner actualSize contentType)"
proof -
  let ?cond = "\<lambda>r. ur_ID r = fu_ID u \<and> ur_OwnerID r = owner \<and> ur_Status r = StatusPending"
  let ?upd = "\<lambda>now r. r\<lparr>ur_Status := StatusCompleted, ur_ActualSize := Some actualSize,
    ur_VerifiedContentType := nonempty_text contentType, ur_ErrorMessage := None, ur_CompletedAt := Some now,
    ur_UpdatedAt := now\<rparr>"
  have "row_step md r (?upd now r)" if "known us c" "r \<in> set (uploads c)" "?cond r" for c r now
    using known_row [OF that(1) u that(2)] that(3) verified
    by (auto simp: read_from_def row_step_def frozen_def upload_ok_def unverified_def verified_def forward_def
        nonempty_text_def)
  then have "known us c \<Longrightarrow> uploads_rel md c (on_uploads (update_where ?cond (?upd now)) c)" for c now
    by (rule uploads_update)
  then have "stays (uploads_rel md) (known us)
      (CompleteFileUpload_sql env (fu_ID u) owner actualSize (nonempty_text contentType))"
    unfolding CompleteFileUpload_sql_def Let_def by (intro stays_exec) (auto intro: uploads_rel_refl)
  then show ?thesis
    unfolding CompleteFileUpload_def by (intro upload.stays_bind stays_one_upload)
qed

text \<open>
  Media types are parsed by \<open>mime\<close>; what the service relies on is that a normalized type is a fixed
  point of the cleaner's normalization.
\<close>

definition media_ok :: "media \<Rightarrow> bool" where
  "media_ok md \<longleftrightarrow> (\<forall>v. normalizedContentType md v \<noteq> [] \<longrightarrow>
     normalizedType md (normalizedContentType md v) = normalizedContentType md v)"

lemma uploads_create:
  assumes "c' = c\<lparr>c_upload_seq := c_upload_seq c + 1\<rparr>" "upload_ok md row" "ur_Cursor row = Some (c_upload_seq c + 1)"
    "lookup ur_ID (uploads c) (ur_ID row) = None"
  shows "uploads_rel md c (on_uploads (\<lambda>rows. rows @ [row]) c')"
  unfolding uploads_rel_def
  by (intro conjI exI [of _ "uploads c"] exI [of _ "[row]"])
    (use assms in \<open>auto simp: no_uploads_def on_uploads_def list_all2_same row_step_refl new_upload_def lookup_None_iff\<close>)

lemma uploads_seq: "uploads_rel md c (c\<lparr>c_upload_seq := c_upload_seq c + 1\<rparr>)"
  unfolding uploads_rel_def
  by (intro conjI exI [of _ "uploads c"] exI [of _ "[]"])
    (simp_all add: no_uploads_def on_uploads_def list_all2_same row_step_refl)

lemma stays_CreateFileUpload:
  assumes "fu_ContentType u \<noteq> []" "normalizedType md (fu_ContentType u) = fu_ContentType u"
  shows "stays (uploads_rel md) (known us) (CreateFileUpload env u)"
proof -
  have "stays (uploads_rel md) (known us) (CreateFileUpload_sql env u)"
    unfolding CreateFileUpload_sql_def Let_def
    by (rule stays_exec)
      (use assms in \<open>auto simp: uploads_rel_refl upload_ok_def unverified_def intro!: uploads_create uploads_seq\<close>)
  then show ?thesis
    unfolding CreateFileUpload_def by (intro upload.stays_bind upload.stays_return)
qed

subsection \<open>Requests\<close>

lemma reads_uploads [reads_rules]:
  "reads_in read_errors (GetFileUploadForOwner env i owner)"
  "reads_in read_errors (GetFileUploadForBlockForOwner env i owner)"
  "reads_in read_errors (CountPendingFileUploads env owner)"
  "reads_in read_errors (ListFileUploadsAfterCursor env owner cursor)"
  "reads_in read_errors (ListExpiredFileUploads env cutoff limit)"
  "reads_in read_errors (GetDeviceForOwner env device owner)"
  "reads_in read_errors (ValidateUploadTarget env nid block owner)"
  unfolding GetFileUploadForOwner_def GetFileUploadForOwner_sql_def GetFileUploadForBlockForOwner_def
    GetFileUploadForBlockForOwner_sql_def one_upload_def CountPendingFileUploads_def CountPendingFileUploads_sql_def
    ListFileUploadsAfterCursor_def ListFileUploadsAfterCursor_sql_def ListExpiredFileUploads_def
    ListExpiredFileUploads_sql_def GetDeviceForOwner_def GetDeviceForOwner_sql_def ValidateUploadTarget_def
    GetNoteForOwner_def GetNoteForOwner_sql_def GetBlockForNoteForUpdate_def GetBlockForNoteForUpdate_sql_def
  by (intro reads_rules; simp)+

lemma stays_upload_reads [stays_rules]:
  "stays (uploads_rel md) P (GetFileUploadForOwner env i owner)"
  "stays (uploads_rel md) P (CountPendingFileUploads env owner)"
  "stays (uploads_rel md) P (ListFileUploadsAfterCursor env owner cursor)"
  "stays (uploads_rel md) P (ListExpiredFileUploads env cutoff limit)"
  "stays (uploads_rel md) P (GetDeviceForOwner env device owner)"
  "stays (uploads_rel md) P (ValidateUploadTarget env nid block owner)"
  by (rule upload.stays_reads [OF reads_uploads(1)] upload.stays_reads [OF reads_uploads(3)]
      upload.stays_reads [OF reads_uploads(4)] upload.stays_reads [OF reads_uploads(5)]
      upload.stays_reads [OF reads_uploads(6)] upload.stays_reads [OF reads_uploads(7)])+

lemma keeps_storage_call [keeps_rules]: "keeps p (storage_call f)"
  by (simp add: keeps_def storage_call_def)

lemma stays_outside [stays_rules]:
  "stays (uploads_rel md) P (storage_call f)" "stays (uploads_rel md) P (newUUID env)"
  "stays (uploads_rel md) P (timeNow env)" "stays (uploads_rel md) P (checked r)"
  unfolding checked_def by (intro upload.stays_keeps keeps_rules)+

lemma checked_bind [simp]: "bindM (checked None) f = f ()" "bindM (checked (Some e)) f = failM e"
  by (simp_all add: checked_def fun_eq_iff bindM_def returnM_def failM_def)

lemma stays_validateDevice [stays_rules]: "stays (uploads_rel md) (known us) (validateDevice env owner device)"
  unfolding validateDevice_def by (intro stays_rules)

lemma validateRequest_None:
  assumes "validateRequest md request limit allowed = None"
  shows "ValidDeviceID (ir_DeviceID request)" "0 < ir_Size request" "ir_Size request \<le> limit"
    "normalizedContentType md (ir_ContentType request) \<noteq> []"
    "mimeAllowed md (normalizedContentType md (ir_ContentType request)) allowed"
    "TrimSpace (ir_Filename request) \<noteq> []" "CHR ''/'' \<notin> set (TrimSpace (ir_Filename request))"
    "CHR 0x5C \<notin> set (TrimSpace (ir_Filename request))"
  using assms
  by (auto simp: validateRequest_def validateDeviceID_def Let_def list_ex_iff split: option.splits if_splits)

lemma stays_Initiate:
  assumes "media_ok (us_media s)"
  shows "stays (uploads_rel (us_media s)) (known us) (Initiate env s owner request)"
proof (cases "validateRequest (us_media s) request (us_maxFileSize s) (us_allowedMIMETypes s)")
  case None
  let ?ct = "normalizedContentType (us_media s) (ir_ContentType request)"
  have "?ct \<noteq> []" "normalizedType (us_media s) ?ct = ?ct"
    using validateRequest_None(4) [OF None] assms by (auto simp: media_ok_def)
  then have "stays (uploads_rel (us_media s)) (known us)
      (CreateFileUpload env (pendingUpload env s owner request i now))" for i now
    by (intro stays_CreateFileUpload) (simp_all add: pendingUpload_def Let_def)
  then show ?thesis
    unfolding Initiate_def None checked_bind by (intro stays_rules)
qed (simp add: Initiate_def stays_rules)

lemma Get_known:
  assumes "GetFileUploadForOwner env i owner w = (Inr u, w')" "distinct (map ur_ID (uploads (w_core w)))"
  shows "known [u] (w_core w')" "fu_OwnerID u = owner" "fu_ID u = i"
    "\<exists>r \<in> set (uploads (w_core w)). u = fromDBFileUpload r \<and> ur_ID r = i \<and> ur_OwnerID r = owner"
proof -
  obtain r where r: "find (\<lambda>r. ur_ID r = i \<and> ur_OwnerID r = owner) (uploads (w_core w)) = Some r"
      "u = fromDBFileUpload r" "w_core w' = w_core w"
    using assms(1) reads_core [OF reads_uploads(1) assms(1)]
    by (auto simp: GetFileUploadForOwner_def GetFileUploadForOwner_sql_def one_upload_def query_def exec_def bindM_def
        mapNoRows_def returnM_def failM_def split: if_splits option.splits)
  then have "r \<in> set (uploads (w_core w))" "ur_ID r = i" "ur_OwnerID r = owner"
    by (auto simp: find_Some_iff)
  with r assms(2) show "known [u] (w_core w')" "fu_OwnerID u = owner" "fu_ID u = i"
      "\<exists>r \<in> set (uploads (w_core w)). u = fromDBFileUpload r \<and> ur_ID r = i \<and> ur_OwnerID r = owner"
    by (auto simp: known_def read_from_def fromDBFileUpload_def)
qed

lemma stays_Complete_finish [stays_rules]:
  assumes "u \<in> set us" "actualSize = fu_ExpectedSize u" "contentType = fu_ContentType u"
  shows "stays (uploads_rel md) (known us) (Complete_finish env owner (fu_ID u) actualSize contentType)"
  unfolding Complete_finish_def using assms by (intro stays_rules) auto

lemma stays_rejectMetadata [stays_rules]:
  "stays (uploads_rel md) (known us) (rejectMetadata env md' u message)"
  unfolding rejectMetadata_def Let_def by (intro stays_rules)

lemma stays_Complete_pending [stays_rules]:
  "u \<in> set us \<Longrightarrow> stays (uploads_rel md) (known us) (Complete_pending env s owner u)"
  unfolding Complete_pending_def Let_def by (intro stays_rules) auto

lemma known_distinct: "known us c \<Longrightarrow> distinct (map ur_ID (uploads c))"
  by (simp add: known_def)

lemma stays_read_then:
  assumes "\<And>e. stays (uploads_rel md) (known us) (h e)" "\<And>u. stays (uploads_rel md) (known [u]) (f u)"
  shows "stays (uploads_rel md) (known us) (catchM (GetFileUploadForOwner env i owner) h f)"
  by (rule upload.stays_learn [where g = "\<lambda>u. [u]"])
    (auto intro: stays_rules assms Get_known(1) [OF _ known_distinct] known_closed)

lemma stays_Complete: "stays (uploads_rel md) (known us) (Complete env s owner i)"
  unfolding Complete_def by (intro stays_read_then stays_rules) simp_all

lemma stays_Delete_lost [stays_rules]: "stays (uploads_rel md) (known us) (Delete_lost env owner i err)"
  unfolding Delete_lost_def by (intro stays_rules)

lemma stays_Delete_found [stays_rules]: "stays (uploads_rel md) (known us) (Delete_found env s owner u)"
  unfolding Delete_found_def by (intro stays_rules)

lemma stays_Upload_Delete: "stays (uploads_rel md) (known us) (Upload_Delete env s owner i)"
  unfolding Upload_Delete_def by (intro stays_read_then stays_rules)

lemma stays_reconcile [stays_rules]:
  "u \<in> set us \<Longrightarrow> stays (uploads_rel (cl_media c)) (known us) (reconcile env c first_err u)"
  unfolding reconcile_def Let_def by (intro stays_rules) auto

lemma stays_RunOnce_loop:
  "set us' \<subseteq> set us \<Longrightarrow> stays (uploads_rel (cl_media c)) (known us) (RunOnce_loop env c us' first_err)"
  by (induction us' arbitrary: first_err) (auto intro!: stays_rules)

lemma List_known:
  assumes "ListExpiredFileUploads env cutoff limit w = (Inr us, w')" "known us' (w_core w)"
  shows "known us (w_core w')"
proof -
  obtain n where "us = map fromDBFileUpload (take n (sort_key ur_ExpiresAt (filter (\<lambda>r. ur_Status r = StatusPending
      \<and> ur_ExpiresAt r < pg_micros cutoff) (uploads (w_core w)))))"
    using assms(1)
    by (auto simp: ListExpiredFileUploads_def ListExpiredFileUploads_sql_def query_def exec_def bindM_def returnM_def
        split: if_splits)
  then have "set us \<subseteq> fromDBFileUpload ` set (uploads (w_core w))" by (auto dest!: in_set_takeD)
  then show ?thesis
    using assms(2) reads_core [OF reads_uploads(5) assms(1)]
    by (fastforce simp: known_def read_from_def fromDBFileUpload_def)
qed

lemma stays_RunOnce: "stays (uploads_rel (cl_media c)) (known us) (RunOnce env c)"
proof -
  have "stays (uploads_rel (cl_media c)) (known us) (bindM (ListExpiredFileUploads env cutoff limit)
      (\<lambda>uploads. bindM (RunOnce_loop env c uploads None) checked))" for cutoff limit
    by (rule upload.stays_learn_bind [where g = id])
      (auto intro: stays_rules stays_RunOnce_loop List_known known_closed)
  then show ?thesis unfolding RunOnce_def by (rule upload.stays_bind [OF stays_outside(3)])
qed

subsection \<open>Schedules\<close>

text \<open>
  Upload requests and the cleaner, one after the other or interleaved: a request may read its row,
  let any number of others run, and go on with what it has read.
\<close>

inductive upload_run :: "media \<Rightarrow> world \<Rightarrow> world \<Rightarrow> bool" for md where
  up_refl: "upload_run md w w"
| up_trans: "upload_run md w w1 \<Longrightarrow> upload_run md w1 w2 \<Longrightarrow> upload_run md w w2"
| up_initiate: "us_media s = md \<Longrightarrow> Initiate env s owner request w = (r, w') \<Longrightarrow> upload_run md w w'"
| up_complete: "us_media s = md \<Longrightarrow> Complete env s owner i w = (r', w') \<Longrightarrow> upload_run md w w'"
| up_delete: "Upload_Delete env s owner i w = (r', w') \<Longrightarrow> upload_run md w w'"
| up_clean: "cl_media c = md \<Longrightarrow> RunOnce env c w = (r'', w') \<Longrightarrow> upload_run md w w'"
| up_resume_complete: "GetFileUploadForOwner env i owner w = (Inr u, w1) \<Longrightarrow> upload_run md w1 w2 \<Longrightarrow>
    us_media s = md \<Longrightarrow> Complete_pending env' s owner u w2 = (r', w') \<Longrightarrow> upload_run md w w'"
| up_resume_finish: "GetFileUploadForOwner env i owner w = (Inr u, w1) \<Longrightarrow> upload_run md w1 w2 \<Longrightarrow>
    Complete_finish env' owner i (fu_ExpectedSize u) (fu_ContentType u) w2 = (r', w') \<Longrightarrow> upload_run md w w'"
| up_resume_delete: "GetFileUploadForOwner env i owner w = (Inr u, w1) \<Longrightarrow> upload_run md w1 w2 \<Longrightarrow>
    Delete_found env' s owner u w2 = (r', w') \<Longrightarrow> upload_run md w w'"
| up_resume_clean: "ListExpiredFileUploads env cutoff limit w = (Inr us, w1) \<Longrightarrow> u \<in> set us \<Longrightarrow> upload_run md w1 w2 \<Longrightarrow>
    cl_media c = md \<Longrightarrow> reconcile env' c first_err u w2 = (e', w') \<Longrightarrow> upload_run md w w'"

lemma resumed:
  assumes "w_core w1 = w_core w" "known us (w_core w1)" "uploads_rel md (w_core w1) (w_core w2)"
    and "stays (uploads_rel md) (known us) m" "m w2 = (r, w')"
  shows "uploads_rel md (w_core w) (w_core w')"
  using assms(1,3) staysD [OF assms(4) known_closed [OF assms(2,3)] assms(5)] by (auto intro: uploads_rel_trans)

lemma upload_run_rel:
  assumes "upload_run md w w'" "media_ok md" "known [] (w_core w)"
  shows "uploads_rel md (w_core w) (w_core w')"
  using assms
proof (induction rule: upload_run.induct)
  case (up_trans w w1 w2)
  then show ?case by (blast intro: uploads_rel_trans known_closed)
next
  case (up_resume_complete env i owner w u w1 w2 s env' r' w')
  show ?case
    by (rule resumed [OF reads_core [OF reads_uploads(1) up_resume_complete.hyps(1)] Get_known(1) _ stays_Complete_pending])
      (use up_resume_complete reads_core [OF reads_uploads(1) up_resume_complete.hyps(1)] in \<open>auto simp: known_def\<close>)
next
  case (up_resume_finish env i owner w u w1 w2 env' r' w')
  show ?case
    by (rule resumed [OF reads_core [OF reads_uploads(1) up_resume_finish.hyps(1)] Get_known(1) _ stays_Complete_finish])
      (use up_resume_finish reads_core [OF reads_uploads(1) up_resume_finish.hyps(1)] Get_known(3) [OF up_resume_finish.hyps(1)]
        in \<open>auto simp: known_def\<close>)
next
  case (up_resume_delete env i owner w u w1 w2 env' s r' w')
  show ?case
    by (rule resumed [OF reads_core [OF reads_uploads(1) up_resume_delete.hyps(1)] Get_known(1) _ stays_Delete_found])
      (use up_resume_delete reads_core [OF reads_uploads(1) up_resume_delete.hyps(1)] in \<open>auto simp: known_def\<close>)
next
  case (up_resume_clean env cutoff limit w us w1 u w2 c env' first_err e' w')
  show ?case
    by (rule resumed [OF reads_core [OF reads_uploads(5) up_resume_clean.hyps(1)] List_known [where us' = "[]"] _
          stays_reconcile [of u us c, unfolded up_resume_clean.hyps(4)]])
      (use up_resume_clean reads_core [OF reads_uploads(5) up_resume_clean.hyps(1)] in \<open>auto simp: known_def\<close>)
qed (auto intro: uploads_rel_refl dest: staysD [OF stays_Initiate] staysD [OF stays_Complete] staysD [OF stays_Upload_Delete]
    staysD [OF stays_RunOnce])

end
