(* ===== verification/Sync_Replay.thy ===== *)
theory Sync_Replay
  imports Sync_Request
begin

section \<open>Repeating a request\<close>

text \<open>
  A client that did not see the response sends the request again. When the first attempt was
  committed, every operation is known to the server, and the second one is shown to return (in an
  environment without failures), to accept every batch and to change nothing.
\<close>

definition healthy :: "env \<Rightarrow> bool" where
  "healthy env \<longleftrightarrow> (\<forall>n. \<not> e_fault env n) \<and> (\<forall>n. e_commit env n = Commit_ok)"

text \<open>A world at rest: the core state, no aborted transaction, the events published so far.\<close>

definition calm :: "core \<Rightarrow> bool \<Rightarrow> SyncAvailableEvent list \<Rightarrow> world \<Rightarrow> bool" where
  "calm c tx es w \<longleftrightarrow> w_core w = c \<and> w_in_tx w = tx \<and> \<not> w_aborted w \<and> w_events w = es"

text \<open>Calls that return a value with \<open>Q\<close> and leave everything as it was.\<close>

definition returns :: "core \<Rightarrow> bool \<Rightarrow> SyncAvailableEvent list \<Rightarrow> 'a call \<Rightarrow> ('a \<Rightarrow> bool) \<Rightarrow> bool" where
  "returns c tx es m Q \<longleftrightarrow> triple (calm c tx es) m (\<lambda>a w. Q a \<and> calm c tx es w) (\<lambda>_ _. False)"

lemma returns_return: "Q a \<Longrightarrow> returns c tx es (returnM a) Q"
  unfolding returns_def by (rule triple_return) simp

lemma returns_catch:
  assumes "returns c tx es m Q" "\<And>a. Q a \<Longrightarrow> returns c tx es (f a) Q'"
  shows "returns c tx es (catchM m h f) Q'"
  unfolding returns_def
  by (rule triple_catch [OF assms(1) [unfolded returns_def]])
    (use assms(2) in \<open>auto simp: triple_def returns_def\<close>)

lemma returns_bind:
  assumes "returns c tx es m Q" "\<And>a. Q a \<Longrightarrow> returns c tx es (f a) Q'"
  shows "returns c tx es (bindM m f) Q'"
  unfolding bind_catch by (rule returns_catch [OF assms])

lemma returns_weaken: "returns c tx es m Q \<Longrightarrow> (\<And>a. Q a \<Longrightarrow> Q' a) \<Longrightarrow> returns c tx es m Q'"
  unfolding returns_def by (erule triple_weaken) auto

lemma returns_apply:
  assumes "returns c tx es m Q" "calm c tx es w"
  obtains a w' where "m w = (Inr a, w')" "Q a" "calm c tx es w'"
proof -
  obtain r w' where run: "m w = (r, w')" by (cases "m w")
  note t = assms(1) [unfolded returns_def]
  show thesis
  proof (cases r)
    case (Inl e)
    then show thesis using triple_InlD [OF t assms(2), of e w'] run by simp
  next
    case (Inr a)
    then show thesis using triple_InrD [OF t assms(2), of a w'] run that by blast
  qed
qed

lemma calm_tick [simp]: "calm c tx es (tick w) = calm c tx es w"
  by (simp add: calm_def)

lemma returns_query:
  assumes "healthy env" "\<And>now. Q (f now (c_db c))"
  shows "returns c tx es (query env f) Q"
  unfolding returns_def
  by (rule tripleI) (use assms in \<open>auto simp: query_def exec_def healthy_def calm_def\<close>)

lemma returns_mapNoRows: "row = Some a \<Longrightarrow> Q a \<Longrightarrow> returns c tx es (mapNoRows row) Q"
  by (simp add: mapNoRows_def returns_return)

lemma FindProcessedOperation_returns:
  assumes "healthy env" and known: "i \<in> known_operations device (history c)"
  shows "returns c tx es (FindProcessedOperation env device i) (\<lambda>_. True)"
proof -
  let ?row = "find (\<lambda>r. cr_DeviceID r = device \<and> cr_ClientOperationID r = i) (history c)"
  obtain r where r: "?row = Some r"
    using known by (cases ?row) (auto simp: known_operations_def find_None_iff)
  have "returns c tx es (FindProcessedOperation_sql env device i) (\<lambda>row. row = Some r)"
    unfolding FindProcessedOperation_sql_def by (rule returns_query) (use assms r in auto)
  then show ?thesis
    unfolding FindProcessedOperation_def
    by (rule returns_bind) (auto intro!: returns_bind [OF returns_mapNoRows] returns_return)
qed

lemma ensureNote_returns:
  assumes "healthy env"
  shows "returns c tx es (ensureNote env owner i st) (\<lambda>_. True)"
proof -
  let ?row = "find (note_owned i owner) (t_notes (c_db c))"
  have sql: "returns c tx es (GetNoteForOwnerForUpdate_sql env i owner) (\<lambda>row. row = ?row)"
    unfolding GetNoteForOwnerForUpdate_sql_def by (rule returns_query) (use assms in auto)
  show ?thesis
  proof (cases ?row)
    case (Some n)
    then have "returns c tx es (GetNoteForOwnerForUpdate env i owner) (\<lambda>_. True)"
      unfolding GetNoteForOwnerForUpdate_def
      by (intro returns_bind [OF sql] returns_bind [OF returns_mapNoRows] returns_return) auto
    then show ?thesis
      unfolding ensureNote_def by (auto intro!: returns_catch returns_return)
  next
    case None
    have "triple (calm c tx es) (GetNoteForOwnerForUpdate env i owner) (\<lambda>_ _. False)
        (\<lambda>e w. e = ErrNotFound \<and> calm c tx es w)"
      unfolding GetNoteForOwnerForUpdate_def
      by (rule triple_bind [where R = "\<lambda>row w. row = None \<and> calm c tx es w"],
          rule triple_weaken [OF sql [unfolded returns_def]])
        (auto simp: None mapNoRows_def triple_def failM_def bindM_def split: prod.split sum.split)
    then have "returns c tx es (catchM (GetNoteForOwnerForUpdate env i owner)
        (\<lambda>err. if err = ErrNotFound then returnM (st\<lparr>st_noteLoaded := True\<rparr>) else failM err)
        (\<lambda>n. returnM (st\<lparr>st_note := Some n, st_noteLoaded := True\<rparr>))) (\<lambda>_. True)"
      unfolding returns_def by (rule triple_catch) (auto simp: triple_def returnM_def)
    then show ?thesis unfolding ensureNote_def by (simp add: returns_return)
  qed
qed

lemma applyOperations_returns:
  assumes "healthy env" "\<And>oper. oper \<in> set opers \<Longrightarrow> op_OperationID oper \<in> known_operations device (history c)"
  shows "returns c tx es (applyOperations env owner device opers st ch lt) (\<lambda>(_, ch', lt'). ch' = ch \<and> lt' = lt)"
  using assms(2)
proof (induction opers arbitrary: st)
  case Nil
  show ?case by (simp add: returns_return)
next
  case (Cons oper opers)
  have load: "returns c tx es (if op_NoteID oper \<noteq> Nil_uuid then ensureNote env owner (op_NoteID oper) st else returnM st)
      (\<lambda>_. True)"
    by (simp add: ensureNote_returns [OF assms(1)] returns_return)
  have "returns c tx es (applyOperation env owner device st oper)
      (\<lambda>(_, out, flag). \<not> flag \<and> (\<exists>a. out = Accepted a))"
    unfolding applyOperation_def
    by (intro returns_catch [OF FindProcessedOperation_returns] returns_bind [OF load])
      (use assms(1) Cons.prems in \<open>auto intro: returns_return\<close>)
  then show ?case
    unfolding applyOperations.simps
    by (rule returns_bind) (use Cons in auto)
qed

lemma WithSavepoint_returns:
  assumes "healthy env" "returns c True es m Q"
  shows "returns c True es (WithSavepoint env m) Q"
  unfolding returns_def
proof (rule tripleI)
  fix w r w' assume w: "calm c True es w"
  have sp: "\<exists>v'. savepoint_stmt env v = (Inr (), v') \<and> calm c True es v'" if "calm c True es v" for v
    using assms(1) that by (auto simp: savepoint_stmt_def exec_def healthy_def calm_def)
  obtain w1 where w1: "savepoint_stmt env w = (Inr (), w1)" "calm c True es w1" using sp [OF w] by blast
  obtain a w2 where w2: "m w1 = (Inr a, w2)" "Q a" "calm c True es w2" by (rule returns_apply [OF assms(2) w1(2)])
  obtain w3 where w3: "savepoint_stmt env w2 = (Inr (), w3)" "calm c True es w3" using sp [OF w2(3)] by blast
  have run: "WithSavepoint env m w = (Inr a, w3)"
    using w w1 w2 w3 by (simp add: WithSavepoint_def calm_def bindM_def catchM_def returnM_def)
  show "Q x \<and> calm c True es v" if "WithSavepoint env m w = (Inr x, v)" for x v
    using run that w2 w3 by simp
  show False if "WithSavepoint env m w = (Inl x, v)" for x v
    using run that by simp
qed

lemma applyOperationBatch_returns:
  assumes "healthy env" "opers \<noteq> []"
    and "\<And>oper. oper \<in> set opers \<Longrightarrow> op_OperationID oper \<in> known_operations device (history c)"
  shows "returns c True es (applyOperationBatch env sv owner device opers)
    (\<lambda>out. \<exists>a. out = Some (Accepted a) \<and> ac_NoteID a = op_NoteID (hd (sortedOperations opers)) \<and> ac_GlobalSequence a = 0)"
proof -
  have set: "set (sortedOperations opers) = set opers" by (simp add: sortedOperations_def)
  then obtain first rest where fr: "sortedOperations opers = first # rest"
    using assms(2) by (cases "sortedOperations opers") auto
  have loop: "returns c True es (WithSavepoint env
      (applyOperations env owner device (first # rest) newNoteBatchState False 0)) (\<lambda>(_, ch', lt'). ch' = False \<and> lt' = 0)"
    by (intro WithSavepoint_returns assms(1) applyOperations_returns) (use assms(3) set fr in auto)
  have idle: "returns c True es (persistBatch env sv owner st False) (\<lambda>_. True)" for st
    by (auto simp: persistBatch_def intro: returns_return split: option.split)
  show ?thesis
    unfolding applyOperationBatch_def fr list.case
    by (rule returns_catch [OF loop]) (auto intro!: returns_bind [OF idle] returns_return)
qed

lemma pushBatches_returns:
  assumes "healthy env" "sorted (map op_order opers)"
    and "\<And>oper. oper \<in> set opers \<Longrightarrow> op_OperationID oper \<in> known_operations device (history c)" "cur = 0"
  shows "returns c True es (pushBatches env sv owner device opers resp cur)
    (\<lambda>(resp', cur'). cur' = 0 \<and> rs_Rejected resp' = rs_Rejected resp
       \<and> map ac_NoteID (rs_Accepted resp') = map ac_NoteID (rs_Accepted resp) @ map (op_NoteID \<circ> hd) (note_batches opers))"
  using assms
proof (induction env sv owner device opers resp cur rule: pushBatches.induct)
  case (1 env sv owner device resp cur)
  then show ?case by (simp add: returns_return)
next
  case (2 env sv owner device oper opers resp cur)
  let ?same = "\<lambda>o'. op_NoteID o' = op_NoteID oper"
  let ?batch = "oper # takeWhile ?same opers"
  note sorted = sorted_split [OF 2(5), of ?same]
  have known: "op_OperationID o' \<in> known_operations device (history c)" if "o' \<in> set opers \<union> {oper}" for o'
    using 2(6) that by auto
  have batch: "returns c True es (applyOperationBatch env sv owner device ?batch)
      (\<lambda>out. \<exists>a. out = Some (Accepted a) \<and> ac_NoteID a = op_NoteID (hd (sortedOperations ?batch)) \<and> ac_GlobalSequence a = 0)"
    by (rule applyOperationBatch_returns) (use 2(4) known in \<open>auto dest: set_takeWhileD\<close>)
  have rest: "op_OperationID o' \<in> known_operations device (history c)" if "o' \<in> set (dropWhile ?same opers)" for o'
    using known that by (auto dest: set_dropWhileD)
  have IH: "returns c True es (pushBatches env sv owner device (dropWhile ?same opers)
      (resp\<lparr>rs_Accepted := rs_Accepted resp @ [a]\<rparr>) 0)
      (\<lambda>(resp', cur'). cur' = 0 \<and> rs_Rejected resp' = rs_Rejected resp
       \<and> map ac_NoteID (rs_Accepted resp') = map ac_NoteID (rs_Accepted resp @ [a]) @ map (op_NoteID \<circ> hd) (note_batches (dropWhile ?same opers)))"
    if "ac_GlobalSequence a = 0" for a
    using 2(2) [OF refl, of a, OF 2(4) sorted(2)] rest that 2(7) by (simp add: comp_def)
  show ?case
    unfolding pushBatches.simps Let_def
    by (rule returns_bind [OF batch])
      (auto simp: sortedOperations_sorted [OF sorted(1)] Let_def 2(7) intro!: returns_weaken [OF IH])
qed

text \<open>The whole request.\<close>

lemma lockDevice_returns:
  assumes "healthy env" "db_ok c" "device_at c device = Some d" "dv_OwnerID d = owner" "dv_RevokedAt d = None"
  shows "returns c tx es (lockDevice env device owner) (\<lambda>_. True)"
proof -
  have row: "find (device_owned device owner) (t_sync_devices (c_db c)) = Some d"
    using assms by (simp add: find_device)
  have sql: "returns c tx es (GetDeviceForOwnerForUpdate_sql env device owner) (\<lambda>row. row = Some d)"
    unfolding GetDeviceForOwnerForUpdate_sql_def by (rule returns_query) (use assms(1) row in auto)
  have "returns c tx es (GetDeviceForOwnerForUpdate env device owner) (\<lambda>d'. d' = d)"
    unfolding GetDeviceForOwnerForUpdate_def
    by (rule returns_bind [OF sql]) (simp add: returns_mapNoRows)
  then show ?thesis
    unfolding lockDevice_def by (rule returns_catch) (use assms(5) in \<open>simp add: returns_return\<close>)
qed

lemma WithTx_returns:
  assumes "healthy env" "returns c True es m Q"
  shows "returns c False es (WithTx env m) Q"
  unfolding returns_def
proof (rule tripleI)
  fix w assume w: "calm c False es w"
  let ?w1 = "(tick w)\<lparr>w_in_tx := True, w_aborted := False, w_tx_now := e_clock env (w_tick w)\<rparr>"
  have "calm c True es ?w1" using w by (simp add: calm_def)
  then obtain a w2 where w2: "m ?w1 = (Inr a, w2)" "Q a" "calm c True es w2"
    by (rule returns_apply [OF assms(2)])
  have run: "WithTx env m w = (Inr a, (tick w2)\<lparr>w_in_tx := False\<rparr>)"
    using w w2 assms(1) by (simp add: WithTx_def calm_def healthy_def)
  show "Q x \<and> calm c False es v" if "WithTx env m w = (Inr x, v)" for x v
    using run that w2 by (auto simp: calm_def)
  show False if "WithTx env m w = (Inl x, v)" for x v
    using run that by simp
qed

lemma Sync_returns:
  assumes "healthy env" "db_ok c" "device_at c (rq_DeviceID req) = Some d" "dv_OwnerID d = owner" "dv_RevokedAt d = None"
    and "Request_Validate (sv_maxOperations sv) req = None"
    and "op_OperationID ` set (rq_Operations req) \<subseteq> known_operations (rq_DeviceID req) (history c)"
  shows "returns c False es (Sync env sv owner req)
    (\<lambda>resp. rs_Rejected resp = []
       \<and> map ac_NoteID (rs_Accepted resp) = map (op_NoteID \<circ> hd) (note_batches (sortedOperations (rq_Operations req))))"
proof -
  have set: "set (sortedOperations (rq_Operations req)) = set (rq_Operations req)" by (simp add: sortedOperations_def)
  have push: "returns c True es (pushBatches env sv owner (rq_DeviceID req) (sortedOperations (rq_Operations req)) emptyResponse 0)
    (\<lambda>(resp', cur'). cur' = 0 \<and> rs_Rejected resp' = rs_Rejected emptyResponse
       \<and> map ac_NoteID (rs_Accepted resp') = map ac_NoteID (rs_Accepted emptyResponse) @ map (op_NoteID \<circ> hd) (note_batches (sortedOperations (rq_Operations req))))"
    by (rule pushBatches_returns) (use assms(1,7) set sortedOperations_sorted_result in auto)
  have tx: "returns c True es (syncTx env sv owner req) (\<lambda>(resp', cur'). cur' = 0 \<and> rs_Rejected resp' = []
       \<and> map ac_NoteID (rs_Accepted resp') = map (op_NoteID \<circ> hd) (note_batches (sortedOperations (rq_Operations req))))"
    unfolding syncTx_def
    by (rule returns_bind [OF lockDevice_returns [OF assms(1-5)]])
      (rule returns_weaken [OF push], auto simp: emptyResponse_def)
  have quiet: "returns c False es (publishCommittedSyncAvailable env sv owner device 0) (\<lambda>_. True)" for device
    unfolding returns_def by (rule tripleI) (auto simp: publishCommittedSyncAvailable_def)
  show ?thesis
    unfolding Sync_def assms(6) option.case
    by (rule returns_bind [OF WithTx_returns [OF assms(1) tx]])
      (auto intro!: returns_bind [OF quiet] returns_return)
qed

end
