(* ===== verification/Demo.thy ===== *)
theory Demo
  imports Sync_Service Sync_Inv
begin

section \<open>A small database\<close>

text \<open>
  One user (\<open>7\<close>) with the devices \<open>phone\<close> and \<open>tablet\<close>, one note (\<open>1\<close>) that the tablet has
  created, an environment without failures, and requests to run on it. The theorems of the
  development are instantiated here, so that their hypotheses are seen to hold together.
\<close>

definition demo_codec :: codec where
  "demo_codec = \<lparr>c_parse_uuid = (\<lambda>s. if s = ''b1'' then Some 11 else if s = ''c1'' then Some 21 else None),
     c_format_uuid = (\<lambda>_. ''id''), c_parse_float = (\<lambda>s. Some \<lparr>f_negative = False, f_text = s\<rparr>),
     c_quote = (\<lambda>s. s)\<rparr>"

definition demo_env :: env where
  "demo_env = \<lparr>e_codec = demo_codec, e_fault = (\<lambda>_. False), e_commit = (\<lambda>_. Commit_ok),
     e_clock = (\<lambda>n. int n * 1000), e_uuid = (\<lambda>n. of_nat (100 + n)), e_jsonb = (\<lambda>j. j),
     e_json_octets = (\<lambda>_. 10), e_collate = (\<lambda>_ _. True)\<rparr>"

definition demo_device :: "string \<Rightarrow> SyncDevice" where
  "demo_device i = \<lparr>dv_ID = i, dv_OwnerID = 7, dv_DeviceName = None, dv_Platform = None,
     dv_AppVersion = None, dv_ProtocolVersion = 1, dv_LastGlobalCursor = 0, dv_LastSeenAt = 0,
     dv_CreatedAt = 0, dv_RevokedAt = None\<rparr>"

definition demo_note :: Note where
  "demo_note = \<lparr>nt_ID = 1, nt_OwnerID = 7, nt_Title = ''Hi'', nt_NoteProperties = Some (JObj []),
     nt_CurrentVersion = 1, nt_CreatedAt = 0, nt_UpdatedAt = 0, nt_DeletedAt = None\<rparr>"

definition demo_change :: note_change_row where
  "demo_change = \<lparr>cr_ID = 90, cr_OwnerID = 7, cr_NoteID = Some 1, cr_BlockID = None,
     cr_DeviceID = ''tablet'', cr_ClientOperationID = 5, cr_OperationType = OperationCreateNote,
     cr_BaseNoteVersion = 0, cr_ResultingNoteVersion = 1, cr_ChangeFormat = ChangeFormatStructuredV1,
     cr_SchemaVersion = 1, cr_ChangeData = Some (JObj []), cr_GlobalSequence = Some 1, cr_CreatedAt = 0\<rparr>"

definition demo_db :: database where
  "demo_db = \<lparr>t_categories = [], t_notes = [demo_note], t_note_blocks = [],
     t_sync_devices = [demo_device ''phone'', demo_device ''tablet''], t_note_changes = [demo_change],
     t_note_snapshots = [], t_outbox_jobs = [], t_file_uploads = []\<rparr>"

definition demo_core :: core where
  "demo_core = \<lparr>c_db = demo_db, c_change_seq = 1, c_job_seq = 0, c_upload_seq = 0\<rparr>"

definition demo_world :: world where
  "demo_world = \<lparr>w_core = demo_core, w_in_tx = False, w_aborted = False, w_tx_now = 0, w_tick = 0, w_events = []\<rparr>"

definition demo_service :: Service where
  "demo_service = \<lparr>sv_maxOperations = 100, sv_defaultPullLimit = 50, sv_maxPullLimit = 100,
     sv_snapshotChangeThreshold = 50, sv_snapshotByteThreshold = 1000, sv_hasEventBus = True\<rparr>"

text \<open>The title gets an exclamation mark, starting from version 1 of the note.\<close>

definition demo_operation :: ClientOperation where
  "demo_operation = \<lparr>op_OperationID = 6, op_NoteID = 1, op_OperationType = OperationModifyNoteTitle,
     op_Sequence = 0, op_BaseNoteVersion = 1, op_ChangeFormat = [],
     op_ChangeData = Some (JObj [(RequestKeyTextDelta, JObj [(RequestKeyIndex, JNum ''2''),
       (RequestKeyDeleteCount, JNum ''0''), (RequestKeyInsertText, JStr ''!'')])])\<rparr>"

definition demo_request :: Request where
  "demo_request = \<lparr>rq_ProtocolVersion = ProtocolVersion, rq_ClientVersion = [], rq_DeviceID = ''phone'',
     rq_Operations = [demo_operation]\<rparr>"

lemmas demo_defs = demo_codec_def demo_env_def demo_device_def demo_note_def demo_change_def demo_db_def
  demo_core_def demo_world_def demo_service_def demo_operation_def demo_request_def

lemma demo_device_names: "ValidDeviceID ''tablet''" "ValidDeviceID ''phone''"
  by code_simp+

lemma demo_ok: "db_ok demo_core" "\<not> w_in_tx demo_world" "w_core demo_world = demo_core"
  by (auto simp: demo_defs db_ok_def notes_ok_def blocks_ok_def changes_ok_def change_ok_def changes_of_def
      owns_def owns_device_def op_key_def demo_device_names split: if_splits)

end
