(* ===== verification/Push_Properties.thy ===== *)
theory Push_Properties
  imports Sync_Replay Demo
begin

section \<open>What a push guarantees\<close>

text \<open>
  The properties of \<open>POST /v1/sync\<close> as a client and the other users see it, each with the
  instance on the small database of \<open>Demo\<close>.
\<close>

subsection \<open>The batches of a request\<close>

lemma set_note_batches: "concat (note_batches opers) = opers"
  by (induction opers rule: note_batches.induct) (simp_all add: Let_def)

lemma note_batches_nonempty: "b \<in> set (note_batches opers) \<Longrightarrow> b \<noteq> []"
  by (induction opers rule: note_batches.induct) (auto simp: Let_def)

lemma dropWhile_greater:
  assumes "sorted (map op_order (oper # opers))"
  shows "o' \<in> set (dropWhile (\<lambda>o'. op_NoteID o' = op_NoteID oper) opers) \<Longrightarrow> op_NoteID oper < op_NoteID o'"
  using assms
proof (induction opers)
  case (Cons x xs)
  then show ?case by (auto split: if_splits)
qed simp

lemma note_batches_heads: "op_NoteID ` hd ` set (note_batches opers) \<subseteq> op_NoteID ` set opers"
  using set_note_batches [of opers] note_batches_nonempty [of _ opers]
  by (metis (no_types, lifting) UN_I hd_in_set image_mono image_subsetI set_concat)

lemma note_batches_sorted:
  assumes "sorted (map op_order opers)"
  shows "sorted_wrt (<) (map (op_NoteID \<circ> hd) (note_batches opers))
    \<and> list_all (\<lambda>b. b = filter (\<lambda>o'. op_NoteID o' = op_NoteID (hd b)) opers) (note_batches opers)"
  using assms
proof (induction opers rule: note_batches.induct)
  case (2 oper opers)
  let ?same = "\<lambda>o'. op_NoteID o' = op_NoteID oper"
  let ?rest = "dropWhile ?same opers"
  note sorted = sorted_split [OF 2(2), of ?same]
  note IH = 2(1) [OF refl sorted(2)]
  have gt: "op_NoteID oper < op_NoteID o'" if "o' \<in> set ?rest" for o'
    using dropWhile_greater [OF 2(2) that] .
  have split: "filter P opers = filter P (takeWhile ?same opers) @ filter P ?rest" for P
    by (metis filter_append takeWhile_dropWhile_id)
  have mine: "filter ?same opers = takeWhile ?same opers"
  proof -
    have "filter ?same ?rest = []" using gt by (force simp: filter_empty_conv)
    moreover have "filter ?same (takeWhile ?same opers) = takeWhile ?same opers"
      by (auto intro!: filter_True dest: set_takeWhileD)
    ultimately show ?thesis using split [of ?same] by simp
  qed
  have heads: "op_NoteID oper < op_NoteID (hd b)" if "b \<in> set (note_batches ?rest)" for b
  proof -
    have "op_NoteID (hd b) \<in> op_NoteID ` set ?rest"
      by (rule subsetD [OF note_batches_heads]) (use that in simp)
    then show ?thesis using gt by auto
  qed
  have other: "filter (\<lambda>o'. op_NoteID o' = op_NoteID (hd b)) (oper # opers)
      = filter (\<lambda>o'. op_NoteID o' = op_NoteID (hd b)) ?rest" if "b \<in> set (note_batches ?rest)" for b
  proof -
    have "filter (\<lambda>o'. op_NoteID o' = op_NoteID (hd b)) (takeWhile ?same opers) = []"
      unfolding filter_empty_conv
    proof
      fix o' assume "o' \<in> set (takeWhile ?same opers)"
      then have "op_NoteID o' = op_NoteID oper" using set_takeWhileD [of o' ?same opers] by simp
      then show "op_NoteID o' \<noteq> op_NoteID (hd b)" using heads [OF that] by simp
    qed
    moreover have "op_NoteID oper \<noteq> op_NoteID (hd b)" using heads [OF that] by simp
    ultimately show ?thesis by (simp add: split)
  qed
  show ?case
    using IH heads mine other by (auto simp: Let_def list_all_iff)
qed simp

text \<open>
  C1. A request is cut into one batch per note (one more for the categories), in the order of the
  note identifiers; a batch holds all operations of the request on its note, ordered by their
  sequence numbers, operations with the same sequence number in the order of the request.
\<close>

theorem push_batches:
  "let bs = note_batches (sortedOperations opers) in
   mset (concat bs) = mset opers
   \<and> sorted_wrt (<) (map (op_NoteID \<circ> hd) bs)
   \<and> list_all (\<lambda>b. b \<noteq> [] \<and> b = filter (\<lambda>o'. op_NoteID o' = op_NoteID (hd b)) (sortedOperations opers)
        \<and> sorted (map op_Sequence b)
        \<and> (\<forall>s. filter (\<lambda>o'. op_Sequence o' = s) b
             = filter (\<lambda>o'. op_NoteID o' = op_NoteID (hd b) \<and> op_Sequence o' = s) opers)) bs"
proof -
  let ?s = "sortedOperations opers"
  let ?bs = "note_batches ?s"
  note b = note_batches_sorted [OF sortedOperations_sorted_result [of opers]]
  have fil: "x = filter (\<lambda>o'. op_NoteID o' = op_NoteID (hd x)) ?s" if "x \<in> set ?bs" for x
    using b that by (simp add: list_all_iff)
  have seq: "sorted (map op_Sequence (filter (\<lambda>o'. op_NoteID o' = nid) ?s))" for nid
  proof -
    have "sorted_wrt (\<lambda>x y. op_order x \<le> op_order y) (filter (\<lambda>o'. op_NoteID o' = nid) ?s)"
      using sortedOperations_sorted_result [of opers] by (intro sorted_wrt_filter) (simp add: sorted_map)
    then show ?thesis
      unfolding sorted_map by (rule sorted_wrt_mono_rel [rotated]) auto
  qed
  have stable: "filter (\<lambda>o'. op_Sequence o' = s) (filter (\<lambda>o'. op_NoteID o' = nid) ?s)
      = filter (\<lambda>o'. op_NoteID o' = nid \<and> op_Sequence o' = s) opers" for nid s
    using sort_key_stable [of op_order "(nid, s)" opers] by (simp add: sortedOperations_def conj_commute)
  show ?thesis
    unfolding Let_def set_note_batches list_all_iff
  proof (intro conjI ballI allI)
    show "mset ?s = mset opers" by (simp add: sortedOperations_def)
    show "sorted_wrt (<) (map (op_NoteID \<circ> hd) ?bs)" using b by simp
    fix x s assume x: "x \<in> set ?bs"
    show "x \<noteq> []" by (rule note_batches_nonempty [OF x])
    show f: "x = filter (\<lambda>o'. op_NoteID o' = op_NoteID (hd x)) ?s" by (rule fil [OF x])
    show "sorted (map op_Sequence x)" by (subst f) (rule seq)
    show "filter (\<lambda>o'. op_Sequence o' = s) x
        = filter (\<lambda>o'. op_NoteID o' = op_NoteID (hd x) \<and> op_Sequence o' = s) opers"
      using stable [of s "op_NoteID (hd x)"] f by simp
  qed
qed

subsection \<open>Rows of a run\<close>

lemma fresh_operations_subset: "set (fresh_operations known opers) \<subseteq> set opers"
  by (induction known opers rule: fresh_operations.induct) auto

lemma list_all2_mem: "list_all2 P xs ys \<Longrightarrow> y \<in> set ys \<Longrightarrow> \<exists>x \<in> set xs. P x y"
  by (induction rule: list_all2_induct) auto

lemma nullableUUID_Some: "nullableUUID x = Some i \<longleftrightarrow> x = i \<and> i \<noteq> Nil_uuid"
  by (auto simp: nullableUUID_def)

definition row_of_request :: "env \<Rightarrow> uuid \<Rightarrow> string \<Rightarrow> core \<Rightarrow> ClientOperation list \<Rightarrow> note_change_row \<Rightarrow> bool" where
  "row_of_request env owner device c opers r \<longleftrightarrow> (\<exists>oper \<in> set opers. log_row env owner device oper r
     \<and> guarded (op_NoteID oper) c oper \<and> bump_row c (op_NoteID oper) r)"

lemma row_of_request_mono:
  "row_of_request env owner device c opers r \<Longrightarrow> set opers \<subseteq> set opers' \<Longrightarrow> row_of_request env owner device c opers' r"
  by (auto simp: row_of_request_def)

lemma accepted_rows_request:
  assumes "accepted_rows env owner device opers c rows" "\<And>oper. oper \<in> set opers \<Longrightarrow> op_NoteID oper = op_NoteID (hd opers)"
  shows "list_all (row_of_request env owner device c opers) rows"
  unfolding list_all_iff
proof
  fix r assume r: "r \<in> set rows"
  let ?fresh = "fresh_operations (known_operations device (history c)) opers"
  obtain oper where oper: "oper \<in> set ?fresh" "log_row env owner device oper r"
    using assms(1) list_all2_mem [OF _ r] unfolding accepted_rows_def Let_def by blast
  have "oper \<in> set opers" using oper(1) fresh_operations_subset by blast
  with assms oper r show "row_of_request env owner device c opers r"
    by (auto simp: row_of_request_def accepted_rows_def Let_def list_all_iff)
qed

lemma version_other: "(\<And>i. i \<noteq> nid \<Longrightarrow> note_at c i = note_at c0 i) \<Longrightarrow> i \<noteq> nid \<Longrightarrow> version_at c i = version_at c0 i"
  by (simp add: version_at_def)

definition note_in :: "uuid \<Rightarrow> note_change_row list \<Rightarrow> bool" where
  "note_in i rows \<longleftrightarrow> (\<exists>r \<in> set rows. cr_NoteID r = Some i)"

lemma push_run_rows:
  assumes "push_run env owner device c bs outs c'"
    and "distinct (map (op_NoteID \<circ> hd) bs)"
    and "\<And>b oper. b \<in> set bs \<Longrightarrow> oper \<in> set b \<Longrightarrow> op_NoteID oper = op_NoteID (hd b)"
  shows "\<exists>new. history c' = history c @ new \<and> list_all (row_of_request env owner device c (concat bs)) new
    \<and> (\<forall>i. version_at c' i = version_at c i + (if note_in i new then 1 else 0))"
  using assms
proof (induction rule: push_run.induct)
  case (push_end c)
  show ?case by (rule exI [of _ "[]"]) (simp add: note_in_def)
next
  case (push_batch c opers out c1 bs outs c2)
  let ?nid = "op_NoteID (hd opers)"
  obtain new where new: "history c2 = history c1 @ new" "list_all (row_of_request env owner device c1 (concat bs)) new"
      "\<And>i. version_at c2 i = version_at c1 i + (if note_in i new then 1 else 0)"
    using push_batch.IH push_batch.prems by auto
  have ids: "op_NoteID oper \<noteq> ?nid" if oper: "oper \<in> set (concat bs)" for oper
  proof -
    obtain b where b: "b \<in> set bs" "oper \<in> set b" using oper by auto
    then have "op_NoteID oper = op_NoteID (hd b)" using push_batch.prems(2) by simp
    moreover have "op_NoteID (hd b) \<noteq> ?nid" using push_batch.prems(1) b(1) by (auto simp: image_iff)
    ultimately show ?thesis by simp
  qed
  have tail: "\<not> note_in ?nid new"
  proof
    assume "note_in ?nid new"
    then obtain r oper where "r \<in> set new" "cr_NoteID r = Some ?nid" "oper \<in> set (concat bs)"
        "cr_NoteID r = nullableUUID (op_NoteID oper)"
      using new(2) unfolding note_in_def list_all_iff row_of_request_def log_row_def by metis
    with ids show False by (simp add: nullableUUID_Some)
  qed
  show ?case
  proof (cases out)
    case (Rejected r)
    then have same: "history c1 = history c" "version_at c1 = version_at c"
      using push_batch.hyps(1) by (simp_all add: batch_done_def Let_def version_at_def fun_eq_iff)
    have "row_of_request env owner device c (concat (opers # bs)) r'"
      if "row_of_request env owner device c1 (concat bs) r'" for r'
      using that same by (auto simp: row_of_request_def guarded_def bump_row_def)
    with new same show ?thesis by (auto simp: list_all_iff)
  next
    case (Accepted a)
    obtain rows where rows: "history c1 = history c @ rows" "accepted_rows env owner device opers c rows"
        "version_at c1 ?nid = version_at c ?nid + (if rows = [] \<or> ?nid = Nil_uuid then 0 else 1)"
        "\<And>i. i \<noteq> ?nid \<Longrightarrow> note_at c1 i = note_at c i"
      using push_batch.hyps(1) Accepted by (auto simp: batch_done_def Let_def)
    have here: "list_all (row_of_request env owner device c opers) rows"
      by (rule accepted_rows_request [OF rows(2)]) (use push_batch.prems(2) in auto)
    have note_here: "cr_NoteID r = nullableUUID ?nid" if "r \<in> set rows" for r
      using rows(2) that by (auto simp: accepted_rows_def Let_def list_all_iff bump_row_def)
    have "row_of_request env owner device c (concat (opers # bs)) r'" if r': "r' \<in> set new" for r'
    proof -
      obtain oper where oper: "oper \<in> set (concat bs)" "log_row env owner device oper r'"
          "guarded (op_NoteID oper) c1 oper" "bump_row c1 (op_NoteID oper) r'"
        using new(2) r' unfolding list_all_iff row_of_request_def by blast
      have "version_at c1 (op_NoteID oper) = version_at c (op_NoteID oper)"
        using version_other [OF rows(4) ids [OF oper(1)]] .
      with oper show ?thesis
        by (auto simp: row_of_request_def guarded_def bump_row_def)
    qed
    moreover have "version_at c2 i = version_at c i + (if note_in i (rows @ new) then 1 else 0)" for i
    proof (cases "i = ?nid")
      case True
      have "note_in i rows \<longleftrightarrow> rows \<noteq> [] \<and> ?nid \<noteq> Nil_uuid"
        using note_here True by (cases rows) (auto simp: note_in_def nullableUUID_def)
      then show ?thesis
        using True new(3) [of i] rows(3) tail by (auto simp: note_in_def)
    next
      case False
      then have "\<not> note_in i rows"
        using note_here by (auto simp: note_in_def nullableUUID_Some)
      then show ?thesis
        using new(3) [of i] version_other [OF rows(4) False] by (auto simp: note_in_def)
    qed
    ultimately show ?thesis
      using new(1) rows(1) row_of_request_mono [OF _ , of env owner device c opers]  here
      by (intro exI [of _ "rows @ new"]) (auto simp: list_all_iff)
  qed
qed

lemma push_run_prefix: "push_run env owner device c bs outs c' \<Longrightarrow> \<exists>new. history c' = history c @ new"
  by (induction rule: push_run.induct) (auto simp: batch_done_def Let_def split: outcome.splits)

lemma push_run_cursor:
  assumes "push_run env owner device c bs outs c'" "history c' = history c @ new"
    and "sorted_wrt (<) (cur # map cr_seq new)" "0 \<le> cur"
  shows "committed_cursor cur (accepted_of outs) = (if new = [] then cur else cr_seq (last new))"
  using assms
proof (induction arbitrary: cur new rule: push_run.induct)
  case (push_end c)
  then show ?case by (simp add: committed_cursor_def)
next
  case (push_batch c opers out c1 bs outs c2)
  show ?case
  proof (cases out)
    case (Rejected r)
    then have "history c2 = history c1 @ new"
      using push_batch by (simp add: batch_done_def Let_def)
    from push_batch.IH [OF this push_batch.prems(2,3)] show ?thesis
      by (simp add: Rejected committed_cursor_def)
  next
    case (Accepted a)
    obtain rows where rows: "history c1 = history c @ rows"
        "ac_GlobalSequence a = (if rows = [] then 0 else cr_seq (last rows))"
      using push_batch.hyps(1) Accepted by (auto simp: batch_done_def Let_def)
    obtain rest where rest: "history c2 = history c1 @ rest"
      using push_run_prefix [OF push_batch.hyps(2)] by blast
    have new: "new = rows @ rest" using push_batch.prems(1) rows(1) rest by simp
    let ?cur = "if ac_GlobalSequence a > cur then ac_GlobalSequence a else cur"
    have cur: "?cur = (if rows = [] then cur else cr_seq (last rows))"
      using rows(2) push_batch.prems(2,3) new last_in_set [of rows] by auto
    have sorted: "sorted_wrt (<) (?cur # map cr_seq rest)"
      using push_batch.prems(2) new unfolding cur by (auto simp: sorted_wrt_append)
    have "0 \<le> ?cur" using push_batch.prems(3) by auto
    from push_batch.IH [OF rest sorted this] show ?thesis
      by (auto simp: Accepted committed_cursor_def new cur)
  qed
qed

lemma push_run_length: "push_run env owner device c bs outs c' \<Longrightarrow> length outs = length bs"
  by (induction rule: push_run.induct) auto

subsection \<open>The request\<close>

text \<open>
  C2. Whatever a push does and however it ends, also when statements or the commit fail, the
  database stays well-formed and the change obeys the contract of a push: the history only grows,
  by rows of this user and device with new sequence numbers; notes, blocks and categories of other
  users are untouched; versions never decrease, tombstones stay, rows keep their identity. No nil
  pointer is dereferenced on the way.
\<close>

theorem Sync_contract:
  assumes "db_ok (w_core w)" "\<not> w_in_tx w" "Sync env sv owner req w = (r, w')"
  shows "db_ok (w_core w') \<and> sync_step owner (rq_DeviceID req) (w_core w) (w_core w') \<and> r \<noteq> Inl ErrPanic"
  using Sync_rel [OF assms] assms(1) by (simp add: sync_rel_def)

theorem Sync_contract_witness:
  "db_ok (w_core (snd (Sync demo_env demo_service 7 demo_request demo_world)))
   \<and> sync_step 7 ''phone'' demo_core (w_core (snd (Sync demo_env demo_service 7 demo_request demo_world)))
   \<and> map nt_Title (t_notes (w_db (snd (Sync demo_env demo_service 7 demo_request demo_world)))) = [''Hi!'']"
proof -
  have "map nt_Title (t_notes (w_db (snd (Sync demo_env demo_service 7 demo_request demo_world)))) = [''Hi!'']"
    by code_simp
  then show ?thesis
    using Sync_contract [of demo_world demo_env demo_service 7 demo_request, OF _ _ prod.collapse [symmetric]] demo_ok
    by (simp add: demo_request_def)
qed



text \<open>
  C4. A push that returns an error has had no effect: the tables are as before and no hint was
  published. The one exception is a commit whose acknowledgement was lost.
\<close>

theorem Sync_atomic:
  assumes "\<not> w_in_tx w" "Sync env sv owner req w = (Inl e, w')" "\<And>n. e_commit env n \<noteq> Commit_lost"
  shows "w_db w' = w_db w \<and> w_events w' = w_events w"
  using assms(2)
proof (cases rule: Sync_split)
  case (failed e')
  then show ?thesis
    using WithTx_error_restores [OF failed(2) assms(1,3)] WithTx_events [OF stable_syncTx failed(2)] by simp
qed auto

theorem Sync_atomic_witness:
  "w_db (snd (Sync demo_env demo_service 7 (demo_request\<lparr>rq_DeviceID := ''watch''\<rparr>) demo_world)) = demo_db"
proof -
  let ?req = "demo_request\<lparr>rq_DeviceID := ''watch''\<rparr>"
  have err: "case fst (Sync demo_env demo_service 7 ?req demo_world) of Inl _ \<Rightarrow> True | Inr _ \<Rightarrow> False"
    by code_simp
  obtain e where "Sync demo_env demo_service 7 ?req demo_world = (Inl e, snd (Sync demo_env demo_service 7 ?req demo_world))"
    using err by (cases "Sync demo_env demo_service 7 ?req demo_world") (auto split: sum.splits)
  from Sync_atomic [OF _ this] demo_ok show ?thesis by (simp add: demo_env_def demo_core_def)
qed

text \<open>
  C5. Optimistic concurrency. Every row that a successful push adds to the history comes from an
  operation of the request that named the current version of its note (or a category operation);
  the row leads from that version to the next one; and the version of a note goes up by exactly one
  if the push added rows for it, and not at all otherwise. So of two pushes that start from the same
  version of a note at most one is accepted.
\<close>

theorem Sync_no_lost_update:
  assumes "db_ok (w_core w)" "\<not> w_in_tx w" "Sync env sv owner req w = (Inr resp, w')"
  shows "\<exists>new. history (w_core w') = history (w_core w) @ new
    \<and> list_all (row_of_request env owner (rq_DeviceID req) (w_core w) (rq_Operations req)) new
    \<and> (\<forall>i. version_at (w_core w') i = version_at (w_core w) i + (if note_in i new then 1 else 0))"
proof -
  let ?s = "sortedOperations (rq_Operations req)"
  obtain outs where run: "push_run env owner (rq_DeviceID req) (w_core w) (note_batches ?s) outs (w_core w')"
    using assms(3)
  proof (cases rule: Sync_split)
    case (committed resp' cur w1)
    then show ?thesis
      using that Sync_tx_cases [OF committed(2) assms(2,1)] publish_cases [OF committed(3)] by auto
  qed auto
  note b = note_batches_sorted [OF sortedOperations_sorted_result [of "rq_Operations req"]]
  have "distinct (map (op_NoteID \<circ> hd) (note_batches ?s))"
    using b by (simp add: strict_sorted_iff)
  moreover have "op_NoteID oper = op_NoteID (hd x)" if "x \<in> set (note_batches ?s)" "oper \<in> set x" for x oper
  proof -
    have "x = filter (\<lambda>o'. op_NoteID o' = op_NoteID (hd x)) ?s" using b that(1) by (simp add: list_all_iff)
    then have "oper \<in> set (filter (\<lambda>o'. op_NoteID o' = op_NoteID (hd x)) ?s)" using that(2) by argo
    then show ?thesis by simp
  qed
  ultimately have "\<exists>new. history (w_core w') = history (w_core w) @ new
      \<and> list_all (row_of_request env owner (rq_DeviceID req) (w_core w) (concat (note_batches ?s))) new
      \<and> (\<forall>i. version_at (w_core w') i = version_at (w_core w) i + (if note_in i new then 1 else 0))"
    by (rule push_run_rows [OF run])
  moreover have "row_of_request env owner (rq_DeviceID req) (w_core w) ?s
      = row_of_request env owner (rq_DeviceID req) (w_core w) (rq_Operations req)"
    by (simp add: row_of_request_def sortedOperations_def fun_eq_iff)
  ultimately show ?thesis by (simp add: set_note_batches)
qed

theorem Sync_no_lost_update_witness:
  "\<exists>new. history (w_core (snd (Sync demo_env demo_service 7 demo_request demo_world))) = [demo_change] @ new
    \<and> list_all (row_of_request demo_env 7 ''phone'' demo_core [demo_operation]) new \<and> new \<noteq> []"
proof -
  have ok: "case Sync demo_env demo_service 7 demo_request demo_world of
      (Inl _, _) \<Rightarrow> False | (Inr resp, w) \<Rightarrow> length (history (w_core w)) = 2"
    by code_simp
  obtain resp w where run: "Sync demo_env demo_service 7 demo_request demo_world = (Inr resp, w)"
      "length (history (w_core w)) = 2"
    using ok by (cases "Sync demo_env demo_service 7 demo_request demo_world") (auto split: sum.splits)
  show ?thesis
    using Sync_no_lost_update [OF _ _ run(1)] demo_ok run
    by (auto simp: demo_request_def demo_core_def demo_db_def)
qed

text \<open>
  C6. A request whose operations the server has all seen from this device (the retry of a request
  that was committed) is answered when nothing fails: every batch is accepted, none is rejected,
  and neither the tables, nor the counters, nor the published hints change.
\<close>

theorem Sync_replay:
  assumes "healthy env" "db_ok (w_core w)" "\<not> w_in_tx w" "\<not> w_aborted w"
    and "device_at (w_core w) (rq_DeviceID req) = Some d" "dv_OwnerID d = owner" "dv_RevokedAt d = None"
    and "Request_Validate (sv_maxOperations sv) req = None"
    and "op_OperationID ` set (rq_Operations req) \<subseteq> known_operations (rq_DeviceID req) (history (w_core w))"
  shows "\<exists>resp w'. Sync env sv owner req w = (Inr resp, w') \<and> w_core w' = w_core w \<and> w_events w' = w_events w
    \<and> rs_Rejected resp = []
    \<and> map ac_NoteID (rs_Accepted resp) = map (op_NoteID \<circ> hd) (note_batches (sortedOperations (rq_Operations req)))"
proof -
  have "calm (w_core w) False (w_events w) w" using assms(3,4) by (simp add: calm_def)
  then obtain resp w' where "Sync env sv owner req w = (Inr resp, w')" "calm (w_core w) False (w_events w) w'"
      "rs_Rejected resp = []"
      "map ac_NoteID (rs_Accepted resp) = map (op_NoteID \<circ> hd) (note_batches (sortedOperations (rq_Operations req)))"
    using returns_apply [OF Sync_returns [OF assms(1,2,5-9)]] by metis
  then show ?thesis by (auto simp: calm_def)
qed

theorem Sync_replay_witness:
  "\<exists>resp w. Sync demo_env demo_service 7 (demo_request\<lparr>rq_DeviceID := ''tablet'',
       rq_Operations := [demo_operation\<lparr>op_OperationID := 5\<rparr>]\<rparr>) demo_world = (Inr resp, w)
     \<and> w_core w = demo_core \<and> rs_Rejected resp = [] \<and> map ac_NoteID (rs_Accepted resp) = [1]"
proof -
  let ?oper = "demo_operation\<lparr>op_OperationID := 5\<rparr>"
  let ?req = "demo_request\<lparr>rq_DeviceID := ''tablet'', rq_Operations := [?oper]\<rparr>"
  have sorted: "map (op_NoteID \<circ> hd) (note_batches (sortedOperations [?oper])) = [1]"
    by code_simp
  have h: "healthy demo_env" by (simp add: healthy_def demo_env_def)
  have v: "Request_Validate (sv_maxOperations demo_service) ?req = None"
    by (simp add: Request_Validate_def demo_defs demo_device_names)
  have k: "op_OperationID ` set (rq_Operations ?req) \<subseteq> known_operations (rq_DeviceID ?req) (history (w_core demo_world))"
    by (simp add: known_operations_def demo_defs)
  have d: "device_at (w_core demo_world) (rq_DeviceID ?req) = Some (demo_device ''tablet'')"
      "dv_OwnerID (demo_device ''tablet'') = 7" "dv_RevokedAt (demo_device ''tablet'') = None"
      "\<not> w_aborted demo_world"
    by (simp_all add: demo_defs)
  show ?thesis
    using Sync_replay [of demo_env demo_world ?req "demo_device ''tablet''" 7 demo_service] h v k d sorted demo_ok
    by auto
qed

lemma known_append: "known_operations device (h @ rows) = known_operations device h \<union> known_operations device rows"
  by (simp add: known_operations_def image_Un)

lemma known_Cons: "log_row env owner device oper r \<Longrightarrow>
  known_operations device (r # rows) = insert (op_OperationID oper) (known_operations device rows)"
  by (simp add: known_operations_def log_row_def)

lemma fresh_known:
  "list_all2 (log_row env owner device) (fresh_operations known opers) rows \<Longrightarrow>
   op_OperationID ` set opers \<subseteq> known \<union> known_operations device rows"
proof (induction known opers arbitrary: rows rule: fresh_operations.induct)
  case (2 known oper opers)
  show ?case
  proof (cases "op_OperationID oper \<in> known")
    case True
    then show ?thesis using 2(1) [OF True, of rows] 2(3) by auto
  next
    case False
    then obtain r rest where "rows = r # rest" "log_row env owner device oper r"
        "list_all2 (log_row env owner device) (fresh_operations (insert (op_OperationID oper) known) opers) rest"
      using 2(3) by (auto simp: list_all2_Cons1)
    then show ?thesis using 2(2) [OF False, of rest] by (auto simp: known_Cons [of env owner])
  qed
qed simp

lemma known_run:
  assumes "push_run env owner device c bs outs c'" "rejected_of outs = []"
  shows "op_OperationID ` set (concat bs) \<subseteq> known_operations device (history c')"
  using assms
proof (induction rule: push_run.induct)
  case (push_batch c opers out c1 bs outs c2)
  obtain a where a: "out = Accepted a" using push_batch.prems by (cases out) auto
  obtain rows where rows: "history c1 = history c @ rows" "list_all2 (log_row env owner device)
      (fresh_operations (known_operations device (history c)) opers) rows"
    using push_batch.hyps(1) a by (auto simp: batch_done_def accepted_rows_def Let_def)
  obtain new where "history c2 = history c1 @ new" using push_run_prefix [OF push_batch.hyps(2)] by blast
  then show ?case
    using push_batch.IH push_batch.prems fresh_known [OF rows(2)] rows(1) a by (auto simp: known_append)
qed simp

lemma Sync_Inr:
  assumes "db_ok (w_core w)" "\<not> w_in_tx w" "Sync env sv owner req w = (Inr resp, w')"
  obtains outs d where "push_run env owner (rq_DeviceID req) (w_core w)
      (note_batches (sortedOperations (rq_Operations req))) outs (w_core w')"
    "rejected_of outs = rs_Rejected resp" "accepted_of outs = rs_Accepted resp"
    "device_at (w_core w) (rq_DeviceID req) = Some d" "dv_OwnerID d = owner" "dv_RevokedAt d = None"
    "\<not> w_in_tx w'" "\<not> w_aborted w'" "Request_Validate (sv_maxOperations sv) req = None"
    "sync_rel owner (rq_DeviceID req) (w_core w) (w_core w')"
    "w_events w' = w_events w \<or> sv_hasEventBus sv \<and> committed_cursor 0 (rs_Accepted resp) > 0
       \<and> w_events w' = w_events w @ [\<lparr>ev_UserID = owner, ev_OriginDeviceID = rq_DeviceID req,
           ev_LatestCursor = committed_cursor 0 (rs_Accepted resp)\<rparr>]"
  using assms(3)
proof (cases rule: Sync_split)
  case (committed resp' cur w1)
  have "\<not> w_in_tx w1" "w_events w1 = w_events w" using WithTx_events [OF stable_syncTx committed(2)] assms(2) by auto
  moreover have "\<not> w_aborted w1"
    using committed(2) assms(2)
    by (auto simp: WithTx_def split: if_splits prod.splits sum.splits commit_outcome.splits)
  ultimately show ?thesis
    using that Sync_tx_cases [OF committed(2) assms(2,1)] publish_cases [OF committed(3)] committed(1,4) by auto
qed auto

text \<open>
  C7. A request that was answered without a rejection may be sent again, in an environment without
  failures: the second answer again has no rejection, one acceptance per note, and the database
  stays as the first request left it.
\<close>

theorem Sync_retry:
  assumes "db_ok (w_core w)" "\<not> w_in_tx w" "Sync env sv owner req w = (Inr resp, w1)" "rs_Rejected resp = []"
    and "healthy env'"
  shows "\<exists>resp' w2. Sync env' sv owner req w1 = (Inr resp', w2) \<and> w_core w2 = w_core w1
    \<and> w_events w2 = w_events w1 \<and> rs_Rejected resp' = []
    \<and> map ac_NoteID (rs_Accepted resp') = map (op_NoteID \<circ> hd) (note_batches (sortedOperations (rq_Operations req)))"
proof -
  obtain outs d where r: "push_run env owner (rq_DeviceID req) (w_core w)
      (note_batches (sortedOperations (rq_Operations req))) outs (w_core w1)"
    "rejected_of outs = rs_Rejected resp" "device_at (w_core w) (rq_DeviceID req) = Some d" "dv_OwnerID d = owner"
    "dv_RevokedAt d = None" "\<not> w_in_tx w1" "\<not> w_aborted w1" "Request_Validate (sv_maxOperations sv) req = None"
    "sync_rel owner (rq_DeviceID req) (w_core w) (w_core w1)"
    by (rule Sync_Inr [OF assms(1-3)])
  have ok: "db_ok (w_core w1)" and dev: "device_at (w_core w1) (rq_DeviceID req) = Some d"
    using r(3,9) assms(1) by (simp_all add: sync_rel_def sync_step_def other_rel_def)
  have known: "op_OperationID ` set (rq_Operations req) \<subseteq> known_operations (rq_DeviceID req) (history (w_core w1))"
    using known_run [OF r(1)] r(2) assms(4) unfolding set_note_batches by (simp add: sortedOperations_def)
  have "calm (w_core w1) False (w_events w1) w1" using r(6,7) by (simp add: calm_def)
  from returns_apply [OF Sync_returns [OF assms(5) ok dev r(4,5,8) known] this]
  obtain resp' w2 where "Sync env' sv owner req w1 = (Inr resp', w2)" "calm (w_core w1) False (w_events w1) w2"
      "rs_Rejected resp' = []"
      "map ac_NoteID (rs_Accepted resp') = map (op_NoteID \<circ> hd) (note_batches (sortedOperations (rq_Operations req)))"
    by metis
  then show ?thesis by (auto simp: calm_def)
qed

theorem Sync_retry_witness:
  "\<exists>resp resp' w1 w2. Sync demo_env demo_service 7 demo_request demo_world = (Inr resp, w1)
     \<and> Sync demo_env demo_service 7 demo_request w1 = (Inr resp', w2)
     \<and> w_core w2 = w_core w1 \<and> w_core w1 \<noteq> demo_core"
proof -
  have ok: "case Sync demo_env demo_service 7 demo_request demo_world of
      (Inl _, _) \<Rightarrow> False | (Inr resp, w) \<Rightarrow> rs_Rejected resp = [] \<and> length (history (w_core w)) = 2"
    by code_simp
  obtain resp w where run: "Sync demo_env demo_service 7 demo_request demo_world = (Inr resp, w)"
      "rs_Rejected resp = []" "length (history (w_core w)) = 2"
    using ok by (cases "Sync demo_env demo_service 7 demo_request demo_world") (auto split: sum.splits)
  have "w_core w \<noteq> demo_core" using run(3) by (auto simp: demo_core_def demo_db_def)
  moreover have "healthy demo_env" by (simp add: healthy_def demo_env_def)
  ultimately show ?thesis
    using Sync_retry [OF _ _ run(1,2), of demo_env] demo_ok run(1) by auto
qed

lemma Sync_published:
  assumes "db_ok (w_core w)" "\<not> w_in_tx w" "Sync env sv owner req w = (r, w')" "w_events w' \<noteq> w_events w"
  shows "\<exists>resp. r = Inr resp \<and> history (w_core w') \<noteq> history (w_core w)
    \<and> w_events w' = w_events w @ [\<lparr>ev_UserID = owner, ev_OriginDeviceID = rq_DeviceID req,
        ev_LatestCursor = cr_seq (last (history (w_core w')))\<rparr>]"
proof (cases r)
  case (Inl e)
  have "w_events w' = w_events w"
    using assms(3) by (cases rule: Sync_split) (use Inl WithTx_events [OF stable_syncTx] in auto)
  with assms(4) show ?thesis by simp
next
  case (Inr resp)
  obtain outs d where o: "push_run env owner (rq_DeviceID req) (w_core w)
      (note_batches (sortedOperations (rq_Operations req))) outs (w_core w')" "accepted_of outs = rs_Accepted resp"
    "sync_rel owner (rq_DeviceID req) (w_core w) (w_core w')"
    "w_events w' = w_events w \<or> sv_hasEventBus sv \<and> committed_cursor 0 (rs_Accepted resp) > 0
       \<and> w_events w' = w_events w @ [\<lparr>ev_UserID = owner, ev_OriginDeviceID = rq_DeviceID req,
           ev_LatestCursor = committed_cursor 0 (rs_Accepted resp)\<rparr>]"
    by (rule Sync_Inr [OF assms(1,2) assms(3) [unfolded Inr]])
  obtain new where new: "history (w_core w') = history (w_core w) @ new" using push_run_prefix [OF o(1)] by blast
  have "db_ok (w_core w')" using o(3) assms(1) by (simp add: sync_rel_def)
  then have "sorted_wrt (<) (map cr_seq (history (w_core w')))" "\<And>x. x \<in> set (history (w_core w')) \<Longrightarrow> 1 \<le> cr_seq x"
    by (auto simp: db_ok_def changes_ok_def list_all_iff change_ok_def)
  then have "sorted_wrt (<) (0 # map cr_seq new)"
    using new by (force simp: sorted_wrt_append)
  then have cur: "committed_cursor 0 (rs_Accepted resp) = (if new = [] then 0 else cr_seq (last new))"
    using push_run_cursor [OF o(1) new, of 0] o(2) by simp
  then have "new \<noteq> []" using o(4) assms(4) by auto
  with cur o(4) assms(4) new Inr show ?thesis by auto
qed

text \<open>
  C8. A hint is published only after the transaction has committed, at most one per request, only
  when the request added something to the history, and the cursor it carries is the sequence number
  of the last change, so that a device that pulls up to it has everything.
\<close>

theorem Sync_event:
  assumes "db_ok (w_core w)" "\<not> w_in_tx w" "Sync env sv owner req w = (r, w')" "w_events w' \<noteq> w_events w"
  shows "\<exists>resp. r = Inr resp \<and> history (w_core w') \<noteq> history (w_core w)
    \<and> w_events w' = w_events w @ [\<lparr>ev_UserID = owner, ev_OriginDeviceID = rq_DeviceID req,
        ev_LatestCursor = cr_seq (last (history (w_core w')))\<rparr>]"
  using Sync_published [OF assms] .

theorem Sync_event_witness:
  "w_events (snd (Sync demo_env demo_service 7 demo_request demo_world)) =
     [\<lparr>ev_UserID = 7, ev_OriginDeviceID = ''phone'',
       ev_LatestCursor = cr_seq (last (history (w_core (snd (Sync demo_env demo_service 7 demo_request demo_world)))))\<rparr>]"
proof -
  have "w_events (snd (Sync demo_env demo_service 7 demo_request demo_world)) \<noteq> []" by code_simp
  then show ?thesis
    using Sync_event [of demo_world demo_env demo_service 7 demo_request, OF _ _ prod.collapse [symmetric]] demo_ok
    by (simp add: demo_world_def demo_request_def)
qed

text \<open>
  C9. A push from a device that is unknown, belongs to another user or has been revoked is refused
  and changes nothing, whatever else happens.
\<close>

theorem Sync_device_refused:
  assumes "db_ok (w_core w)" "\<not> w_in_tx w" "Sync env sv owner req w = (r, w')"
    and "\<And>d. device_at (w_core w) (rq_DeviceID req) = Some d \<Longrightarrow> dv_OwnerID d \<noteq> owner \<or> dv_RevokedAt d \<noteq> None"
  shows "\<exists>e. r = Inl e \<and> w_db w' = w_db w \<and> w_events w' = w_events w"
  by (rule Sync_refused [OF assms])

theorem Sync_device_refused_witness:
  "\<exists>e. fst (Sync demo_env demo_service 8 demo_request demo_world) = Inl e"
  using Sync_device_refused [of demo_world demo_env demo_service 8 demo_request, OF _ _ prod.collapse [symmetric]] demo_ok
  by (auto simp: demo_core_def demo_db_def demo_device_def demo_request_def)

end
