(* ===== verification/Pull_Properties.thy ===== *)
theory Pull_Properties
  imports Sync_Pull Push_Properties
begin

section \<open>What a pull guarantees\<close>

text \<open>
  The properties of \<open>GET /v1/sync\<close> and of the check for updates: what a page holds, that the pages
  of a session together hold every change exactly once, that a session ends, and that a pull
  changes nothing but the cursor of the device, which never moves back.
\<close>

definition limit_ok :: "Service \<Rightarrow> bool" where
  "limit_ok sv \<longleftrightarrow> 0 \<le> pullLimit sv \<and> pullLimit sv < max_int32"

lemma Pull_cases:
  assumes ok: "db_ok (w_core w)" and out: "\<not> w_in_tx w" and lim: "limit_ok sv"
    and run: "Pull env sv owner req w = (r, w')"
  shows "pull_rel owner (pr_DeviceID req) (w_core w) (w_core w') \<and> r \<noteq> Inl ErrPanic
    \<and> (\<forall>resp. r = Inr resp \<longrightarrow> pull_effect sv owner req (w_core w) resp (w_core w'))"
proof (cases "PullRequest_Validate req")
  case (Some e)
  then have "r = Inl e" "w' = w" using run by (auto simp: Pull_def failM_def)
  moreover have "e \<noteq> ErrPanic"
    using Some by (auto simp: PullRequest_Validate_def UnsupportedProtocol_def InvalidRequest_def split: if_splits)
  ultimately show ?thesis by (simp add: pull.R_refl)
next
  case None
  then have tx: "WithTx env (pullTx env sv owner req) w = (r, w')" using run by (simp add: Pull_def)
  note T = pullTx_triple [OF ok, of sv env owner req]
  have l: "0 \<le> pullLimit sv" "pullLimit sv < max_int32" using lim by (auto simp: limit_ok_def)
  show ?thesis
  proof (cases rule: WithTx_cases [OF tx out])
    case 1
    then show ?thesis by (simp add: pull.R_refl)
  next
    case (2 w1 r2 w2)
    have body: "pull_rel owner (pr_DeviceID req) (w_core w) (w_core w2)" "r2 \<noteq> Inl ErrPanic"
        "\<And>resp. r2 = Inr resp \<Longrightarrow> pull_effect sv owner req (w_core w) resp (w_core w2)"
      using ctriple_InrD [OF T [OF l] 2(2)] ctriple_InlD [OF T [OF l] 2(2)] 2(1) by (cases r2; simp)+
    have "pull_rel owner (pr_DeviceID req) (w_core w) (w_core w')"
      using 2(5) body(1) pull.R_undo [OF body(1)] by auto
    moreover have "r \<noteq> Inl ErrPanic"
      using body(2) 2(7,8) by (cases r2) auto
    ultimately show ?thesis using 2(6) body(3) by auto
  qed
qed

text \<open>
  C10. Every pull, whatever its outcome, leaves all tables alone but the cursor and the time of last
  use of the requesting device; that cursor never moves back; no slice expression is out of range.
\<close>

theorem Pull_contract:
  assumes "db_ok (w_core w)" "\<not> w_in_tx w" "limit_ok sv" "Pull env sv owner req w = (r, w')"
  shows "pull_rel owner (pr_DeviceID req) (w_core w) (w_core w') \<and> db_ok (w_core w') \<and> r \<noteq> Inl ErrPanic"
  using Pull_cases [OF assms] db_ok_pull assms(1) by blast

definition demo_pull :: PullRequest where
  "demo_pull = \<lparr>pr_ProtocolVersion = ProtocolVersion, pr_ClientVersion = [], pr_DeviceID = ''phone'', pr_Cursor = 0\<rparr>"

lemma demo_limit: "limit_ok demo_service" "pullLimit demo_service = 50"
  by (simp_all add: limit_ok_def pullLimit_def demo_service_def)

theorem Pull_contract_witness:
  "pull_rel 7 ''phone'' demo_core (w_core (snd (Pull demo_env demo_service 7 demo_pull demo_world)))"
  using Pull_contract [of demo_world demo_service demo_env 7 demo_pull, OF _ _ _ prod.collapse [symmetric]] demo_ok demo_limit
  by (simp add: demo_pull_def)

text \<open>
  C11. A page holds, in the order of their sequence numbers, the first changes after the cursor that
  other devices of the user have made, up to the limit; \<open>hasMore\<close> says exactly whether there are
  further ones; the next cursor is the sequence number of the last change of the page (the cursor
  itself for an empty page), and the stored cursor of the device is at least that.
\<close>

theorem Pull_page:
  assumes "db_ok (w_core w)" "\<not> w_in_tx w" "limit_ok sv" "Pull env sv owner req w = (Inr resp, w')"
  shows "page_of (nat (pullLimit sv)) (pr_Cursor req) (unseen owner (pr_DeviceID req) (pr_Cursor req) (w_core w)) resp
    \<and> sorted_wrt (<) (pr_Cursor req # map pc_GlobalSequence (pl_Changes resp))
    \<and> list_all (\<lambda>p. pc_DeviceID p \<noteq> pr_DeviceID req) (pl_Changes resp)
    \<and> (\<exists>d. device_at (w_core w') (pr_DeviceID req) = Some d \<and> pl_NextCursor resp \<le> dv_LastGlobalCursor d)"
proof -
  let ?u = "unseen owner (pr_DeviceID req) (pr_Cursor req) (w_core w)"
  let ?n = "nat (pullLimit sv)"
  have eff: "pull_effect sv owner req (w_core w) resp (w_core w')" using Pull_cases [OF assms] by blast
  then have page: "page_of ?n (pr_Cursor req) ?u resp" by (simp add: pull_effect_def)
  then have wires: "mapE wire (take ?n ?u) = Inr (pl_Changes resp)" by (simp add: page_of_def)
  have "sorted_wrt (\<lambda>x y. cr_seq x < cr_seq y) ?u"
    using assms(1) unfolding unseen_def by (intro sorted_wrt_filter) (simp add: db_ok_def changes_ok_def sorted_wrt_map)
  then have "sorted_wrt (<) (map cr_seq (take ?n ?u))" by (simp add: sorted_wrt_map sorted_wrt_take)
  moreover have "pr_Cursor req < cr_seq r" "cr_DeviceID r \<noteq> pr_DeviceID req" if "r \<in> set (take ?n ?u)" for r
    using in_set_takeD [OF that] by (auto simp: unseen_def)
  moreover have "list_all2 (\<lambda>r p. wire r = Inr p) (take ?n ?u) (pl_Changes resp)"
    by (rule mapE_Inr_list_all2 [OF wires])
  then have "\<exists>r \<in> set (take ?n ?u). pc_DeviceID p = cr_DeviceID r" if "p \<in> set (pl_Changes resp)" for p
    using that by (induction rule: list_all2_induct)
      (auto simp: wire_def PulledChange_FromEntity_def fromDBChange_def split: if_splits)
  ultimately have "sorted_wrt (<) (pr_Cursor req # map pc_GlobalSequence (pl_Changes resp))"
    "list_all (\<lambda>p. pc_DeviceID p \<noteq> pr_DeviceID req) (pl_Changes resp)"
    using mapE_seq [OF wires] by (auto simp: list_all_iff) metis
  with page eff show ?thesis by (auto simp: pull_effect_def)
qed

theorem Pull_page_witness:
  "\<exists>resp w. Pull demo_env demo_service 7 demo_pull demo_world = (Inr resp, w)
     \<and> page_of 50 0 (unseen 7 ''phone'' 0 demo_core) resp \<and> map pc_GlobalSequence (pl_Changes resp) = [1]"
proof -
  have ok: "case fst (Pull demo_env demo_service 7 demo_pull demo_world) of
      Inl _ \<Rightarrow> False | Inr resp \<Rightarrow> map pc_GlobalSequence (pl_Changes resp) = [1]"
    by code_simp
  obtain resp w where run: "Pull demo_env demo_service 7 demo_pull demo_world = (Inr resp, w)"
      "map pc_GlobalSequence (pl_Changes resp) = [1]"
    using ok by (cases "Pull demo_env demo_service 7 demo_pull demo_world") (auto split: sum.splits)
  then show ?thesis
    using Pull_page [OF _ _ demo_limit(1) run(1)] demo_ok demo_limit(2) by (auto simp: demo_pull_def)
qed

subsection \<open>Sessions\<close>

text \<open>A client that follows the next cursor until there is nothing more.\<close>

inductive pull_session :: "env \<Rightarrow> Service \<Rightarrow> uuid \<Rightarrow> PullRequest \<Rightarrow> world \<Rightarrow> PulledChange list \<Rightarrow> world \<Rightarrow> bool"
  for env sv owner where
  session_last: "Pull env sv owner req w = (Inr resp, w') \<Longrightarrow> \<not> pl_HasMore resp \<Longrightarrow>
    pull_session env sv owner req w (pl_Changes resp) w'"
| session_more: "Pull env sv owner req w = (Inr resp, w1) \<Longrightarrow> pl_HasMore resp \<Longrightarrow>
    pull_session env sv owner (req\<lparr>pr_Cursor := pl_NextCursor resp\<rparr>) w1 changes w' \<Longrightarrow>
    pull_session env sv owner req w (pl_Changes resp @ changes) w'"

lemma pull_rel_history: "pull_rel owner device c c' \<Longrightarrow> history c' = history c"
proof -
  assume "pull_rel owner device c c'"
  then have "c' = on_devices (\<lambda>_. t_sync_devices (c_db c')) c" by (simp add: pull_rel_def)
  then show ?thesis by (metis (no_types, lifting) core.select_convs(1) core.surjective core.update_convs(1)
      database.select_convs(5) database.surjective database.update_convs(4) on_devices_def)
qed

lemma unseen_cong: "history c' = history c \<Longrightarrow> unseen owner device cursor c' = unseen owner device cursor c"
  by (simp add: unseen_def)

lemma unseen_next:
  assumes "db_ok c" "page_of n cursor (unseen owner device cursor c) resp"
  shows "unseen owner device (pl_NextCursor resp) c = drop n (unseen owner device cursor c)"
proof -
  have "pl_NextCursor resp = feed.next_cursor owner device c n cursor"
    using assms by (simp add: page_of_def feed.next_cursor_def feed.page_def after_unseen)
  then show ?thesis
    using feed.after_next [OF visible_ok(1) [OF assms(1)], where n = n and cursor = cursor]
    by (simp add: after_unseen [OF assms(1)])
qed

lemma page_cursor:
  assumes "db_ok c" "page_of n cursor (unseen owner device cursor c) resp"
  shows "cursor \<le> pl_NextCursor resp"
  using feed.next_cursor_ge [of cursor owner device c n] assms
  by (auto simp: page_of_def feed.next_cursor_def feed.page_def after_unseen split: if_splits)

lemma Pull_out: "Pull env sv owner req w = (r, w') \<Longrightarrow> \<not> w_in_tx w \<Longrightarrow> \<not> w_in_tx w'"
proof -
  have "tx_stable (pullTx env sv owner req)"
    unfolding pullTx_def GetChangesAfterCursor_def GetChangesAfterCursor_sql_def UpdateDeviceCursor_def
      UpdateDeviceCursor_sql_def
    by (intro stable_rules)
  then show "Pull env sv owner req w = (r, w') \<Longrightarrow> \<not> w_in_tx w \<Longrightarrow> \<not> w_in_tx w'"
    by (auto simp: Pull_def failM_def split: option.splits dest: WithTx_events)
qed

lemma mapE_append: "mapE f xs = Inr as \<Longrightarrow> mapE f ys = Inr bs \<Longrightarrow> mapE f (xs @ ys) = Inr (as @ bs)"
  by (induction xs arbitrary: as) (auto split: sum.splits)

lemma pull_session_all:
  assumes "pull_session env sv owner req w changes w'" "db_ok (w_core w)" "\<not> w_in_tx w" "limit_ok sv"
  shows "mapE wire (unseen owner (pr_DeviceID req) (pr_Cursor req) (w_core w)) = Inr changes"
  using assms
proof (induction rule: pull_session.induct)
  case (session_last req w resp w')
  then have "page_of (nat (pullLimit sv)) (pr_Cursor req) (unseen owner (pr_DeviceID req) (pr_Cursor req) (w_core w)) resp"
    using Pull_cases [OF session_last(3,4,5,1)] by (simp add: pull_effect_def)
  with session_last(2) show ?case by (auto simp: page_of_def not_less)
next
  case (session_more req w resp w1 changes w')
  let ?u = "unseen owner (pr_DeviceID req) (pr_Cursor req) (w_core w)"
  let ?n = "nat (pullLimit sv)"
  note P = Pull_cases [OF session_more(5,6,7,1)]
  have page: "page_of ?n (pr_Cursor req) ?u resp" using P by (simp add: pull_effect_def)
  have h: "history (w_core w1) = history (w_core w)" using P pull_rel_history by blast
  have ok1: "db_ok (w_core w1)" using P db_ok_pull session_more(5) by blast
  have "mapE wire (unseen owner (pr_DeviceID req) (pl_NextCursor resp) (w_core w1)) = Inr changes"
    using session_more.IH [OF ok1 Pull_out [OF session_more(1,6)] session_more(7)] by simp
  then have "mapE wire (drop ?n ?u) = Inr changes"
    using unseen_next [OF session_more(5) page] by (simp add: unseen_cong [OF h])
  moreover have "mapE wire (take ?n ?u) = Inr (pl_Changes resp)" using page by (simp add: page_of_def)
  ultimately show ?case using mapE_append [of wire "take ?n ?u" _ "drop ?n ?u"] by simp
qed

text \<open>
  C12. The pages of a session, put together, are exactly the changes of the other devices after the
  cursor the session started from: each once, none left out, in the order of the history.
\<close>

theorem pull_session_complete:
  assumes "pull_session env sv owner req w changes w'" "db_ok (w_core w)" "\<not> w_in_tx w" "limit_ok sv"
  shows "mapE wire (unseen owner (pr_DeviceID req) (pr_Cursor req) (w_core w)) = Inr changes"
  by (rule pull_session_all [OF assms])

theorem pull_session_complete_witness:
  "\<exists>changes w. pull_session demo_env demo_service 7 demo_pull demo_world changes w
     \<and> mapE wire (unseen 7 ''phone'' 0 demo_core) = Inr changes \<and> changes \<noteq> []"
proof -
  have ok: "case fst (Pull demo_env demo_service 7 demo_pull demo_world) of
      Inl _ \<Rightarrow> False | Inr resp \<Rightarrow> \<not> pl_HasMore resp \<and> pl_Changes resp \<noteq> []"
    by code_simp
  obtain resp w where run: "Pull demo_env demo_service 7 demo_pull demo_world = (Inr resp, w)"
      "\<not> pl_HasMore resp" "pl_Changes resp \<noteq> []"
    using ok by (cases "Pull demo_env demo_service 7 demo_pull demo_world") (auto split: sum.splits)
  have "pull_session demo_env demo_service 7 demo_pull demo_world (pl_Changes resp) w"
    by (rule session_last [OF run(1,2)])
  with pull_session_complete [OF this] demo_ok demo_limit run(3) show ?thesis by (auto simp: demo_pull_def)
qed

text \<open>Nothing fails in a healthy environment.\<close>

lemma exec_ok:
  assumes "healthy env" "\<And>now. \<exists>a c'. f now c = (Inr a, c')"
  shows "triple (calm c tx es) (exec env f) (\<lambda>_ w. w_in_tx w = tx \<and> \<not> w_aborted w \<and> w_events w = es) (\<lambda>_ _. False)"
proof (rule tripleI)
  fix w assume w: "calm c tx es w"
  obtain a c' where "f (pg_now env w) c = (Inr a, c')" using assms(2) by blast
  then have run: "exec env f w = (Inr a, (tick w)\<lparr>w_core := c'\<rparr>)"
    using w assms(1) by (simp add: exec_def calm_def healthy_def)
  show "w_in_tx w' = tx \<and> \<not> w_aborted w' \<and> w_events w' = es" if "exec env f w = (Inr x, w')" for x w'
    using run that w by (auto simp: calm_def)
  show False if "exec env f w = (Inl x, w')" for x w'
    using run that by simp
qed

lemma GetChanges_returns:
  assumes "healthy env" "db_ok c" "0 \<le> limit"
  shows "returns c tx es (GetChangesAfterCursor env owner cursor device limit)
    (\<lambda>rows. rows = map fromDBChange (take (nat limit) (unseen owner device cursor c)))"
proof -
  have "returns c tx es (GetChangesAfterCursor_sql env owner cursor device limit)
      (\<lambda>rows. rows = take (nat limit) (unseen owner device cursor c))"
    unfolding returns_def GetChangesAfterCursor_sql_def
    by (rule tripleI) (use assms in \<open>auto simp: exec_def healthy_def calm_def visible_after after_unseen\<close>)
  then show ?thesis
    unfolding GetChangesAfterCursor_def by (rule returns_bind) (simp add: returns_return)
qed

lemma mapE_append_Inr:
  "mapE f (xs @ ys) = Inr zs \<Longrightarrow> (\<exists>as. mapE f xs = Inr as) \<and> (\<exists>bs. mapE f ys = Inr bs)"
proof (induction xs arbitrary: zs)
  case (Cons x xs)
  then obtain y where y: "f x = Inr y" by (auto split: sum.splits)
  with Cons.prems obtain us where us: "mapE f (xs @ ys) = Inr us" by (auto split: sum.splits)
  then show ?case using Cons.IH [OF us] y by auto
qed simp

lemma mapE_take: "mapE f xs = Inr ys \<Longrightarrow> \<exists>zs. mapE f (take n xs) = Inr zs"
  and mapE_drop: "mapE f xs = Inr ys \<Longrightarrow> \<exists>zs. mapE f (drop n xs) = Inr zs"
  using mapE_append_Inr [of f "take n xs" "drop n xs" ys] by simp_all

lemma pull_device:
  assumes "pull_rel owner device c c'" "device_at c i = Some d"
  shows "\<exists>d'. device_at c' i = Some d' \<and> dv_OwnerID d' = dv_OwnerID d \<and> dv_RevokedAt d' = dv_RevokedAt d"
proof -
  have "list_all2 (device_step (device_owned device owner)) (t_sync_devices (c_db c)) (t_sync_devices (c_db c'))"
    using assms(1) by (simp add: pull_rel_def)
  then have "list_all2 (\<lambda>d d'. dv_ID d' = dv_ID d \<and> dv_OwnerID d' = dv_OwnerID d \<and> dv_RevokedAt d' = dv_RevokedAt d)
      (t_sync_devices (c_db c)) (t_sync_devices (c_db c'))"
    by (rule list_all2_mono) (metis SyncDevice.ext_inject SyncDevice.surjective SyncDevice.update_convs(7,8) device_step_def)
  then show ?thesis using assms(2) by (induction rule: list_all2_induct) (auto split: if_splits)
qed

lemma triple_noerr:
  assumes "triple P m Q (\<lambda>_ _. False)" "P s"
  obtains a s' where "m s = (Inr a, s')" "Q a s'"
  using assms by (cases "m s"; cases "fst (m s)") (auto simp: triple_def)

lemma Pull_ok:
  assumes h: "healthy env" and ok: "db_ok (w_core w)" and out: "\<not> w_in_tx w" "\<not> w_aborted w" and lim: "limit_ok sv"
    and dev: "device_at (w_core w) (pr_DeviceID req) = Some d" "dv_OwnerID d = owner" "dv_RevokedAt d = None"
    and valid: "PullRequest_Validate req = None"
    and wires: "mapE wire (unseen owner (pr_DeviceID req) (pr_Cursor req) (w_core w)) = Inr ps"
  shows "\<exists>resp w'. Pull env sv owner req w = (Inr resp, w') \<and> \<not> w_aborted w'"
proof -
  let ?c = "w_core w" and ?es = "w_events w"
  let ?u = "unseen owner (pr_DeviceID req) (pr_Cursor req) ?c"
  let ?w1 = "(tick w)\<lparr>w_in_tx := True, w_aborted := False, w_tx_now := e_clock env (w_tick w)\<rparr>"
  let ?rows = "map fromDBChange (take (nat (pullLimit sv + 1)) ?u)"
  have l: "0 \<le> pullLimit sv" "pullLimit sv < max_int32" using lim by (auto simp: limit_ok_def)
  have l32: "int32 (pullLimit sv + 1) = pullLimit sv + 1" using l by simp
  obtain resp where page: "pullPage (pullLimit sv) (pr_Cursor req) ?rows = Inr resp"
  proof -
    let ?some = "\<lambda>b. if b then take (nat (pullLimit sv)) ?rows else ?rows"
    have "\<exists>zs. mapE PulledChange_FromEntity (?some b) = Inr zs" for b
      using mapE_take [OF wires, of "nat (pullLimit sv + 1)"] mapE_take [OF wires, of "min (nat (pullLimit sv)) (nat (pullLimit sv + 1))"]
      by (auto simp: take_map mapE_wire)
    then obtain zs where "mapE PulledChange_FromEntity (?some (pullLimit sv < int (length ?rows))) = Inr zs" by blast
    then show ?thesis using that l by (cases "pullLimit sv < int (length ?rows)") (simp_all add: pullPage_def Let_def)
  qed
  have upd: "triple (calm ?c True ?es) (UpdateDeviceCursor env (pr_DeviceID req) owner (pl_NextCursor resp))
      (\<lambda>_ w. w_in_tx w \<and> \<not> w_aborted w) (\<lambda>_ _. False)"
    unfolding UpdateDeviceCursor_def UpdateDeviceCursor_sql_def
    by (rule triple_weaken [OF exec_ok [OF h]]) auto
  have "triple (calm ?c True ?es) (pullTx env sv owner req) (\<lambda>_ w. w_in_tx w \<and> \<not> w_aborted w) (\<lambda>_ _. False)"
    unfolding pullTx_def l32
  proof (rule triple_bind [OF lockDevice_returns [OF h ok dev, unfolded returns_def]], goal_cases)
    case (1 a)
    show ?case
    proof (rule triple_bind [where R = "\<lambda>rows w. rows = ?rows \<and> calm ?c True ?es w"], goal_cases)
      case 1
      show ?case
        by (rule triple_weaken [OF GetChanges_returns [OF h ok, unfolded returns_def]]) (use l in auto)
    next
      case (2 rows)
      show ?case
        by (rule triple_pre_pure) (simp add: page liftM_def bind_return, rule triple_bind [OF upd], auto intro: triple_return)
    qed
  qed
  then obtain a w2 where w2: "pullTx env sv owner req ?w1 = (Inr a, w2)" "\<not> w_aborted w2"
    by (rule triple_noerr [where s = ?w1]) (simp_all add: calm_def)
  then have "Pull env sv owner req w = (Inr a, (tick w2)\<lparr>w_in_tx := False\<rparr>)"
    using h out valid by (simp add: Pull_def WithTx_def healthy_def)
  then show ?thesis using w2(2) by auto
qed

text \<open>
  C13. When nothing fails, a session of a registered device ends: following the next cursor reaches
  a page without more changes.
\<close>

theorem pull_session_ends:
  assumes "healthy env" "db_ok (w_core w)" "\<not> w_in_tx w" "\<not> w_aborted w" "limit_ok sv" "0 < pullLimit sv"
    and "device_at (w_core w) (pr_DeviceID req) = Some d" "dv_OwnerID d = owner" "dv_RevokedAt d = None"
    and "PullRequest_Validate req = None"
    and "mapE wire (unseen owner (pr_DeviceID req) (pr_Cursor req) (w_core w)) = Inr ps"
  shows "\<exists>changes w'. pull_session env sv owner req w changes w'"
  using assms
proof (induction "length (unseen owner (pr_DeviceID req) (pr_Cursor req) (w_core w))" arbitrary: req w d ps rule: less_induct)
  case less
  let ?u = "unseen owner (pr_DeviceID req) (pr_Cursor req) (w_core w)"
  let ?n = "nat (pullLimit sv)"
  obtain resp w1 where run: "Pull env sv owner req w = (Inr resp, w1)" "\<not> w_aborted w1"
    using Pull_ok [OF less.prems(1-5,7-11)] by blast
  show ?case
  proof (cases "pl_HasMore resp")
    case False
    then show ?thesis using session_last [OF run(1)] by blast
  next
    case True
    note P = Pull_cases [OF less.prems(2,3,5) run(1)]
    have eff: "pull_effect sv owner req (w_core w) resp (w_core w1)" using P by blast
    then have page: "page_of ?n (pr_Cursor req) ?u resp" by (simp add: pull_effect_def)
    have h: "history (w_core w1) = history (w_core w)" using P pull_rel_history by blast
    let ?req = "req\<lparr>pr_Cursor := pl_NextCursor resp\<rparr>"
    have next_u: "unseen owner (pr_DeviceID ?req) (pr_Cursor ?req) (w_core w1) = drop ?n ?u"
      using unseen_next [OF less.prems(2) page] by (simp add: unseen_cong [OF h])
    have "?n < length ?u" using True page by (simp add: page_of_def)
    then have smaller: "length (unseen owner (pr_DeviceID ?req) (pr_Cursor ?req) (w_core w1)) < length ?u"
      using less.prems(6) by (simp only: next_u length_drop)
    obtain d1 where d1: "device_at (w_core w1) (pr_DeviceID ?req) = Some d1" "dv_OwnerID d1 = owner" "dv_RevokedAt d1 = None"
      using pull_device [OF conjunct1 [OF P] less.prems(7)] less.prems(7-9) by auto
    have valid: "PullRequest_Validate ?req = None"
    proof -
      have "0 \<le> pr_Cursor req" using less.prems(10) by (auto simp: PullRequest_Validate_def split: if_splits)
      moreover have "pr_Cursor req \<le> pl_NextCursor resp"
        using page_cursor [OF less.prems(2) page] .
      ultimately show ?thesis using less.prems(10) by (auto simp: PullRequest_Validate_def split: if_splits)
    qed
    obtain qs where "mapE wire (unseen owner (pr_DeviceID ?req) (pr_Cursor ?req) (w_core w1)) = Inr qs"
      using mapE_drop [OF less.prems(11), of ?n] next_u by auto
    then obtain changes w' where "pull_session env sv owner ?req w1 changes w'"
      using less.hyps [OF smaller less.prems(1) _ Pull_out [OF run(1) less.prems(3)] run(2) less.prems(5,6) d1 valid]
        P db_ok_pull less.prems(2) by blast
    then show ?thesis using session_more [OF run(1) True] by blast
  qed
qed

theorem pull_session_ends_witness:
  "\<exists>changes w. pull_session demo_env demo_service 7 demo_pull demo_world changes w"
proof -
  have h: "healthy demo_env" by (simp add: healthy_def demo_env_def)
  have "case mapE wire (unseen 7 ''phone'' 0 demo_core) of Inl _ \<Rightarrow> False | Inr _ \<Rightarrow> True"
    by code_simp
  then obtain ps where ps: "mapE wire (unseen 7 ''phone'' 0 demo_core) = Inr ps"
    by (auto split: sum.splits)
  have d: "device_at demo_core ''phone'' = Some (demo_device ''phone'')"
      "dv_OwnerID (demo_device ''phone'') = 7" "dv_RevokedAt (demo_device ''phone'') = None"
      "\<not> w_aborted demo_world"
    by (simp_all add: demo_defs)
  have v: "PullRequest_Validate demo_pull = None"
    by (simp add: PullRequest_Validate_def demo_pull_def demo_device_names)
  show ?thesis
    by (rule pull_session_ends [OF h, where d = "demo_device ''phone''" and ps = ps])
      (use demo_ok demo_limit d v ps in \<open>simp_all add: demo_pull_def\<close>)
qed

subsection \<open>Checking for updates\<close>

lemma GetDeviceForOwner_Inr:
  assumes "GetDeviceForOwner env i owner w = (Inr d, w')" "db_ok (w_core w)"
  shows "w_core w' = w_core w" "device_at (w_core w) i = Some d" "dv_OwnerID d = owner"
  using assms
  by (auto simp: GetDeviceForOwner_def GetDeviceForOwner_sql_def bindM_def failM_def returnM_def mapNoRows_def
      query_def exec_def find_device split: if_splits sum.splits prod.splits option.splits)

lemma reads_GetDeviceForOwner: "reads_in {ErrDB, ErrTxAborted, ErrNotFound} (GetDeviceForOwner env i owner)"
  unfolding GetDeviceForOwner_def GetDeviceForOwner_sql_def by (intro reads_rules) auto

lemma change_after_unseen:
  "db_ok c \<Longrightarrow> (\<exists>r \<in> set (history c). change_after owner cursor device r) \<longleftrightarrow> unseen owner device cursor c \<noteq> []"
proof -
  assume "db_ok c"
  then have "cr_GlobalSequence r \<noteq> None" if "r \<in> set (history c)" for r
    using that by (auto simp: db_ok_def changes_ok_def list_all_iff change_ok_def)
  then have "change_after owner cursor device r \<longleftrightarrow> cr_OwnerID r = owner \<and> cr_DeviceID r \<noteq> device \<and> cursor < cr_seq r"
    if "r \<in> set (history c)" for r
    using that by (fastforce simp: change_after_def split: option.splits)
  then show ?thesis by (auto simp: unseen_def filter_empty_conv)
qed

text \<open>
  C14. The check for updates changes nothing. When it answers, the device is a registered device of
  the user that has not been revoked, and the answer is yes exactly if a change of another device
  lies after the cursor the server keeps for this one: exactly if the first page of a pull from
  that cursor would not be empty.
\<close>

theorem UpdatesAvailable_answer:
  assumes "db_ok (w_core w)" "UpdatesAvailable env owner req w = (r, w')"
  shows "w_core w' = w_core w \<and> w_events w' = w_events w
    \<and> (\<forall>b. r = Inr b \<longrightarrow> (\<exists>d. device_at (w_core w) (ua_DeviceID req) = Some d \<and> dv_OwnerID d = owner
         \<and> dv_RevokedAt d = None
         \<and> (b \<longleftrightarrow> unseen owner (ua_DeviceID req) (dv_LastGlobalCursor d) (w_core w) \<noteq> [])))"
proof (cases "UpdatesAvailableRequest_Validate req")
  case (Some e)
  then show ?thesis using assms(2) by (auto simp: UpdatesAvailable_def failM_def)
next
  case None
  let ?S = "{ErrDB, ErrTxAborted, ErrNotFound, DeviceForbidden, DeviceRevoked}"
  have "reads_in ?S (UpdatesAvailable env owner req)"
    unfolding UpdatesAvailable_def HasChangesAfterCursor_def HasChangesAfterCursor_sql_def
    using None by (auto intro!: reads_rules reads_catch [OF reads_GetDeviceForOwner])
  then have "w_core w' = w_core w" using reads_core assms(2) by blast
  moreover have "tx_stable (UpdatesAvailable env owner req)"
    unfolding UpdatesAvailable_def HasChangesAfterCursor_def HasChangesAfterCursor_sql_def GetDeviceForOwner_def
      GetDeviceForOwner_sql_def by (intro stable_rules)
  then have "w_events w' = w_events w" using assms(2) by (metis snd_conv tx_stable_def)
  moreover have "\<exists>d. device_at (w_core w) (ua_DeviceID req) = Some d \<and> dv_OwnerID d = owner \<and> dv_RevokedAt d = None
      \<and> (b \<longleftrightarrow> unseen owner (ua_DeviceID req) (dv_LastGlobalCursor d) (w_core w) \<noteq> [])" if answer: "r = Inr b" for b
  proof -
    obtain d w1 where d: "GetDeviceForOwner env (ua_DeviceID req) owner w = (Inr d, w1)" "dv_RevokedAt d = None"
        "HasChangesAfterCursor env owner (dv_LastGlobalCursor d) (ua_DeviceID req) w1 = (Inr b, w')"
      using assms(2) answer None
      by (auto simp: UpdatesAvailable_def catchM_def failM_def split: prod.splits sum.splits if_splits)
    note l = GetDeviceForOwner_Inr [OF d(1) assms(1)]
    have "b \<longleftrightarrow> (\<exists>r \<in> set (history (w_core w)). change_after owner (dv_LastGlobalCursor d) (ua_DeviceID req) r)"
      using d(3) l(1) by (auto simp: HasChangesAfterCursor_def HasChangesAfterCursor_sql_def query_def exec_def
          split: if_splits)
    then show ?thesis using l d(2) change_after_unseen [OF assms(1)] by auto
  qed
  ultimately show ?thesis by blast
qed

definition demo_updates :: UpdatesAvailableRequest where
  "demo_updates = \<lparr>ua_ProtocolVersion = ProtocolVersion, ua_DeviceID = ''phone''\<rparr>"

theorem UpdatesAvailable_answer_witness:
  "\<exists>w. UpdatesAvailable demo_env 7 demo_updates demo_world = (Inr True, w) \<and> unseen 7 ''phone'' 0 demo_core \<noteq> []"
proof -
  have "case fst (UpdatesAvailable demo_env 7 demo_updates demo_world) of Inl _ \<Rightarrow> False | Inr b \<Rightarrow> b"
    by code_simp
  then obtain w where run: "UpdatesAvailable demo_env 7 demo_updates demo_world = (Inr True, w)"
    by (cases "UpdatesAvailable demo_env 7 demo_updates demo_world") (auto split: sum.splits)
  then show ?thesis
    using UpdatesAvailable_answer [OF _ run] demo_ok by (auto simp: demo_updates_def demo_defs)
qed

subsection \<open>A push reaches the other devices\<close>

text \<open>
  C15. After a push, another device of the user that had not moved past the history the push started
  from gets, in a session of pulls, everything it had not seen before followed by exactly the
  changes of that push, in order.
\<close>

theorem push_reaches:
  assumes "db_ok (w_core w)" "\<not> w_in_tx w" "limit_ok sv"
    and "Sync env sv owner req w = (Inr resp, w1)"
    and "pull_session env' sv owner preq w1 changes w2"
    and "pr_DeviceID preq \<noteq> rq_DeviceID req" "pr_Cursor preq \<le> c_change_seq (w_core w)"
  shows "\<exists>old new. changes = old @ new
    \<and> mapE wire (unseen owner (pr_DeviceID preq) (pr_Cursor preq) (w_core w)) = Inr old
    \<and> mapE wire (drop (length (history (w_core w))) (history (w_core w1))) = Inr new
    \<and> list_all (\<lambda>p. pc_DeviceID p = rq_DeviceID req) new"
proof -
  obtain r: "\<not> w_in_tx w1" "sync_rel owner (rq_DeviceID req) (w_core w) (w_core w1)"
    by (rule Sync_Inr [OF assms(1,2,4)])
  then have ok: "db_ok (w_core w1)" and hist: "history_rel owner (rq_DeviceID req) (w_core w) (w_core w1)"
    using assms(1) by (simp_all add: sync_rel_def sync_step_def)
  obtain rows where rows: "history (w_core w1) = history (w_core w) @ rows"
      "list_all (new_change owner (rq_DeviceID req) (w_core w)) rows"
    using hist by (auto simp: history_rel_def)
  have "filter (\<lambda>r. cr_OwnerID r = owner \<and> cr_DeviceID r \<noteq> pr_DeviceID preq \<and> pr_Cursor preq < cr_seq r) rows = rows"
    using rows(2) assms(6,7) by (intro filter_True) (auto simp: list_all_iff new_change_def)
  then have u: "unseen owner (pr_DeviceID preq) (pr_Cursor preq) (w_core w1)
      = unseen owner (pr_DeviceID preq) (pr_Cursor preq) (w_core w) @ rows"
    by (simp add: unseen_def rows(1))
  have "mapE wire (unseen owner (pr_DeviceID preq) (pr_Cursor preq) (w_core w1)) = Inr changes"
    by (rule pull_session_all [OF assms(5) ok r(1) assms(3)])
  with u mapE_append_Inr obtain old new where
    on: "mapE wire (unseen owner (pr_DeviceID preq) (pr_Cursor preq) (w_core w)) = Inr old" "mapE wire rows = Inr new"
    by metis
  then have "changes = old @ new"
    using mapE_append [OF on] u pull_session_all [OF assms(5) ok r(1) assms(3)] by simp
  moreover have "list_all2 (\<lambda>r p. wire r = Inr p) rows new" by (rule mapE_Inr_list_all2 [OF on(2)])
  then have "list_all (\<lambda>p. pc_DeviceID p = rq_DeviceID req) new"
    using rows(2) by (induction rule: list_all2_induct)
      (auto simp: new_change_def wire_def PulledChange_FromEntity_def fromDBChange_def split: if_splits)
  ultimately show ?thesis using on rows(1) by auto
qed

theorem push_reaches_witness:
  "\<exists>resp w1 changes w2 old new. Sync demo_env demo_service 7 demo_request demo_world = (Inr resp, w1)
     \<and> pull_session demo_env demo_service 7 (demo_pull\<lparr>pr_DeviceID := ''tablet''\<rparr>) w1 changes w2
     \<and> changes = old @ new \<and> mapE wire (drop 1 (history (w_core w1))) = Inr new \<and> changes \<noteq> []"
proof -
  let ?push = "Sync demo_env demo_service 7 demo_request demo_world"
  let ?req = "demo_pull\<lparr>pr_DeviceID := ''tablet''\<rparr>"
  have ok: "case fst ?push of Inl _ \<Rightarrow> False | Inr _ \<Rightarrow> True"
    by code_simp
  have ok2: "case fst (Pull demo_env demo_service 7 ?req (snd ?push)) of
      Inl _ \<Rightarrow> False | Inr resp \<Rightarrow> \<not> pl_HasMore resp \<and> pl_Changes resp \<noteq> []"
    by code_simp
  obtain resp w1 where push: "?push = (Inr resp, w1)"
    using ok by (cases ?push) (auto split: sum.splits)
  obtain page w2 where pull: "Pull demo_env demo_service 7 ?req w1 = (Inr page, w2)" "\<not> pl_HasMore page"
      "pl_Changes page \<noteq> []"
    using ok2 push by (cases "Pull demo_env demo_service 7 ?req w1") (auto split: sum.splits)
  have session: "pull_session demo_env demo_service 7 ?req w1 (pl_Changes page) w2"
    by (rule session_last [OF pull(1,2)])
  have "length (history demo_core) = 1" "0 \<le> c_change_seq demo_core" by (simp_all add: demo_defs)
  then show ?thesis
    using push_reaches [OF _ _ _ push session] demo_ok demo_limit push session pull(3)
    by (auto simp: demo_pull_def demo_request_def)
qed

end
