(* ===== verification/Jobs_Properties.thy ===== *)
theory Jobs_Properties
  imports Jobs_Inv Pull_Properties
begin

section \<open>What the outbox and its workers guarantee\<close>

text \<open>
  Mutual exclusion of claims, the end of a job, what a processed snapshot job leaves behind, the
  delay before a retry, and the round trip of a payload.
\<close>

subsection \<open>Claims\<close>

lemma claim_locks:
  assumes "idle w" "ClaimOutboxJob env worker timeout w = (Inr j, w')"
  shows "idle w'" "\<exists>k. job_at (w_core w') (jb_ID j) = Some k \<and> jb_LockedAt k = Some (pg_now env w)"
proof -
  show "idle w'" using queue_idle(1) assms by blast
  obtain k where k: "candidate (pg_now env w) timeout (t_outbox_jobs (w_db w)) = Some k"
      "j = claimed (pg_now env w) worker k"
      "w_core w' = on_jobs (update_where (\<lambda>r. jb_ID r = jb_ID k) (claimed (pg_now env w) worker)) (w_core w)"
    by (rule Claim_Inr [OF assms(2)])
  have "job_at (w_core w) (jb_ID k) = Some k"
    using assms(1) by (intro job_at_member [OF _ candidate_SomeD(1) [OF k(1)]]) (simp add: idle_def)
  then show "\<exists>k. job_at (w_core w') (jb_ID j) = Some k \<and> jb_LockedAt k = Some (pg_now env w)"
    unfolding k(3) using k(2) keyed_update.lookup_update [of jb_ID "claimed (pg_now env w) worker"]
    by (simp add: keyed_update_def on_jobs_def)
qed

lemma claim_free:
  assumes "idle w" "ClaimOutboxJob env worker timeout w = (Inr j, w')" "job_at (w_core w) (jb_ID j) = Some k"
  shows "claimable (pg_now env w) timeout k"
proof -
  obtain k' where k': "candidate (pg_now env w) timeout (t_outbox_jobs (w_db w)) = Some k'"
      "j = claimed (pg_now env w) worker k'"
    by (rule Claim_Inr [OF assms(2)])
  have "job_at (w_core w) (jb_ID k') = Some k'"
    using assms(1) by (intro job_at_member [OF _ candidate_SomeD(1) [OF k'(1)]]) (simp add: idle_def)
  then show ?thesis using assms(3) k'(2) candidate_SomeD(2) [OF k'(1)] by simp
qed

text \<open>
  C16. Two workers never hold the same job: whatever happens in between (claims of any worker,
  requests, snapshots being written, other jobs finished), as long as the job itself is neither
  completed nor released, a second claim returns it only when more than the lock timeout has passed.
\<close>

theorem claim_exclusive:
  assumes "idle w" "ClaimOutboxJob env a timeout w = (Inr j, w1)"
    and "queue_run timeout (\<lambda>k. k \<noteq> jb_ID j) w1 w2"
    and "ClaimOutboxJob env' b timeout w2 = (Inr j', w3)" "jb_ID j' = jb_ID j" "0 \<le> timeout"
  shows "pg_now env w + timeout < pg_now env' w2"
proof -
  let ?P = "\<lambda>c. \<exists>k s. job_at c (jb_ID j) = Some k \<and> jb_LockedAt k = Some s \<and> pg_now env w \<le> s"
  note l = claim_locks [OF assms(1,2)]
  have "?P (w_core w2)"
  proof (rule queue_run_steps [where P = ?P, OF assms(3) l(1)])
    show "?P (w_core w1)" using l(2) by blast
    show "?P c'" if "?P c" "jobs_ok c" "queue_rel timeout (\<lambda>k. k \<noteq> jb_ID j) c c'" for c c'
      using that assms(6) unfolding queue_rel_def job_step_def relocked_def by fastforce
  qed
  then obtain k s where k: "job_at (w_core w2) (jb_ID j) = Some k" "jb_LockedAt k = Some s" "pg_now env w \<le> s"
    by blast
  have "claimable (pg_now env' w2) timeout k"
    by (rule claim_free [OF queue_run_idle [OF assms(3) l(1)] assms(4)]) (use k(1) assms(5) in simp)
  then show ?thesis using k(2,3) by (simp add: claimable_def)
qed

definition demo_job :: OutboxJob where
  "demo_job = \<lparr>jb_ID = 1, jb_JobType = JobCreateSnapshot, jb_Payload = Some (JObj [(''noteId'', JStr ''n1''),
     (''ownerId'', JStr ''u7''), (''expectedVersion'', JNum ''1'')]), jb_AvailableAt = 0, jb_Attempts = 0,
     jb_LockedAt = None, jb_LockedBy = None, jb_CompletedAt = None, jb_LastError = None, jb_CreatedAt = 0\<rparr>"

definition demo_queue :: world where
  "demo_queue = demo_world\<lparr>w_core := demo_core\<lparr>c_db := demo_db\<lparr>t_outbox_jobs := [demo_job]\<rparr>, c_job_seq := 1\<rparr>\<rparr>"

definition slow_env :: env where
  "slow_env = demo_env\<lparr>e_clock := (\<lambda>n. int n * 10 ^ 12),
     e_codec := demo_codec\<lparr>c_parse_uuid := (\<lambda>s. if s = ''n1'' then Some 1 else if s = ''u7'' then Some 7 else None)\<rparr>\<rparr>"

lemma demo_idle: "idle demo_queue"
  by (auto simp: idle_def demo_queue_def demo_job_def demo_defs jobs_ok_def db_ok_def notes_ok_def blocks_ok_def
      changes_ok_def change_ok_def changes_of_def owns_def owns_device_def op_key_def demo_device_names split: if_splits)

theorem claim_exclusive_witness:
  "\<exists>j w1 j' w3. ClaimOutboxJob slow_env ''a'' (120 * second) demo_queue = (Inr j, w1)
     \<and> ClaimOutboxJob slow_env ''b'' (120 * second) w1 = (Inr j', w3) \<and> jb_ID j' = jb_ID j
     \<and> pg_now slow_env demo_queue + 120 * second < pg_now slow_env w1"
proof -
  let ?first = "ClaimOutboxJob slow_env ''a'' (120 * second) demo_queue"
  have ok: "case ?first of (Inl _, _) \<Rightarrow> False | (Inr j, w) \<Rightarrow>
      (case fst (ClaimOutboxJob slow_env ''b'' (120 * second) w) of Inl _ \<Rightarrow> False | Inr j' \<Rightarrow> jb_ID j' = jb_ID j)"
    by code_simp
  obtain j w1 where 1: "?first = (Inr j, w1)"
    using ok by (cases ?first) (auto split: sum.splits)
  obtain j' w3 where 2: "ClaimOutboxJob slow_env ''b'' (120 * second) w1 = (Inr j', w3)" "jb_ID j' = jb_ID j"
    using ok 1 by (cases "ClaimOutboxJob slow_env ''b'' (120 * second) w1") (auto split: sum.splits)
  have "pg_now slow_env demo_queue + 120 * second < pg_now slow_env w1"
    by (rule claim_exclusive [OF demo_idle 1 run_refl 2]) simp
  then show ?thesis using 1 2 by blast
qed

text \<open>
  C17. A job that has been completed stays completed and is never claimed again, whatever workers and
  requests do, including a worker that reports the failure of that job late.
\<close>

theorem completed_never_claimed:
  assumes "idle w" "job_at (w_core w) i = Some k" "jb_CompletedAt k \<noteq> None"
    and "queue_run timeout (\<lambda>_. True) w w1" "ClaimOutboxJob env worker timeout w1 = (r, w2)"
  shows "(\<exists>k'. job_at (w_core w2) i = Some k' \<and> jb_CompletedAt k' \<noteq> None) \<and> (\<forall>j. r = Inr j \<longrightarrow> jb_ID j \<noteq> i)"
proof -
  let ?P = "\<lambda>c. \<exists>k. job_at c i = Some k \<and> jb_CompletedAt k \<noteq> None"
  have step: "?P c'" if "?P c" "jobs_ok c" "queue_rel timeout (\<lambda>_. True) c c'" for c c'
    using that unfolding queue_rel_def job_step_def by blast
  have "?P (w_core w)" using assms(2,3) by blast
  then have 1: "?P (w_core w1)" by (rule queue_run_steps [where P = ?P, OF assms(4,1)]) (rule step)
  have i1: "idle w1" by (rule queue_run_idle [OF assms(4,1)])
  have "?P (w_core w2)" by (rule queue_run_steps [where P = ?P, OF run_claim [OF assms(4,5)] assms(1)])
      (use assms(2,3) step in blast)+
  moreover have "jb_ID j \<noteq> i" if r: "r = Inr j" for j
  proof
    assume i: "jb_ID j = i"
    obtain k' where k': "job_at (w_core w1) i = Some k'" "jb_CompletedAt k' \<noteq> None" using 1 by blast
    have "claimable (pg_now env w1) timeout k'" by (rule claim_free [OF i1 assms(5) [unfolded r]]) (simp add: i k'(1))
    then show False using k'(2) by (simp add: claimable_def)
  qed
  ultimately show ?thesis by blast
qed

theorem completed_never_claimed_witness:
  "\<exists>r w2. ClaimOutboxJob slow_env ''b'' 0 (snd (CompleteOutboxJob slow_env 1 demo_queue)) = (r, w2)
     \<and> (\<forall>j. r = Inr j \<longrightarrow> jb_ID j \<noteq> 1)"
proof -
  let ?done = "snd (CompleteOutboxJob slow_env 1 demo_queue)"
  obtain r0 where run: "CompleteOutboxJob slow_env 1 demo_queue = (r0, ?done)" by (metis prod.collapse)
  have i: "idle ?done" by (rule queue_idle(2) [OF demo_idle run])
  have "case job_at (w_core ?done) 1 of None \<Rightarrow> False | Some k \<Rightarrow> jb_CompletedAt k \<noteq> None" by code_simp
  then obtain k where k: "job_at (w_core ?done) 1 = Some k" "jb_CompletedAt k \<noteq> None" by (auto split: option.splits)
  obtain r w2 where claim: "ClaimOutboxJob slow_env ''b'' 0 ?done = (r, w2)" by (cases "ClaimOutboxJob slow_env ''b'' 0 ?done")
  show ?thesis using completed_never_claimed [OF i k run_refl claim] claim by blast
qed

subsection \<open>A snapshot job\<close>

text \<open>The document of a note as the tables hold it.\<close>

definition document :: "env \<Rightarrow> core \<Rightarrow> Note \<Rightarrow> NoteDocument" where
  "document env c n = \<lparr>nd_Note = fromDBNote n,
     nd_Blocks = map fromDBBlock (sort_by (block_le env) (filter (\<lambda>b. bl_NoteID b = nt_ID n) (t_note_blocks (c_db c)))),
     nd_LastAppliedCursor = max_or_zero (map cr_seq (changes_of c (nt_ID n)))\<rparr>"

lemma GetNoteDocument_returns:
  assumes "healthy env" "db_ok c" "note_at c i = Some n" "nt_OwnerID n = owner"
  shows "returns c tx es (GetNoteDocument env i owner) (\<lambda>doc. doc = document env c n)"
proof -
  have i: "nt_ID n = i" using lookup_SomeD [OF assms(3)] by simp
  have n: "find (note_owned i owner) (t_notes (c_db c)) = Some n" using assms by (simp add: find_note_owned)
  show ?thesis
    unfolding GetNoteDocument_def GetNoteForOwner_def GetNoteForOwner_sql_def ListBlocksForNote_def
      ListBlocksForNote_sql_def GetLastAppliedCursorForNote_def GetLastAppliedCursorForNote_sql_def
    by (intro returns_bind [where Q = "\<lambda>n'. n' = fromDBNote n"] returns_bind [where Q = "\<lambda>row. row = Some n"]
        returns_bind [where Q = "\<lambda>n'. n' = n"] returns_query [OF assms(1)] returns_return
        returns_bind [where Q = "\<lambda>bs. bs = nd_Blocks (document env c n)"]
        returns_bind [where Q = "\<lambda>rows. map fromDBBlock rows = nd_Blocks (document env c n)"]
        returns_bind [where Q = "\<lambda>cur. cur = nd_LastAppliedCursor (document env c n)"] returns_mapNoRows)
      (auto simp: n i document_def changes_of_def)
qed

definition snapshot_row :: "env \<Rightarrow> job_codec \<Rightarrow> SnapshotDocument \<Rightarrow> Note \<Rightarrow> NoteSnapshot_row \<Rightarrow> bool" where
  "snapshot_row env jc sd n s \<longleftrightarrow> sn_NoteID s = nt_ID n \<and> sn_Version s = nt_CurrentVersion n
     \<and> sn_SnapshotData s = jsonb env (Some (document_json (e_codec env) sd))
     \<and> sn_Checksum s = jc_sha256 jc (document_json (e_codec env) sd)
     \<and> sn_LastAppliedCursor s = so_LastAppliedCursor sd"

lemma InsertSnapshot_ok:
  assumes "healthy env" "note_at c (sn_NoteID s) \<noteq> None" "sn_ID s \<notin> sn_ID ` set (t_note_snapshots (c_db c))"
  shows "triple (calm c tx es) (InsertSnapshot env s)
    (\<lambda>_ w. (\<exists>r \<in> set (t_note_snapshots (w_db w)). sn_NoteID r = sn_NoteID s \<and> sn_Version r = sn_Version s
         \<and> sn_SnapshotData r = jsonb env (sn_SnapshotData s) \<and> sn_Checksum r = sn_Checksum s
         \<and> sn_LastAppliedCursor r = sn_LastAppliedCursor s)
       \<and> w_in_tx w = tx \<and> \<not> w_aborted w) (\<lambda>_ _. False)"
proof (rule tripleI)
  fix w assume w: "calm c tx es w"
  let ?same = "\<lambda>r. sn_NoteID r = sn_NoteID s \<and> sn_Version r = sn_Version s"
  have fresh: "lookup sn_ID (t_note_snapshots (c_db c)) (sn_ID s) = None" using assms(3) by (simp add: lookup_None_iff)
  obtain r c' where run: "InsertSnapshot env s w = (Inr r, (tick w)\<lparr>w_core := c'\<rparr>)"
      "\<exists>r \<in> set (t_note_snapshots (c_db c')). ?same r
         \<and> sn_SnapshotData r = jsonb env (sn_SnapshotData s) \<and> sn_Checksum r = sn_Checksum s
         \<and> sn_LastAppliedCursor r = sn_LastAppliedCursor s"
  proof (cases "find ?same (t_note_snapshots (c_db c))")
    case None
    then show ?thesis
      using that w assms(1,2) fresh
      by (simp add: InsertSnapshot_def InsertSnapshot_sql_def exec_def calm_def healthy_def Let_def on_snapshots_def)
  next
    case (Some r)
    then have r: "r \<in> set (t_note_snapshots (c_db c))" "?same r" by (auto simp: find_Some_iff)
    let ?upd = "\<lambda>r. r\<lparr>sn_SnapshotData := jsonb env (sn_SnapshotData s), sn_Checksum := sn_Checksum s,
        sn_LastAppliedCursor := sn_LastAppliedCursor s\<rparr>"
    let ?c' = "on_snapshots (update_where ?same ?upd) c"
    have "InsertSnapshot env s w = (Inr (?upd r), (tick w)\<lparr>w_core := ?c'\<rparr>)"
      using w assms(1) Some
      by (simp add: InsertSnapshot_def InsertSnapshot_sql_def exec_def calm_def healthy_def Let_def)
    moreover have "?upd r \<in> set (t_note_snapshots (c_db ?c'))"
      using r by (force simp: on_snapshots_def set_update_where)
    ultimately show ?thesis using r(2) by (intro that) (assumption, rule bexI [where x = "?upd r"], simp_all)
  qed
  show "(\<exists>r \<in> set (t_note_snapshots (w_db w')). sn_NoteID r = sn_NoteID s \<and> sn_Version r = sn_Version s
         \<and> sn_SnapshotData r = jsonb env (sn_SnapshotData s) \<and> sn_Checksum r = sn_Checksum s
         \<and> sn_LastAppliedCursor r = sn_LastAppliedCursor s) \<and> w_in_tx w' = tx \<and> \<not> w_aborted w'"
    if "InsertSnapshot env s w = (Inr a, w')" for a w'
    using that run w by (auto simp: calm_def)
  show False if "InsertSnapshot env s w = (Inl e, w')" for e w' using that run by simp
qed

lemma Complete_ok:
  assumes "healthy env" "idle w" "job_at (w_core w) i = Some k"
  shows "\<exists>w'. CompleteOutboxJob env i w = (Inr (), w')
    \<and> (\<exists>k'. job_at (w_core w') i = Some k' \<and> jb_CompletedAt k' \<noteq> None)
    \<and> t_note_snapshots (w_db w') = t_note_snapshots (w_db w)"
proof -
  let ?upd = "\<lambda>j :: OutboxJob. j\<lparr>jb_CompletedAt := Some (pg_now env w), jb_LockedAt := None, jb_LockedBy := None, jb_LastError := None\<rparr>"
  let ?c = "on_jobs (update_where (\<lambda>r. jb_ID r = i) ?upd) (w_core w)"
  have "keyed_update jb_ID ?upd" by (simp add: keyed_update_def)
  from keyed_update.lookup_update [OF this] have "job_at ?c i = Some (?upd k)"
    using assms(3) lookup_SomeD [OF assms(3)] by (simp add: on_jobs_def)
  then show ?thesis
    using assms(1,2)
    by (simp add: CompleteOutboxJob_def CompleteOutboxJob_sql_def exec_def healthy_def idle_def on_jobs_def)
qed

lemma CreateSnapshot_ok:
  assumes h: "healthy env" and ok: "db_ok c" and n: "note_at c (sp_NoteID p) = Some n" "nt_OwnerID n = sp_OwnerID p"
    and v: "sp_ExpectedVersion p \<le> nt_CurrentVersion n"
    and sd: "SnapshotDocument_FromEntity jc (document env c n) = Inr sd"
    and fresh: "\<And>m. e_uuid env m \<notin> sn_ID ` set (t_note_snapshots (c_db c))"
  shows "triple (calm c tx es) (CreateSnapshot env jc p)
    (\<lambda>_ w. (\<exists>s \<in> set (t_note_snapshots (w_db w)). snapshot_row env jc sd n s) \<and> w_in_tx w = tx \<and> \<not> w_aborted w)
    (\<lambda>_ _. False)"
  unfolding CreateSnapshot_def
proof (rule triple_bind [OF GetNoteDocument_returns [OF h ok n, unfolded returns_def]], rule triple_pre_pure)
  fix doc assume doc: "doc = document env c n"
  have i: "nt_ID n = sp_NoteID p" using lookup_SomeD [OF n(1)] by simp
  have cur: "so_LastAppliedCursor sd = nd_LastAppliedCursor (document env c n)"
    using sd by (auto simp: SnapshotDocument_FromEntity_def Let_def split: if_splits sum.splits)
  have note_of: "nt_CurrentVersion (nd_Note doc) = nt_CurrentVersion n" "nt_ID (nd_Note doc) = nt_ID n"
    by (simp_all add: doc document_def fromDBNote_def)
  let ?enc = "document_json (e_codec env) sd"
  have uuid: "triple (calm c tx es) (newUUID env) (\<lambda>u w. (\<exists>m. u = e_uuid env m) \<and> calm c tx es w) (\<lambda>_ _. False)"
    by (rule tripleI) (auto simp: newUUID_def calm_def)
  show "triple (calm c tx es)
     (if nt_CurrentVersion (nd_Note doc) < sp_ExpectedVersion p
      then failM (ErrText ''note version is behind snapshot job expectation'')
      else bindM (liftM ErrText (SnapshotDocument_FromEntity jc doc)) (\<lambda>snapshotDoc.
        let (encoded, checksum) = EncodeSnapshot (e_codec env) jc snapshotDoc in
        bindM (newUUID env) (\<lambda>i. InsertSnapshot env \<lparr>sn_ID = i, sn_NoteID = nt_ID (nd_Note doc),
          sn_OwnerID = nt_OwnerID (nd_Note doc), sn_Version = nt_CurrentVersion (nd_Note doc),
          sn_LastAppliedCursor = nd_LastAppliedCursor doc, sn_SnapshotFormat = SnapshotFormatV1,
          sn_SchemaVersion = 1, sn_SnapshotData = Some encoded, sn_Checksum = checksum, sn_CreatedAt = zeroTime\<rparr>)))
     (\<lambda>_ w. (\<exists>s \<in> set (t_note_snapshots (w_db w)). snapshot_row env jc sd n s) \<and> w_in_tx w = tx \<and> \<not> w_aborted w)
     (\<lambda>_ _. False)"
    using v sd note_of doc
  proof (simp add: liftM_def bind_return EncodeSnapshot_def Let_def, intro triple_bind [OF uuid] triple_pre_pure, goal_cases)
    case (1 u)
    then show ?case
      by (intro triple_weaken [OF InsertSnapshot_ok [OF h]])
        (use fresh n(1) i in \<open>auto simp: snapshot_row_def cur\<close>)
  qed
qed

text \<open>
  C18. When nothing fails, an iteration of a worker that finds a snapshot job of an existing note,
  whose version is the expected one or newer, returns without an error: the job is completed, and
  there is a snapshot of exactly the current version of the note, holding its document with all
  blocks and the cursor of its last change.
\<close>

theorem ProcessOnce_snapshot:
  assumes h: "healthy env" and idle: "idle w" "\<not> w_aborted w"
    and j: "candidate (pg_now env w) (wk_lockTimeout wk) (t_outbox_jobs (w_db w)) = Some j"
      "jb_JobType j = JobCreateSnapshot" "jb_Attempts j < max_int32"
    and p: "unmarshalPayload (e_codec env) jc (jb_Payload j) = Inr p"
    and n: "note_at (w_core w) (sp_NoteID p) = Some n" "nt_OwnerID n = sp_OwnerID p" "sp_ExpectedVersion p \<le> nt_CurrentVersion n"
    and sd: "SnapshotDocument_FromEntity jc (document env (w_core w) n) = Inr sd"
    and fresh: "\<And>m. e_uuid env m \<notin> sn_ID ` set (t_note_snapshots (w_db w))"
  shows "\<exists>w'. ProcessOnce env jc wk w = (Inr (True, []), w')
    \<and> (\<exists>k. job_at (w_core w') (jb_ID j) = Some k \<and> jb_CompletedAt k \<noteq> None)
    \<and> (\<exists>s \<in> set (t_note_snapshots (w_db w')). snapshot_row env jc sd n s)"
proof -
  let ?now = "pg_now env w" and ?id = "jb_ID j"
  let ?claim = "claimed ?now (wk_workerID wk)"
  let ?c1 = "on_jobs (update_where (\<lambda>r. jb_ID r = ?id) ?claim) (w_core w)"
  define w1 where "w1 = (tick w)\<lparr>w_core := ?c1\<rparr>"
  have out: "\<not> w_in_tx w" using idle(1) by (simp add: idle_def)
  have claim: "ClaimOutboxJob env (wk_workerID wk) (wk_lockTimeout wk) w = (Inr (?claim j), w1)"
    using h j out
    by (simp add: ClaimOutboxJob_def ClaimOutboxJob_sql_def bindM_def mapNoRows_def returnM_def exec_def healthy_def Let_def w1_def)
  have idle1: "idle w1" by (rule queue_idle(1) [OF idle(1) claim])
  have same: "note_at ?c1 = note_at (w_core w)" "document env ?c1 n = document env (w_core w) n"
      "t_note_snapshots (c_db ?c1) = t_note_snapshots (w_db w)"
    by (simp_all add: on_jobs_def document_def changes_of_def)
  let ?w1 = "(tick w1)\<lparr>w_in_tx := True, w_aborted := False, w_tx_now := e_clock env (w_tick w1)\<rparr>"
  have ok1: "db_ok ?c1" "w_core w1 = ?c1" using idle1 by (simp_all add: idle_def w1_def)
  have "triple (calm ?c1 True (w_events w1)) (CreateSnapshot env jc p)
      (\<lambda>_ w. (\<exists>s \<in> set (t_note_snapshots (w_db w)). snapshot_row env jc sd n s) \<and> w_in_tx w = True \<and> \<not> w_aborted w)
      (\<lambda>_ _. False)"
    by (rule CreateSnapshot_ok [OF h ok1(1)]) (use n sd fresh same in simp_all)
  then obtain a w2 where w2: "CreateSnapshot env jc p ?w1 = (Inr a, w2)" "\<not> w_aborted w2"
      "\<exists>s \<in> set (t_note_snapshots (w_db w2)). snapshot_row env jc sd n s"
    by (rule triple_noerr [where s = ?w1]) (simp_all add: calm_def ok1(2))
  define w3 where "w3 = (tick w2)\<lparr>w_in_tx := False\<rparr>"
  have proc: "processJob env jc (?claim j) w1 = (Inr (), w3)"
    using h j(2) p w2(1,2) idle1
    by (simp add: processJob_def liftM_def bind_return WithTx_def healthy_def idle_def w3_def bindM_def returnM_def)
  have idle3: "idle w3" using process_idle [OF idle1 proc] by blast
  obtain k where k: "job_at (w_core w1) ?id = Some k" using claim_locks(2) [OF idle(1) claim] by auto
  have "job_at (w_core w3) ?id = Some k"
    using no_snapshots_eq(1) [OF keepsD [OF keeps_processJob proc]] k by simp
  then obtain w4 where w4: "CompleteOutboxJob env ?id w3 = (Inr (), w4)"
      "\<exists>k. job_at (w_core w4) ?id = Some k \<and> jb_CompletedAt k \<noteq> None"
      "t_note_snapshots (w_db w4) = t_note_snapshots (w_db w3)"
    using Complete_ok [OF h idle3] by blast
  have "ProcessOnce env jc wk w = (Inr (True, []), w4)"
    by (simp add: ProcessOnce_def catchM_def claim proc returnM_def w4(1))
  then show ?thesis using w4(2,3) w2(3) by (auto simp: w3_def)
qed

definition demo_jobs :: job_codec where
  "demo_jobs = \<lparr>jc_format_time = (\<lambda>_. []), jc_sha256 = (\<lambda>_. ''sum''), jc_unmarshal_error = (\<lambda>_. ''bad''),
     jc_error_text = (\<lambda>_. ''error'')\<rparr>"

definition demo_worker :: Worker where
  "demo_worker = \<lparr>wk_workerID = ''w'', wk_pollInterval = 2 * second, wk_lockTimeout = 120 * second\<rparr>"

theorem ProcessOnce_snapshot_witness:
  "\<exists>w sd s. ProcessOnce slow_env demo_jobs demo_worker demo_queue = (Inr (True, []), w)
     \<and> s \<in> set (t_note_snapshots (w_db w)) \<and> snapshot_row slow_env demo_jobs sd demo_note s"
proof -
  let ?p = "\<lparr>sp_NoteID = 1, sp_OwnerID = 7, sp_ExpectedVersion = 1\<rparr> :: SnapshotJobPayload"
  have h: "healthy slow_env" by (simp add: healthy_def slow_env_def demo_env_def)
  have j: "candidate (pg_now slow_env demo_queue) (wk_lockTimeout demo_worker) (t_outbox_jobs (w_db demo_queue)) = Some demo_job"
    by code_simp
  have p: "unmarshalPayload (e_codec slow_env) demo_jobs (jb_Payload demo_job) = Inr ?p"
    by code_simp
  have "case SnapshotDocument_FromEntity demo_jobs (document slow_env (w_core demo_queue) demo_note) of
      Inl _ \<Rightarrow> False | Inr _ \<Rightarrow> True"
    by code_simp
  then obtain sd where sd: "SnapshotDocument_FromEntity demo_jobs (document slow_env (w_core demo_queue) demo_note) = Inr sd"
    by (auto split: sum.splits)
  have n: "note_at (w_core demo_queue) (sp_NoteID ?p) = Some demo_note" "nt_OwnerID demo_note = sp_OwnerID ?p"
      "sp_ExpectedVersion ?p \<le> nt_CurrentVersion demo_note"
    by (simp_all add: demo_queue_def demo_defs)
  show ?thesis
    using ProcessOnce_snapshot [OF h demo_idle _ j _ _ p n sd]
    by (fastforce simp: demo_queue_def demo_defs demo_job_def)
qed

subsection \<open>The delay before a retry\<close>

text \<open>
  The delay before a failed job is tried again grows by five seconds with each attempt and is
  between one second and one minute, for every number of attempts up to 1844674407; beyond that
  the product overflows (see \<open>retryDelay_overflow\<close>).
\<close>

lemma retryDelay_bounds:
  assumes "attempts \<le> 1844674407"
  shows "retryDelay attempts = (if attempts < 1 then second else min (5 * attempts) 60 * second)
    \<and> second \<le> retryDelay attempts \<and> retryDelay attempts \<le> 60 * second"
proof (cases "attempts < 1")
  case False
  have "int64 (attempts * 5) = attempts * 5" using assms False by (simp add: int64_def)
  moreover have "int64 (attempts * 5 * second) = attempts * 5 * second" using assms False by (simp add: int64_def)
  ultimately show ?thesis using False by (simp add: retryDelay_def Let_def min_def)
qed (simp add: retryDelay_def)

lemma retryDelay_overflow: "retryDelay 1844674408 < 0"
  by code_simp

subsection \<open>Payloads\<close>

lemma mset_three:
  assumes "mset xs = mset [a, b, c]"
  shows "xs \<in> {[a, b, c], [a, c, b], [b, a, c], [b, c, a], [c, a, b], [c, b, a]}"
proof -
  have "length xs = 3" using mset_eq_length [OF assms] by simp
  then obtain x y z where "xs = [x, y, z]" by (auto simp: numeral_3_eq_3 length_Suc_conv)
  then show ?thesis using assms by (auto simp: add_eq_conv_ex add_mset_eq_singleton_iff)
qed

lemma payload_names:
  "fold_name ''noteId'' \<noteq> fold_name ''ownerId''" "fold_name ''noteId'' \<noteq> fold_name ''expectedVersion''"
  "fold_name ''ownerId'' \<noteq> fold_name ''expectedVersion''"
  by code_simp+

text \<open>
  A worker reads from a job the payload with which it was enqueued, in whatever order the
  database returns the members of the document, provided that the UUID library parses what it prints.
\<close>

lemma payload_roundtrip:
  assumes "\<And>i. c_parse_uuid cd (c_format_uuid cd i) = Some i"
    and "- (2 ^ 63) \<le> sp_ExpectedVersion p" "sp_ExpectedVersion p \<le> max_int64"
    and "payload_json cd p = JObj kvs" "mset kvs' = mset kvs"
  shows "unmarshalPayload cd jc (Some (JObj kvs')) = Inr p"
proof -
  let ?a = "(''noteId'', JStr (c_format_uuid cd (sp_NoteID p)))"
    and ?b = "(''ownerId'', JStr (c_format_uuid cd (sp_OwnerID p)))"
    and ?c = "(''expectedVersion'', JNum (FormatInt (sp_ExpectedVersion p)))"
  have "kvs' \<in> {[?a, ?b, ?c], [?a, ?c, ?b], [?b, ?a, ?c], [?b, ?c, ?a], [?c, ?a, ?b], [?c, ?b, ?a]}"
    by (rule mset_three) (use assms(4,5) in \<open>auto simp: payload_json_def\<close>)
  then show ?thesis
    using assms(1) ParseInt_FormatInt [OF assms(2,3)] payload_names
    by (cases p) (auto simp: unmarshalPayload_def payload_member_def Let_def)
qed

subsection \<open>Reading a note while it is being changed\<close>

text \<open>
  The three statements of \<open>GetNoteDocument\<close> with another request between the first and the second.
  They run outside of a transaction (\<open>SyncFullNote\<close>, \<open>Get\<close>) or in one of the default isolation level
  (\<open>CreateSnapshot\<close>), where each statement sees what is committed when it starts.
\<close>

definition torn_document :: "env \<Rightarrow> uuid \<Rightarrow> uuid \<Rightarrow> (world \<Rightarrow> world) \<Rightarrow> NoteDocument call" where
  "torn_document env i owner between =
     bindM (GetNoteForOwner env i owner) (\<lambda>n.
     bindM (\<lambda>w. (Inr (), between w)) (\<lambda>_.
     bindM (ListBlocksForNote env i) (\<lambda>blocks.
     bindM (GetLastAppliedCursorForNote env i) (\<lambda>cursor.
     returnM \<lparr>nd_Note = n, nd_Blocks = blocks, nd_LastAppliedCursor = cursor\<rparr>))))"

lemma torn_document_alone: "torn_document env i owner (\<lambda>w. w) = GetNoteDocument env i owner"
proof -
  have "bindM (\<lambda>w. (Inr (), w)) (\<lambda>_. m) = m" for m :: "NoteDocument call" by (simp add: bindM_def fun_eq_iff)
  then show ?thesis by (simp add: torn_document_def GetNoteDocument_def)
qed


end
