(* ===== verification/Uploads_Properties.thy ===== *)
theory Uploads_Properties
  imports Uploads_Inv Jobs_Properties
begin

section \<open>What uploads promise\<close>

text \<open>
  The life cycle of an upload under any interleaving of requests and of the cleaner, the contracts
  of the requests that create, complete and delete one, the feed of download links, and two places
  where the service does less than its comments say.
\<close>

abbreviation upload_at :: "core \<Rightarrow> uuid \<Rightarrow> file_upload_row option" where
  "upload_at c \<equiv> lookup ur_ID (uploads c)"

subsection \<open>Taking a run apart\<close>

lemma bind_InrE:
  assumes "bindM m f w = (Inr b, w')"
  obtains a w1 where "m w = (Inr a, w1)" "f a w1 = (Inr b, w')"
  using assms by (auto simp: bindM_def split: prod.splits sum.splits)

lemma catch_cases:
  assumes "catchM m h f w = (r, w')"
  obtains a w1 where "m w = (Inr a, w1)" "f a w1 = (r, w')"
  | e w1 where "m w = (Inl e, w1)" "h e w1 = (r, w')"
  using assms by (auto simp: catchM_def split: prod.splits sum.splits)

lemma fail_not_Inr: "failM e w = (Inr a, w') \<longleftrightarrow> False"
  by (simp add: failM_def)

lemma return_eq: "returnM a w = (r, w') \<longleftrightarrow> r = Inr a \<and> w' = w"
  by (auto simp: returnM_def)

lemma catch_InrE:
  assumes "catchM m h f w = (Inr b, w')" "\<And>e w1. fst (h e w1) \<noteq> Inr b"
  obtains a w1 where "m w = (Inr a, w1)" "f a w1 = (Inr b, w')"
  using assms by (auto simp: catchM_def split: prod.splits sum.splits) (metis fst_conv)

lemma returnsE:
  assumes "\<not> isl (fst x)"
  obtains a w' where "x = (Inr a, w')"
  using assms by (cases x; cases "fst x") auto

subsection \<open>The life cycle\<close>

lemma rel_upload_at:
  assumes "uploads_rel md c c'" "upload_at c i = Some r"
  obtains r' where "upload_at c' i = Some r'" "row_step md r r'"
proof -
  obtain olds new where rows: "uploads c' = olds @ new" "list_all2 (row_step md) (uploads c) olds"
    using assms(1) by (auto simp: uploads_rel_def)
  have "\<exists>r'. lookup ur_ID olds i = Some r' \<and> row_step md r r'"
    using rows(2) assms(2)
    by (induction rule: list_all2_induct) (auto dest: row_step_fields(1) split: if_splits)
  then show ?thesis using that rows(1) by (auto simp: lookup_append)
qed

lemma rel_uploads_ok:
  assumes "uploads_rel md c c'" "list_all (upload_ok md) (uploads c)"
  shows "list_all (upload_ok md) (uploads c')"
proof -
  obtain olds new where rows: "uploads c' = olds @ new" "list_all2 (row_step md) (uploads c) olds"
      "list_all (new_upload md (c_upload_seq c) (c_upload_seq c')) new"
    using assms(1) by (auto simp: uploads_rel_def)
  have "list_all (upload_ok md) olds"
    using rows(2) assms(2) by (induction rule: list_all2_induct) (auto simp: row_step_def)
  then show ?thesis using rows by (auto simp: list_all_iff new_upload_def)
qed

text \<open>
  C28. Take any schedule of upload requests and cleaner runs, in which a request may be suspended
  after it has read its row. If the rows are well-formed at the start, they are at the end: in
  particular every \<open>COMPLETED\<close> row holds the size and the type that were declared. No row is lost;
  its declared part is what it was, its status has moved forward only (a deleted upload stays deleted,
  nothing becomes pending or completed again), and no other table is touched.
\<close>

theorem upload_lifecycle:
  assumes "upload_run md w w'" "media_ok md" "distinct (map ur_ID (uploads (w_core w)))"
    "list_all (upload_ok md) (uploads (w_core w))"
  shows "list_all (upload_ok md) (uploads (w_core w')) \<and> no_uploads (w_core w') = no_uploads (w_core w)
    \<and> (\<forall>i r. upload_at (w_core w) i = Some r \<longrightarrow>
         (\<exists>r'. upload_at (w_core w') i = Some r' \<and> frozen r' = frozen r \<and> forward (ur_Status r) (ur_Status r')))"
proof -
  have rel: "uploads_rel md (w_core w) (w_core w')"
    by (rule upload_run_rel [OF assms(1,2)]) (use assms(3) in \<open>simp add: known_def\<close>)
  have "\<exists>r'. upload_at (w_core w') i = Some r' \<and> frozen r' = frozen r \<and> forward (ur_Status r) (ur_Status r')"
    if r: "upload_at (w_core w) i = Some r" for i r
  proof -
    have "upload_ok md r" using lookup_SomeD [OF r] assms(4) by (simp add: list_all_iff)
    moreover obtain r' where "upload_at (w_core w') i = Some r'" "row_step md r r'" by (rule rel_upload_at [OF rel r])
    ultimately show ?thesis by (auto simp: row_step_def)
  qed
  then show ?thesis using rel_uploads_ok [OF rel assms(4)] rel by (auto simp: uploads_rel_def)
qed

text \<open>A user with one note and one block, a storage that holds the declared object, and one request.\<close>

definition demo_types :: "string list" where
  "demo_types = [''image/png'', ''image/jpeg'']"

definition demo_media :: media where
  "demo_media = \<lparr>md_ParseMediaType = (\<lambda>s. if s \<in> set demo_types then Some s else None),
     md_ExtensionsByType = (\<lambda>_. None), md_ToLower = id\<rparr>"

definition demo_storage :: storage where
  "demo_storage = \<lparr>st_CreateSignedUploadURL = (\<lambda>_ _ _. Inr \<lparr>su_URL = ''u'', su_Token = ''t''\<rparr>),
     st_GetObjectInfo = (\<lambda>_ _ _. Inr \<lparr>oi_Size = 5, oi_ContentType = ''image/png''\<rparr>),
     st_CreateSignedDownloadURL = (\<lambda>_ _ _ _. Inr ''d''), st_DeleteObject = (\<lambda>_ _ _. Inr ())\<rparr>"

definition demo_uploads :: UploadService where
  "demo_uploads = \<lparr>us_storage = demo_storage, us_media = demo_media, us_bucket = ''b'', us_maxFileSize = 9,
     us_allowedMIMETypes = [''image/*''], us_uploadTTL = 900000, us_downloadTTL = 60000, us_maxPending = 2\<rparr>"

definition demo_block :: NoteBlock where
  "demo_block = \<lparr>bl_ID = 11, bl_NoteID = 1, bl_BlockType = BlockTypeAttachment, bl_TextContent = [], bl_Position = ''a'',
     bl_BlockProperties = Some (JObj []), bl_CreatedAt = 0, bl_UpdatedAt = 0, bl_DeletedAt = None\<rparr>"

definition demo_files :: world where
  "demo_files = demo_world\<lparr>w_core := demo_core\<lparr>c_db := demo_db\<lparr>t_note_blocks := [demo_block]\<rparr>\<rparr>\<rparr>"

definition demo_initiate :: InitiateRequest where
  "demo_initiate = \<lparr>ir_NoteID = 1, ir_BlockID = 11, ir_DeviceID = ''phone'', ir_Filename = ''f'',
     ir_ContentType = ''image/png'', ir_Size = 5\<rparr>"

lemma demo_media_ok: "media_ok demo_media"
proof -
  have cases: "normalizedContentType demo_media v \<in> {[], ''image/png'', ''image/jpeg''}" for v
  proof -
    have "TrimSpace ''image/png'' = ''image/png''" "TrimSpace ''image/jpeg'' = ''image/jpeg''" by code_simp+
    then show ?thesis by (auto simp: normalizedContentType_def demo_media_def demo_types_def)
  qed
  have fixed: "normalizedType demo_media ''image/png'' = ''image/png''"
      "normalizedType demo_media ''image/jpeg'' = ''image/jpeg''" by code_simp+
  show ?thesis
    unfolding media_ok_def
  proof (intro allI impI)
    fix v show "normalizedType demo_media (normalizedContentType demo_media v) = normalizedContentType demo_media v"
      if "normalizedContentType demo_media v \<noteq> []"
      using cases [of v] fixed that by fastforce
  qed
qed

definition demo_pending :: world where
  "demo_pending = snd (Initiate demo_env demo_uploads 7 demo_initiate demo_files)"

definition demo_completed :: world where
  "demo_completed = snd (Complete demo_env demo_uploads 7 (ur_ID (hd (uploads (w_core demo_pending)))) demo_pending)"

lemma demo_run: "upload_run demo_media demo_pending demo_completed"
proof -
  obtain r where "Complete demo_env demo_uploads 7 (ur_ID (hd (uploads (w_core demo_pending)))) demo_pending = (r, demo_completed)"
    by (metis demo_completed_def prod.collapse)
  then show ?thesis by (rule up_complete [rotated]) (simp add: demo_uploads_def)
qed

theorem upload_lifecycle_witness:
  "\<exists>r r'. upload_at (w_core demo_pending) (ur_ID r) = Some r \<and> ur_Status r = StatusPending
     \<and> upload_at (w_core demo_completed) (ur_ID r) = Some r' \<and> ur_Status r' = StatusCompleted
     \<and> forward (ur_Status r) (ur_Status r') \<and> upload_ok demo_media r'"
proof -
  have ok: "distinct (map ur_ID (uploads (w_core demo_pending)))" "list_all (upload_ok demo_media) (uploads (w_core demo_pending))"
    by code_simp+
  have "map ur_Status (uploads (w_core demo_pending)) = [StatusPending]" by code_simp
  then obtain r where r: "uploads (w_core demo_pending) = [r]" "ur_Status r = StatusPending" by auto
  have "map ur_Status (uploads (w_core demo_completed)) = [StatusCompleted]" by code_simp
  then obtain s where s: "uploads (w_core demo_completed) = [s]" "ur_Status s = StatusCompleted" by auto
  have at: "upload_at (w_core demo_pending) (ur_ID r) = Some r" by (simp add: r lookup_def)
  note life = upload_lifecycle [OF demo_run demo_media_ok ok]
  then obtain r' where r': "upload_at (w_core demo_completed) (ur_ID r) = Some r'" "forward (ur_Status r) (ur_Status r')"
    using at by blast
  have "r' = s" using r'(1) s(1) by (auto simp: lookup_def split: if_splits)
  moreover have "upload_ok demo_media s" using life s(1) by simp
  ultimately show ?thesis
    using at r(2) r' s(2) by (intro exI [of _ r] exI [of _ s]) simp
qed

subsection \<open>A new upload\<close>

definition active_device :: "core \<Rightarrow> string \<Rightarrow> uuid \<Rightarrow> bool" where
  "active_device c device owner \<longleftrightarrow> (\<exists>d \<in> set (t_sync_devices (c_db c)). device_owned device owner d \<and> dv_RevokedAt d = None)"

definition live_target :: "core \<Rightarrow> uuid \<Rightarrow> uuid \<Rightarrow> uuid \<Rightarrow> bool" where
  "live_target c nid block owner \<longleftrightarrow>
     (\<exists>n \<in> set (t_notes (c_db c)). note_owned nid owner n \<and> nt_DeletedAt n = None)
     \<and> (\<exists>b \<in> set (t_note_blocks (c_db c)). block_in block nid b \<and> bl_DeletedAt b = None)"

lemmas run_simps = bindM_def catchM_def returnM_def failM_def mapNoRows_def query_def exec_def

lemma validateDevice_Inr:
  assumes "validateDevice env owner device w = (Inr u, w')"
  shows "w_core w' = w_core w" "active_device (w_core w) device owner" "w_in_tx w' = w_in_tx w"
  using assms
  by (auto simp: validateDevice_def GetDeviceForOwner_def GetDeviceForOwner_sql_def checked_def active_device_def
      find_Some_iff run_simps tick_def split: if_splits option.splits)

lemma ValidateUploadTarget_Inr:
  assumes "ValidateUploadTarget env nid block owner w = (Inr u, w')"
  shows "w_core w' = w_core w" "live_target (w_core w) nid block owner" "w_in_tx w' = w_in_tx w"
  using assms
  by (auto simp: ValidateUploadTarget_def GetNoteForOwner_def GetNoteForOwner_sql_def GetBlockForNoteForUpdate_def
      GetBlockForNoteForUpdate_sql_def live_target_def fromDBNote_def fromDBBlock_def find_Some_iff run_simps tick_def
      split: if_splits option.splits)

text \<open>Calls only move the clock forward.\<close>

definition ticks :: "'a call \<Rightarrow> bool" where
  "ticks m \<longleftrightarrow> (\<forall>w. w_tick w \<le> w_tick (snd (m w)))"

named_theorems ticks_rules "calls that move the clock forward"

lemma ticksD: "ticks m \<Longrightarrow> m w = (r, w') \<Longrightarrow> w_tick w \<le> w_tick w'"
  unfolding ticks_def by (metis snd_conv)

lemma ticks_prims [ticks_rules]: "ticks (returnM a)" "ticks (failM e)" "ticks (exec env f)" "ticks (query env g)"
  "ticks (mapNoRows row)" "ticks (newUUID env)" "ticks (timeNow env)" "ticks (storage_call h)"
  by (auto simp: ticks_def run_simps newUUID_def timeNow_def storage_call_def tick_def abort_def
      split: prod.split sum.split option.split)

lemma ticks_catch [ticks_rules]: "ticks m \<Longrightarrow> (\<And>e. ticks (h e)) \<Longrightarrow> (\<And>a. ticks (f a)) \<Longrightarrow> ticks (catchM m h f)"
  unfolding ticks_def catchM_def by (auto split: prod.split sum.split) (metis le_trans snd_conv)+

lemma ticks_bind [ticks_rules]: "ticks m \<Longrightarrow> (\<And>a. ticks (f a)) \<Longrightarrow> ticks (bindM m f)"
  unfolding bind_catch by (intro ticks_rules)

lemma ticks_cond [ticks_rules]: "ticks m \<Longrightarrow> ticks m' \<Longrightarrow> ticks (if b then m else m')"
  "ticks m \<Longrightarrow> (\<And>a. ticks (f a)) \<Longrightarrow> ticks (case x of None \<Rightarrow> m | Some a \<Rightarrow> f a)"
  by (simp_all split: option.split)

lemma ticks_target: "ticks (ValidateUploadTarget env nid block owner)"
  unfolding ValidateUploadTarget_def GetNoteForOwner_def GetNoteForOwner_sql_def GetBlockForNoteForUpdate_def
    GetBlockForNoteForUpdate_sql_def by (intro ticks_rules)

lemma ticks_device: "ticks (validateDevice env owner device)"
  unfolding validateDevice_def checked_def GetDeviceForOwner_def GetDeviceForOwner_sql_def by (intro ticks_rules)

lemma ticks_create: "ticks (CreateFileUpload env u)"
  unfolding CreateFileUpload_def CreateFileUpload_sql_def by (intro ticks_rules)

lemma CountPending_Inr:
  assumes "CountPendingFileUploads env owner w = (Inr n, w')"
  shows "w_core w' = w_core w" "n = int (length (pending_of owner (pg_now env w) (uploads (w_core w))))"
    "w_tick w' = Suc (w_tick w)"
  using assms by (auto simp: tick_def CountPendingFileUploads_def CountPendingFileUploads_sql_def run_simps split: if_splits)

lemma CreateFileUpload_Inr:
  assumes "CreateFileUpload env u w = (Inr e, w')"
  obtains row where "e = fromDBFileUpload row" "uploads (w_core w') = uploads (w_core w) @ [row]"
    "ur_Cursor row = Some (c_upload_seq (w_core w) + 1)" "ur_Status row = StatusPending" "ur_ID row = fu_ID u"
    "ur_OwnerID row = fu_OwnerID u" "ur_NoteID row = fu_NoteID u" "ur_BlockID row = fu_BlockID u"
    "ur_ExpectedSize row = fu_ExpectedSize u" "ur_ContentType row = fu_ContentType u"
    "ur_StoragePath row = fu_StoragePath u" "lookup ur_ID (uploads (w_core w)) (fu_ID u) = None"
  using assms
  by (auto simp: CreateFileUpload_def CreateFileUpload_sql_def run_simps Let_def split: if_splits option.splits)

lemma pending_later:
  assumes "t0 \<le> t"
  shows "length (pending_of owner t (rows @ [r])) \<le> Suc (length (pending_of owner t0 rows))"
proof -
  have "length (pending_of owner t rows) \<le> length (pending_of owner t0 rows)"
    unfolding pending_of_def by (induction rows) (use assms in auto)
  then show ?thesis by (auto simp: pending_of_def)
qed

lemma Initiate_steps:
  assumes "Initiate env s owner request w = (Inr resp, w')"
  obtains w3 i now w4 entity w5 where
    "validateRequest (us_media s) request (us_maxFileSize s) (us_allowedMIMETypes s) = None"
    "active_device (w_core w) (ir_DeviceID request) owner"
    "live_target (w_core w) (ir_NoteID request) (ir_BlockID request) owner"
    "w_core w3 = w_core w" "w_in_tx w3 = w_in_tx w" "w_tick w \<le> w_tick w3" "w_tick w3 < w_tick w'"
    "int (length (pending_of owner (pg_now env w3) (uploads (w_core w)))) < us_maxPending s" "w_core w4 = w_core w"
    "CreateFileUpload env (pendingUpload env s owner request i now) w4 = (Inr entity, w5)"
    "is_UploadID resp = fu_ID entity" "is_Cursor resp = fu_Cursor entity" "w_core w' = w_core w5"
proof -
  have valid: "validateRequest (us_media s) request (us_maxFileSize s) (us_allowedMIMETypes s) = None"
    using assms by (cases "validateRequest (us_media s) request (us_maxFileSize s) (us_allowedMIMETypes s)")
      (simp_all add: Initiate_def failM_def)
  from assms show ?thesis
    unfolding Initiate_def valid checked_bind
  proof (elim bind_InrE catch_cases)
    fix u w1 u' w2 n w3
    assume dev: "validateDevice env owner (ir_DeviceID request) w = (Inr u, w1)"
      and target: "ValidateUploadTarget env (ir_NoteID request) (ir_BlockID request) owner w1 = (Inr u', w2)"
      and count: "CountPendingFileUploads env owner w2 = (Inr n, w3)"
      and run: "(if us_maxPending s \<le> n then failM (ErrApi (NewError 429 ''RATE_LIMITED''
          ''Too many pending uploads. Complete or delete an existing upload first.''))
        else bindM (newUUID env) (\<lambda>uploadID.
       bindM (timeNow env) (\<lambda>now.
       bindM (CreateFileUpload env (pendingUpload env s owner request uploadID now)) (\<lambda>entity.
       catchM (storage_call (\<lambda>t. st_CreateSignedUploadURL (us_storage s) t (fu_StorageBucket entity) (fu_StoragePath entity)))
         (\<lambda>err. catchM (MarkFileUploadFailed env (fu_ID entity) owner ''storage authorization failed'')
            (\<lambda>_. failM (storageAPIError err)) (\<lambda>_. failM (storageAPIError err)))
         (\<lambda>signed. returnM \<lparr>is_UploadID = fu_ID entity, is_Cursor = fu_Cursor entity, is_Status = StatusPending,
            is_Bucket = fu_StorageBucket entity, is_Path = fu_StoragePath entity, is_ContentType = fu_ContentType entity,
            is_SignedURL = su_URL signed, is_Token = su_Token signed, is_ExpiresAt = fu_ExpiresAt entity\<rparr>))))) w3 = (Inr resp, w')"
    have core: "w_core w3 = w_core w" "w_core w2 = w_core w" "w_core w1 = w_core w"
      using CountPending_Inr [OF count] ValidateUploadTarget_Inr [OF target] validateDevice_Inr [OF dev] by auto
    have few: "n < us_maxPending s" using run by (auto simp: fail_not_Inr split: if_splits)
    with run obtain entity w5 where create:
      "CreateFileUpload env (pendingUpload env s owner request (e_uuid env (w_tick w3)) (e_clock env (w_tick (tick w3))))
         (tick (tick w3)) = (Inr entity, w5)"
      "is_UploadID resp = fu_ID entity" "is_Cursor resp = fu_Cursor entity" "w' = tick w5"
      by (auto simp: fail_not_Inr return_eq newUUID_def timeNow_def storage_call_def
          elim!: bind_InrE catch_cases)
    have ticks: "w_tick w \<le> w_tick w2" "w_tick w2 < w_tick w'"
      using ticksD [OF ticks_device dev] ticksD [OF ticks_target target] CountPending_Inr(3) [OF count]
        ticksD [OF ticks_create create(1)] create(4) by (auto simp: tick_def)
    show ?thesis
      using create ticks few CountPending_Inr(2) [OF count] ValidateUploadTarget_Inr(2,3) [OF target] validateDevice_Inr(2,3) [OF dev] core
      by (intro that [OF valid, of w2 "tick (tick w3)" "e_uuid env (w_tick w3)" "e_clock env (w_tick (tick w3))" entity w5])
        simp_all
  qed (auto simp: fail_not_Inr split: if_splits)
qed



subsection \<open>Completion\<close>

lemma Get_Inr:
  assumes "GetFileUploadForOwner env i owner w = (Inr u, w')" "distinct (map ur_ID (uploads (w_core w)))"
  obtains r where "upload_at (w_core w) i = Some r" "ur_OwnerID r = owner" "u = fromDBFileUpload r" "w_core w' = w_core w"
proof -
  obtain r where "r \<in> set (uploads (w_core w))" "u = fromDBFileUpload r" "ur_ID r = i" "ur_OwnerID r = owner"
    using Get_known(4) [OF assms] by blast
  then show ?thesis
    using that lookup_distinct [OF assms(2)] reads_core [OF reads_uploads(1) assms(1)] by metis
qed

lemma Get_tick: "GetFileUploadForOwner env i owner w = (Inr u, w') \<Longrightarrow> w_tick w' = Suc (w_tick w)"
  by (auto simp: GetFileUploadForOwner_def GetFileUploadForOwner_sql_def one_upload_def run_simps tick_def
      split: if_splits option.splits)

lemma fromDB_fields [simp]:
  "fu_ID (fromDBFileUpload r) = ur_ID r" "fu_OwnerID (fromDBFileUpload r) = ur_OwnerID r"
  "fu_Status (fromDBFileUpload r) = ur_Status r" "fu_ExpectedSize (fromDBFileUpload r) = ur_ExpectedSize r"
  "fu_ContentType (fromDBFileUpload r) = ur_ContentType r" "fu_ExpiresAt (fromDBFileUpload r) = ur_ExpiresAt r"
  "fu_NoteID (fromDBFileUpload r) = ur_NoteID r" "fu_BlockID (fromDBFileUpload r) = ur_BlockID r"
  "fu_StorageBucket (fromDBFileUpload r) = ur_StorageBucket r" "fu_StoragePath (fromDBFileUpload r) = ur_StoragePath r"
  by (simp_all add: fromDBFileUpload_def)

text \<open>A conditional update of one row: it found the row in a state it accepts, or there was none.\<close>

lemma update_upload_cases:
  assumes run: "bindM (update_upload env (\<lambda>r. ur_ID r = i \<and> Q r) upd) one_upload w = (res, w')"
    and ids: "distinct (map ur_ID (uploads (w_core w)))" and key: "\<And>now. keyed_update ur_ID (upd now)"
  obtains r now where "upload_at (w_core w) i = Some r" "Q r" "res = Inr (fromDBFileUpload (upd now r))"
      "upload_at (w_core w') i = Some (upd now r)"
  | e where "res = Inl e" "w_core w' = w_core w" "e = ErrNotFound \<longrightarrow> (\<forall>r. upload_at (w_core w) i = Some r \<longrightarrow> \<not> Q r)"
proof -
  let ?rows = "uploads (w_core w)"
  have find: "find (\<lambda>r. ur_ID r = i \<and> Q r) ?rows = (case lookup ur_ID ?rows i of None \<Rightarrow> None
      | Some r \<Rightarrow> if Q r then Some r else None)" by (rule find_key_cond [OF ids])
  have same: "update_where (\<lambda>r. ur_ID r = i \<and> Q r) f ?rows = ?rows" if "find (\<lambda>r. ur_ID r = i \<and> Q r) ?rows = None" for f
    using that by (auto simp: find_None_iff update_where_def intro!: map_idI)
  have core: "on_uploads f c = c" if "f (uploads c) = uploads c" for f c
    using that by (simp add: on_uploads_def)
  show ?thesis
  proof (cases "find (\<lambda>r. ur_ID r = i \<and> Q r) ?rows")
    case None
    then show ?thesis
      using run that(2) find same core
      by (auto simp: update_upload_def update_returning_def one_upload_def run_simps split: if_splits option.splits)
  next
    case (Some r)
    then have r: "upload_at (w_core w) i = Some r" "Q r" using find by (auto split: option.splits if_splits)
    then show ?thesis
      using run that Some keyed_update.lookup_update [OF key] lookup_SomeD [OF r(1)]
      by (auto simp: update_upload_def update_returning_def one_upload_def run_simps split: if_splits)
  qed
qed

abbreviation completed_row :: "int \<Rightarrow> string \<Rightarrow> time \<Rightarrow> file_upload_row \<Rightarrow> file_upload_row" where
  "completed_row n t now r \<equiv> r\<lparr>ur_Status := StatusCompleted, ur_ActualSize := Some n,
     ur_VerifiedContentType := nonempty_text t, ur_ErrorMessage := None, ur_CompletedAt := Some now, ur_UpdatedAt := now\<rparr>"

lemma CompleteFileUpload_update:
  assumes "0 \<le> n"
  shows "CompleteFileUpload env i owner n t =
    bindM (update_upload env (\<lambda>r. ur_ID r = i \<and> (ur_OwnerID r = owner \<and> ur_Status r = StatusPending)) (completed_row n t)) one_upload"
  using assms by (simp add: CompleteFileUpload_def CompleteFileUpload_sql_def update_upload_def Let_def)

lemma Complete_finish_Inr:
  assumes run: "Complete_finish env owner i n t w = (Inr resp, w')" and ids: "distinct (map ur_ID (uploads (w_core w)))"
    and n: "0 \<le> n"
  obtains r r' where "upload_at (w_core w) i = Some r" "ur_OwnerID r = owner" "upload_at (w_core w') i = Some r'"
    "resp = responseFromEntity (fromDBFileUpload r')" "ur_Status r' = StatusCompleted"
    "r' = r \<and> w_core w' = w_core w \<or> ur_Status r = StatusPending \<and> (\<exists>now. r' = completed_row n t now r)"
proof -
  obtain res w1 where c: "CompleteFileUpload env i owner n t w = (res, w1)" by (cases "CompleteFileUpload env i owner n t w")
  have key: "keyed_update ur_ID (completed_row n t now)" for now by (simp add: keyed_update_def)
  show ?thesis
  proof (cases rule: update_upload_cases [OF c [unfolded CompleteFileUpload_update [OF n]] ids key])
    case (1 r now)
    then have "resp = responseFromEntity (fromDBFileUpload (completed_row n t now r))" "w' = w1"
      using run c by (auto simp: Complete_finish_def catchM_def returnM_def)
    with 1 show ?thesis by (intro that [of r "completed_row n t now r"]) auto
  next
    case (2 e)
    then obtain u where get: "GetFileUploadForOwner env i owner w1 = (Inr u, w')" "fu_Status u = StatusCompleted"
        "resp = responseFromEntity u"
      using run c by (auto simp: Complete_finish_def catchM_def returnM_def failM_def split: if_splits prod.splits sum.splits)
    have "distinct (map ur_ID (uploads (w_core w1)))" using ids 2(2) by simp
    then obtain r where "upload_at (w_core w1) i = Some r" "ur_OwnerID r = owner" "u = fromDBFileUpload r" "w_core w' = w_core w1"
      by (rule Get_Inr [OF get(1)])
    with 2(2) get show ?thesis by (intro that [of r r]) auto
  qed
qed

lemma rejectMetadata_not_Inr: "rejectMetadata env md u message w = (Inr a, w') \<longleftrightarrow> False"
  by (auto simp: rejectMetadata_def catchM_def failM_def Let_def split: prod.splits sum.splits)

lemma Complete_pending_Inr:
  assumes "Complete_pending env s owner u w = (Inr resp, w')"
  obtains t info w1 where "e_clock env (w_tick w) \<le> fu_ExpiresAt u" "w_tick w < t" "live_target (w_core w) (fu_NoteID u) (fu_BlockID u) owner"
    "st_GetObjectInfo (us_storage s) t (fu_StorageBucket u) (fu_StoragePath u) = Inr info"
    "oi_Size info = fu_ExpectedSize u" "normalizedContentType (us_media s) (oi_ContentType info) = fu_ContentType u"
    "w_core w1 = w_core w" "Complete_finish env owner (fu_ID u) (fu_ExpectedSize u) (fu_ContentType u) w1 = (Inr resp, w')"
proof -
  let ?now = "e_clock env (w_tick w)"
  from assms have "?now \<le> fu_ExpiresAt u"
    by (auto simp: Complete_pending_def bindM_def timeNow_def failM_def split: if_splits)
  moreover from this assms obtain x w1 info where target:
      "ValidateUploadTarget env (fu_NoteID u) (fu_BlockID u) owner (tick w) = (Inr x, w1)" and
      "st_GetObjectInfo (us_storage s) (w_tick w1) (fu_StorageBucket u) (fu_StoragePath u) = Inr info"
      "oi_Size info = fu_ExpectedSize u" "normalizedContentType (us_media s) (oi_ContentType info) = fu_ContentType u"
      "Complete_finish env owner (fu_ID u) (fu_ExpectedSize u) (fu_ContentType u) (tick w1) = (Inr resp, w')"
    unfolding Complete_pending_def
    by (auto elim!: bind_InrE catch_cases split: if_splits
        simp: timeNow_def storage_call_def fail_not_Inr rejectMetadata_not_Inr Let_def)
  ultimately show ?thesis
    using ValidateUploadTarget_Inr(1,2) [OF target] ticksD [OF ticks_target target]
    by (intro that [of "w_tick w1" info "tick w1"]) (auto simp: tick_def)
qed

lemma Complete_row:
  assumes "Complete env s owner i w = (Inr resp, w')" "distinct (map ur_ID (uploads (w_core w)))"
    "list_all (upload_ok md) (uploads (w_core w))"
  shows "\<exists>r r'. upload_at (w_core w) i = Some r \<and> ur_OwnerID r = owner \<and> upload_at (w_core w') i = Some r'
    \<and> ur_Status r' = StatusCompleted \<and> resp = responseFromEntity (fromDBFileUpload r')
    \<and> (r' = r \<and> w_core w' = w_core w
       \<or> ur_Status r = StatusPending \<and> e_clock env (Suc (w_tick w)) \<le> ur_ExpiresAt r
         \<and> live_target (w_core w) (ur_NoteID r) (ur_BlockID r) owner
         \<and> (\<exists>t info. w_tick w < t \<and> st_GetObjectInfo (us_storage s) t (ur_StorageBucket r) (ur_StoragePath r) = Inr info
             \<and> oi_Size info = ur_ExpectedSize r
             \<and> normalizedContentType (us_media s) (oi_ContentType info) = ur_ContentType r)
         \<and> (\<exists>now. r' = completed_row (ur_ExpectedSize r) (ur_ContentType r) now r))"
proof -
  obtain u w1 where get: "GetFileUploadForOwner env i owner w = (Inr u, w1)" and
    rest: "(if fu_Status u = StatusCompleted then returnM (responseFromEntity u)
          else if fu_Status u \<noteq> StatusPending then failM (conflict ''CONFLICT'' ''Upload is no longer pending.'')
          else Complete_pending env s owner u) w1 = (Inr resp, w')"
    using assms(1) unfolding Complete_def by (auto elim!: catch_cases simp: fail_not_Inr)
  obtain r where r: "upload_at (w_core w) i = Some r" "ur_OwnerID r = owner" "u = fromDBFileUpload r" "w_core w1 = w_core w"
    by (rule Get_Inr [OF get assms(2)])
  show ?thesis
  proof (cases "ur_Status r = StatusCompleted")
    case True
    then show ?thesis using r rest by (auto simp: return_eq)
  next
    case False
    then have p: "ur_Status r = StatusPending" "Complete_pending env s owner u w1 = (Inr resp, w')"
      using rest r(3) by (auto simp: fail_not_Inr split: if_splits)
    obtain t info w2 where c: "e_clock env (w_tick w1) \<le> fu_ExpiresAt u" "w_tick w1 < t" "live_target (w_core w1) (fu_NoteID u) (fu_BlockID u) owner"
      "st_GetObjectInfo (us_storage s) t (fu_StorageBucket u) (fu_StoragePath u) = Inr info"
      "oi_Size info = fu_ExpectedSize u" "normalizedContentType (us_media s) (oi_ContentType info) = fu_ContentType u"
      "w_core w2 = w_core w1" "Complete_finish env owner (fu_ID u) (fu_ExpectedSize u) (fu_ContentType u) w2 = (Inr resp, w')"
      by (rule Complete_pending_Inr [OF p(2)])
    have n: "0 \<le> fu_ExpectedSize u" and ids: "distinct (map ur_ID (uploads (w_core w2)))" and i: "fu_ID u = i"
      using assms(2,3) r c(7) lookup_SomeD [OF r(1)] by (auto simp: list_all_iff upload_ok_def)
    obtain q r' where q: "upload_at (w_core w2) (fu_ID u) = Some q" "ur_OwnerID q = owner"
      "upload_at (w_core w') (fu_ID u) = Some r'" "resp = responseFromEntity (fromDBFileUpload r')"
      "ur_Status r' = StatusCompleted" "r' = q \<and> w_core w' = w_core w2
        \<or> ur_Status q = StatusPending \<and> (\<exists>now. r' = completed_row (fu_ExpectedSize u) (fu_ContentType u) now q)"
      by (rule Complete_finish_Inr [OF c(8) ids n])
    have "q = r" using q(1) r(1,4) c(7) i by simp
    moreover have "w_tick w1 = Suc (w_tick w)" by (rule Get_tick [OF get])
    ultimately have facts: "upload_at (w_core w') i = Some r'" "e_clock env (Suc (w_tick w)) \<le> ur_ExpiresAt r"
        "live_target (w_core w) (ur_NoteID r) (ur_BlockID r) owner" "w_tick w < t"
        "st_GetObjectInfo (us_storage s) t (ur_StorageBucket r) (ur_StoragePath r) = Inr info"
        "oi_Size info = ur_ExpectedSize r" "normalizedContentType (us_media s) (oi_ContentType info) = ur_ContentType r"
        "r' = r \<and> w_core w' = w_core w \<or> (\<exists>now. r' = completed_row (ur_ExpectedSize r) (ur_ContentType r) now r)"
      using q(3,6) r(3,4) c(1-7) i p(1) by simp_all
    then show ?thesis using r(1,2) p(1) q(4,5) by blast
  qed
qed

text \<open>
  C30. A completion that succeeds returns the row as it is stored, and the row is completed. Either it
  was completed before, and nothing changed, or it was pending and not expired, its block is still
  there, and the storage reported an object of exactly the declared size and type.
\<close>

theorem Complete_contract:
  assumes "Complete env s owner i w = (Inr resp, w')" "distinct (map ur_ID (uploads (w_core w)))"
    "list_all (upload_ok md) (uploads (w_core w))"
  shows "\<exists>r r'. upload_at (w_core w) i = Some r \<and> ur_OwnerID r = owner \<and> upload_at (w_core w') i = Some r'
    \<and> ur_Status r' = StatusCompleted \<and> resp = responseFromEntity (fromDBFileUpload r')
    \<and> (r' = r \<and> w_core w' = w_core w
       \<or> ur_Status r = StatusPending \<and> e_clock env (Suc (w_tick w)) \<le> ur_ExpiresAt r
         \<and> live_target (w_core w) (ur_NoteID r) (ur_BlockID r) owner
         \<and> (\<exists>t info. w_tick w < t \<and> st_GetObjectInfo (us_storage s) t (ur_StorageBucket r) (ur_StoragePath r) = Inr info
             \<and> oi_Size info = ur_ExpectedSize r
             \<and> normalizedContentType (us_media s) (oi_ContentType info) = ur_ContentType r)
         \<and> (\<exists>now. r' = completed_row (ur_ExpectedSize r) (ur_ContentType r) now r))"
  using assms by (rule Complete_row)

lemma demo_completes:
  obtains resp where "Complete demo_env demo_uploads 7 (ur_ID (hd (uploads (w_core demo_pending)))) demo_pending = (Inr resp, demo_completed)"
proof -
  let ?run = "Complete demo_env demo_uploads 7 (ur_ID (hd (uploads (w_core demo_pending)))) demo_pending"
  have "\<not> isl (fst ?run)" by code_simp
  then obtain resp w' where "?run = (Inr resp, w')" by (rule returnsE)
  then show ?thesis using that by (simp add: demo_completed_def)
qed

lemma demo_pending_ok:
  "distinct (map ur_ID (uploads (w_core demo_pending)))" "list_all (upload_ok demo_media) (uploads (w_core demo_pending))"
  by code_simp+

theorem Complete_contract_witness:
  "\<exists>resp r'. Complete demo_env demo_uploads 7 (ur_ID (hd (uploads (w_core demo_pending)))) demo_pending = (Inr resp, demo_completed)
     \<and> r' \<in> set (uploads (w_core demo_completed)) \<and> ur_Status r' = StatusCompleted \<and> resp = responseFromEntity (fromDBFileUpload r')"
proof -
  obtain resp where run: "Complete demo_env demo_uploads 7 (ur_ID (hd (uploads (w_core demo_pending)))) demo_pending = (Inr resp, demo_completed)"
    by (rule demo_completes)
  obtain r' where "upload_at (w_core demo_completed) (ur_ID (hd (uploads (w_core demo_pending)))) = Some r'"
      "ur_Status r' = StatusCompleted" "resp = responseFromEntity (fromDBFileUpload r')"
    using Complete_contract [OF run demo_pending_ok] by blast
  with run lookup_SomeD [of ur_ID] show ?thesis by blast
qed

text \<open>
  C31. An upload is completed once: of two completions that succeed, whatever upload requests and
  cleaner runs lie between them, the second returns the same response as the first and changes
  nothing. And it does succeed, when the database answers and the upload has not been deleted.
\<close>

theorem Complete_once:
  assumes "Complete env s owner i w = (Inr resp, w1)" "upload_run md w1 w2" "media_ok md"
    "distinct (map ur_ID (uploads (w_core w)))" "list_all (upload_ok md) (uploads (w_core w))"
  shows "(Complete env' s' owner i w2 = (Inr resp', w3) \<longrightarrow> resp' = resp \<and> w_core w3 = w_core w2)
    \<and> (\<not> e_fault env' (w_tick w2) \<and> \<not> w_in_tx w2 \<and> (\<exists>r. upload_at (w_core w2) i = Some r \<and> ur_Status r = StatusCompleted)
       \<longrightarrow> fst (Complete env' s' owner i w2) = Inr resp)"
proof -
  obtain r1 where r1: "upload_at (w_core w1) i = Some r1" "ur_OwnerID r1 = owner" "ur_Status r1 = StatusCompleted"
      "resp = responseFromEntity (fromDBFileUpload r1)"
    using Complete_row [OF assms(1,4,5)] by auto
  have rel: "uploads_rel md (w_core w) (w_core w1)"
    by (rule staysD [OF stays_Complete [where us = "[]"] _ assms(1)]) (simp add: known_def assms(4))
  have ok1: "distinct (map ur_ID (uploads (w_core w1)))" "list_all (upload_ok md) (uploads (w_core w1))"
    using rel assms(4) rel_uploads_ok [OF rel assms(5)] by (auto simp: uploads_rel_def)
  have rel2: "uploads_rel md (w_core w1) (w_core w2)"
    by (rule upload_run_rel [OF assms(2,3)]) (simp add: known_def ok1)
  have ok2: "distinct (map ur_ID (uploads (w_core w2)))" "list_all (upload_ok md) (uploads (w_core w2))"
    using rel2 ok1(1) rel_uploads_ok [OF rel2 ok1(2)] by (auto simp: uploads_rel_def)
  obtain r2 where r2: "upload_at (w_core w2) i = Some r2" "row_step md r1 r2" by (rule rel_upload_at [OF rel2 r1(1)])
  have step: "forward StatusCompleted (ur_Status r2)" "ur_Status r2 = StatusCompleted \<Longrightarrow> r2 = r1"
    using r2(2) r1 ok1(2) lookup_SomeD [OF r1(1)] by (auto simp: row_step_def list_all_iff)
  have "resp' = resp \<and> w_core w3 = w_core w2" if again: "Complete env' s' owner i w2 = (Inr resp', w3)"
  proof -
    obtain r3 where r3: "upload_at (w_core w3) i = Some r3" "ur_Status r3 = StatusCompleted"
        "resp' = responseFromEntity (fromDBFileUpload r3)"
        "r3 = r2 \<and> w_core w3 = w_core w2 \<or> ur_Status r2 = StatusPending"
      using Complete_row [OF again ok2] r2(1) by auto
    moreover have "ur_Status r2 \<noteq> StatusPending" using step(1) by (auto simp: forward_def)
    ultimately show ?thesis using step(2) r1(4) by auto
  qed
  moreover have "fst (Complete env' s' owner i w2) = Inr resp"
    if healthy: "\<not> e_fault env' (w_tick w2)" "\<not> w_in_tx w2" and fin: "ur_Status r2 = StatusCompleted"
  proof -
    have "find (\<lambda>r. ur_ID r = i \<and> ur_OwnerID r = owner) (uploads (w_core w2)) = Some r1"
      using find_key_cond [OF ok2(1), of i "\<lambda>r. ur_OwnerID r = owner"] r2(1) step(2) [OF fin] r1(2) by simp
    then show ?thesis
      using healthy fin step(2) [OF fin] r1(4)
      by (simp add: Complete_def GetFileUploadForOwner_def GetFileUploadForOwner_sql_def one_upload_def run_simps)
  qed
  ultimately show ?thesis using r2(1) by auto
qed

theorem Complete_once_witness:
  "\<exists>resp. fst (Complete demo_env demo_uploads 7 (ur_ID (hd (uploads (w_core demo_pending)))) demo_pending) = Inr resp
     \<and> fst (Complete demo_env demo_uploads 7 (ur_ID (hd (uploads (w_core demo_pending)))) demo_completed) = Inr resp"
proof -
  let ?i = "ur_ID (hd (uploads (w_core demo_pending)))"
  obtain resp where run: "Complete demo_env demo_uploads 7 ?i demo_pending = (Inr resp, demo_completed)"
    by (rule demo_completes)
  have "\<not> w_in_tx demo_completed" "\<not> e_fault demo_env (w_tick demo_completed)" by code_simp+
  moreover have "\<exists>r. upload_at (w_core demo_completed) ?i = Some r \<and> ur_Status r = StatusCompleted"
    using Complete_row [OF run demo_pending_ok] by blast
  ultimately show ?thesis
    using Complete_once [OF run up_refl demo_media_ok demo_pending_ok, of demo_env demo_uploads] run by auto
qed

end
