(* ===== verification/Uploads_Feed.thy ===== *)
theory Uploads_Feed
  imports Uploads_Properties "HOL-Library.Sublist"
begin

section \<open>Deletion and the feed of download links\<close>

text \<open>
  What a deletion and a poll of the feed return, and two places where the service does less than its
  comments say: a deletion that loses a race against another one, and uploads that were pending when
  a device polled.
\<close>

subsection \<open>Deletion\<close>

lemma Cancelled_cases:
  assumes "MarkFileUploadCancelled env i owner w = (res, w')" "distinct (map ur_ID (uploads (w_core w)))"
  obtains r now where "upload_at (w_core w) i = Some r" "ur_OwnerID r = owner" "ur_Status r \<noteq> StatusDeleted"
      "res = Inr (fromDBFileUpload (r\<lparr>ur_Status := StatusCancelled, ur_UpdatedAt := now\<rparr>))"
      "upload_at (w_core w') i = Some (r\<lparr>ur_Status := StatusCancelled, ur_UpdatedAt := now\<rparr>)"
  | e where "res = Inl e" "w_core w' = w_core w"
      "e = ErrNotFound \<longrightarrow> (\<forall>r. upload_at (w_core w) i = Some r \<longrightarrow> \<not> (ur_OwnerID r = owner \<and> ur_Status r \<noteq> StatusDeleted))"
  by (rule update_upload_cases [where Q = "\<lambda>r. ur_OwnerID r = owner \<and> ur_Status r \<noteq> StatusDeleted"
        and upd = "\<lambda>now r. r\<lparr>ur_Status := StatusCancelled, ur_UpdatedAt := now\<rparr>", OF _ assms(2)])
    (use assms(1) in \<open>auto simp: MarkFileUploadCancelled_def MarkFileUploadCancelled_sql_def keyed_update_def\<close>)

lemma Deleted_cases:
  assumes "MarkFileUploadDeleted env i owner w = (res, w')" "distinct (map ur_ID (uploads (w_core w)))"
  obtains r now where "upload_at (w_core w) i = Some r" "ur_OwnerID r = owner"
      "res = Inr (fromDBFileUpload (r\<lparr>ur_Status := StatusDeleted, ur_ErrorMessage := None, ur_UpdatedAt := now\<rparr>))"
      "upload_at (w_core w') i = Some (r\<lparr>ur_Status := StatusDeleted, ur_ErrorMessage := None, ur_UpdatedAt := now\<rparr>)"
  | e where "res = Inl e" "w_core w' = w_core w"
      "e = ErrNotFound \<longrightarrow> (\<forall>r. upload_at (w_core w) i = Some r \<longrightarrow> \<not> (ur_OwnerID r = owner \<and> ur_Status r \<noteq> StatusDeleted))"
  by (rule update_upload_cases [where Q = "\<lambda>r. ur_OwnerID r = owner \<and> ur_Status r \<noteq> StatusDeleted"
        and upd = "\<lambda>now r. r\<lparr>ur_Status := StatusDeleted, ur_ErrorMessage := None, ur_UpdatedAt := now\<rparr>", OF _ assms(2)])
    (use assms(1) in \<open>auto simp: MarkFileUploadDeleted_def MarkFileUploadDeleted_sql_def keyed_update_def\<close>)

lemma Delete_lost_Inr:
  assumes "Delete_lost env owner i err w = (Inr resp, w')" "distinct (map ur_ID (uploads (w_core w)))"
  obtains r where "err = ErrNotFound" "upload_at (w_core w) i = Some r" "ur_OwnerID r = owner" "ur_Status r = StatusDeleted"
    "resp = responseFromEntity (fromDBFileUpload r)" "w_core w' = w_core w"
proof -
  obtain u where "err = ErrNotFound" and get: "GetFileUploadForOwner env i owner w = (Inr u, w')" and
      "fu_Status u = StatusDeleted" "resp = responseFromEntity u"
    using assms(1) by (auto simp: Delete_lost_def fail_not_Inr return_eq elim!: catch_cases split: if_splits)
  moreover obtain r where "upload_at (w_core w) i = Some r" "ur_OwnerID r = owner" "u = fromDBFileUpload r" "w_core w' = w_core w"
    by (rule Get_Inr [OF get assms(2)])
  ultimately show ?thesis using that by simp
qed

lemma ticks_cancel: "ticks (MarkFileUploadCancelled env i owner)"
  unfolding MarkFileUploadCancelled_def MarkFileUploadCancelled_sql_def update_upload_def one_upload_def by (intro ticks_rules)

lemma stays_ids:
  assumes "stays (uploads_rel md) (known []) m" "m w = (r, w')" "distinct (map ur_ID (uploads (w_core w)))"
  shows "distinct (map ur_ID (uploads (w_core w')))" "uploads_rel md (w_core w) (w_core w')"
  using staysD [OF assms(1) _ assms(2)] assms(3) by (auto simp: known_def uploads_rel_def)

lemma Delete_finish_Inr:
  assumes "catchM (MarkFileUploadDeleted env i owner) (Delete_lost env owner i)
      (\<lambda>deleted. returnM (responseFromEntity deleted)) w = (Inr resp, w')" "distinct (map ur_ID (uploads (w_core w)))"
  obtains r where "upload_at (w_core w') i = Some r" "ur_OwnerID r = owner" "ur_Status r = StatusDeleted"
    "resp = responseFromEntity (fromDBFileUpload r)"
proof -
  obtain res w1 where m: "MarkFileUploadDeleted env i owner w = (res, w1)" by (cases "MarkFileUploadDeleted env i owner w")
  show ?thesis
  proof (cases rule: Deleted_cases [OF m assms(2)])
    case (1 r now)
    then show ?thesis using assms(1) m that by (auto simp: catchM_def returnM_def)
  next
    case (2 e)
    then have "Delete_lost env owner i e w1 = (Inr resp, w')" "distinct (map ur_ID (uploads (w_core w1)))"
      using assms m by (auto simp: catchM_def)
    then show ?thesis by (elim Delete_lost_Inr) (use that in auto)
  qed
qed



text \<open>
  C33. The race that the comment calls safe: a deletion that has read its row while another one was
  under way, and goes on when that one has finished, fails with an internal error (status 500). The
  row it re-reads is that of the zero identifier. The same request, repeated, succeeds.
\<close>

theorem Delete_race:
  assumes "upload_at (w_core w) i = Some r" "ur_OwnerID r = owner" "ur_Status r = StatusDeleted"
    "distinct (map ur_ID (uploads (w_core w)))" "upload_at (w_core w) Nil_uuid = None"
    "\<And>n. \<not> e_fault env n" "\<not> w_in_tx w" "fu_ID u = i"
  shows "fst (Delete_found env s owner u w) = Inl ErrNotFound \<and> ae_status (FromError ErrNotFound) = 500
    \<and> fst (Upload_Delete env s owner i w) = Inr (responseFromEntity (fromDBFileUpload r))"
proof -
  have find: "find (\<lambda>r. ur_ID r = k \<and> Q r) (uploads (w_core w)) = (case upload_at (w_core w) k of None \<Rightarrow> None
      | Some r \<Rightarrow> if Q r then Some r else None)" for k Q
    by (rule find_key_cond [OF assms(4)])
  have same: "update_where (\<lambda>r. ur_ID r = i \<and> ur_OwnerID r = owner \<and> ur_Status r \<noteq> StatusDeleted) f (uploads (w_core w))
      = uploads (w_core w)" for f
    using find [of i "\<lambda>r. ur_OwnerID r = owner \<and> ur_Status r \<noteq> StatusDeleted"] assms(1,3)
    by (auto simp: find_None_iff update_where_def intro!: map_idI)
  have "fst (Delete_found env s owner u w) = Inl ErrNotFound"
    using assms find same
    by (simp add: Delete_found_def Delete_lost_def MarkFileUploadCancelled_def MarkFileUploadCancelled_sql_def update_upload_def
        update_returning_def one_upload_def GetFileUploadForOwner_def GetFileUploadForOwner_sql_def zeroFileUpload_def
        run_simps on_uploads_def tick_def)
  moreover have "fst (Upload_Delete env s owner i w) = Inr (responseFromEntity (fromDBFileUpload r))"
    using assms find
    by (simp add: Upload_Delete_def one_upload_def GetFileUploadForOwner_def GetFileUploadForOwner_sql_def run_simps)
  ultimately show ?thesis by (simp add: FromError_def Internal_def NewError_def)
qed

definition demo_deleted :: world where
  "demo_deleted = snd (Upload_Delete demo_env demo_uploads 7 (ur_ID (hd (uploads (w_core demo_pending)))) demo_pending)"

theorem Delete_race_witness:
  "fst (Delete_found demo_env demo_uploads 7 (fromDBFileUpload (hd (uploads (w_core demo_pending)))) demo_deleted) = Inl ErrNotFound"
proof -
  let ?r = "hd (uploads (w_core demo_deleted))" and ?u = "fromDBFileUpload (hd (uploads (w_core demo_pending)))"
  have "upload_at (w_core demo_deleted) (fu_ID ?u) = Some ?r" "ur_OwnerID ?r = 7" "ur_Status ?r = StatusDeleted"
    "distinct (map ur_ID (uploads (w_core demo_deleted)))" "upload_at (w_core demo_deleted) Nil_uuid = None" "\<not> w_in_tx demo_deleted"
    by code_simp+
  moreover have "\<not> e_fault demo_env n" for n by (simp add: demo_env_def)
  ultimately show ?thesis using Delete_race [of demo_deleted "fu_ID ?u" ?r 7 demo_env ?u demo_uploads] by simp
qed

subsection \<open>The feed\<close>

text \<open>The uploads of a user after a cursor, in the order of the feed, and those a device gets a link for.\<close>

definition feed :: "uuid \<Rightarrow> int \<Rightarrow> core \<Rightarrow> file_upload_row list" where
  "feed owner cursor c = sort_key (\<lambda>r. case ur_Cursor r of None \<Rightarrow> 0 | Some n \<Rightarrow> n) (filter (after_cursor owner cursor) (uploads c))"

definition ready :: "core \<Rightarrow> uuid \<Rightarrow> string \<Rightarrow> FileUpload \<Rightarrow> bool" where
  "ready c owner device u \<longleftrightarrow> fu_DeviceID u \<noteq> device \<and> fu_Status u = StatusCompleted
     \<and> live_target c (fu_NoteID u) (fu_BlockID u) owner"

lemma set_feed: "set (feed owner cursor c) = {r \<in> set (uploads c). after_cursor owner cursor r}"
  by (auto simp: feed_def)

definition linked :: "DownloadURLResponse \<Rightarrow> FileUpload \<Rightarrow> bool" where
  "linked l u \<longleftrightarrow> du_UploadID l = fu_ID u \<and> du_Cursor l = fu_Cursor u \<and> du_NoteID l = fu_NoteID u \<and> du_BlockID l = fu_BlockID u"

text \<open>The loop gives links for some of the uploads that are ready, in order, and the cursor of the last one.\<close>

lemma loop_Inr:
  assumes "DownloadURLs_loop env s owner device us resp w = (Inr resp', w')"
  shows "w_core w' = w_core w \<and> dl_NextCursor resp' = (if us = [] then dl_NextCursor resp else fu_Cursor (last us))
    \<and> (\<exists>links vs. dl_Links resp' = dl_Links resp @ links \<and> list_all2 linked links vs
         \<and> subseq vs (filter (ready (w_core w) owner device) us))"
  using assms
proof (induction us arbitrary: resp w)
  case Nil
  then show ?case by (auto simp: returnM_def)
next
  case (Cons u us)
  let ?resp = "resp\<lparr>dl_NextCursor := fu_Cursor u\<rparr>" and ?c = "w_core w"
  have skip: ?case if run: "DownloadURLs_loop env s owner device us ?resp w1 = (Inr resp', w')" and w1: "w_core w1 = ?c" for w1
  proof -
    obtain links vs where "dl_Links resp' = dl_Links resp @ links" "list_all2 linked links vs"
        "subseq vs (filter (ready ?c owner device) us)"
      using Cons.IH [OF run] w1 by auto
    then show ?thesis using Cons.IH [OF run] w1 by (auto intro: subseq_Cons')
  qed
  show ?case
  proof (cases "fu_DeviceID u = device \<or> fu_Status u \<noteq> StatusCompleted")
    case True
    then show ?thesis using Cons.prems skip [of w] by (simp add: Let_def)
  next
    case use: False
    obtain rt w1 where target: "ValidateUploadTarget env (fu_NoteID u) (fu_BlockID u) owner w = (rt, w1)"
      by (cases "ValidateUploadTarget env (fu_NoteID u) (fu_BlockID u) owner w")
    have w1: "w_core w1 = ?c" by (rule reads_core [OF reads_uploads(7) target])
    obtain rs w2 where signed: "sign s u w1 = (rs, w2)" "w_core w2 = ?c"
      using w1 by (simp add: sign_def storage_call_def)
    show ?thesis
    proof (cases "isl rt \<or> isl rs")
      case True
      then show ?thesis using Cons.prems use target w1 signed skip
        by (cases rt; cases rs) (auto simp: Let_def catchM_def)
    next
      case False
      then obtain x url where x: "rt = Inr x" "rs = Inr url" by (cases rt; cases rs) auto
      let ?link = "link u url (e_clock env (w_tick w2) + us_downloadTTL s)"
      have run: "DownloadURLs_loop env s owner device us (?resp\<lparr>dl_Links := dl_Links ?resp @ [?link]\<rparr>) (tick w2) = (Inr resp', w')"
        using Cons.prems use target signed x by (simp add: Let_def catchM_def bindM_def timeNow_def)
      have "ready ?c owner device u"
        using use ValidateUploadTarget_Inr(2) [OF target [unfolded x]] by (simp add: ready_def)
      moreover obtain links vs where "dl_Links resp' = dl_Links resp @ [?link] @ links" "list_all2 linked links vs"
          "subseq vs (filter (ready ?c owner device) us)"
        using Cons.IH [OF run] signed(2) by auto
      moreover have "linked ?link u" by (simp add: linked_def link_def)
      ultimately have "\<exists>links vs. dl_Links resp' = dl_Links resp @ links \<and> list_all2 linked links vs
          \<and> subseq vs (filter (ready ?c owner device) (u # us))"
        by (intro exI [of _ "?link # links"] exI [of _ "u # vs"]) simp
      then show ?thesis using Cons.IH [OF run] signed(2) by auto
    qed
  qed
qed

lemma target_healthy:
  assumes "\<And>n. \<not> e_fault env n" "\<not> w_in_tx w" "db_ok (w_core w)" "live_target (w_core w) nid block owner"
  obtains w1 where "ValidateUploadTarget env nid block owner w = (Inr (), w1)" "w_core w1 = w_core w" "\<not> w_in_tx w1"
proof -
  let ?c = "w_core w"
  obtain n b where n: "n \<in> set (t_notes (c_db ?c))" "note_owned nid owner n" "nt_DeletedAt n = None"
      and b: "b \<in> set (t_note_blocks (c_db ?c))" "block_in block nid b" "bl_DeletedAt b = None"
    using assms(4) by (auto simp: live_target_def)
  have "note_at ?c nid = Some n" "block_at ?c block = Some b"
    using n b assms(3) lookup_distinct [of nt_ID "t_notes (c_db ?c)" n] lookup_distinct [of bl_ID "t_note_blocks (c_db ?c)" b]
    by (auto simp: db_ok_def notes_ok_def blocks_ok_def note_owned_def block_in_def)
  then have "find (note_owned nid owner) (t_notes (c_db ?c)) = Some n" "find (block_in block nid) (t_note_blocks (c_db ?c)) = Some b"
    using find_note_owned [OF assms(3)] find_block_in [OF assms(3)] n b by (auto simp: note_owned_def block_in_def)
  then show ?thesis
    using assms(1,2) n b that
    by (simp add: ValidateUploadTarget_def GetNoteForOwner_def GetNoteForOwner_sql_def GetBlockForNoteForUpdate_def
        GetBlockForNoteForUpdate_sql_def fromDBNote_def fromDBBlock_def run_simps tick_def)
qed

lemma not_isl_iff: "\<not> isl x \<longleftrightarrow> (\<exists>a. x = Inr a)"
  by (cases x) auto

lemma stable_target: "tx_stable (ValidateUploadTarget env nid block owner)"
  unfolding ValidateUploadTarget_def GetNoteForOwner_def GetNoteForOwner_sql_def GetBlockForNoteForUpdate_def
    GetBlockForNoteForUpdate_sql_def by (intro stable_rules)

lemma loop_healthy:
  assumes h: "\<And>n. \<not> e_fault env n" "\<And>t b p n. \<not> isl (st_CreateSignedDownloadURL (us_storage s) t b p n)"
  shows "\<not> w_in_tx w \<Longrightarrow> db_ok (w_core w) \<Longrightarrow>
    \<exists>resp' w' links. DownloadURLs_loop env s owner device us resp w = (Inr resp', w') \<and> dl_Links resp' = dl_Links resp @ links
      \<and> list_all2 linked links (filter (ready (w_core w) owner device) us)"
proof (induction us arbitrary: resp w)
  case (Cons u us)
  let ?resp = "resp\<lparr>dl_NextCursor := fu_Cursor u\<rparr>"
  show ?case
  proof (cases "ready (w_core w) owner device u")
    case True
    then have "live_target (w_core w) (fu_NoteID u) (fu_BlockID u) owner" by (simp add: ready_def)
    then obtain w1 where target: "ValidateUploadTarget env (fu_NoteID u) (fu_BlockID u) owner w = (Inr (), w1)"
        "w_core w1 = w_core w" "\<not> w_in_tx w1"
      by (rule target_healthy [OF h(1) Cons.prems])
    obtain url where url: "sign s u w1 = (Inr url, tick w1)"
      using h(2) [of "w_tick w1" "fu_StorageBucket u" "fu_StoragePath u" "ttlSeconds (us_downloadTTL s)"]
      by (auto simp: sign_def storage_call_def not_isl_iff)
    let ?link = "link u url (e_clock env (w_tick (tick w1)) + us_downloadTTL s)"
    have "\<not> w_in_tx (tick (tick w1))" "db_ok (w_core (tick (tick w1)))"
      using target(2,3) Cons.prems(2) by (simp_all add: tick_def)
    from Cons.IH [OF this, of "?resp\<lparr>dl_Links := dl_Links ?resp @ [?link]\<rparr>"] target(2)
    obtain resp' w' links where "DownloadURLs_loop env s owner device us (?resp\<lparr>dl_Links := dl_Links ?resp @ [?link]\<rparr>)
        (tick (tick w1)) = (Inr resp', w')" "dl_Links resp' = dl_Links resp @ [?link] @ links"
        "list_all2 linked links (filter (ready (w_core w) owner device) us)"
      by auto
    moreover have "linked ?link u" by (simp add: linked_def link_def)
    moreover have "fu_DeviceID u \<noteq> device" "fu_Status u = StatusCompleted" using True by (simp_all add: ready_def)
    ultimately show ?thesis
      using True target(1) url by (auto simp: Let_def catchM_def bindM_def timeNow_def)
  next
    case False
    obtain rt w1 where target: "ValidateUploadTarget env (fu_NoteID u) (fu_BlockID u) owner w = (rt, w1)"
      by (cases "ValidateUploadTarget env (fu_NoteID u) (fu_BlockID u) owner w")
    have w1: "w_core w1 = w_core w" "w_in_tx w1 = w_in_tx w"
      using reads_core [OF reads_uploads(7) target] target by (auto dest: tx_stableD [OF stable_target])
    have "isl rt" if "fu_DeviceID u \<noteq> device" "fu_Status u = StatusCompleted"
      using False that target ValidateUploadTarget_Inr(2) by (cases rt) (auto simp: ready_def)
    then show ?thesis
      using False target w1 Cons.prems Cons.IH [of w ?resp] Cons.IH [of w1 ?resp]
      by (cases rt) (auto simp: Let_def catchM_def)
  qed
qed (simp add: returnM_def)

lemma List_Inr:
  assumes "ListFileUploadsAfterCursor env owner cursor w = (Inr us, w')"
  shows "us = map fromDBFileUpload (feed owner cursor (w_core w))" "w_core w' = w_core w"
  using assms
  by (auto simp: ListFileUploadsAfterCursor_def ListFileUploadsAfterCursor_sql_def feed_def run_simps split: if_splits)

lemma DownloadURLs_Inr:
  assumes "DownloadURLs env s owner device cursor w = (Inr resp, w')"
  obtains w1 us w2 where "0 \<le> cursor" "active_device (w_core w) device owner" "us = map fromDBFileUpload (feed owner cursor (w_core w))"
    "w_core w2 = w_core w" "w_in_tx w2 = w_in_tx w"
    "DownloadURLs_loop env s owner device us \<lparr>dl_Links = [], dl_NextCursor = cursor\<rparr> w2 = (Inr resp, w')"
proof -
  have "0 \<le> cursor" using assms by (auto simp: DownloadURLs_def validateCursor_def fail_not_Inr split: if_splits)
  with assms obtain x w1 us w2 where dev: "validateDevice env owner device w = (Inr x, w1)"
      and lst: "ListFileUploadsAfterCursor env owner cursor w1 = (Inr us, w2)"
      and "DownloadURLs_loop env s owner device us \<lparr>dl_Links = [], dl_NextCursor = cursor\<rparr> w2 = (Inr resp, w')"
    by (auto simp: DownloadURLs_def validateCursor_def elim!: bind_InrE)
  moreover have "w_in_tx w2 = w_in_tx w1"
    using lst by (rule tx_stableD [rotated])
      (simp add: ListFileUploadsAfterCursor_def ListFileUploadsAfterCursor_sql_def query_def stable_rules)
  ultimately show ?thesis
    using that \<open>0 \<le> cursor\<close> validateDevice_Inr [OF dev] List_Inr [OF lst] by metis
qed

lemma feed_cursor: "r \<in> set (feed owner cursor c) \<Longrightarrow> ur_Cursor r = Some (fu_Cursor (fromDBFileUpload r)) \<and> cursor < fu_Cursor (fromDBFileUpload r)"
  by (auto simp: set_feed after_cursor_def fromDBFileUpload_def split: option.splits)

lemma feed_last:
  assumes "feed owner cursor c \<noteq> []" "r \<in> set (feed owner cursor c)"
  shows "fu_Cursor (fromDBFileUpload r) \<le> fu_Cursor (fromDBFileUpload (last (feed owner cursor c)))"
proof -
  let ?key = "\<lambda>r. case ur_Cursor r of None \<Rightarrow> 0 | Some n \<Rightarrow> n"
  have "sorted (map ?key (feed owner cursor c))" by (simp add: feed_def)
  moreover obtain k where "k < length (feed owner cursor c)" "r = feed owner cursor c ! k"
    using assms(2) by (metis in_set_conv_nth)
  ultimately show ?thesis
    using assms(1) sorted_nth_mono [of "map ?key (feed owner cursor c)" k "length (feed owner cursor c) - 1"]
    by (simp add: last_conv_nth fromDBFileUpload_def)
qed

lemma DownloadURLs_links:
  assumes "DownloadURLs env s owner device cursor w = (Inr resp, w')"
  shows "\<exists>vs. list_all2 linked (dl_Links resp) vs
      \<and> subseq vs (filter (ready (w_core w) owner device) (map fromDBFileUpload (feed owner cursor (w_core w))))
      \<and> ((\<forall>n. \<not> e_fault env n) \<and> (\<forall>t b p n. \<not> isl (st_CreateSignedDownloadURL (us_storage s) t b p n))
           \<and> \<not> w_in_tx w \<and> db_ok (w_core w)
         \<longrightarrow> vs = filter (ready (w_core w) owner device) (map fromDBFileUpload (feed owner cursor (w_core w))))"
proof -
  obtain w1 us w2 where run: "us = map fromDBFileUpload (feed owner cursor (w_core w))" "w_core w2 = w_core w"
      "w_in_tx w2 = w_in_tx w"
      "DownloadURLs_loop env s owner device us \<lparr>dl_Links = [], dl_NextCursor = cursor\<rparr> w2 = (Inr resp, w')"
    by (rule DownloadURLs_Inr [OF assms])
  obtain vs where vs: "list_all2 linked (dl_Links resp) vs" "subseq vs (filter (ready (w_core w) owner device) us)"
    using loop_Inr [OF run(4)] run(2) by auto
  show ?thesis
  proof (cases "(\<forall>n. \<not> e_fault env n) \<and> (\<forall>t b p n. \<not> isl (st_CreateSignedDownloadURL (us_storage s) t b p n))
      \<and> \<not> w_in_tx w \<and> db_ok (w_core w)")
    case True
    then have "list_all2 linked (dl_Links resp) (filter (ready (w_core w) owner device) us)"
      using loop_healthy [of env s w2 owner device us "\<lparr>dl_Links = [], dl_NextCursor = cursor\<rparr>"] run(2-4) by auto
    then show ?thesis using run(1) by (intro exI [of _ "filter (ready (w_core w) owner device) us"]) auto
  next
    case False
    then show ?thesis using vs run(1) by (intro exI [of _ vs]) blast
  qed
qed

lemma DownloadURLs_next:
  assumes "DownloadURLs env s owner device cursor w = (Inr resp, w')"
  shows "w_core w' = w_core w" "cursor \<le> dl_NextCursor resp" "active_device (w_core w) device owner"
    "r \<in> set (uploads (w_core w)) \<Longrightarrow> ur_OwnerID r = owner \<Longrightarrow> ur_Cursor r = Some k \<Longrightarrow> k \<le> dl_NextCursor resp"
    "dl_NextCursor resp = cursor \<or> (\<exists>r \<in> set (uploads (w_core w)). ur_OwnerID r = owner \<and> ur_Cursor r = Some (dl_NextCursor resp))"
proof -
  let ?feed = "feed owner cursor (w_core w)"
  obtain w1 us w2 where run: "active_device (w_core w) device owner" "us = map fromDBFileUpload ?feed" "w_core w2 = w_core w"
      "DownloadURLs_loop env s owner device us \<lparr>dl_Links = [], dl_NextCursor = cursor\<rparr> w2 = (Inr resp, w')"
    by (rule DownloadURLs_Inr [OF assms])
  have nxt: "dl_NextCursor resp = (if ?feed = [] then cursor else fu_Cursor (fromDBFileUpload (last ?feed)))"
    and core: "w_core w' = w_core w"
    using loop_Inr [OF run(4)] run(2,3) by (auto simp: last_map)
  show "w_core w' = w_core w" "active_device (w_core w) device owner" by (fact core, fact run(1))
  show le: "cursor \<le> dl_NextCursor resp"
    using nxt feed_cursor [of "last ?feed" owner cursor "w_core w"] by (auto dest: last_in_set)
  show "k \<le> dl_NextCursor resp" if "r \<in> set (uploads (w_core w))" "ur_OwnerID r = owner" "ur_Cursor r = Some k"
  proof (cases "k \<le> cursor")
    case False
    then have "r \<in> set ?feed" using that by (simp add: set_feed after_cursor_def)
    then show ?thesis
      using nxt feed_last [of owner cursor "w_core w" r] that(3) by (auto simp: fromDBFileUpload_def split: if_splits)
  qed (use le in simp)
  show "dl_NextCursor resp = cursor \<or> (\<exists>r \<in> set (uploads (w_core w)). ur_OwnerID r = owner \<and> ur_Cursor r = Some (dl_NextCursor resp))"
    using nxt feed_cursor [of "last ?feed" owner cursor "w_core w"] last_in_set [of ?feed]
    by (auto simp: set_feed after_cursor_def)
qed

text \<open>
  C34. A poll of the feed changes nothing. Its links are for completed uploads of the user's other
  devices after the cursor whose block is still there, in the order of the feed and each at most once
  (and, when nothing fails, for all of them); the next cursor is that of the last upload after the
  given one, with a link or without.
\<close>

theorem DownloadURLs_contract:
  assumes "DownloadURLs env s owner device cursor w = (Inr resp, w')"
  shows "w_core w' = w_core w \<and> active_device (w_core w) device owner
    \<and> (\<exists>vs. list_all2 linked (dl_Links resp) vs
         \<and> subseq vs (filter (ready (w_core w) owner device) (map fromDBFileUpload (feed owner cursor (w_core w))))
         \<and> ((\<forall>n. \<not> e_fault env n) \<and> (\<forall>t b p n. \<not> isl (st_CreateSignedDownloadURL (us_storage s) t b p n))
              \<and> \<not> w_in_tx w \<and> db_ok (w_core w)
            \<longrightarrow> vs = filter (ready (w_core w) owner device) (map fromDBFileUpload (feed owner cursor (w_core w)))))
    \<and> cursor \<le> dl_NextCursor resp
    \<and> (\<forall>r \<in> set (uploads (w_core w)). \<forall>k. ur_OwnerID r = owner \<and> ur_Cursor r = Some k \<longrightarrow> k \<le> dl_NextCursor resp)
    \<and> (dl_NextCursor resp = cursor \<or> (\<exists>r \<in> set (uploads (w_core w)). ur_OwnerID r = owner \<and> ur_Cursor r = Some (dl_NextCursor resp)))"
  using DownloadURLs_links [OF assms] DownloadURLs_next [OF assms] by blast

theorem DownloadURLs_contract_witness:
  "\<exists>resp w'. DownloadURLs demo_env demo_uploads 7 ''tablet'' 0 demo_completed = (Inr resp, w')
     \<and> map du_UploadID (dl_Links resp) = map ur_ID (uploads (w_core demo_completed)) \<and> dl_NextCursor resp = 1
     \<and> w_core w' = w_core demo_completed"
proof -
  let ?run = "DownloadURLs demo_env demo_uploads 7 ''tablet'' 0 demo_completed"
  have ev: "case fst ?run of Inl _ \<Rightarrow> False | Inr resp \<Rightarrow>
      map du_UploadID (dl_Links resp) = map ur_ID (uploads (w_core demo_completed)) \<and> dl_NextCursor resp = 1" by code_simp
  then obtain resp w' where run: "?run = (Inr resp, w')" by (cases ?run) (auto split: sum.splits)
  then show ?thesis using ev DownloadURLs_contract [OF run] by auto
qed

text \<open>
  C35. The feed skips uploads that were not completed when a device polled: whatever happens after a
  poll, an upload that existed then is not among the links of a later poll that continues from the
  returned cursor, even if it has been completed in between.
\<close>

theorem feed_skips_pending:
  assumes "DownloadURLs env s owner device cursor w = (Inr resp, w1)" "upload_run md w1 w2" "media_ok md"
    "distinct (map ur_ID (uploads (w_core w)))" "r \<in> set (uploads (w_core w))" "ur_OwnerID r = owner" "ur_Cursor r = Some k"
    "DownloadURLs env' s' owner device (dl_NextCursor resp) w2 = (Inr resp', w3)"
  shows "ur_ID r \<notin> set (map du_UploadID (dl_Links resp'))"
proof
  note first_poll = DownloadURLs_next [OF assms(1)]
  assume "ur_ID r \<in> set (map du_UploadID (dl_Links resp'))"
  moreover obtain vs where vs: "list_all2 linked (dl_Links resp') vs"
      "subseq vs (filter (ready (w_core w2) owner device) (map fromDBFileUpload (feed owner (dl_NextCursor resp) (w_core w2))))"
    using DownloadURLs_links [OF assms(8)] by blast
  moreover have "map du_UploadID (dl_Links resp') = map fu_ID vs"
    using vs(1) by (induction rule: list_all2_induct) (auto simp: linked_def)
  ultimately obtain v where "v \<in> set vs" "fu_ID v = ur_ID r" by auto
  then have "v \<in> fromDBFileUpload ` set (feed owner (dl_NextCursor resp) (w_core w2))"
    using vs(2) by (auto dest: list_emb_set [where P = "(=)"])
  then obtain q where q: "q \<in> set (uploads (w_core w2))" "after_cursor owner (dl_NextCursor resp) q" "ur_ID q = ur_ID r"
    using \<open>fu_ID v = ur_ID r\<close> by (auto simp: set_feed)
  have ids: "distinct (map ur_ID (uploads (w_core w1)))" using assms(4) first_poll(1) by simp
  have rel: "uploads_rel md (w_core w1) (w_core w2)"
    by (rule upload_run_rel [OF assms(2,3)]) (simp add: known_def ids)
  have "upload_at (w_core w1) (ur_ID r) = Some r" using lookup_distinct [OF ids] assms(5) first_poll(1) by simp
  then obtain r' where r': "upload_at (w_core w2) (ur_ID r) = Some r'" "row_step md r r'" by (rule rel_upload_at [OF rel])
  have "distinct (map ur_ID (uploads (w_core w2)))" using rel ids by (simp add: uploads_rel_def)
  then have "q = r'" using lookup_distinct [of ur_ID "uploads (w_core w2)" q] q r'(1) by simp
  then have "k > dl_NextCursor resp" using q(2) row_step_fields(3) [OF r'(2)] assms(7) by (simp add: after_cursor_def)
  then show False using first_poll(4) [OF assms(5-7)] by simp
qed

theorem feed_skips_pending_witness:
  "\<exists>resp resp' w1 w3. DownloadURLs demo_env demo_uploads 7 ''tablet'' 0 demo_pending = (Inr resp, w1)
     \<and> (\<exists>w2. upload_run demo_media w1 w2 \<and> map ur_Status (uploads (w_core w2)) = [StatusCompleted]
          \<and> DownloadURLs demo_env demo_uploads 7 ''tablet'' (dl_NextCursor resp) w2 = (Inr resp', w3))
     \<and> ur_ID (hd (uploads (w_core demo_pending))) \<notin> set (map du_UploadID (dl_Links resp'))"
proof -
  let ?r = "hd (uploads (w_core demo_pending))" and ?run = "DownloadURLs demo_env demo_uploads 7 ''tablet'' 0 demo_pending"
  let ?w2 = "snd (Complete demo_env demo_uploads 7 (ur_ID ?r) (snd ?run))"
  have "\<not> isl (fst ?run)" by code_simp
  then obtain resp w1 where run: "?run = (Inr resp, w1)" by (rule returnsE)
  have ev: "case fst ?run of Inl _ \<Rightarrow> False | Inr resp \<Rightarrow>
      \<not> isl (fst (DownloadURLs demo_env demo_uploads 7 ''tablet'' (dl_NextCursor resp) ?w2))" by code_simp
  then obtain resp' w3 where again: "DownloadURLs demo_env demo_uploads 7 ''tablet'' (dl_NextCursor resp) ?w2 = (Inr resp', w3)"
    using run by (auto intro: returnsE)
  have fin: "map ur_Status (uploads (w_core ?w2)) = [StatusCompleted]" by code_simp
  have "us_media demo_uploads = demo_media" by (simp add: demo_uploads_def)
  moreover have "Complete demo_env demo_uploads 7 (ur_ID ?r) w1 =
      (fst (Complete demo_env demo_uploads 7 (ur_ID ?r) w1), ?w2)" using run by simp
  ultimately have steps: "upload_run demo_media w1 ?w2" by (rule up_complete)
  have r: "?r \<in> set (uploads (w_core demo_pending))" "ur_OwnerID ?r = 7" "ur_Cursor ?r = Some 1" by code_simp+
  have "ur_ID ?r \<notin> set (map du_UploadID (dl_Links resp'))"
    by (rule feed_skips_pending [OF run steps demo_media_ok demo_pending_ok(1) r again])
  then show ?thesis using run steps fin again by (intro exI conjI)
qed

end
