(* ===== verification/Server_Inv.thy ===== *)
theory Server_Inv
  imports Handlers Uploads_Feed
begin

section \<open>What a request does to the tables\<close>

text \<open>
  Every authenticated request either only reads or is one of seven calls of the services. The theory
  relates the tables before and after each of them: the invariant of the whole server is kept, and the
  rows of other users stay as they are.
\<close>

subsection \<open>Requests that only read\<close>

definition quiet :: "'a call \<Rightarrow> bool" where
  "quiet m \<longleftrightarrow> keeps id m \<and> tx_stable m"

lemma quietI: "keeps id m \<Longrightarrow> tx_stable m \<Longrightarrow> quiet m"
  by (simp add: quiet_def)

lemma quietD:
  assumes "quiet m" "m w = (r, w')"
  shows "w_core w' = w_core w" "w_in_tx w' = w_in_tx w" "w_events w' = w_events w" "w_tick w \<le> w_tick w'"
proof -
  have "keeps id m" "tx_stable m" using assms(1) by (simp_all add: quiet_def)
  then show "w_core w' = w_core w" "w_in_tx w' = w_in_tx w" "w_events w' = w_events w" "w_tick w \<le> w_tick w'"
    using keepsD [of id m w r w'] assms(2) unfolding tx_stable_def by (metis id_apply snd_conv)+
qed

named_theorems quiet_rules "calls that only read"

lemma quiet_basic [quiet_rules]:
  "quiet (returnM a)" "quiet (failM e)" "quiet (query env f)" "quiet (mapNoRows row)" "quiet (timeNow env)"
  "quiet (newUUID env)" "quiet (storage_call g)" "quiet (liftM h s)"
  unfolding liftM_def
  by (auto intro!: quietI keeps_rules keeps_reads [OF reads_query [OF subset_refl]] stable_rules split: sum.split
      simp: tx_stable_def storage_call_def tick_def)

lemma quiet_catch [quiet_rules]:
  "quiet m \<Longrightarrow> (\<And>e. quiet (h e)) \<Longrightarrow> (\<And>a. quiet (f a)) \<Longrightarrow> quiet (catchM m h f)"
  by (simp add: quiet_def keeps_catch stable_catch)

lemma quiet_bind [quiet_rules]: "quiet m \<Longrightarrow> (\<And>a. quiet (f a)) \<Longrightarrow> quiet (bindM m f)"
  by (simp add: quiet_def keeps_bind stable_bind)

lemma quiet_if [quiet_rules]: "quiet m \<Longrightarrow> quiet m' \<Longrightarrow> quiet (if b then m else m')"
  by simp

lemma quiet_option [quiet_rules]:
  "quiet m \<Longrightarrow> (\<And>a. quiet (f a)) \<Longrightarrow> quiet (case x of None \<Rightarrow> m | Some a \<Rightarrow> f a)"
  by (cases x) simp_all

lemma quiet_queries [quiet_rules]:
  "quiet (GetDeviceForOwner env device owner)" "quiet (GetNoteDocument env i owner)"
  "quiet (HasChangesAfterCursor env owner cursor device)" "quiet (GetLatestSnapshotForNote env i owner)"
  "quiet (ListDevices env owner)" "quiet (GetFileUploadForOwner env i owner)"
  "quiet (GetFileUploadForBlockForOwner env i owner)" "quiet (ListFileUploadsAfterCursor env owner cursor)"
  "quiet (ValidateUploadTarget env i block owner)" "quiet (checked c)"
  unfolding GetDeviceForOwner_def GetDeviceForOwner_sql_def GetNoteDocument_def GetNoteForOwner_def GetNoteForOwner_sql_def
    ListBlocksForNote_def ListBlocksForNote_sql_def GetLastAppliedCursorForNote_def GetLastAppliedCursorForNote_sql_def
    HasChangesAfterCursor_def HasChangesAfterCursor_sql_def GetLatestSnapshotForNote_def GetLatestSnapshotForNote_sql_def
    ListDevices_def ListDevices_sql_def GetFileUploadForOwner_def GetFileUploadForOwner_sql_def one_upload_def
    GetFileUploadForBlockForOwner_def GetFileUploadForBlockForOwner_sql_def ListFileUploadsAfterCursor_def
    ListFileUploadsAfterCursor_sql_def ValidateUploadTarget_def GetBlockForNoteForUpdate_def
    GetBlockForNoteForUpdate_sql_def checked_def
  by (intro quiet_rules)+

lemma quiet_fullNotes: "quiet (fullNotes env owner is)"
  by (induction "is") (auto intro!: quiet_rules)

lemma quiet_DownloadURLs_loop: "quiet (DownloadURLs_loop env s owner device us acc)"
  by (induction us arbitrary: acc) (auto intro!: quiet_rules simp: Let_def sign_def)

lemma quiet_services:
  "quiet (Device_List env owner)" "quiet (UpdatesAvailable env owner ureq)" "quiet (SyncFullNote env sv owner freq)"
  "quiet (Note_Get env owner i)" "quiet (Note_LatestSnapshot env owner i)" "quiet (Upload_Get env owner i)"
  "quiet (DownloadURL env us owner i)" "quiet (DownloadURLs env us owner device cursor)"
  unfolding Device_List_def UpdatesAvailable_def SyncFullNote_def Note_Get_def Note_LatestSnapshot_def Upload_Get_def
    DownloadURL_def DownloadURLs_def validateDevice_def sign_def Let_def
  by (intro quiet_rules quiet_fullNotes quiet_DownloadURLs_loop)+

subsection \<open>The steps of an authenticated user\<close>

definition same_state :: "world \<Rightarrow> world \<Rightarrow> bool" where
  "same_state w w' \<longleftrightarrow> w_core w' = w_core w \<and> w_in_tx w' = w_in_tx w \<and> w_events w' = w_events w \<and> w_tick w \<le> w_tick w'"

lemma same_state_refl [simp]: "same_state w w"
  by (simp add: same_state_def)

lemma quiet_same: "quiet m \<Longrightarrow> m w = (r, w') \<Longrightarrow> same_state w w'"
  using quietD [of m w r w'] by (simp add: same_state_def)

inductive user_step :: "api \<Rightarrow> uuid \<Rightarrow> world \<Rightarrow> world \<Rightarrow> bool" for a owner where
  step_read: "same_state w w' \<Longrightarrow> user_step a owner w w'"
| step_register: "user_step a owner w (snd (Device_Register (ap_env a) owner rreq w))"
| step_revoke: "user_step a owner w (snd (Device_Revoke (ap_env a) owner device w))"
| step_push: "user_step a owner w (snd (Sync (ap_env a) (ap_sync a) owner sreq w))"
| step_pull: "user_step a owner w (snd (Pull (ap_env a) (ap_sync a) owner preq w))"
| step_initiate: "user_step a owner w (snd (Initiate (ap_env a) (ap_uploads a) owner ireq w))"
| step_complete: "user_step a owner w (snd (Complete (ap_env a) (ap_uploads a) owner i w))"
| step_delete: "user_step a owner w (snd (Upload_Delete (ap_env a) (ap_uploads a) owner i w))"

text \<open>What a handler answers comes from its service, or is an error that the service is not asked for.\<close>

lemma reply_call_state: "reply_call ctx success c w = (rep, w') \<Longrightarrow> w' = snd (c w)"
  by (auto simp: reply_call_def reply_error_def split: prod.splits sum.splits if_splits)

lemma step_call:
  assumes "reply_call ctx success c w = (rep, w')" "user_step a owner w (snd (c w))"
  shows "user_step a owner w w'"
  using assms reply_call_state by metis

lemma step_quiet:
  assumes "reply_call ctx success c w = (rep, w')" "quiet c"
  shows "user_step a owner w w'"
  by (rule step_call [OF assms(1) step_read]) (metis assms(2) prod.collapse quiet_same)

lemma v1_handler_steps:
  assumes "v1_handler a r ctx w = (rep, w')" "UserIDFromContext ctx = Some owner"
  shows "user_step a owner w w'"
proof -
  note guards = with_user_def with_body_def with_uuid_def with_int_def with_identity_def with_blockIdentity_def reply_error_def
  show ?thesis
    using assms
    by (cases r)
      (auto simp: v1_handler_def Let_def guards Handle_Register_def Handle_List_def Handle_Revoke_def Handle_Push_def
        Handle_FullNote_def Handle_UpdatesAvailable_def Handle_Pull_def Handle_Note_def Handle_LatestSnapshot_def
        Handle_Initiate_def Handle_DownloadLinks_def Handle_Upload_def Handle_Complete_def Handle_DownloadURL_def
        Handle_Delete_def split: option.splits sum.splits
        intro: step_read elim: step_quiet [OF _ quiet_services(1)] step_quiet [OF _ quiet_services(2)]
        step_quiet [OF _ quiet_services(3)] step_quiet [OF _ quiet_services(4)] step_quiet [OF _ quiet_services(5)]
        step_quiet [OF _ quiet_services(6)] step_quiet [OF _ quiet_services(7)] step_quiet [OF _ quiet_services(8)]
        step_call [OF _ step_register] step_call [OF _ step_revoke] step_call [OF _ step_push] step_call [OF _ step_pull]
        step_call [OF _ step_initiate] step_call [OF _ step_complete] step_call [OF _ step_delete])
qed

subsection \<open>The table of devices\<close>

definition device_kept :: "uuid \<Rightarrow> SyncDevice \<Rightarrow> SyncDevice \<Rightarrow> bool" where
  "device_kept owner d d' \<longleftrightarrow> dv_ID d' = dv_ID d \<and> dv_OwnerID d' = dv_OwnerID d
     \<and> (dv_OwnerID d \<noteq> owner \<longrightarrow> d' = d) \<and> (dv_RevokedAt d \<noteq> None \<longrightarrow> dv_RevokedAt d' \<noteq> None)"

abbreviation devices :: "core \<Rightarrow> SyncDevice list" where
  "devices c \<equiv> t_sync_devices (c_db c)"

definition devices_rel :: "uuid \<Rightarrow> core \<Rightarrow> core \<Rightarrow> bool" where
  "devices_rel owner c c' \<longleftrightarrow> c' = on_devices (\<lambda>_. devices c') c
     \<and> (\<exists>olds new. devices c' = olds @ new \<and> list_all2 (device_kept owner) (devices c) olds
          \<and> list_all (\<lambda>d. dv_OwnerID d = owner) new \<and> distinct (map dv_ID new)
          \<and> list_all (\<lambda>d. device_at c (dv_ID d) = None) new)"

lemma on_devices_same: "on_devices (\<lambda>_. devices (on_devices f c)) c = on_devices f c"
  by (simp add: on_devices_def)

lemma devices_rel_update:
  assumes "\<And>d. cond d \<Longrightarrow> device_kept owner d (upd d)"
  shows "devices_rel owner c (on_devices (update_where cond upd) c)"
  unfolding devices_rel_def
  by (intro conjI exI [of _ "update_where cond upd (devices c)"] exI [of _ "[]"])
    (use assms in \<open>auto simp: on_devices_def update_where_def list_all2_map2 device_kept_def intro!: list_all2_refl\<close>)

lemma devices_rel_refl: "devices_rel owner c c"
  unfolding devices_rel_def
  by (intro conjI exI [of _ "devices c"] exI [of _ "[]"]) (auto simp: on_devices_def device_kept_def intro: list_all2_refl)

lemma device_step_kept: "device_step (device_owned device owner) d d' \<Longrightarrow> device_kept owner d d'"
  by (cases d; cases d') (auto simp: device_step_def device_kept_def device_owned_def)

lemma devices_rel_pull: "pull_rel owner device c c' \<Longrightarrow> devices_rel owner c c'"
  unfolding devices_rel_def pull_rel_def
  by (elim conjE, intro conjI exI [of _ "devices c'"] exI [of _ "[]"])
    (auto elim: list_all2_mono intro: device_step_kept)

text \<open>The state after a call whose end, or whose beginning, does not touch it.\<close>

lemma then_quiet: "bindM m f w = (r, w') \<Longrightarrow> (\<And>a. quiet (f a)) \<Longrightarrow> w_core w' = w_core (snd (m w))"
  unfolding bindM_def by (cases "m w") (auto split: sum.splits dest: quietD(1))

lemma bind_lift: "bindM (liftM g x) f = (case x of Inl e \<Rightarrow> failM (g e) | Inr a \<Rightarrow> f a)"
  by (simp add: fun_eq_iff bindM_def liftM_def failM_def returnM_def split: sum.split)

lemma devices_rel_append:
  assumes "dv_OwnerID row = owner" "device_at c (dv_ID row) = None"
  shows "devices_rel owner c (on_devices (\<lambda>rows. rows @ [row]) c)"
  unfolding devices_rel_def
  by (intro conjI exI [of _ "devices c"] exI [of _ "[row]"])
    (use assms in \<open>auto simp: on_devices_def device_kept_def intro: list_all2_refl\<close>)

lemma devices_rel_create:
  "devices_rel (dp_OwnerID arg) (w_core w) (w_core (snd (CreateDevice env arg w)))"
  by (auto simp: CreateDevice_def CreateDevice_sql_def exec_def Let_def tick_def devices_rel_refl intro!: devices_rel_append)

lemma devices_rel_register:
  assumes "Device_Register env owner req w = (r, w')"
  shows "devices_rel owner (w_core w) (w_core w')"
proof (cases "Device_FromRequest zeroDevice req")
  case (Inr m)
  show ?thesis
  proof (cases "Device_Entity m owner")
    case (Inr arg)
    have "w_core w' = w_core (snd (CreateDevice env arg w))" "dp_OwnerID arg = owner"
      using assms Inr \<open>Device_FromRequest zeroDevice req = Inr m\<close> unfolding Device_Register_def bind_lift
      by (auto simp: Device_Entity_def split: if_splits dest!: then_quiet intro: quiet_basic)
    then show ?thesis using devices_rel_create by metis
  qed (use assms Inr in \<open>simp add: Device_Register_def bind_lift failM_def devices_rel_refl\<close>)
qed (use assms in \<open>simp add: Device_Register_def bind_lift failM_def devices_rel_refl\<close>)

lemma devices_rel_RevokeDevice:
  "devices_rel owner (w_core w) (w_core (snd (RevokeDevice env device owner w)))"
proof -
  have "devices_rel owner (w_core w) (w_core (snd (RevokeDevice_sql env device owner w)))" for w
    by (auto simp: RevokeDevice_sql_def exec_def tick_def devices_rel_refl device_kept_def device_owned_def
        intro!: devices_rel_update)
  moreover have "w_core (snd (GetDeviceForOwner env device owner w)) = w_core w"
    by (metis prod.collapse quietD(1) quiet_queries(1))
  ultimately show ?thesis
    unfolding RevokeDevice_def bindM_def
    by (cases "GetDeviceForOwner env device owner w") (auto split: sum.split simp: devices_rel_refl, metis)
qed

lemma devices_rel_revoke:
  assumes "Device_Revoke env owner device w = (r, w')"
  shows "devices_rel owner (w_core w) (w_core w')"
proof -
  have "w_core w' = w_core w \<or> w_core w' = w_core (snd (RevokeDevice env device owner w))"
    using assms unfolding Device_Revoke_def catchM_def
    by (cases "RevokeDevice env device owner w") (auto simp: failM_def returnM_def split: if_splits sum.splits)
  then show ?thesis using devices_rel_RevokeDevice devices_rel_refl by metis
qed

lemma list_all2_kept_at:
  assumes "list_all2 (device_kept owner) ds ds'"
  shows "(case lookup dv_ID ds i of None \<Rightarrow> lookup dv_ID ds' i = None
    | Some d \<Rightarrow> \<exists>d'. lookup dv_ID ds' i = Some d' \<and> device_kept owner d d')"
    and "map dv_ID ds' = map dv_ID ds"
  using assms by (induction rule: list_all2_induct) (auto simp: device_kept_def split: option.splits)

lemma device_at_rel:
  assumes "devices_rel owner c c'"
  shows "case device_at c i of
     None \<Rightarrow> (\<forall>d'. device_at c' i = Some d' \<longrightarrow> dv_OwnerID d' = owner)
   | Some d \<Rightarrow> \<exists>d'. device_at c' i = Some d' \<and> device_kept owner d d'"
proof -
  obtain olds new where r: "devices c' = olds @ new" "list_all2 (device_kept owner) (devices c) olds"
      "list_all (\<lambda>d. dv_OwnerID d = owner) new"
    using assms unfolding devices_rel_def by blast
  have "lookup dv_ID (olds @ new) i = (case lookup dv_ID olds i of None \<Rightarrow> lookup dv_ID new i | Some d \<Rightarrow> Some d)"
    by (induction olds) auto
  with list_all2_kept_at(1) [OF r(2), of i] r(1,3) show ?thesis
    by (auto simp: list_all_iff split: option.splits dest!: lookup_SomeD)
qed

lemma devices_rel_tables:
  assumes "devices_rel owner c c'"
  shows "t_notes (c_db c') = t_notes (c_db c)" "t_note_blocks (c_db c') = t_note_blocks (c_db c)" "history c' = history c"
    "t_categories (c_db c') = t_categories (c_db c)" "c_change_seq c' = c_change_seq c"
    "t_note_snapshots (c_db c') = t_note_snapshots (c_db c)" "t_outbox_jobs (c_db c') = t_outbox_jobs (c_db c)"
    "c_job_seq c' = c_job_seq c" "uploads c' = uploads c" "c_upload_seq c' = c_upload_seq c"
proof -
  have c': "c' = on_devices (\<lambda>_. devices c') c" using assms by (simp add: devices_rel_def)
  show "t_notes (c_db c') = t_notes (c_db c)" "t_note_blocks (c_db c') = t_note_blocks (c_db c)" "history c' = history c"
    "t_categories (c_db c') = t_categories (c_db c)" "c_change_seq c' = c_change_seq c"
    "t_note_snapshots (c_db c') = t_note_snapshots (c_db c)" "t_outbox_jobs (c_db c') = t_outbox_jobs (c_db c)"
    "c_job_seq c' = c_job_seq c" "uploads c' = uploads c" "c_upload_seq c' = c_upload_seq c"
    by (subst c', simp add: on_devices_def)+
qed

lemma db_ok_devices:
  assumes "devices_rel owner c c'" "db_ok c"
  shows "db_ok c'"
proof -
  note tables = devices_rel_tables [OF assms(1)]
  obtain olds new where r: "devices c' = olds @ new" "list_all2 (device_kept owner) (devices c) olds"
      "distinct (map dv_ID new)" "list_all (\<lambda>d. device_at c (dv_ID d) = None) new"
    using assms(1) unfolding devices_rel_def by blast
  have "owns_device o' c i \<Longrightarrow> owns_device o' c' i" for o' i
    using device_at_rel [OF assms(1), of i] by (auto simp: owns_device_def device_kept_def)
  then have "change_ok c row \<Longrightarrow> change_ok c' row" for row
    by (auto simp: change_ok_def tables owns_def)
  then have "changes_ok c'" using assms(2) by (auto simp: db_ok_def changes_ok_def tables list_all_iff)
  moreover have "distinct (map dv_ID (devices c'))"
  proof -
    have "set (map dv_ID (devices c)) \<inter> set (map dv_ID new) = {}"
      using r(4) by (auto simp: list_all_iff lookup_None_iff) (metis image_eqI)
    then show ?thesis
      using assms(2) r(3) list_all2_kept_at(2) [OF r(2)] unfolding r(1) map_append distinct_append by (simp add: db_ok_def)
  qed
  ultimately show ?thesis
    using assms(2) by (simp add: db_ok_def notes_ok_def blocks_ok_def changes_of_def tables)
qed

subsection \<open>The rows of one user\<close>

definition own :: "('r \<Rightarrow> bool) \<Rightarrow> 'r option \<Rightarrow> 'r option" where
  "own mine x = (case x of None \<Rightarrow> None | Some r \<Rightarrow> if mine r then Some r else None)"

record tenant =
  tn_notes :: "uuid \<Rightarrow> Note option"
  tn_blocks :: "uuid \<Rightarrow> NoteBlock option"
  tn_categories :: "uuid \<Rightarrow> Category_row option"
  tn_devices :: "string \<Rightarrow> SyncDevice option"
  tn_changes :: "note_change_row list"
  tn_snapshots :: "NoteSnapshot_row list"
  tn_uploads :: "file_upload_row list"

definition tenant_view :: "uuid \<Rightarrow> core \<Rightarrow> tenant" where
  "tenant_view u c = \<lparr>
     tn_notes = (\<lambda>i. own (\<lambda>n. nt_OwnerID n = u) (note_at c i)),
     tn_blocks = (\<lambda>i. own (\<lambda>b. owns u c (bl_NoteID b)) (block_at c i)),
     tn_categories = (\<lambda>i. own (\<lambda>g. cg_OwnerID g = u) (category_at c i)),
     tn_devices = (\<lambda>i. own (\<lambda>d. dv_OwnerID d = u) (device_at c i)),
     tn_changes = filter (\<lambda>r. cr_OwnerID r = u) (history c),
     tn_snapshots = filter (\<lambda>s. sn_OwnerID s = u) (t_note_snapshots (c_db c)),
     tn_uploads = filter (\<lambda>r. ur_OwnerID r = u) (uploads c)\<rparr>"

lemma tenant_devices:
  assumes "devices_rel owner c c'" "u \<noteq> owner"
  shows "tenant_view u c' = tenant_view u c"
proof -
  have "own (\<lambda>d. dv_OwnerID d = u) (device_at c' i) = own (\<lambda>d. dv_OwnerID d = u) (device_at c i)" for i
  proof (cases "device_at c i")
    case None
    then show ?thesis using device_at_rel [OF assms(1), of i] assms(2) by (cases "device_at c' i") (simp_all add: own_def)
  next
    case (Some d)
    then obtain d' where d': "device_at c' i = Some d'" "device_kept owner d d'"
      using device_at_rel [OF assms(1), of i] by (simp, blast)
    show ?thesis
    proof (cases "dv_OwnerID d = owner")
      case True
      then have "dv_OwnerID d' = owner" using d'(2) by (simp add: device_kept_def)
      with True Some d'(1) assms(2) show ?thesis by (simp add: own_def)
    next
      case False
      then have "d' = d" using d'(2) by (simp add: device_kept_def)
      with Some d'(1) show ?thesis by simp
    qed
  qed
  then show ?thesis by (simp add: tenant_view_def devices_rel_tables [OF assms(1)] owns_def fun_eq_iff)
qed

lemma sync_owns:
  assumes "sync_step owner device c c'" "u \<noteq> owner"
  shows "owns u c' i = owns u c i"
proof -
  have "note_step owner (note_at c i) (note_at c' i)" using assms(1) by (simp add: sync_step_def)
  then show ?thesis using assms(2) by (auto simp: owns_def note_step_def split: option.splits)
qed

lemma tenant_sync:
  assumes "sync_step owner device c c'" "db_ok c" "u \<noteq> owner"
  shows "tenant_view u c' = tenant_view u c"
proof -
  have steps: "note_step owner (note_at c i) (note_at c' i)" "category_step owner (category_at c i) (category_at c' i)"
      "block_step (owns owner c) (owns owner c') (block_at c i) (block_at c' i)" for i
    using assms(1) by (simp_all add: sync_step_def)
  have "own (\<lambda>n. nt_OwnerID n = u) (note_at c' i) = own (\<lambda>n. nt_OwnerID n = u) (note_at c i)"
    "own (\<lambda>g. cg_OwnerID g = u) (category_at c' i) = own (\<lambda>g. cg_OwnerID g = u) (category_at c i)" for i
    using steps(1,2) [of i] assms(3) by (auto simp: own_def note_step_def category_step_def split: option.splits)
  moreover have "own (\<lambda>b. owns u c' (bl_NoteID b)) (block_at c' i) = own (\<lambda>b. owns u c (bl_NoteID b)) (block_at c i)" for i
  proof -
    have "\<not> owns u c' j" if "owns owner c' j" for j using that assms(3) by (auto simp: owns_def)
    moreover have "\<not> owns owner c j" if "owns u c j" for j using that assms(3) by (auto simp: owns_def)
    ultimately show ?thesis
      using steps(3) [of i] sync_owns [OF assms(1,3)] by (auto simp: own_def block_step_def split: option.splits)
  qed
  moreover have "filter (\<lambda>r. cr_OwnerID r = u) (history c') = filter (\<lambda>r. cr_OwnerID r = u) (history c)"
    using assms(1,3) by (auto simp: sync_step_def history_rel_def new_change_def list_all_iff filter_empty_conv)
  ultimately show ?thesis
    using assms(1) by (simp add: tenant_view_def sync_step_def other_rel_def fun_eq_iff)
qed

subsection \<open>Uploads of other users\<close>

definition foreign :: "uuid \<Rightarrow> core \<Rightarrow> core \<times> file_upload_row list" where
  "foreign owner c = (no_uploads c, filter (\<lambda>r. ur_OwnerID r \<noteq> owner) (uploads c))"

definition tenant_rel :: "uuid \<Rightarrow> core \<Rightarrow> core \<Rightarrow> bool" where
  "tenant_rel owner c c' \<longleftrightarrow> foreign owner c' = foreign owner c"

definition read_by :: "uuid \<Rightarrow> FileUpload list \<Rightarrow> core \<Rightarrow> bool" where
  "read_by owner us c \<longleftrightarrow> (\<forall>u \<in> set us. fu_OwnerID u = owner)"

interpretation tenant_calls: guarded_calls "tenant_rel owner" "read_by owner" for owner
  by unfold_locales (auto simp: tenant_rel_def read_by_def)

lemma tenant_quiet: "quiet m \<Longrightarrow> stays (tenant_rel owner) P m"
  by (rule tenant_calls.stays_keeps) (simp add: quiet_def)

lemma no_uploads_on: "no_uploads (on_uploads f c) = no_uploads c" "no_uploads (on_uploads f (c\<lparr>c_upload_seq := n\<rparr>)) = no_uploads c"
  "no_uploads (c\<lparr>c_upload_seq := n\<rparr>) = no_uploads c"
  by (simp_all add: no_uploads_def on_uploads_def)

lemma tenant_update:
  assumes "\<And>r. cond r \<Longrightarrow> ur_OwnerID r = owner" "\<And>r. ur_OwnerID (upd r) = ur_OwnerID r"
  shows "tenant_rel owner c (on_uploads (update_where cond upd) c)"
proof -
  have "filter (\<lambda>r. ur_OwnerID r \<noteq> owner) (update_where cond upd rows) = filter (\<lambda>r. ur_OwnerID r \<noteq> owner) rows" for rows
    using assms by (induction rows) (auto simp: update_where_def)
  then show ?thesis by (simp add: tenant_rel_def foreign_def no_uploads_on)
qed

lemma stays_tenant_update:
  assumes "\<And>r. cond r \<Longrightarrow> ur_OwnerID r = owner" "\<And>now r. ur_OwnerID (upd now r) = ur_OwnerID r"
  shows "stays (tenant_rel owner) P (update_upload env cond upd)"
  unfolding update_upload_def
  by (rule stays_exec) (use assms in \<open>auto intro!: tenant_update simp: tenant_calls.R_refl\<close>)

lemma stays_tenant_sql:
  "stays (tenant_rel owner) P (MarkFileUploadFailed_sql env i owner m)"
  "stays (tenant_rel owner) P (MarkFileUploadDeleted_sql env i owner)"
  "stays (tenant_rel owner) P (MarkFileUploadCancelled_sql env i owner)"
  "stays (tenant_rel owner) P (CompleteFileUpload_sql env i owner sz t)"
  unfolding MarkFileUploadFailed_sql_def MarkFileUploadDeleted_sql_def MarkFileUploadCancelled_sql_def
    CompleteFileUpload_sql_def Let_def
  by (rule stays_tenant_update stays_exec; auto intro: tenant_update simp: tenant_calls.R_refl)+

lemma tenant_create: "fu_OwnerID u = owner \<Longrightarrow> stays (tenant_rel owner) P (CreateFileUpload_sql env u)"
  unfolding CreateFileUpload_sql_def Let_def
  by (rule stays_exec) (auto simp: tenant_rel_def foreign_def no_uploads_on)

lemma quiet_upload_reads [quiet_rules]:
  "quiet (one_upload row)" "quiet (CountPendingFileUploads env owner)" "quiet (validateDevice env owner device)"
  unfolding one_upload_def CountPendingFileUploads_def CountPendingFileUploads_sql_def validateDevice_def
  by (intro quiet_rules)+

lemma stays_tenant_marks:
  "stays (tenant_rel owner) (read_by owner us) (MarkFileUploadFailed env i owner m')"
  "stays (tenant_rel owner) (read_by owner us) (MarkFileUploadDeleted env i owner)"
  "stays (tenant_rel owner) (read_by owner us) (MarkFileUploadCancelled env i owner)"
  "stays (tenant_rel owner) (read_by owner us) (CompleteFileUpload env i owner sz t')"
  "fu_OwnerID u = owner \<Longrightarrow> stays (tenant_rel owner) (read_by owner us) (CreateFileUpload env u)"
  unfolding MarkFileUploadFailed_def MarkFileUploadDeleted_def MarkFileUploadCancelled_def CompleteFileUpload_def
    CreateFileUpload_def
  by (intro tenant_calls.stays_bind stays_tenant_sql tenant_create tenant_quiet quiet_rules; assumption?)+

lemmas tenant_intros = stays_if stays_option tenant_calls.stays_catch tenant_calls.stays_bind stays_tenant_marks

lemma stays_tenant_parts:
  "stays (tenant_rel owner) (read_by owner us) (Complete_finish env owner i sz t)"
  "stays (tenant_rel (fu_OwnerID u)) (read_by (fu_OwnerID u) us) (rejectMetadata env md u m)"
  unfolding Complete_finish_def rejectMetadata_def Let_def
  by (intro tenant_intros; intro tenant_quiet quiet_rules)+

lemma stays_Delete_lost_tenant: "stays (tenant_rel owner) P (Delete_lost env owner i err)"
  unfolding Delete_lost_def by (intro tenant_quiet quiet_rules)

lemma stays_tenant_found:
  "stays (tenant_rel (fu_OwnerID u)) (read_by (fu_OwnerID u) us) (Complete_pending env s (fu_OwnerID u) u)"
  "stays (tenant_rel owner) (read_by owner us) (Delete_found env s owner u)"
  unfolding Complete_pending_def Delete_found_def Let_def
  by (intro tenant_intros stays_tenant_parts stays_Delete_lost_tenant; intro tenant_quiet quiet_rules)+

lemma Get_owner: "GetFileUploadForOwner env i owner w = (Inr u, w') \<Longrightarrow> fu_OwnerID u = owner"
  by (auto simp: GetFileUploadForOwner_def GetFileUploadForOwner_sql_def one_upload_def query_def exec_def bindM_def
      mapNoRows_def returnM_def failM_def fromDBFileUpload_def find_Some_iff split: if_splits option.splits)

lemma stays_tenant_read_then:
  assumes "\<And>e. quiet (h e)" "\<And>u. fu_OwnerID u = owner \<Longrightarrow> stays (tenant_rel owner) (read_by owner [u]) (f u)"
  shows "stays (tenant_rel owner) (read_by owner us) (catchM (GetFileUploadForOwner env i owner) h f)"
proof (rule tenant_calls.stays_learn [where g = "\<lambda>u. [u]"])
  show "stays (tenant_rel owner) (read_by owner [u]) (f u)" for u
  proof (cases "fu_OwnerID u = owner")
    case False
    then show ?thesis by (simp add: stays_def read_by_def)
  qed (rule assms(2))
qed (auto intro: tenant_quiet quiet_rules assms(1) simp: read_by_def dest: Get_owner)

lemma stays_tenant_requests:
  "stays (tenant_rel owner) (read_by owner us) (Initiate env s owner request)"
  "stays (tenant_rel owner) (read_by owner us) (Complete env s owner i)"
  "stays (tenant_rel owner) (read_by owner us) (Upload_Delete env s owner i)"
proof -
  have "fu_OwnerID (pendingUpload env s owner request i' now) = owner" for i' now
    by (simp add: pendingUpload_def Let_def)
  then show "stays (tenant_rel owner) (read_by owner us) (Initiate env s owner request)"
    unfolding Initiate_def Let_def by (intro tenant_intros; (simp; fail)?; intro tenant_quiet quiet_rules)
  show "stays (tenant_rel owner) (read_by owner us) (Complete env s owner i)"
    unfolding Complete_def
    by (intro stays_tenant_read_then tenant_intros)
      (auto intro: stays_tenant_found tenant_quiet quiet_rules)
  show "stays (tenant_rel owner) (read_by owner us) (Upload_Delete env s owner i)"
    unfolding Upload_Delete_def
    by (intro stays_tenant_read_then tenant_intros stays_tenant_found; intro tenant_quiet quiet_rules)
qed

lemma no_uploads_tables:
  assumes "no_uploads c' = no_uploads c"
  shows "c' = on_uploads (\<lambda>_. uploads c') (c\<lparr>c_upload_seq := c_upload_seq c'\<rparr>)"
  using assms by (cases c; cases c'; cases "c_db c"; cases "c_db c'") (simp add: no_uploads_def on_uploads_def)

lemma no_uploads_fields:
  assumes "no_uploads c' = no_uploads c"
  shows "t_notes (c_db c') = t_notes (c_db c)" "t_note_blocks (c_db c') = t_note_blocks (c_db c)" "history c' = history c"
    "t_categories (c_db c') = t_categories (c_db c)" "devices c' = devices c"
    "t_note_snapshots (c_db c') = t_note_snapshots (c_db c)" "t_outbox_jobs (c_db c') = t_outbox_jobs (c_db c)"
    "c_job_seq c' = c_job_seq c" "c_change_seq c' = c_change_seq c"
  by (subst no_uploads_tables [OF assms], simp add: on_uploads_def)+

lemma no_uploads_ok:
  assumes "no_uploads c' = no_uploads c"
  shows "db_ok c' = db_ok c" "jobs_ok c' = jobs_ok c"
  by (simp_all add: db_ok_def notes_ok_def blocks_ok_def changes_ok_def change_ok_def [abs_def] changes_of_def
      owns_def owns_device_def jobs_ok_def no_uploads_fields [OF assms])

lemma tenant_uploads:
  assumes "tenant_rel owner c c'" "u \<noteq> owner"
  shows "tenant_view u c' = tenant_view u c"
proof -
  have same: "no_uploads c' = no_uploads c" and
    rest: "filter (\<lambda>r. ur_OwnerID r \<noteq> owner) (uploads c') = filter (\<lambda>r. ur_OwnerID r \<noteq> owner) (uploads c)"
    using assms(1) by (simp_all add: tenant_rel_def foreign_def)
  have "filter (\<lambda>r. ur_OwnerID r = u) rows = filter (\<lambda>r. ur_OwnerID r = u) (filter (\<lambda>r. ur_OwnerID r \<noteq> owner) rows)" for rows
    using assms(2) by (induction rows) auto
  with rest have "filter (\<lambda>r. ur_OwnerID r = u) (uploads c') = filter (\<lambda>r. ur_OwnerID r = u) (uploads c)" by metis
  then show ?thesis by (simp add: tenant_view_def no_uploads_fields [OF same] owns_def)
qed

subsection \<open>The invariant of the server\<close>

definition serving :: "media \<Rightarrow> world \<Rightarrow> bool" where
  "serving md w \<longleftrightarrow> idle w \<and> distinct (map ur_ID (uploads (w_core w))) \<and> list_all (upload_ok md) (uploads (w_core w))"

text \<open>
  What every step of the server, of whichever component, keeps of the tables: the history grows at its
  end, devices stay registered for their user and stay revoked, uploads stay declared as they were.
\<close>

definition server_rel :: "media \<Rightarrow> core \<Rightarrow> core \<Rightarrow> bool" where
  "server_rel md c c' \<longleftrightarrow> (\<exists>new. history c' = history c @ new)
     \<and> (\<forall>i d. device_at c i = Some d \<longrightarrow> (\<exists>d'. device_at c' i = Some d' \<and> dv_OwnerID d' = dv_OwnerID d
          \<and> (dv_RevokedAt d \<noteq> None \<longrightarrow> dv_RevokedAt d' \<noteq> None)))
     \<and> (\<forall>r \<in> set (uploads c). \<exists>r' \<in> set (uploads c'). row_step md r r')"

lemma server_rel_same:
  "history c' = history c \<Longrightarrow> devices c' = devices c \<Longrightarrow> uploads c' = uploads c \<Longrightarrow> server_rel md c c'"
  by (auto simp: server_rel_def intro: row_step_refl)

lemma server_rel_refl: "server_rel md c c"
  by (rule server_rel_same) simp_all

lemma server_rel_trans: "server_rel md a b \<Longrightarrow> server_rel md b c \<Longrightarrow> server_rel md a c"
proof -
  assume ab: "server_rel md a b" and bc: "server_rel md b c"
  have "\<exists>new. history c = history a @ new"
    using ab bc by (auto simp: server_rel_def)
  moreover have "\<exists>d''. device_at c i = Some d'' \<and> dv_OwnerID d'' = dv_OwnerID d
      \<and> (dv_RevokedAt d \<noteq> None \<longrightarrow> dv_RevokedAt d'' \<noteq> None)" if d: "device_at a i = Some d" for i d
  proof -
    obtain d' where d': "device_at b i = Some d'" "dv_OwnerID d' = dv_OwnerID d"
        "dv_RevokedAt d \<noteq> None \<longrightarrow> dv_RevokedAt d' \<noteq> None"
      using ab d unfolding server_rel_def by blast
    moreover obtain d'' where "device_at c i = Some d''" "dv_OwnerID d'' = dv_OwnerID d'"
        "dv_RevokedAt d' \<noteq> None \<longrightarrow> dv_RevokedAt d'' \<noteq> None"
      using bc d'(1) unfolding server_rel_def by blast
    ultimately show ?thesis by (intro exI [of _ d'']) simp
  qed
  moreover have "\<exists>r'' \<in> set (uploads c). row_step md r r''" if "r \<in> set (uploads a)" for r
    using ab bc that unfolding server_rel_def by (meson row_step_trans)
  ultimately show "server_rel md a c" unfolding server_rel_def by blast
qed

lemma server_rel_devices:
  assumes "devices_rel owner c c'"
  shows "server_rel md c c'"
  unfolding server_rel_def
proof (intro conjI allI impI)
  fix i d assume "device_at c i = Some d"
  then show "\<exists>d'. device_at c' i = Some d' \<and> dv_OwnerID d' = dv_OwnerID d \<and> (dv_RevokedAt d \<noteq> None \<longrightarrow> dv_RevokedAt d' \<noteq> None)"
    using device_at_rel [OF assms, of i] by (simp add: device_kept_def) blast
qed (auto simp: devices_rel_tables [OF assms] intro: row_step_refl)

lemma server_rel_uploads:
  assumes "uploads_rel md c c'"
  shows "server_rel md c c'"
proof -
  have same: "no_uploads c' = no_uploads c" using assms by (simp add: uploads_rel_def)
  obtain olds new where "uploads c' = olds @ new" "list_all2 (row_step md) (uploads c) olds"
    using assms unfolding uploads_rel_def by blast
  then have "\<exists>r' \<in> set (uploads c'). row_step md r r'" if "r \<in> set (uploads c)" for r
    using that by (metis Un_iff in_set_conv_nth list_all2_conv_all_nth set_append)
  then show ?thesis by (auto simp: server_rel_def no_uploads_fields [OF same])
qed

lemma serving_uploads:
  assumes "uploads_rel md (w_core w) (w_core w')" "serving md w" "w_in_tx w' = w_in_tx w"
  shows "serving md w'"
proof -
  have same: "no_uploads (w_core w') = no_uploads (w_core w)" using assms(1) by (simp add: uploads_rel_def)
  obtain olds new where r: "uploads (w_core w') = olds @ new" "list_all2 (row_step md) (uploads (w_core w)) olds"
      "list_all (new_upload md (c_upload_seq (w_core w)) (c_upload_seq (w_core w'))) new"
    using assms(1) unfolding uploads_rel_def by blast
  have "list_all (upload_ok md) olds"
    using r(2) assms(2) unfolding serving_def
    by (metis (no_types, lifting) list_all2_conv_all_nth list_all_length row_step_def)
  moreover have "known [] (w_core w')"
    using known_closed [OF _ assms(1), of "[]"] assms(2) by (simp add: serving_def known_def)
  ultimately show ?thesis
    using assms(2,3) r(1,3) no_uploads_ok [OF same]
    by (auto simp: serving_def idle_def known_def list_all_iff new_upload_def)
qed

lemma serving_devices:
  assumes "devices_rel owner (w_core w) (w_core w')" "serving md w" "w_in_tx w' = w_in_tx w"
  shows "serving md w'"
  using assms db_ok_devices [OF assms(1)]
  by (simp add: serving_def idle_def jobs_ok_def devices_rel_tables [OF assms(1)])

lemma serving_push:
  assumes "serving md w" "Sync env sv owner req w = (r, w')"
  shows "serving md w' \<and> server_rel md (w_core w) (w_core w') \<and> sync_step owner (rq_DeviceID req) (w_core w) (w_core w')"
proof -
  have i: "idle w" using assms(1) by (simp add: serving_def)
  then have step: "sync_step owner (rq_DeviceID req) (w_core w) (w_core w')"
    using Sync_rel [OF _ _ assms(2)] by (simp add: idle_def sync_rel_def)
  then have same: "devices (w_core w') = devices (w_core w)" "uploads (w_core w') = uploads (w_core w)"
    by (simp_all add: sync_step_def other_rel_def)
  have "server_rel md (w_core w) (w_core w')"
    using step by (auto simp: server_rel_def same sync_step_def history_rel_def intro: row_step_refl)
  with step same show ?thesis using push_idle [OF i assms(2)] assms(1) by (simp add: serving_def)
qed

lemma stable_storage_call [stable_rules]: "tx_stable (storage_call f)"
  by (simp add: tx_stable_def storage_call_def tick_def)

lemma stable_upload_requests:
  "tx_stable (Initiate env s owner request)" "tx_stable (Complete env s owner i)" "tx_stable (Upload_Delete env s owner i)"
proof -
  note defs = update_upload_def one_upload_def checked_def validateDevice_def GetDeviceForOwner_def GetDeviceForOwner_sql_def
    ValidateUploadTarget_def GetNoteForOwner_def GetNoteForOwner_sql_def GetBlockForNoteForUpdate_def
    GetBlockForNoteForUpdate_sql_def CountPendingFileUploads_def CountPendingFileUploads_sql_def CreateFileUpload_def
    CreateFileUpload_sql_def GetFileUploadForOwner_def GetFileUploadForOwner_sql_def MarkFileUploadFailed_def
    MarkFileUploadFailed_sql_def MarkFileUploadDeleted_def MarkFileUploadDeleted_sql_def MarkFileUploadCancelled_def
    MarkFileUploadCancelled_sql_def CompleteFileUpload_def CompleteFileUpload_sql_def rejectMetadata_def
    Complete_finish_def Complete_pending_def Delete_lost_def Delete_found_def Let_def
  show "tx_stable (Initiate env s owner request)" "tx_stable (Complete env s owner i)" "tx_stable (Upload_Delete env s owner i)"
    unfolding Initiate_def Complete_def Upload_Delete_def defs
    by (intro stable_rules)+
qed

lemma stable_device_requests:
  "tx_stable (Device_Register env owner req)" "tx_stable (Device_Revoke env owner device)" "tx_stable (Pull env sv owner preq)"
  unfolding Device_Register_def CreateDevice_def CreateDevice_sql_def Device_Revoke_def RevokeDevice_def RevokeDevice_sql_def
    GetDeviceForOwner_def GetDeviceForOwner_sql_def Pull_def pullTx_def GetChangesAfterCursor_def GetChangesAfterCursor_sql_def
    UpdateDeviceCursor_def UpdateDeviceCursor_sql_def
  by (intro stable_rules)+

lemma Sync_tick:
  assumes "Sync env sv owner req w = (r, w')"
  shows "w_tick w \<le> w_tick w'"
proof -
  have "ticks (publishCommittedSyncAvailable env sv owner device cursor)" for device cursor
    by (simp add: ticks_def publishCommittedSyncAvailable_def)
  moreover have "ticks (WithTx env (syncTx env sv owner req))"
    using WithTx_tick [OF stable_syncTx] unfolding ticks_def by (metis prod.collapse)
  ultimately have "ticks (Sync env sv owner req)"
    unfolding Sync_def by (auto intro!: ticks_rules split: option.split prod.split)
  then show ?thesis using assms by (rule ticksD)
qed

lemma user_step_tick: "user_step a owner w w' \<Longrightarrow> w_tick w \<le> w_tick w'"
  by (induction rule: user_step.induct)
    (auto simp: same_state_def intro: tx_stable_tick [OF _ prod.collapse [symmetric]] stable_device_requests
      stable_upload_requests Sync_tick [OF prod.collapse [symmetric]])

text \<open>One step of a user: the invariant, the relation of the server, and the rows of everyone else.\<close>

lemma user_step_device:
  assumes "devices_rel owner (w_core w) (w_core w')" "serving md w" "w_in_tx w' = w_in_tx w"
  shows "serving md w' \<and> server_rel md (w_core w) (w_core w') \<and> (\<forall>u. u \<noteq> owner \<longrightarrow> tenant_view u (w_core w') = tenant_view u (w_core w))"
  using serving_devices [OF assms] server_rel_devices [OF assms(1)] tenant_devices [OF assms(1)] by blast

lemma user_step_upload:
  assumes "stays (uploads_rel md) (known []) m" "stays (tenant_rel owner) (read_by owner []) m" "tx_stable m"
    and "serving md w" "m w = (r, w')"
  shows "serving md w' \<and> server_rel md (w_core w) (w_core w') \<and> (\<forall>u. u \<noteq> owner \<longrightarrow> tenant_view u (w_core w') = tenant_view u (w_core w))"
proof -
  have rel: "uploads_rel md (w_core w) (w_core w')"
    by (rule staysD [OF assms(1) _ assms(5)]) (use assms(4) in \<open>simp add: serving_def known_def\<close>)
  have "tenant_rel owner (w_core w) (w_core w')"
    by (rule staysD [OF assms(2) _ assms(5)]) (simp add: read_by_def)
  then show ?thesis
    using serving_uploads [OF rel assms(4) stable_out [OF assms(3,5)]] server_rel_uploads [OF rel] tenant_uploads by blast
qed

lemma user_step_serving:
  assumes "user_step a owner w w'" "serving (us_media (ap_uploads a)) w" "media_ok (us_media (ap_uploads a))" "limit_ok (ap_sync a)"
  shows "serving (us_media (ap_uploads a)) w' \<and> server_rel (us_media (ap_uploads a)) (w_core w) (w_core w')
    \<and> (\<forall>u. u \<noteq> owner \<longrightarrow> tenant_view u (w_core w') = tenant_view u (w_core w))"
  using assms
proof (induction rule: user_step.induct)
  case (step_read w w')
  then show ?case by (simp add: same_state_def serving_def idle_def server_rel_refl)
next
  case (step_register w rreq)
  then show ?case
    by (intro user_step_device devices_rel_register [OF prod.collapse [symmetric]]
        stable_out [OF stable_device_requests(1) prod.collapse [symmetric]])
next
  case (step_revoke w device)
  then show ?case
    by (intro user_step_device devices_rel_revoke [OF prod.collapse [symmetric]]
        stable_out [OF stable_device_requests(2) prod.collapse [symmetric]])
next
  case (step_push w sreq)
  note p = serving_push [OF step_push(1) prod.collapse [symmetric]]
  show ?case using p tenant_sync step_push(1) unfolding serving_def idle_def by blast
next
  case (step_pull w preq)
  have "pull_rel owner (pr_DeviceID preq) (w_core w) (w_core (snd (Pull (ap_env a) (ap_sync a) owner preq w)))"
    using Pull_cases [OF _ _ step_pull(3) prod.collapse [symmetric]] step_pull(1) by (simp add: serving_def idle_def)
  then show ?case
    by (intro user_step_device devices_rel_pull stable_out [OF stable_device_requests(3) prod.collapse [symmetric]] step_pull(1))
next
  case (step_initiate w ireq)
  then show ?case
    by (intro user_step_upload [OF stays_Initiate stays_tenant_requests(1) stable_upload_requests(1) _ prod.collapse [symmetric]])
next
  case (step_complete w i)
  then show ?case
    by (intro user_step_upload [OF stays_Complete stays_tenant_requests(2) stable_upload_requests(2) _ prod.collapse [symmetric]])
next
  case (step_delete w i)
  then show ?case
    by (intro user_step_upload [OF stays_Upload_Delete stays_tenant_requests(3) stable_upload_requests(3) _ prod.collapse [symmetric]])
qed

subsection \<open>The worker and the cleaner\<close>

definition preserves :: "(world \<Rightarrow> bool) \<Rightarrow> 'a call \<Rightarrow> bool" where
  "preserves P m \<longleftrightarrow> (\<forall>w. P w \<longrightarrow> P (snd (m w)))"

lemma preservesI: "(\<And>w r w'. P w \<Longrightarrow> m w = (r, w') \<Longrightarrow> P w') \<Longrightarrow> preserves P m"
  unfolding preserves_def by (metis prod.collapse)

lemma preserves_catch:
  assumes "preserves P m" "\<And>e. preserves P (h e)" "\<And>a. preserves P (f a)"
  shows "preserves P (catchM m h f)"
  unfolding preserves_def
proof (intro allI impI)
  fix w assume "P w"
  then have "P (snd (m w))" using assms(1) by (simp add: preserves_def)
  then show "P (snd (catchM m h f w))"
    using assms(2,3) unfolding catchM_def by (cases "m w") (auto simp: preserves_def split: sum.split)
qed

lemma preserves_if: "preserves P m \<Longrightarrow> preserves P m' \<Longrightarrow> preserves P (if b then m else m')"
  by simp

lemma preserves_return: "preserves P (returnM a)"
  by (simp add: preserves_def returnM_def)

definition on_duty :: "media \<Rightarrow> core \<Rightarrow> world \<Rightarrow> bool" where
  "on_duty md c w \<longleftrightarrow> serving md w \<and> server_rel md c (w_core w)"

lemma on_duty_step:
  assumes "on_duty md c w" "idle w'" "history (w_core w') = history (w_core w)" "devices (w_core w') = devices (w_core w)"
    "uploads (w_core w') = uploads (w_core w)"
  shows "on_duty md c w'"
proof -
  have "server_rel md (w_core w) (w_core w')" using assms(3-5) by (rule server_rel_same)
  then show ?thesis
    using assms server_rel_trans unfolding on_duty_def serving_def by simp blast
qed

lemma no_jobs_fields:
  assumes "no_jobs c' = no_jobs c"
  shows "history c' = history c" "devices c' = devices c" "uploads c' = uploads c"
  by (subst no_jobs_eq(1) [OF assms], simp add: on_jobs_def)+

lemma duty_queue:
  "preserves (on_duty md c) (ClaimOutboxJob env worker timeout)" "preserves (on_duty md c) (CompleteOutboxJob env k)"
  "preserves (on_duty md c) (FailOutboxJob env k message delay)"
  by (rule preservesI, rule on_duty_step, assumption, rule queue_idle;
      (simp add: on_duty_def serving_def)?; (rule no_jobs_fields keepsD [OF keeps_queue(1)] keepsD [OF keeps_queue(2)]
        keepsD [OF keeps_queue(3)])+; assumption?)+

lemma duty_process: "preserves (on_duty md c) (processJob env jc job)"
proof (rule preservesI)
  fix w r w' assume w: "on_duty md c w" and run: "processJob env jc job w = (r, w')"
  have same: "no_snapshots (w_core w') = no_snapshots (w_core w)" by (rule keepsD [OF keeps_processJob run])
  have "uploads (w_core w') = uploads (w_core w)" by (subst no_snapshots_eq(4) [OF same]) (simp add: on_snapshots_def)
  then show "on_duty md c w'"
    using w process_idle [OF _ run] no_snapshots_fields [OF same] by (intro on_duty_step [OF w]) (auto simp: on_duty_def serving_def)
qed

lemma duty_ProcessOnce: "preserves (on_duty md c) (ProcessOnce env jc wk)"
  unfolding ProcessOnce_def
  by (intro preserves_catch preserves_if preserves_return duty_queue duty_process)

lemma stable_reconcile: "tx_stable (reconcile env c first_err u)"
  unfolding reconcile_def Let_def MarkFileUploadExpired_def MarkFileUploadExpired_sql_def update_upload_def one_upload_def
    CompleteFileUpload_def CompleteFileUpload_sql_def
  by (intro stable_rules)

lemma stable_RunOnce: "tx_stable (RunOnce env c)"
proof -
  have "tx_stable (RunOnce_loop env c us first_err)" for us first_err
    by (induction us arbitrary: first_err) (auto intro!: stable_rules stable_reconcile)
  then show ?thesis
    unfolding RunOnce_def ListExpiredFileUploads_def ListExpiredFileUploads_sql_def checked_def by (intro stable_rules)
qed

lemma duty_upload:
  assumes "stays (uploads_rel md) (known []) m" "tx_stable m"
  shows "preserves (on_duty md c) m"
proof (rule preservesI)
  fix w r w' assume w: "on_duty md c w" and run: "m w = (r, w')"
  have rel: "uploads_rel md (w_core w) (w_core w')"
    by (rule staysD [OF assms(1) _ run]) (use w in \<open>simp add: on_duty_def serving_def known_def\<close>)
  show "on_duty md c w'"
    using w serving_uploads [OF rel _ stable_out [OF assms(2) run]] server_rel_trans [OF _ server_rel_uploads [OF rel]]
    by (simp add: on_duty_def)
qed

lemma preserves_bind: "preserves P m \<Longrightarrow> (\<And>a. preserves P (f a)) \<Longrightarrow> preserves P (bindM m f)"
  unfolding bind_catch by (intro preserves_catch) (auto simp: preserves_def failM_def)

lemma duty_quiet: "quiet m \<Longrightarrow> preserves (on_duty md c) m"
proof (rule preservesI)
  fix w r w' assume "quiet m" "on_duty md c w" "m w = (r, w')"
  then show "on_duty md c w'"
    using quietD(1,2) [of m w r w'] by (simp add: on_duty_def serving_def idle_def)
qed

lemma duty_maybeCleanup:
  assumes "\<And>cl. cleaner = Some cl \<Longrightarrow> cl_media cl = md"
  shows "preserves (on_duty md c) (maybeCleanup env cleaner lastCleanup)"
proof (cases cleaner)
  case (Some cl)
  have "preserves (on_duty md c) (RunOnce env cl)"
    using duty_upload [OF stays_RunOnce stable_RunOnce] assms [OF Some] by metis
  then show ?thesis
    unfolding maybeCleanup_def Some option.case
    by (intro preserves_bind preserves_catch preserves_if; assumption?; intro duty_quiet quiet_rules)
qed (simp add: maybeCleanup_def preserves_return)

lemma stable_background:
  "tx_stable (ProcessOnce env jc wk)" "tx_stable (maybeCleanup env cleaner lastCleanup)"
  unfolding ProcessOnce_def maybeCleanup_def
  by (intro stable_rules stable_queue stable_RunOnce)+

lemma duty_user:
  assumes "user_step a owner w w'" "on_duty (us_media (ap_uploads a)) c w" "media_ok (us_media (ap_uploads a))" "limit_ok (ap_sync a)"
  shows "on_duty (us_media (ap_uploads a)) c w'"
  using user_step_serving [OF assms(1) _ assms(3,4)] assms(2) server_rel_trans unfolding on_duty_def by blast

end
