(* ===== verification/Server_Request.thy ===== *)
theory Server_Request
  imports Server_Inv
begin

section \<open>A request, from the router to the reply\<close>

text \<open>
  The middleware around the handlers taken apart: what a request does to the state of the server, and
  as which user; and what becomes of requests for a device that has been revoked.
\<close>

subsection \<open>A request to the server\<close>

text \<open>The state in which the router sees the request, after the request identifier was chosen.\<close>

definition entered :: "http_request \<Rightarrow> server \<Rightarrow> server" where
  "entered req s = (if hq_XRequestId req = [] then s\<lparr>sr_world := tick (sr_world s)\<rparr> else s)"

definition request_context :: "api \<Rightarrow> http_request \<Rightarrow> server \<Rightarrow> http_context" where
  "request_context a req s = WithRequestID Background
     (if hq_XRequestId req = [] then c_format_uuid (e_codec (ap_env a)) (e_uuid (ap_env a) (w_tick (sr_world s)))
      else hq_XRequestId req)"

definition final_reply :: "http_context \<Rightarrow> bool \<Rightarrow> reply \<Rightarrow> reply" where
  "final_reply ctx expired r = (if expired then Plain 503 TimeoutMessage
     else case r of Panicked \<Rightarrow> Error (WriteError (RequestIDFromContext ctx) (ErrApi Internal)) | _ \<Rightarrow> r)"

lemma buildRouter_eq:
  "buildRouter a req s =
     (case route_endpoint a (hq_Authorization req) (hq_route req) (request_context a req s) (entered req s) of
        (r, s') \<Rightarrow> ((RequestIDFromContext (request_context a req s),
                     final_reply (request_context a req s) (ap_expired a (w_tick (sr_world s))) r), s'))"
proof -
  have id: "RequestIDFromContext (WithRequestID ctx i) = i" for ctx i
    by (simp add: RequestIDFromContext_def WithRequestID_def)
  show ?thesis
    by (auto simp: buildRouter_def RequestID_def Recovery_def Timeout_def RateLimit_def AllowAllLimiter_def Let_def id
        entered_def request_context_def final_reply_def split: prod.split reply.split)
qed

lemma same_state_tick [simp]: "same_state w (tick w)"
  by (simp add: same_state_def tick_def)

lemma same_state_trans: "same_state a b \<Longrightarrow> same_state b c \<Longrightarrow> same_state a c"
  by (simp add: same_state_def)

lemma entered_same: "same_state (sr_world s) (sr_world (entered req s))" "sr_keys (entered req s) = sr_keys s"
  by (simp_all add: entered_def)

lemma entered_tick: "same_state (sr_world s) (tick (sr_world (entered req s)))"
  using entered_same(1) same_state_tick by (rule same_state_trans)

text \<open>A request changes the tables only as a step of the user that its token names.\<close>

lemma buildRouter_cases:
  assumes "buildRouter a req s = ((i, rep), s')"
  obtains (public) "\<forall>r. hq_route req \<noteq> V1 r" "same_state (sr_world s) (sr_world s')" "sr_keys s' = sr_keys s"
  | (refused) r where "hq_route req = V1 r"
      "Auth_Middleware (ap_verifier a) (w_tick (sr_world (entered req s))) (hq_Authorization req) (sr_keys s) = (None, sr_keys s')"
      "same_state (sr_world s) (sr_world s')" "w_tick (sr_world (entered req s)) \<le> w_tick (sr_world s')"
      "rep = final_reply (request_context a req s) (ap_expired a (w_tick (sr_world s)))
         (Error (WriteError (RequestIDFromContext (request_context a req s)) Unauthorized))"
  | (admitted) r claims w1 rep' where "hq_route req = V1 r"
      "Auth_Middleware (ap_verifier a) (w_tick (sr_world (entered req s))) (hq_Authorization req) (sr_keys s) = (Some claims, sr_keys s')"
      "same_state (sr_world s) w1" "w_tick (sr_world (entered req s)) \<le> w_tick w1"
      "v1_handler a r (WithClaims (request_context a req s) claims) w1 = (rep', sr_world s')"
      "rep = final_reply (request_context a req s) (ap_expired a (w_tick (sr_world s))) rep'"
proof (cases "hq_route req")
  case (V1 r)
  let ?auth = "Auth_Middleware (ap_verifier a) (w_tick (sr_world (entered req s))) (hq_Authorization req) (sr_keys s)"
  obtain claims c where auth: "?auth = (claims, c)" by (cases ?auth)
  show thesis
  proof (cases claims)
    case None
    show thesis
      by (rule refused [OF V1]) (use assms auth None entered_tick in \<open>auto simp: buildRouter_eq route_endpoint_def V1 RequireAuth_def entered_same(2)\<close>)
  next
    case (Some cl)
    let ?run = "v1_handler a r (WithClaims (request_context a req s) cl) (tick (sr_world (entered req s)))"
    obtain rep' w' where run: "?run = (rep', w')" by (cases ?run)
    show thesis
      by (rule admitted [OF V1 _ entered_tick, where claims = cl and rep' = rep'])
        (use assms auth Some run in \<open>auto simp: buildRouter_eq route_endpoint_def V1 RequireAuth_def on_world_def entered_same(2)\<close>)
  qed
next
  case GET_health
  show thesis
    by (rule public) (use assms GET_health entered_same in \<open>auto simp: buildRouter_eq route_endpoint_def on_world_def Handle_health_def\<close>)
next
  case GET_ready
  show thesis
    by (rule public)
      (use assms GET_ready entered_same(2) entered_tick in \<open>auto simp: buildRouter_eq route_endpoint_def on_world_def
         Handle_ready_def Ping_def reply_error_def split: if_splits\<close>)
qed

subsection \<open>Revoked devices\<close>

definition device_gone :: "core \<Rightarrow> string \<Rightarrow> bool" where
  "device_gone c i \<longleftrightarrow> (\<exists>d. device_at c i = Some d \<and> dv_RevokedAt d \<noteq> None)"

lemma gone_rel: "device_gone c i \<Longrightarrow> server_rel md c c' \<Longrightarrow> device_gone c' i"
  unfolding device_gone_def server_rel_def by blast

lemma gone_find:
  "db_ok c \<Longrightarrow> device_gone c i \<Longrightarrow> find (device_owned i owner) (devices c) = Some d \<Longrightarrow> dv_RevokedAt d \<noteq> None"
  by (auto simp: find_device device_gone_def split: option.splits if_splits)

lemma gone_active:
  assumes "db_ok c" "device_gone c i"
  shows "\<not> active_device c i owner"
proof
  assume "active_device c i owner"
  then obtain d where d: "d \<in> set (devices c)" "dv_ID d = i" "dv_RevokedAt d = None"
    unfolding active_device_def device_owned_def by blast
  have "device_at c (dv_ID d) = Some d" using assms(1) d(1) by (simp add: db_ok_def lookup_distinct)
  with assms(2) d(2,3) show False by (simp add: device_gone_def)
qed

text \<open>A call that fails and leaves the tables alone.\<close>

definition refuses :: "'a call \<Rightarrow> world \<Rightarrow> bool" where
  "refuses m w \<longleftrightarrow> isl (fst (m w)) \<and> w_db (snd (m w)) = w_db w"

lemma refuses_bind:
  assumes "refuses m w"
  shows "refuses (bindM m f) w"
  using assms by (cases "m w") (auto simp: refuses_def bindM_def split: sum.splits)

lemma refuses_fail: "refuses (failM e) w"
  by (simp add: refuses_def failM_def)

lemma refuses_checked_bind: "(c = None \<Longrightarrow> refuses (f ()) w) \<Longrightarrow> refuses (bindM (checked c) f) w"
  by (cases c) (simp_all add: refuses_fail)

lemma refuses_validateDevice:
  assumes "db_ok (w_core w)" "device_gone (w_core w) device"
  shows "refuses (validateDevice env owner device) w"
proof -
  obtain r w' where run: "validateDevice env owner device w = (r, w')" by (cases "validateDevice env owner device w")
  have "isl r"
  proof (cases r)
    case (Inr u)
    then show ?thesis using validateDevice_Inr(2) [OF run [unfolded Inr]] gone_active [OF assms] by blast
  qed simp
  then show ?thesis using run quietD(1) [OF quiet_upload_reads(3) run] by (simp add: refuses_def)
qed

lemma refuses_read_device:
  assumes "db_ok (w_core w)" "device_gone (w_core w) device" "\<And>e. quiet (h e)" "\<And>e w. isl (fst (h e w))"
  shows "refuses (catchM (GetDeviceForOwner env device owner) h
    (\<lambda>d. if dv_RevokedAt d \<noteq> None then failM err else m d)) w"
proof -
  obtain r w1 where run: "GetDeviceForOwner env device owner w = (r, w1)" by (cases "GetDeviceForOwner env device owner w")
  have core: "w_core w1 = w_core w" by (rule quietD(1) [OF quiet_queries(1) run])
  show ?thesis
  proof (cases r)
    case (Inl e)
    have "w_core (snd (h e w1)) = w_core w1" using quietD(1) [OF assms(3)] by (metis prod.collapse)
    then show ?thesis using Inl run core assms(4) [of e w1] by (simp add: refuses_def catchM_def)
  next
    case (Inr d)
    then have "dv_RevokedAt d \<noteq> None"
      using run assms(1,2) GetDeviceForOwner_Inr(2) [of env device owner w d w1] by (auto simp: device_gone_def)
    then show ?thesis using Inr run core by (simp add: refuses_def catchM_def failM_def)
  qed
qed

lemma refuses_lockDevice:
  assumes "db_ok (w_core w)" "device_gone (w_core w) device"
  shows "refuses (lockDevice env device owner) w"
proof -
  obtain r w' where run: "lockDevice env device owner w = (r, w')" by (cases "lockDevice env device owner w")
  have "isl r"
  proof (cases r)
    case (Inr d)
    then show ?thesis using lockDevice_Inr(2,3) [of env device owner w d w'] run gone_find [OF assms] by auto
  qed simp
  then show ?thesis using run lockDevice_Inl(1) [of env device owner w _ w'] by (cases r) (auto simp: refuses_def)
qed

lemma refuses_WithTx:
  assumes "\<And>w1. w_core w1 = w_core w \<Longrightarrow> refuses fn w1" "\<not> w_in_tx w"
  shows "refuses (WithTx env fn) w"
proof -
  obtain r w' where run: "WithTx env fn w = (r, w')" by (cases "WithTx env fn w")
  show ?thesis
    using run assms(2)
  proof (cases rule: WithTx_cases)
    case (2 w1 r2 w2)
    have "isl r2" "w_db w2 = w_db w"
      using assms(1) [OF 2(2)] 2(1,2) by (simp_all add: refuses_def)
    then show ?thesis using run 2(5,7) by (auto simp: refuses_def isl_def)
  qed (use run in \<open>simp add: refuses_def\<close>)
qed

lemma refuses_services:
  assumes "idle w"
  shows "device_gone (w_core w) (rq_DeviceID sreq) \<Longrightarrow> refuses (Sync env sv owner sreq) w"
    "device_gone (w_core w) (pr_DeviceID preq) \<Longrightarrow> refuses (Pull env sv owner preq) w"
    "device_gone (w_core w) (ua_DeviceID ureq) \<Longrightarrow> refuses (UpdatesAvailable env owner ureq) w"
    "device_gone (w_core w) (fr_DeviceID freq) \<Longrightarrow> refuses (SyncFullNote env sv owner freq) w"
    "device_gone (w_core w) (ir_DeviceID ireq) \<Longrightarrow> refuses (Initiate env us owner ireq) w"
    "device_gone (w_core w) device \<Longrightarrow> refuses (DownloadURLs env us owner device cursor) w"
proof -
  have ok: "db_ok (w_core w)" "\<not> w_in_tx w" using assms by (simp_all add: idle_def)
  show "refuses (Sync env sv owner sreq) w" if "device_gone (w_core w) (rq_DeviceID sreq)"
  proof -
    have "\<exists>e. fst (Sync env sv owner sreq w) = Inl e \<and> w_db (snd (Sync env sv owner sreq w)) = w_db w
        \<and> w_events (snd (Sync env sv owner sreq w)) = w_events w"
      by (rule Sync_refused [OF ok prod.collapse [symmetric]]) (use that in \<open>auto simp: device_gone_def\<close>)
    then show ?thesis by (auto simp: refuses_def)
  qed
  show "refuses (Pull env sv owner preq) w" if "device_gone (w_core w) (pr_DeviceID preq)"
  proof (cases "PullRequest_Validate preq")
    case None
    have "refuses (pullTx env sv owner preq) w1" if "w_core w1 = w_core w" for w1
      unfolding pullTx_def
      by (rule refuses_bind [OF refuses_lockDevice]) (use that ok \<open>device_gone (w_core w) (pr_DeviceID preq)\<close> in simp_all)
    then show ?thesis using None ok(2) by (simp add: Pull_def refuses_WithTx)
  qed (simp add: Pull_def refuses_fail)
  show "refuses (UpdatesAvailable env owner ureq) w" if "device_gone (w_core w) (ua_DeviceID ureq)"
  proof (cases "UpdatesAvailableRequest_Validate ureq")
    case None
    show ?thesis
      unfolding UpdatesAvailable_def None option.case
      by (intro refuses_read_device ok that) (auto simp: failM_def intro!: quiet_rules)
  qed (simp add: UpdatesAvailable_def refuses_fail)
  show "refuses (SyncFullNote env sv owner freq) w" if "device_gone (w_core w) (fr_DeviceID freq)"
  proof -
    have "refuses (catchM (GetDeviceForOwner env (fr_DeviceID freq) owner)
        (\<lambda>err. if err = ErrNotFound then failM DeviceForbidden else failM err)
        (\<lambda>d. if dv_RevokedAt d \<noteq> None then failM DeviceRevoked else fullNotes env owner (fr_NoteIDs freq))) w"
      by (intro refuses_read_device ok that) (auto simp: failM_def intro!: quiet_rules)
    then show ?thesis by (simp add: SyncFullNote_def refuses_fail)
  qed
  show "refuses (Initiate env us owner ireq) w" if "device_gone (w_core w) (ir_DeviceID ireq)"
    unfolding Initiate_def
    by (intro refuses_checked_bind refuses_bind refuses_validateDevice ok that)
  show "refuses (DownloadURLs env us owner device cursor) w" if "device_gone (w_core w) device"
    unfolding DownloadURLs_def
    by (intro refuses_checked_bind refuses_bind [OF refuses_validateDevice] ok that)
qed

text \<open>The device that a request speaks for.\<close>

fun device_of :: "v1_route \<Rightarrow> string option" where
  "device_of (POST_sync b) = (case DecodeBody b of Inr req \<Rightarrow> Some (rq_DeviceID req) | Inl _ \<Rightarrow> None)"
| "device_of (POST_syncFullNote b) = (case DecodeBody b of Inr req \<Rightarrow> Some (fr_DeviceID req) | Inl _ \<Rightarrow> None)"
| "device_of (GET_sync_updates_available q) = Some (query_get q RequestKeyDeviceID)"
| "device_of (GET_sync q) = Some (query_get q RequestKeyDeviceID)"
| "device_of (POST_uploads_initiate b) = (case DecodeBody b of Inr req \<Rightarrow> Some (ir_DeviceID req) | Inl _ \<Rightarrow> None)"
| "device_of (GET_uploads_download_links q) = Some (query_get q RequestKeyDeviceID)"
| "device_of _ = None"

definition unsuccessful :: "reply \<Rightarrow> bool" where
  "unsuccessful r \<longleftrightarrow> (case r of Json _ _ \<Rightarrow> False | NoContent \<Rightarrow> False | _ \<Rightarrow> True)"

lemma unsuccessful_call: "reply_call ctx success c w = (rep, w') \<Longrightarrow> refuses c w \<Longrightarrow> unsuccessful rep \<and> w_db w' = w_db w"
  by (cases "c w") (auto simp: refuses_def reply_call_def reply_error_def unsuccessful_def split: sum.splits if_splits)

lemma unsuccessful_error: "reply_error ctx err w = (rep, w') \<Longrightarrow> unsuccessful rep \<and> w_db w' = w_db w"
  by (auto simp: reply_error_def unsuccessful_def)

lemma unsuccessful_final: "unsuccessful r \<Longrightarrow> unsuccessful (final_reply ctx expired r)"
  by (auto simp: unsuccessful_def final_reply_def split: reply.splits)

lemma gone_unserved:
  assumes "v1_handler a r ctx w = (rep, w')" "idle w" "device_of r = Some device" "device_gone (w_core w) device"
  shows "unsuccessful rep \<and> w_db w' = w_db w"
proof -
  note refused = unsuccessful_call [OF _ refuses_services(1) [OF assms(2)]] unsuccessful_call [OF _ refuses_services(2) [OF assms(2)]]
    unsuccessful_call [OF _ refuses_services(3) [OF assms(2)]] unsuccessful_call [OF _ refuses_services(4) [OF assms(2)]]
    unsuccessful_call [OF _ refuses_services(5) [OF assms(2)]] unsuccessful_call [OF _ refuses_services(6) [OF assms(2)]]
  show ?thesis
    using assms(1,3,4)
    by (cases r)
      (auto simp: v1_handler_def Let_def Handle_Push_def Handle_FullNote_def Handle_UpdatesAvailable_def Handle_Pull_def
        Handle_Initiate_def Handle_DownloadLinks_def with_user_def with_body_def with_int_def
        split: option.splits sum.splits dest!: unsuccessful_error refused)
qed

lemma Revoke_gone:
  assumes "Device_Revoke env owner device w = (Inr u, w')" "db_ok (w_core w)"
  shows "device_gone (w_core w') device"
proof -
  let ?cond = "\<lambda>r. device_owned device owner r \<and> dv_RevokedAt r = None"
  let ?upd = "\<lambda>now r. r\<lparr>dv_RevokedAt := Some now, dv_LastSeenAt := now\<rparr>"
  obtain u' where rev: "RevokeDevice env device owner w = (Inr u', w')"
    using assms(1) unfolding Device_Revoke_def catchM_def
    by (cases "RevokeDevice env device owner w") (auto simp: failM_def returnM_def split: if_splits sum.splits)
  then obtain d w1 where get: "GetDeviceForOwner env device owner w = (Inr d, w1)"
      and sql: "RevokeDevice_sql env device owner w1 = (Inr u', w')"
    unfolding RevokeDevice_def by (auto elim: bind_InrE)
  note d = GetDeviceForOwner_Inr [OF get assms(2)]
  obtain now where "w_core w' = on_devices (update_where ?cond (?upd now)) (w_core w)"
    using sql d(1) by (auto simp: RevokeDevice_sql_def exec_def split: if_splits)
  then have "device_at (w_core w') device = map_option (\<lambda>r. if ?cond r then ?upd now r else r) (device_at (w_core w) device)"
    using keyed_update.lookup_update [of dv_ID "?upd now"] by (simp add: keyed_update_def on_devices_def)
  then show ?thesis using d(2,3) lookup_SomeD [OF d(2)] by (auto simp: device_gone_def device_owned_def)
qed

end
