(* ===== verification/Config.thy ===== *)
theory Config
  imports Pull_Properties Upload_Service
begin

section \<open>Configuration\<close>

text \<open>
  \<open>internal/config\<close>, and the services that are built from it. The process environment is a function
  from names to values, with the empty string for a name that is not set; the file \<open>.env\<close> is given by
  its lines, or is missing. The Unicode tables behind \<open>strings.ToLower\<close> are a parameter.
\<close>

type_synonym environ = "string \<Rightarrow> string"

record Config =
  cf_AppEnv :: string
  cf_Port :: string
  cf_WebSocketPort :: string
  cf_LogLevel :: string
  cf_DatabaseURL :: string
  cf_MaxDBConnections :: int
  cf_JWTIssuer :: string
  cf_JWTAudience :: string
  cf_JWTJWKSURL :: string
  cf_SyncMaxOperations :: int
  cf_SyncDefaultPullLimit :: int
  cf_SyncMaxPullLimit :: int
  cf_SnapshotChangeThreshold :: int
  cf_SnapshotByteThreshold :: int
  cf_ChangeRetentionDays :: int
  cf_RequestTimeout :: int
  cf_MaxCompressedRequestBytes :: int
  cf_MaxDecompressedRequestBytes :: int
  cf_SupabaseURL :: string
  cf_SupabaseSecretKey :: string
  cf_SupabaseStorageBucket :: string
  cf_SupabaseStorageMaxFileSize :: int
  cf_SupabaseStorageAllowedMimeTypes :: "string list"
  cf_SupabaseStorageMaxPendingUploads :: int
  cf_SupabaseStorageUploadTTL :: int
  cf_SupabaseStorageDownloadTTL :: int
  cf_SupabaseStorageCleanupGrace :: int
  cf_SupabaseStorageHTTPTimeout :: int

subsection \<open>Reading the environment\<close>

definition get_env :: "environ \<Rightarrow> string \<Rightarrow> string \<Rightarrow> string" where
  "get_env e key fallback = (let value = TrimSpace (e key) in if value \<noteq> [] then value else fallback)"

definition getInt :: "environ \<Rightarrow> string \<Rightarrow> int \<Rightarrow> int" where
  "getInt e key fallback = (let value = TrimSpace (e key) in
     if value = [] then fallback else case ParseInt value of None \<Rightarrow> fallback | Some parsed \<Rightarrow> parsed)"

text \<open>\<open>strings.Split(s, ",")\<close>: one part more than there are separators.\<close>

fun split_at :: "char \<Rightarrow> string \<Rightarrow> string list" where
  "split_at sep [] = [[]]"
| "split_at sep (c # s) = (if c = sep then [] # split_at sep s
     else case split_at sep s of [] \<Rightarrow> [[c]] | part # parts \<Rightarrow> (c # part) # parts)"

definition getCSV :: "(string \<Rightarrow> string) \<Rightarrow> environ \<Rightarrow> string \<Rightarrow> string \<Rightarrow> string list" where
  "getCSV lowercase e key fallback =
     filter (\<lambda>part. part \<noteq> []) (map (\<lambda>part. lowercase (TrimSpace part)) (split_at (CHR '','') (get_env e key fallback)))"

text \<open>\<open>strings.Trim(s, cutset)\<close> for a cutset of one character, and \<open>strings.Cut(s, "=")\<close>.\<close>

definition trim_char :: "char \<Rightarrow> string \<Rightarrow> string" where
  "trim_char c s = rev (dropWhile (\<lambda>x. x = c) (rev (dropWhile (\<lambda>x. x = c) s)))"

definition cut_at :: "char \<Rightarrow> string \<Rightarrow> (string \<times> string) option" where
  "cut_at sep s = (case dropWhile (\<lambda>c. c \<noteq> sep) s of
     [] \<Rightarrow> None | _ # rest \<Rightarrow> Some (takeWhile (\<lambda>c. c \<noteq> sep) s, rest))"

text \<open>\<open>os.Setenv\<close> fails on an empty name and on NUL characters; the failure is ignored.\<close>

definition Setenv :: "environ \<Rightarrow> string \<Rightarrow> string \<Rightarrow> environ" where
  "Setenv e key value = (if key = [] \<or> char_of (0 :: nat) \<in> set (key @ value) then e else e(key := value))"

definition loadDotEnv_line :: "environ \<Rightarrow> string \<Rightarrow> environ" where
  "loadDotEnv_line e raw = (let line = TrimSpace raw in
     if line = [] \<or> hd line = CHR ''#'' then e
     else case cut_at (CHR ''='') line of
       None \<Rightarrow> e
     | Some (k, v) \<Rightarrow>
         let key = TrimSpace k;
             value = trim_char (char_of (39 :: nat)) (trim_char (char_of (34 :: nat)) (TrimSpace v)) in
         if key \<noteq> [] then Setenv e key value else e)"

definition loadDotEnv :: "string list option \<Rightarrow> environ \<Rightarrow> environ" where
  "loadDotEnv file e = (case file of None \<Rightarrow> e | Some lines \<Rightarrow> foldl loadDotEnv_line e lines)"

subsection \<open>Validation\<close>

text \<open>The missing variables are listed in the order of a map iteration, which Go leaves open.\<close>

datatype config_error = Missing "string set" | Invalid string

definition required :: "Config \<Rightarrow> (string \<times> string) list" where
  "required c = [(''DATABASE_URL'', cf_DatabaseURL c), (''JWT_ISSUER'', cf_JWTIssuer c), (''JWT_AUDIENCE'', cf_JWTAudience c),
     (''JWT_JWKS_URL'', cf_JWTJWKSURL c), (''SUPABASE_URL'', cf_SupabaseURL c),
     (''SUPABASE_SECRET_KEY'', cf_SupabaseSecretKey c), (''SUPABASE_STORAGE_BUCKET'', cf_SupabaseStorageBucket c)]"

definition Config_Validate :: "Config \<Rightarrow> config_error option" where
  "Config_Validate c =
     (let missing = map fst (filter (\<lambda>(key, value). TrimSpace value = []) (required c)) in
      if missing \<noteq> [] then Some (Missing (set missing))
      else if cf_MaxDBConnections c < 1 then Some (Invalid ''MAX_DB_CONNECTIONS must be greater than zero'')
      else if cf_SyncMaxOperations c < 1 then Some (Invalid ''SYNC_MAX_OPERATIONS must be greater than zero'')
      else if cf_SyncDefaultPullLimit c < 1 \<or> cf_SyncMaxPullLimit c < cf_SyncDefaultPullLimit c
      then Some (Invalid ''sync pull limits are invalid'')
      else if cf_RequestTimeout c \<le> 0 then Some (Invalid ''REQUEST_TIMEOUT_SECONDS must be greater than zero'')
      else if cf_MaxCompressedRequestBytes c \<le> 0 \<or> cf_MaxDecompressedRequestBytes c \<le> 0
      then Some (Invalid ''request byte limits must be greater than zero'')
      else if cf_SupabaseStorageMaxFileSize c \<le> 0
      then Some (Invalid ''SUPABASE_STORAGE_MAX_FILE_SIZE must be greater than zero'')
      else if CHR ''/'' \<in> set (cf_SupabaseStorageBucket c) \<or> CHR 0x5C \<in> set (cf_SupabaseStorageBucket c)
      then Some (Invalid ''SUPABASE_STORAGE_BUCKET must be a single bucket name'')
      else if cf_SupabaseStorageAllowedMimeTypes c = []
      then Some (Invalid ''SUPABASE_STORAGE_ALLOWED_MIME_TYPES must contain at least one MIME type'')
      else if cf_SupabaseStorageMaxPendingUploads c \<le> 0
      then Some (Invalid ''SUPABASE_STORAGE_MAX_PENDING_UPLOADS must be greater than zero'')
      else if cf_SupabaseStorageUploadTTL c \<le> 0 \<or> cf_SupabaseStorageUploadTTL c > 7200 * second
      then Some (Invalid ''SUPABASE_STORAGE_UPLOAD_TTL_SECONDS must be between 1 and 7200'')
      else if cf_SupabaseStorageDownloadTTL c \<le> 0
      then Some (Invalid ''SUPABASE_STORAGE_DOWNLOAD_TTL_SECONDS must be greater than zero'')
      else if cf_SupabaseStorageCleanupGrace c \<le> 0 \<or> cf_SupabaseStorageHTTPTimeout c \<le> 0
      then Some (Invalid ''Supabase cleanup grace and HTTP timeout must be greater than zero'')
      else None)"

text \<open>\<open>time.Duration(n) * time.Second\<close> wraps.\<close>

definition seconds :: "int \<Rightarrow> int" where
  "seconds n = int64 (n * second)"

definition read_config :: "(string \<Rightarrow> string) \<Rightarrow> environ \<Rightarrow> Config" where
  "read_config lowercase e = \<lparr>
     cf_AppEnv = get_env e ''APP_ENV'' ''development'',
     cf_Port = get_env e ''PORT'' ''8080'',
     cf_WebSocketPort = get_env e ''WEBSOCKET_PORT'' ''8082'',
     cf_LogLevel = get_env e ''LOG_LEVEL'' ''info'',
     cf_DatabaseURL = e ''DATABASE_URL'',
     cf_MaxDBConnections = int32 (getInt e ''MAX_DB_CONNECTIONS'' 10),
     cf_JWTIssuer = e ''JWT_ISSUER'',
     cf_JWTAudience = e ''JWT_AUDIENCE'',
     cf_JWTJWKSURL = e ''JWT_JWKS_URL'',
     cf_SyncMaxOperations = getInt e ''SYNC_MAX_OPERATIONS'' 500,
     cf_SyncDefaultPullLimit = getInt e ''SYNC_DEFAULT_PULL_LIMIT'' 500,
     cf_SyncMaxPullLimit = getInt e ''SYNC_MAX_PULL_LIMIT'' 1000,
     cf_SnapshotChangeThreshold = getInt e ''SNAPSHOT_CHANGE_THRESHOLD'' 100,
     cf_SnapshotByteThreshold = getInt e ''SNAPSHOT_BYTE_THRESHOLD'' 524288,
     cf_ChangeRetentionDays = getInt e ''CHANGE_RETENTION_DAYS'' 30,
     cf_RequestTimeout = seconds (getInt e ''REQUEST_TIMEOUT_SECONDS'' 30),
     cf_MaxCompressedRequestBytes = getInt e ''MAX_COMPRESSED_REQUEST_BYTES'' (2 * 1024 * 1024),
     cf_MaxDecompressedRequestBytes = getInt e ''MAX_DECOMPRESSED_REQUEST_BYTES'' (10 * 1024 * 1024),
     cf_SupabaseURL = e ''SUPABASE_URL'',
     cf_SupabaseSecretKey = e ''SUPABASE_SECRET_KEY'',
     cf_SupabaseStorageBucket = get_env e ''SUPABASE_STORAGE_BUCKET'' ''documents'',
     cf_SupabaseStorageMaxFileSize = getInt e ''SUPABASE_STORAGE_MAX_FILE_SIZE'' (10 * 1024 * 1024),
     cf_SupabaseStorageAllowedMimeTypes =
       getCSV lowercase e ''SUPABASE_STORAGE_ALLOWED_MIME_TYPES'' ''application/pdf,image/jpeg,image/png'',
     cf_SupabaseStorageMaxPendingUploads = getInt e ''SUPABASE_STORAGE_MAX_PENDING_UPLOADS'' 20,
     cf_SupabaseStorageUploadTTL = seconds (getInt e ''SUPABASE_STORAGE_UPLOAD_TTL_SECONDS'' 7200),
     cf_SupabaseStorageDownloadTTL = seconds (getInt e ''SUPABASE_STORAGE_DOWNLOAD_TTL_SECONDS'' 600),
     cf_SupabaseStorageCleanupGrace = seconds (getInt e ''SUPABASE_STORAGE_CLEANUP_GRACE_SECONDS'' 3600),
     cf_SupabaseStorageHTTPTimeout = seconds (getInt e ''SUPABASE_STORAGE_HTTP_TIMEOUT_SECONDS'' 15)\<rparr>"

definition Load :: "(string \<Rightarrow> string) \<Rightarrow> string list option \<Rightarrow> environ \<Rightarrow> config_error + Config" where
  "Load lowercase file e = (let cfg = read_config lowercase (loadDotEnv file e) in
     case Config_Validate cfg of Some err \<Rightarrow> Inl err | None \<Rightarrow> Inr cfg)"

subsection \<open>The services (\<open>NewService\<close>, \<open>NewCleaner\<close>)\<close>

definition Sync_NewService :: "Config \<Rightarrow> bool \<Rightarrow> Service" where
  "Sync_NewService cfg bus = \<lparr>sv_maxOperations = cf_SyncMaxOperations cfg,
     sv_defaultPullLimit = int32 (cf_SyncDefaultPullLimit cfg), sv_maxPullLimit = int32 (cf_SyncMaxPullLimit cfg),
     sv_snapshotChangeThreshold = cf_SnapshotChangeThreshold cfg, sv_snapshotByteThreshold = cf_SnapshotByteThreshold cfg,
     sv_hasEventBus = bus\<rparr>"

definition Upload_NewService :: "storage \<Rightarrow> media \<Rightarrow> Config \<Rightarrow> UploadService" where
  "Upload_NewService st md cfg = \<lparr>us_storage = st, us_media = md, us_bucket = cf_SupabaseStorageBucket cfg,
     us_maxFileSize = cf_SupabaseStorageMaxFileSize cfg, us_allowedMIMETypes = cf_SupabaseStorageAllowedMimeTypes cfg,
     us_uploadTTL = cf_SupabaseStorageUploadTTL cfg, us_downloadTTL = cf_SupabaseStorageDownloadTTL cfg,
     us_maxPending = cf_SupabaseStorageMaxPendingUploads cfg\<rparr>"

definition NewCleaner :: "storage \<Rightarrow> media \<Rightarrow> int \<Rightarrow> Cleaner" where
  "NewCleaner st md grace = \<lparr>cl_storage = st, cl_media = md, cl_grace = grace\<rparr>"

subsection \<open>What an accepted configuration gives\<close>

lemma getCSV_nonempty: "[] \<notin> set (getCSV lowercase e key fallback)"
  by (simp add: getCSV_def)

lemma Load_Inr:
  assumes "Load lowercase file e = Inr cfg"
  shows "cfg = read_config lowercase (loadDotEnv file e)" "Config_Validate cfg = None"
  using assms by (auto simp: Load_def Let_def split: option.splits)

lemma int32_negative: "2 ^ 31 \<le> x \<Longrightarrow> x < 2 ^ 32 \<Longrightarrow> int32 x < 0"
proof -
  assume x: "2 ^ 31 \<le> x" "x < 2 ^ 32"
  have "(x + 2 ^ 31) mod 2 ^ 32 = (x - 2 ^ 31 + 2 ^ 32) mod 2 ^ 32" by (simp add: add.commute)
  also have "\<dots> = (x - 2 ^ 31) mod 2 ^ 32" by (rule mod_add_self2)
  also have "\<dots> = x - 2 ^ 31" using x by (intro mod_pos_pos_trivial) simp_all
  finally show ?thesis using x(2) by (simp add: int32_def)
qed

lemma pullLimit_accepted:
  assumes "Config_Validate cfg = None" "cf_SyncMaxPullLimit cfg < max_int32"
  shows "pullLimit (Sync_NewService cfg bus) = cf_SyncDefaultPullLimit cfg" "0 < cf_SyncDefaultPullLimit cfg"
proof -
  have b: "0 < cf_SyncDefaultPullLimit cfg" "cf_SyncDefaultPullLimit cfg \<le> cf_SyncMaxPullLimit cfg"
    using assms(1) by (auto simp: Config_Validate_def Let_def split: if_splits)
  with assms(2) show "pullLimit (Sync_NewService cfg bus) = cf_SyncDefaultPullLimit cfg" "0 < cf_SyncDefaultPullLimit cfg"
    by (simp_all add: pullLimit_def Sync_NewService_def)
qed

text \<open>
  A configuration that is accepted gives the services the limits they rely on: a positive number
  of operations per request, positive sizes and counts for uploads, a bucket that is a single path
  segment, a non-empty list of media types without empty entries, lifetimes that are positive and, for
  uploads, at most two hours. The page size of pulls is positive and in the range that pulls need as
  long as the configured maximum is less than \<open>2 ^ 31 - 1\<close>; but the check does not see that the limits
  become \<open>int32\<close>: a default limit from \<open>2 ^ 31\<close> up to \<open>2 ^ 32\<close> is accepted and makes the page
  size negative.
\<close>

lemma Load_limits:
  assumes "Load lowercase file e = Inr cfg"
  shows "0 < sv_maxOperations (Sync_NewService cfg bus)
    \<and> 0 < us_maxFileSize (Upload_NewService st md cfg) \<and> 0 < us_maxPending (Upload_NewService st md cfg)
    \<and> 0 < us_uploadTTL (Upload_NewService st md cfg) \<and> us_uploadTTL (Upload_NewService st md cfg) \<le> 7200 * second
    \<and> 0 < us_downloadTTL (Upload_NewService st md cfg)
    \<and> us_bucket (Upload_NewService st md cfg) \<noteq> [] \<and> CHR ''/'' \<notin> set (us_bucket (Upload_NewService st md cfg))
    \<and> us_allowedMIMETypes (Upload_NewService st md cfg) \<noteq> [] \<and> [] \<notin> set (us_allowedMIMETypes (Upload_NewService st md cfg))
    \<and> 0 < cl_grace (NewCleaner st md (cf_SupabaseStorageCleanupGrace cfg))
    \<and> (cf_SyncMaxPullLimit cfg < max_int32 \<longrightarrow>
         limit_ok (Sync_NewService cfg bus) \<and> 0 < pullLimit (Sync_NewService cfg bus))
    \<and> (2 ^ 31 \<le> cf_SyncDefaultPullLimit cfg \<and> cf_SyncDefaultPullLimit cfg < 2 ^ 32 \<longrightarrow>
         pullLimit (Sync_NewService cfg bus) < 0)"
proof -
  have cfg: "cfg = read_config lowercase (loadDotEnv file e)" and valid: "Config_Validate cfg = None"
    by (rule Load_Inr [OF assms])+
  have "TrimSpace (cf_SupabaseStorageBucket cfg) \<noteq> []"
    using valid by (auto simp: Config_Validate_def Let_def required_def split: if_splits)
  then have "cf_SupabaseStorageBucket cfg \<noteq> []" by (auto simp: TrimSpace_def)
  moreover have "[] \<notin> set (cf_SupabaseStorageAllowedMimeTypes cfg)"
    unfolding cfg by (simp add: read_config_def getCSV_nonempty)
  moreover have "limit_ok (Sync_NewService cfg bus) \<and> 0 < pullLimit (Sync_NewService cfg bus)"
    if "cf_SyncMaxPullLimit cfg < max_int32"
  proof -
    have "cf_SyncDefaultPullLimit cfg \<le> cf_SyncMaxPullLimit cfg"
      using valid by (auto simp: Config_Validate_def Let_def split: if_splits)
    then show ?thesis using pullLimit_accepted [OF valid that] that by (simp add: limit_ok_def)
  qed
  moreover have "pullLimit (Sync_NewService cfg bus) < 0"
    if "2 ^ 31 \<le> cf_SyncDefaultPullLimit cfg" "cf_SyncDefaultPullLimit cfg < 2 ^ 32"
    using int32_negative [OF that] by (simp add: pullLimit_def Sync_NewService_def)
  moreover have "0 < cf_SyncMaxOperations cfg" "0 < cf_SupabaseStorageMaxFileSize cfg" "0 < cf_SupabaseStorageMaxPendingUploads cfg"
    "0 < cf_SupabaseStorageUploadTTL cfg" "cf_SupabaseStorageUploadTTL cfg \<le> 7200 * second"
    "0 < cf_SupabaseStorageDownloadTTL cfg" "CHR ''/'' \<notin> set (cf_SupabaseStorageBucket cfg)"
    "cf_SupabaseStorageAllowedMimeTypes cfg \<noteq> []" "0 < cf_SupabaseStorageCleanupGrace cfg"
    using valid by (auto simp: Config_Validate_def Let_def split: if_splits)
  ultimately show ?thesis
    by (simp add: Sync_NewService_def [of cfg bus, THEN arg_cong, of sv_maxOperations] Upload_NewService_def NewCleaner_def)
qed

text \<open>An environment with the required variables.\<close>

definition demo_environ :: environ where
  "demo_environ key = (if key \<in> {''DATABASE_URL'', ''JWT_ISSUER'', ''JWT_AUDIENCE'', ''JWT_JWKS_URL'', ''SUPABASE_URL'',
     ''SUPABASE_SECRET_KEY''} then ''x'' else [])"

lemma returns_Inr:
  assumes "case r of Inl _ \<Rightarrow> False | Inr a \<Rightarrow> P a"
  obtains a where "r = Inr a" "P a"
  using assms by (cases r) auto

end
