(* ===== verification/Storage_Client.thy ===== *)
theory Storage_Client
  imports Config
begin

section \<open>The object storage client\<close>

text \<open>
  \<open>internal/storage/supabase.go\<close>: the requests to the storage service, the classification of its
  answers, and the values that the upload service gets from them. Outside are the HTTP transport, which
  gives for each tick of the model's clock the answer to a request, and the URL parser of \<open>net/url\<close>.
  The client provides the interface \<open>storage\<close> that the upload service and the cleaner call. The errors
  \<open>ErrUpstream\<close> and \<open>ErrInvalidResponse\<close>, which no caller tells apart, are \<open>ErrStorageUpstream\<close>.
\<close>

record url =
  ul_Scheme :: string
  ul_Host :: string
  ul_hasUser :: bool
  ul_Path :: string
  ul_RawQuery :: string
  ul_Fragment :: string

record urls =
  u_Parse :: "string \<Rightarrow> url option"
  u_String :: "url \<Rightarrow> string"
  u_ResolveReference :: "url \<Rightarrow> url \<Rightarrow> url"
  u_Query :: "url \<Rightarrow> string \<Rightarrow> string"
  u_EqualFold :: "string \<Rightarrow> string \<Rightarrow> bool"

text \<open>
  A request that cannot be built, one without an answer, or a status with the body as far as it
  decodes (within the limit of one megabyte).
\<close>

datatype http_answer = Unsent string | Unanswered | Answered nat "json option"

type_synonym transport = "nat \<Rightarrow> string \<Rightarrow> string \<Rightarrow> (string \<times> string) list \<Rightarrow> json option \<Rightarrow> http_answer"

record StorageClient =
  sc_baseURL :: url
  sc_secretKey :: string
  sc_timeout :: int

definition TrimRight_slash :: "string \<Rightarrow> string" where
  "TrimRight_slash s = rev (dropWhile (\<lambda>c. c = CHR ''/'') (rev s))"

definition Storage_NewClient :: "urls \<Rightarrow> string \<Rightarrow> string \<Rightarrow> int \<Rightarrow> string + StorageClient" where
  "Storage_NewClient U projectURL secretKey timeout =
     (if TrimSpace projectURL = [] \<or> TrimSpace secretKey = [] then Inl ''Supabase URL and secret key are required''
      else if timeout \<le> 0 then Inl ''storage HTTP timeout must be greater than zero''
      else case u_Parse U (TrimRight_slash (TrimSpace projectURL)) of
        None \<Rightarrow> Inl ''Supabase URL must be an absolute URL without credentials or query parameters''
      | Some base \<Rightarrow>
          if ul_Scheme base = [] \<or> ul_Host base = [] \<or> ul_hasUser base \<or> ul_RawQuery base \<noteq> [] \<or> ul_Fragment base \<noteq> []
          then Inl ''Supabase URL must be an absolute URL without credentials or query parameters''
          else Inr \<lparr>sc_baseURL = (if HasSuffix (TrimRight_slash (ul_Path base)) ''/storage/v1'' then base
                 else base\<lparr>ul_Path := TrimRight_slash (ul_Path base) @ ''/storage/v1''\<rparr>),
               sc_secretKey = secretKey, sc_timeout = timeout\<rparr>)"

subsection \<open>Addresses of objects\<close>

text \<open>\<open>url.PathEscape\<close>: what may stay in a path segment, and percent encoding for the rest.\<close>

definition segment_char :: "char \<Rightarrow> bool" where
  "segment_char c \<longleftrightarrow> (let b = byte c in within 65 90 b \<or> within 97 122 b \<or> within 48 57 b
     \<or> b \<in> {45, 95, 46, 126} \<or> b \<in> {36, 38, 43, 61, 58, 64})"

definition hex_digit :: "nat \<Rightarrow> char" where
  "hex_digit n = char_of (if n < 10 then 48 + n else 55 + n)"

definition escape_char :: "char \<Rightarrow> string" where
  "escape_char c = (if segment_char c then [c]
     else [CHR ''%'', hex_digit (byte c div 16), hex_digit (byte c mod 16)])"

definition PathEscape :: "string \<Rightarrow> string" where
  "PathEscape s = concat (map escape_char s)"

fun join_slash :: "string list \<Rightarrow> string" where
  "join_slash [] = []"
| "join_slash [s] = s"
| "join_slash (s # t # ss) = s @ ''/'' @ join_slash (t # ss)"

abbreviation (input) "InvalidObjectPath \<equiv> ''invalid storage object path''"

definition escapeObjectPath :: "string \<Rightarrow> string + string" where
  "escapeObjectPath objectPath =
     (if objectPath = [] \<or> CHR 0x5C \<in> set objectPath \<or> HasPrefix objectPath ''/'' \<or> HasSuffix objectPath ''/''
      then Inl InvalidObjectPath
      else let segments = split_at (CHR ''/'') objectPath in
        if list_ex (\<lambda>s. s \<in> {[], ''.'', ''..''}) segments then Inl InvalidObjectPath
        else Inr (join_slash (map PathEscape segments)))"

definition objectURL :: "urls \<Rightarrow> StorageClient \<Rightarrow> string \<Rightarrow> string \<Rightarrow> string \<Rightarrow> string + string" where
  "objectURL U c pre bucket objectPath =
     (if TrimSpace bucket = [] \<or> CHR ''/'' \<in> set bucket \<or> CHR 0x5C \<in> set bucket then Inl ''invalid storage bucket''
      else case escapeObjectPath objectPath of
        Inl e \<Rightarrow> Inl e
      | Inr escapedPath \<Rightarrow>
          Inr (TrimRight_slash (u_String U (sc_baseURL c)) @ pre @ ''/'' @ PathEscape bucket @ ''/'' @ escapedPath))"

subsection \<open>Requests\<close>

definition request_headers :: "StorageClient \<Rightarrow> bool \<Rightarrow> (string \<times> string) list" where
  "request_headers c hasBody = [(''apikey'', sc_secretKey c), (''Authorization'', ''Bearer '' @ sc_secretKey c)]
     @ (if hasBody then [(''Content-Type'', ''application/json'')] else [])"

text \<open>
  \<open>doJSON\<close> with \<open>expectedStatus\<close> 200, as all callers have it: the decoded body when the caller wants
  a result. The decoder of the caller's type may refuse the body.
\<close>

definition doJSON :: "transport \<Rightarrow> StorageClient \<Rightarrow> nat \<Rightarrow> string \<Rightarrow> string \<Rightarrow> json option \<Rightarrow> (json \<Rightarrow> 'a option) option \<Rightarrow>
    go_error + 'a option" where
  "doJSON T c t meth target body result =
     (case T t meth target (request_headers c (body \<noteq> None)) body of
        Unsent err \<Rightarrow> Inl (ErrText err)
      | Unanswered \<Rightarrow> Inl ErrStorageUnavailable
      | Answered status answer \<Rightarrow>
          if \<not> (status = 200 \<or> result = None \<and> status = 204)
          then (if status = 404 then Inl ErrStorageNotFound
                else if status = 408 \<or> status = 429 \<or> status \<ge> 500 then Inl ErrStorageUnavailable
                else Inl ErrStorageUpstream)
          else (case result of
            None \<Rightarrow> Inr None
          | Some decode \<Rightarrow> (case Option.bind answer decode of
              None \<Rightarrow> Inl ErrStorageUpstream
            | Some a \<Rightarrow> Inr (Some a))))"

text \<open>
  Decoding into the anonymous structs: members are stored by name, up to case, in the order of the
  document; \<open>null\<close> leaves a string alone, another type is an error.
\<close>

fun string_member :: "string \<Rightarrow> string \<Rightarrow> (string \<times> json) list \<Rightarrow> string option" where
  "string_member name v [] = Some v"
| "string_member name v ((k, x) # kvs) =
     (if fold_name k = fold_name name
      then (case x of JStr s \<Rightarrow> string_member name s kvs | JNull \<Rightarrow> string_member name v kvs | _ \<Rightarrow> None)
      else string_member name v kvs)"

fun raw_member :: "string \<Rightarrow> json option \<Rightarrow> (string \<times> json) list \<Rightarrow> json option" where
  "raw_member name v [] = v"
| "raw_member name v ((k, x) # kvs) = raw_member name (if fold_name k = fold_name name then Some x else v) kvs"

fun map_member :: "string \<Rightarrow> (string \<rightharpoonup> json) option \<Rightarrow> (string \<times> json) list \<Rightarrow> (string \<rightharpoonup> json) option option" where
  "map_member name v [] = Some v"
| "map_member name v ((k, x) # kvs) =
     (if fold_name k = fold_name name
      then (case x of
          JObj ms \<Rightarrow> map_member name (Some ((case v of None \<Rightarrow> Map.empty | Some m \<Rightarrow> m) ++ map_of (rev ms))) kvs
        | JNull \<Rightarrow> map_member name None kvs
        | _ \<Rightarrow> None)
      else map_member name v kvs)"

fun object_members :: "json \<Rightarrow> (string \<times> json) list option" where
  "object_members (JObj kvs) = Some kvs"
| "object_members JNull = Some []"
| "object_members _ = None"

definition decode_text :: "string \<Rightarrow> json \<Rightarrow> string option" where
  "decode_text name j = Option.bind (object_members j) (string_member name [])"

record object_payload =
  op_Size :: "json option"
  op_ContentType :: string
  op_ContentTypeJSON :: string
  op_Metadata :: "(string \<rightharpoonup> json) option"

definition decode_info :: "json \<Rightarrow> object_payload option" where
  "decode_info j = (case object_members j of
     None \<Rightarrow> None
   | Some kvs \<Rightarrow> (case (string_member ''content_type'' [] kvs, string_member ''contentType'' [] kvs, map_member ''metadata'' None kvs) of
       (Some ct, Some ctj, Some md) \<Rightarrow>
         Some \<lparr>op_Size = raw_member ''size'' None kvs, op_ContentType = ct, op_ContentTypeJSON = ctj, op_Metadata = md\<rparr>
     | _ \<Rightarrow> None))"

text \<open>A JSON number, or a string of digits; a fraction or an exponent is refused.\<close>

definition numberFromJSON :: "json option \<Rightarrow> int option" where
  "numberFromJSON raw = (case raw of Some (JNum l) \<Rightarrow> ParseInt l | Some (JStr s) \<Rightarrow> ParseInt s | _ \<Rightarrow> None)"

fun metadata_type :: "(string \<rightharpoonup> json) \<Rightarrow> string list \<Rightarrow> string \<Rightarrow> string" where
  "metadata_type m [] contentType = contentType"
| "metadata_type m (key # keys) contentType = (case m key of
     None \<Rightarrow> metadata_type m keys contentType
   | Some raw \<Rightarrow>
       let t = (case raw of JStr s \<Rightarrow> s | _ \<Rightarrow> contentType) in
       if TrimSpace t \<noteq> [] then t else metadata_type m keys t)"

subsection \<open>Signed URLs\<close>

definition resolveSignedURL :: "urls \<Rightarrow> StorageClient \<Rightarrow> string \<Rightarrow> go_error + (string \<times> string)" where
  "resolveSignedURL U c raw =
     (if TrimSpace raw = [] then Inl ErrStorageUpstream
      else case u_Parse U raw of
        None \<Rightarrow> Inl ErrStorageUpstream
      | Some parsed \<Rightarrow>
          let base = sc_baseURL c in
          if ul_Scheme parsed \<noteq> [] \<and> (ul_Scheme parsed \<noteq> ul_Scheme base \<or> \<not> u_EqualFold U (ul_Host parsed) (ul_Host base))
          then Inl ErrStorageUpstream
          else let resolved =
              (if ul_Scheme parsed \<noteq> [] then parsed
               else if HasPrefix (ul_Path parsed) ''/storage/v1/'' then u_ResolveReference U (base\<lparr>ul_Path := []\<rparr>) parsed
               else if HasPrefix (ul_Path parsed) ''/''
               then u_ResolveReference U base \<lparr>ul_Scheme = [], ul_Host = [], ul_hasUser = False,
                 ul_Path = TrimRight_slash (ul_Path base) @ ul_Path parsed, ul_RawQuery = ul_RawQuery parsed, ul_Fragment = []\<rparr>
               else u_ResolveReference U base parsed);
            token = u_Query U resolved ''token'' in
          if token = [] then Inl ErrStorageUpstream else Inr (u_String U resolved, token))"

subsection \<open>The operations\<close>

definition CreateSignedUploadURL :: "urls \<Rightarrow> transport \<Rightarrow> StorageClient \<Rightarrow> nat \<Rightarrow> string \<Rightarrow> string \<Rightarrow> go_error + SignedUpload" where
  "CreateSignedUploadURL U T c t bucket objectPath = (case objectURL U c ''/object/upload/sign'' bucket objectPath of
     Inl e \<Rightarrow> Inl (ErrText e)
   | Inr target \<Rightarrow> (case doJSON T c t ''POST'' target (Some (JObj [])) (Some (decode_text ''url'')) of
       Inl e \<Rightarrow> Inl e
     | Inr payload \<Rightarrow> (case resolveSignedURL U c (case payload of None \<Rightarrow> [] | Some v \<Rightarrow> v) of
         Inl e \<Rightarrow> Inl e
       | Inr (signedURL, token) \<Rightarrow> Inr \<lparr>su_URL = signedURL, su_Token = token\<rparr>)))"

definition GetObjectInfo :: "urls \<Rightarrow> transport \<Rightarrow> StorageClient \<Rightarrow> nat \<Rightarrow> string \<Rightarrow> string \<Rightarrow> go_error + ObjectInfo" where
  "GetObjectInfo U T c t bucket objectPath = (case objectURL U c ''/object/info'' bucket objectPath of
     Inl e \<Rightarrow> Inl (ErrText e)
   | Inr target \<Rightarrow> (case doJSON T c t ''GET'' target None (Some decode_info) of
       Inl e \<Rightarrow> Inl e
     | Inr None \<Rightarrow> Inl ErrStorageUpstream
     | Inr (Some p) \<Rightarrow>
         (case (case numberFromJSON (op_Size p) of
             Some n \<Rightarrow> Some n
           | None \<Rightarrow> (case op_Metadata p of None \<Rightarrow> None | Some m \<Rightarrow> numberFromJSON (m ''size''))) of
           None \<Rightarrow> Inl ErrStorageUpstream
         | Some n \<Rightarrow>
             let ct = TrimSpace (op_ContentType p);
                 ct' = (if ct = [] then TrimSpace (op_ContentTypeJSON p) else ct);
                 contentType = (if ct' = [] then (case op_Metadata p of None \<Rightarrow> ct'
                     | Some m \<Rightarrow> metadata_type m [''mimetype'', ''contentType'', ''content_type''] ct') else ct') in
             if n < 0 \<or> contentType = [] then Inl ErrStorageUpstream
             else Inr \<lparr>oi_Size = n, oi_ContentType = contentType\<rparr>)))"

definition CreateSignedDownloadURL :: "urls \<Rightarrow> transport \<Rightarrow> StorageClient \<Rightarrow> nat \<Rightarrow> string \<Rightarrow> string \<Rightarrow> int \<Rightarrow> go_error + string" where
  "CreateSignedDownloadURL U T c t bucket objectPath expiresInSeconds =
     (if expiresInSeconds \<le> 0 then Inl (ErrText ''download URL expiration must be greater than zero'')
      else case objectURL U c ''/object/sign'' bucket objectPath of
        Inl e \<Rightarrow> Inl (ErrText e)
      | Inr target \<Rightarrow> (case doJSON T c t ''POST'' target (Some (JObj [(''expiresIn'', JNum (FormatInt expiresInSeconds))]))
            (Some (decode_text ''signedURL'')) of
          Inl e \<Rightarrow> Inl e
        | Inr payload \<Rightarrow> (case resolveSignedURL U c (case payload of None \<Rightarrow> [] | Some v \<Rightarrow> v) of
            Inl e \<Rightarrow> Inl e
          | Inr (signedURL, _) \<Rightarrow> Inr signedURL)))"

definition DeleteObject :: "urls \<Rightarrow> transport \<Rightarrow> StorageClient \<Rightarrow> nat \<Rightarrow> string \<Rightarrow> string \<Rightarrow> go_error + unit" where
  "DeleteObject U T c t bucket objectPath = (case objectURL U c ''/object'' bucket objectPath of
     Inl e \<Rightarrow> Inl (ErrText e)
   | Inr target \<Rightarrow> (case doJSON T c t ''DELETE'' target None (None :: (json \<Rightarrow> unit option) option) of
       Inl e \<Rightarrow> Inl e
     | Inr _ \<Rightarrow> Inr ()))"

definition client_storage :: "urls \<Rightarrow> transport \<Rightarrow> StorageClient \<Rightarrow> storage" where
  "client_storage U T c = \<lparr>st_CreateSignedUploadURL = CreateSignedUploadURL U T c, st_GetObjectInfo = GetObjectInfo U T c,
     st_CreateSignedDownloadURL = CreateSignedDownloadURL U T c, st_DeleteObject = DeleteObject U T c\<rparr>"

subsection \<open>Different objects have different addresses\<close>

definition hex_value :: "char \<Rightarrow> nat" where
  "hex_value c = (if byte c < 58 then byte c - 48 else byte c - 55)"

fun PathUnescape :: "string \<Rightarrow> string" where
  "PathUnescape (c # a # b # s) =
     (if c = CHR ''%'' then char_of (hex_value a * 16 + hex_value b) # PathUnescape s else c # PathUnescape (a # b # s))"
| "PathUnescape (c # s) = c # PathUnescape s"
| "PathUnescape [] = []"

lemma unescape_plain: "c \<noteq> CHR ''%'' \<Longrightarrow> PathUnescape (c # s) = c # PathUnescape s"
  by (cases s; cases "tl s") auto

lemma hex_value_digit: "n < 16 \<Longrightarrow> hex_value (hex_digit n) = n"
  by (simp add: hex_value_def hex_digit_def byte_char_of)

lemma escape_char_cases:
  "PathUnescape (escape_char c @ s) = c # PathUnescape s" "CHR ''/'' \<notin> set (escape_char c)" "escape_char c \<noteq> []"
proof -
  have byte: "byte c < 256" by (rule byte_less)
  show "PathUnescape (escape_char c @ s) = c # PathUnescape s"
  proof (cases "segment_char c")
    case True
    then have "c \<noteq> CHR ''%''" by (auto simp: segment_char_def Let_def within_def byte_def)
    then show ?thesis using True by (simp add: escape_char_def unescape_plain)
  next
    case False
    have "char_of (byte c div 16 * 16 + byte c mod 16) = c" by (simp add: byte_def)
    then show ?thesis using False byte by (simp add: escape_char_def hex_value_digit)
  qed
  have slash: "byte (CHR ''/'') = 47" by (simp add: byte_def)
  have hex: "CHR ''/'' \<noteq> hex_digit n" if "n < 16" for n
  proof
    assume "CHR ''/'' = hex_digit n"
    then have "byte (hex_digit n) = 47" using slash by simp
    then show False using that by (simp add: hex_digit_def byte_char_of split: if_splits)
  qed
  have plain: "\<not> segment_char (CHR ''/'')" by (simp add: segment_char_def Let_def within_def byte_def)
  have "byte c div 16 < 16" "byte c mod 16 < 16" using byte by auto
  then show "CHR ''/'' \<notin> set (escape_char c)" using hex plain by (cases "segment_char c") (auto simp: escape_char_def)
  show "escape_char c \<noteq> []" by (simp add: escape_char_def)
qed

lemma PathUnescape_PathEscape: "PathUnescape (PathEscape s) = s"
  by (induction s) (simp_all add: PathEscape_def escape_char_cases(1))

lemma PathEscape_inj: "PathEscape s = PathEscape t \<Longrightarrow> s = t"
  by (metis PathUnescape_PathEscape)

lemma PathEscape_slash: "CHR ''/'' \<notin> set (PathEscape s)"
  using escape_char_cases(2) by (simp add: PathEscape_def)

lemma split_at_nonempty: "split_at sep s \<noteq> []"
  by (induction s) (auto split: list.splits)

lemma split_at_append: "sep \<notin> set s \<Longrightarrow> split_at sep (s @ sep # t) = s # split_at sep t"
  by (induction s) auto

lemma split_at_single: "sep \<notin> set s \<Longrightarrow> split_at sep s = [s]"
  by (induction s) auto

lemma split_join: "ss \<noteq> [] \<Longrightarrow> list_all (\<lambda>s. CHR ''/'' \<notin> set s) ss \<Longrightarrow> split_at (CHR ''/'') (join_slash ss) = ss"
  by (induction ss rule: join_slash.induct) (auto simp: split_at_single split_at_append)

lemma join_cons: "ss \<noteq> [] \<Longrightarrow> join_slash ((c # s) # ss) = c # join_slash (s # ss)"
  by (cases ss) auto

lemma join_split: "join_slash (split_at (CHR ''/'') s) = s"
proof (induction s)
  case (Cons c s)
  obtain p ps where split: "split_at (CHR ''/'') s = p # ps" using split_at_nonempty by (cases "split_at (CHR ''/'') s") auto
  have "join_slash ((c # p) # ps) = c # join_slash (p # ps)" by (cases ps) auto
  with Cons split show ?case by auto
qed simp

lemma escapeObjectPath_inj:
  assumes "escapeObjectPath p = Inr u" "escapeObjectPath q = Inr u"
  shows "p = q"
proof -
  have "split_at (CHR ''/'') u = map PathEscape (split_at (CHR ''/'') x)" if "escapeObjectPath x = Inr u" for x
  proof -
    have "u = join_slash (map PathEscape (split_at (CHR ''/'') x))"
      using that by (auto simp: escapeObjectPath_def Let_def split: if_splits)
    then show ?thesis
      using split_at_nonempty by (simp add: split_join list_all_iff PathEscape_slash)
  qed
  then have "map PathEscape (split_at (CHR ''/'') p) = map PathEscape (split_at (CHR ''/'') q)" using assms by metis
  then have "split_at (CHR ''/'') p = split_at (CHR ''/'') q"
    by (metis (mono_tags) PathEscape_inj inj_onI map_inj_on)
  then show ?thesis by (metis join_split)
qed

text \<open>
  The URL that the client builds for an operation determines
  the bucket and the path of the object, whatever characters they contain; and no path leaves its
  bucket, because no segment is empty, a single or a double dot.
\<close>

lemma objectURL_injective:
  assumes "objectURL U c pre bucket path = Inr target" "objectURL U c pre bucket' path' = Inr target"
  shows "bucket = bucket' \<and> path = path' \<and> (\<forall>s \<in> set (split_at (CHR ''/'') path). s \<notin> {[], ''.'', ''..''})"
proof -
  let ?base = "TrimRight_slash (u_String U (sc_baseURL c)) @ pre @ ''/''"
  obtain e where e: "escapeObjectPath path = Inr e" "target = ?base @ PathEscape bucket @ ''/'' @ e"
    using assms(1) by (auto simp: objectURL_def split: if_splits sum.splits)
  obtain e' where e': "escapeObjectPath path' = Inr e'" "target = ?base @ PathEscape bucket' @ ''/'' @ e'"
    using assms(2) by (auto simp: objectURL_def split: if_splits sum.splits)
  have "split_at (CHR ''/'') (PathEscape bucket @ CHR ''/'' # e) = split_at (CHR ''/'') (PathEscape bucket' @ CHR ''/'' # e')"
    using e(2) e'(2) by simp
  then have b: "bucket = bucket'" by (simp add: split_at_append PathEscape_slash PathEscape_inj)
  then have "e = e'" using e(2) e'(2) by simp
  then have "path = path'" using e(1) e'(1) escapeObjectPath_inj by blast
  moreover have "\<forall>s \<in> set (split_at (CHR ''/'') path). s \<notin> {[], ''.'', ''..''}"
    using e(1) by (auto simp: escapeObjectPath_def Let_def list_ex_iff split: if_splits)
  ultimately show ?thesis using b by blast
qed


subsection \<open>What an answer of the client means\<close>

lemma doJSON_ok:
  assumes "doJSON T c t meth target body result = Inr r"
  shows "\<exists>status answer. T t meth target (request_headers c (body \<noteq> None)) body = Answered status answer
    \<and> (status = 200 \<or> result = None \<and> status = 204)
    \<and> (\<forall>decode. result = Some decode \<longrightarrow> (\<exists>a. r = Some a \<and> Option.bind answer decode = Some a))"
proof (cases result)
  case None
  then show ?thesis using assms by (auto simp: doJSON_def split: http_answer.splits if_splits)
next
  case (Some decode)
  obtain status answer where T: "T t meth target (request_headers c (body \<noteq> None)) body = Answered status answer"
    using assms by (auto simp: doJSON_def split: http_answer.splits)
  then show ?thesis using assms Some
    by (cases "Option.bind answer decode") (auto simp: doJSON_def split: if_splits)
qed

lemma doJSON_not_found:
  assumes "\<forall>err. T t meth target (request_headers c (body \<noteq> None)) body \<noteq> Unsent err"
  shows "doJSON T c t meth target body result = Inl ErrStorageNotFound
    \<longleftrightarrow> (\<exists>answer. T t meth target (request_headers c (body \<noteq> None)) body = Answered 404 answer)"
  using assms by (auto simp: doJSON_def split: http_answer.splits option.splits)

lemma GetObjectInfo_ok:
  assumes "GetObjectInfo U T c t bucket path = Inr info"
  shows "0 \<le> oi_Size info \<and> oi_ContentType info \<noteq> []
    \<and> (\<exists>target answer. objectURL U c ''/object/info'' bucket path = Inr target
        \<and> T t ''GET'' target (request_headers c False) None = Answered 200 answer)"
proof -
  obtain target where target: "objectURL U c ''/object/info'' bucket path = Inr target"
    using assms by (auto simp: GetObjectInfo_def split: sum.splits)
  then obtain p where p: "doJSON T c t ''GET'' target None (Some decode_info) = Inr (Some p)"
    using assms by (auto simp: GetObjectInfo_def split: sum.splits option.splits)
  have "0 \<le> oi_Size info \<and> oi_ContentType info \<noteq> []"
    using assms target p by (auto simp: GetObjectInfo_def Let_def split: option.splits if_splits)
  then show ?thesis using target doJSON_ok [OF p] by auto
qed

text \<open>
  The storage service may answer a request for a signed URL with a reference that names another host but
  no scheme. The comparison with the configured host is made for references with a scheme only, so that
  the client hands the URL on. The hypothesis on \<open>ResolveReference\<close> is its documented behaviour
  (RFC 3986): the host of the reference, when it has one, is the host of the result.
\<close>

lemma signed_URL_of_other_host:
  assumes "u_Parse U raw = Some ref" "TrimSpace raw \<noteq> []" "ul_Scheme ref = []" "ul_Host ref \<noteq> []"
    and "HasPrefix (ul_Path ref) ''/storage/v1/''"
    and "\<forall>base. ul_Host (u_ResolveReference U base ref) = ul_Host ref \<and> u_Query U (u_ResolveReference U base ref) ''token'' = token"
    and "token \<noteq> []"
  shows "\<exists>resolved. resolveSignedURL U c raw = Inr (u_String U resolved, token) \<and> ul_Host resolved = ul_Host ref"
  using assms by (auto simp: resolveSignedURL_def)

subsection \<open>The objects of uploads\<close>

text \<open>
  The documented text of an identifier (\<open>uuid.UUID.String\<close>): 36 characters, hexadecimal digits in groups
  separated by dashes, different for different identifiers; and the documented form of the extensions
  that the MIME tables give.
\<close>

definition uuid_text :: "(uuid \<Rightarrow> string) \<Rightarrow> bool" where
  "uuid_text fmt \<longleftrightarrow> inj fmt
     \<and> (\<forall>i. length (fmt i) = 36 \<and> CHR ''/'' \<notin> set (fmt i) \<and> CHR 0x5C \<notin> set (fmt i))"

definition extensions_ok :: "media \<Rightarrow> bool" where
  "extensions_ok md \<longleftrightarrow> (\<forall>contentType es e. md_ExtensionsByType md contentType = Some es \<longrightarrow> e \<in> set es \<longrightarrow>
     CHR ''/'' \<notin> set e \<and> CHR 0x5C \<notin> set e)"

lemma extension_plain:
  assumes "extensions_ok md" "c = CHR ''/'' \<or> c = CHR 0x5C"
  shows "c \<notin> set (extensionForContentType md contentType)"
proof -
  have "c \<notin> set (drop 1 e)" "c \<notin> set e" if "md_ExtensionsByType md contentType = Some (e # es)" for e es
    using assms that in_set_dropD [of c 1 e] by (auto simp: extensions_ok_def)
  then show ?thesis using assms(2)
    by (auto simp: extensionForContentType_def split: option.splits list.splits)
qed

lemma uuid_text_segment:
  assumes "uuid_text fmt"
  shows "fmt i @ ext \<notin> {[], ''.'', ''..''}" "CHR ''/'' \<notin> set (fmt i)" "CHR 0x5C \<notin> set (fmt i)" "fmt i \<noteq> []"
proof -
  have "length (fmt i) = 36" using assms by (simp add: uuid_text_def)
  then have "length (fmt i @ ext) \<ge> 36" "fmt i \<noteq> []" by auto
  then show "fmt i @ ext \<notin> {[], ''.'', ''..''}" "fmt i \<noteq> []" by (auto simp del: length_append)
qed (use assms in \<open>auto simp: uuid_text_def\<close>)

lemma join_nonempty: "ss \<noteq> [] \<Longrightarrow> list_all (\<lambda>s. s \<noteq> []) ss \<Longrightarrow> join_slash ss \<noteq> []
    \<and> hd (join_slash ss) = hd (hd ss) \<and> last (join_slash ss) = last (last ss)"
  by (induction ss rule: join_slash.induct) auto

lemma set_join: "c \<in> set (join_slash ss) \<Longrightarrow> c = CHR ''/'' \<or> (\<exists>s \<in> set ss. c \<in> set s)"
  by (induction ss rule: join_slash.induct) auto

lemma HasPrefix_one: "HasPrefix s [c] \<Longrightarrow> hd s = c"
  by (cases s) (auto simp: HasPrefix_def)

lemma HasSuffix_one: "HasSuffix s [c] \<Longrightarrow> last s = c"
  by (metis HasSuffix_def append_take_drop_id last_snoc)

text \<open>Segments that need no more than escaping make a path that the client accepts.\<close>

lemma escapeObjectPath_join:
  assumes "ss \<noteq> []" "list_all (\<lambda>s. CHR ''/'' \<notin> set s \<and> CHR 0x5C \<notin> set s \<and> s \<notin> {[], ''.'', ''..''}) ss"
  shows "escapeObjectPath (join_slash ss) = Inr (join_slash (map PathEscape ss))"
proof -
  let ?p = "join_slash ss"
  have ends: "hd ss \<in> set ss" "last ss \<in> set ss" using assms(1) by auto
  have nonempty: "list_all (\<lambda>s. s \<noteq> []) ss" "list_all (\<lambda>s. CHR ''/'' \<notin> set s) ss"
    using assms(2) by (auto simp: list_all_iff)
  have p: "?p \<noteq> []" "hd ?p = hd (hd ss)" "last ?p = last (last ss)" using join_nonempty [OF assms(1) nonempty(1)] by auto
  have "hd (hd ss) \<in> set (hd ss)" "last (last ss) \<in> set (last ss)"
    using ends nonempty(1) by (auto simp: list_all_iff)
  then have "hd ?p \<noteq> CHR ''/''" "last ?p \<noteq> CHR ''/''"
    using ends nonempty(2) p unfolding list_all_iff by metis+
  then have "\<not> HasPrefix ?p ''/''" "\<not> HasSuffix ?p ''/''"
    using HasPrefix_one HasSuffix_one by blast+
  moreover have "CHR 0x5C \<notin> set ?p" using set_join [of "CHR 0x5C" ss] assms(2) by (auto simp: list_all_iff)
  moreover have "\<not> list_ex (\<lambda>s. s \<in> {[], ''.'', ''..''}) ss" using assms(2) by (auto simp: list_all_iff list_ex_iff)
  ultimately show ?thesis
    using p(1) split_join [OF assms(1) nonempty(2)] by (simp add: escapeObjectPath_def)
qed

lemma pendingUpload_path:
  fixes fmt :: "uuid \<Rightarrow> string" and extension :: "string"
  assumes "fmt = c_format_uuid (e_codec env)"
    "extension = extensionForContentType (us_media s) (normalizedContentType (us_media s) (ir_ContentType request))"
  shows "fu_StoragePath (pendingUpload env s owner request i now)
    = join_slash [''notes'', fmt (ir_NoteID request), ''blocks'', fmt (ir_BlockID request), ''uploads'', fmt i @ ''.'' @ extension]"
  using assms by (simp add: pendingUpload_def Let_def)

lemma pendingUpload_escaped:
  assumes "uuid_text (c_format_uuid (e_codec env))" "extensions_ok (us_media s)"
  shows "\<exists>p. escapeObjectPath (fu_StoragePath (pendingUpload env s owner request i now)) = Inr p"
proof -
  let ?fmt = "c_format_uuid (e_codec env)"
  let ?ext = "extensionForContentType (us_media s) (normalizedContentType (us_media s) (ir_ContentType request))"
  have "list_all (\<lambda>x. CHR ''/'' \<notin> set x \<and> CHR 0x5C \<notin> set x \<and> x \<notin> {[], ''.'', ''..''})
    [''notes'', ?fmt (ir_NoteID request), ''blocks'', ?fmt (ir_BlockID request), ''uploads'', ?fmt i @ ''.'' @ ?ext]"
    using uuid_text_segment [OF assms(1)] uuid_text_segment(1) [OF assms(1), where ext = "[]"] extension_plain [OF assms(2)] by simp
  then show ?thesis
    unfolding pendingUpload_path [OF refl refl] using escapeObjectPath_join by blast
qed

lemma pendingUpload_path_inj:
  assumes "uuid_text (c_format_uuid (e_codec env))" "extensions_ok (us_media s)"
    "fu_StoragePath (pendingUpload env s owner request i now) = fu_StoragePath (pendingUpload env s owner' request' i' now')"
  shows "i = i'"
proof -
  let ?fmt = "c_format_uuid (e_codec env)"
  let ?ext = "\<lambda>r. extensionForContentType (us_media s) (normalizedContentType (us_media s) (ir_ContentType r))"
  let ?segments = "\<lambda>r k. [''notes'', ?fmt (ir_NoteID r), ''blocks'', ?fmt (ir_BlockID r), ''uploads'', ?fmt k @ ''.'' @ ?ext r]"
  have plain: "list_all (\<lambda>x. CHR ''/'' \<notin> set x) (?segments r k)" for r k
    using uuid_text_segment(2) [OF assms(1)] extension_plain [OF assms(2)] by simp
  have "?segments request i = split_at (CHR ''/'') (join_slash (?segments request i))"
    by (rule split_join [OF _ plain, symmetric]) simp
  also have "\<dots> = split_at (CHR ''/'') (join_slash (?segments request' i'))"
    using assms(3) unfolding pendingUpload_path [OF refl refl] by simp
  also have "\<dots> = ?segments request' i'" by (rule split_join [OF _ plain]) simp
  finally have "?fmt i @ ''.'' @ ?ext request = ?fmt i' @ ''.'' @ ?ext request'" by simp
  moreover have "length (?fmt i) = length (?fmt i')" using assms(1) by (simp add: uuid_text_def)
  ultimately have "?fmt i = ?fmt i'" by simp
  then show ?thesis using assms(1) by (auto simp: uuid_text_def dest: injD)
qed

lemma DeleteObject_ok:
  assumes "DeleteObject U T c t bucket path = Inr ()" "objectURL U c ''/object'' bucket path = Inr target"
  shows "\<exists>status answer. T t ''DELETE'' target (request_headers c False) None = Answered status answer \<and> status \<in> {200, 204}"
proof -
  obtain r where "doJSON T c t ''DELETE'' target None (None :: (json \<Rightarrow> unit option) option) = Inr r"
    using assms by (auto simp: DeleteObject_def split: sum.splits)
  from doJSON_ok [OF this] show ?thesis by auto
qed

text \<open>
  C26. No two uploads share an object. With a configuration that was accepted, every upload that the
  service registers has an address in the object storage (its bucket and path are never refused, and
  the path has no segment that leaves the bucket); a deletion that succeeds has been confirmed by the
  storage for exactly this address; and an upload with the same address is the same upload.
\<close>

theorem upload_addresses:
  assumes "Load lowercase file e = Inr cfg" "uuid_text (c_format_uuid (e_codec env))" "extensions_ok md"
    and "s = Upload_NewService (client_storage U T c) md cfg"
    and "u = pendingUpload env s owner request i now" "u' = pendingUpload env s owner' request' i' now'"
  shows "\<exists>target. objectURL U c ''/object'' (fu_StorageBucket u) (fu_StoragePath u) = Inr target
    \<and> (\<forall>x \<in> set (split_at (CHR ''/'') (fu_StoragePath u)). x \<notin> {[], ''.'', ''..''})
    \<and> (st_DeleteObject (us_storage s) t (fu_StorageBucket u) (fu_StoragePath u) = Inr () \<longrightarrow>
        (\<exists>status answer. T t ''DELETE'' target (request_headers c False) None = Answered status answer \<and> status \<in> {200, 204}))
    \<and> (objectURL U c ''/object'' (fu_StorageBucket u') (fu_StoragePath u') = Inr target \<longrightarrow> fu_ID u' = fu_ID u)"
proof -
  have media: "us_media s = md" and bucket: "fu_StorageBucket u = cf_SupabaseStorageBucket cfg"
    and ids: "fu_ID u = i" "fu_ID u' = i'" and store: "st_DeleteObject (us_storage s) = DeleteObject U T c"
    using assms(4-6) by (simp_all add: Upload_NewService_def pendingUpload_def Let_def client_storage_def)
  have "Config_Validate cfg = None" by (rule Load_Inr(2) [OF assms(1)])
  then have "TrimSpace (fu_StorageBucket u) \<noteq> []" "CHR ''/'' \<notin> set (fu_StorageBucket u)" "CHR 0x5C \<notin> set (fu_StorageBucket u)"
    unfolding bucket by (auto simp: Config_Validate_def Let_def required_def split: if_splits)
  moreover obtain p where "escapeObjectPath (fu_StoragePath u) = Inr p"
    using pendingUpload_escaped assms(2,3,5) media by blast
  ultimately obtain target where target: "objectURL U c ''/object'' (fu_StorageBucket u) (fu_StoragePath u) = Inr target"
    by (auto simp: objectURL_def)
  have "fu_ID u' = fu_ID u" if "objectURL U c ''/object'' (fu_StorageBucket u') (fu_StoragePath u') = Inr target"
  proof -
    have "fu_StoragePath u = fu_StoragePath u'" using objectURL_injective [OF target that] by blast
    then show ?thesis using pendingUpload_path_inj [OF assms(2)] assms(3,5,6) media ids by metis
  qed
  then show ?thesis
    using target store DeleteObject_ok [OF _ target] objectURL_injective [OF target target] by auto
qed

text \<open>A client whose parser of URLs does as much as the witness needs.\<close>

definition demo_urls :: urls where
  "demo_urls = \<lparr>u_Parse = (\<lambda>s. Some \<lparr>ul_Scheme = ''https'', ul_Host = s, ul_hasUser = False, ul_Path = [], ul_RawQuery = [], ul_Fragment = []\<rparr>),
     u_String = (\<lambda>u. ul_Scheme u @ ''://'' @ ul_Host u @ ul_Path u), u_ResolveReference = (\<lambda>b r. r), u_Query = (\<lambda>u k. []),
     u_EqualFold = (=)\<rparr>"

definition demo_client :: StorageClient where
  "demo_client = (case Storage_NewClient demo_urls '' p.co/ '' ''key'' 1 of Inr c \<Rightarrow> c)"

text \<open>Identifiers as 32 hexadecimal digits in five groups.\<close>

definition small_hex :: "nat \<Rightarrow> char" where
  "small_hex n = char_of (if n < 10 then 48 + n else 87 + n)"

fun hex_text :: "nat \<Rightarrow> nat \<Rightarrow> string" where
  "hex_text 0 n = []"
| "hex_text (Suc k) n = hex_text k (n div 16) @ [small_hex (n mod 16)]"

definition demo_uuid_text :: "uuid \<Rightarrow> string" where
  "demo_uuid_text i = (let h = hex_text 32 (unat i) in take 8 h @ ''-'' @ take 4 (drop 8 h) @ ''-''
     @ take 4 (drop 12 h) @ ''-'' @ take 4 (drop 16 h) @ ''-'' @ drop 20 h)"

lemma byte_small_hex: "n < 16 \<Longrightarrow> byte (small_hex n) = (if n < 10 then 48 + n else 87 + n)"
  by (simp add: small_hex_def byte_char_of)

lemma small_hex_inj: "n < 16 \<Longrightarrow> m < 16 \<Longrightarrow> small_hex n = small_hex m \<Longrightarrow> n = m"
proof -
  assume nm: "n < 16" "m < 16" "small_hex n = small_hex m"
  then have "(if n < 10 then 48 + n else 87 + n) = (if m < 10 then 48 + m else 87 + m)"
    using byte_small_hex by metis
  then show "n = m" using nm(1,2) by (auto split: if_splits)
qed

lemma length_hex_text: "length (hex_text k n) = k"
  by (induction k arbitrary: n) auto

lemma hex_text_inj: "n < 16 ^ k \<Longrightarrow> m < 16 ^ k \<Longrightarrow> hex_text k n = hex_text k m \<Longrightarrow> n = m"
proof (induction k arbitrary: n m)
  case (Suc k)
  then have "hex_text k (n div 16) = hex_text k (m div 16)" "small_hex (n mod 16) = small_hex (m mod 16)" by auto
  moreover have "n div 16 < 16 ^ k" "m div 16 < 16 ^ k" using Suc.prems by (auto simp: less_mult_imp_div_less mult.commute)
  ultimately have "n div 16 = m div 16" "n mod 16 = m mod 16" using Suc.IH small_hex_inj by auto
  then show ?case by (metis div_mult_mod_eq)
qed simp

lemma hex_text_chars: "c \<in> set (hex_text k n) \<Longrightarrow> byte c \<in> {48..57} \<union> {97..102}"
proof (induction k arbitrary: n)
  case (Suc k)
  have "byte (small_hex d) \<in> {48..57} \<union> {97..102}" if "d < 16" for d
    using that by (auto simp: byte_small_hex)
  moreover have "n mod 16 < 16" by simp
  moreover have "c \<in> set (hex_text k (n div 16)) \<or> c = small_hex (n mod 16)" using Suc.prems by auto
  ultimately show ?case using Suc.IH by blast
qed simp

lemma demo_uuid_text_ok: "uuid_text demo_uuid_text"
proof -
  have bytes: "byte (CHR ''/'') = 47" "byte (CHR ''-'') = 45" "byte (CHR 0x5C) = 92" by (simp_all add: byte_def)
  have plain: "c \<notin> set (hex_text 32 (unat i))" if "c \<in> {CHR ''/'', CHR ''-'', CHR 0x5C}" for c and i :: uuid
    using hex_text_chars [of c 32 "unat i"] that bytes by auto
  have regroup: "take 8 h @ take 4 (drop 8 h) @ take 4 (drop 12 h) @ take 4 (drop 16 h) @ drop 20 h = h" for h :: string
    using append_take_drop_id [of 8 h] append_take_drop_id [of 4 "drop 8 h"] append_take_drop_id [of 4 "drop 12 h"]
      append_take_drop_id [of 4 "drop 16 h"] by simp
  have digits: "filter (\<lambda>c. c \<noteq> CHR ''-'') (demo_uuid_text i) = hex_text 32 (unat i)" for i
  proof -
    have "filter (\<lambda>c. c \<noteq> CHR ''-'') x = x" if "set x \<subseteq> set (hex_text 32 (unat i))" for x
      using that plain [of "CHR ''-''" i] by (auto simp: filter_id_conv)
    then show ?thesis
      by (simp add: demo_uuid_text_def Let_def regroup set_take_subset set_drop_subset
          subset_trans [OF set_take_subset set_drop_subset])
  qed
  have "i = j" if "demo_uuid_text i = demo_uuid_text j" for i j
  proof -
    have "hex_text 32 (unat i) = hex_text 32 (unat j)" using digits that by metis
    moreover have "unat x < 16 ^ 32" for x :: uuid using unsigned_less [of x, where ?'a = nat] by simp
    ultimately have "unat i = unat j" using hex_text_inj by blast
    then show ?thesis by (rule unsigned_word_eqI)
  qed
  then have "inj demo_uuid_text" by (rule injI)
  moreover have "length (demo_uuid_text i) = 36" for i
    by (simp add: demo_uuid_text_def Let_def length_hex_text)
  moreover have "c \<notin> set (demo_uuid_text i)" if "c \<in> {CHR ''/'', CHR 0x5C}" for c i
  proof
    assume "c \<in> set (demo_uuid_text i)"
    then have "c \<in> set (filter (\<lambda>c. c \<noteq> CHR ''-'') (demo_uuid_text i))" using that by auto
    then show False using digits plain [of c i] that by auto
  qed
  ultimately show ?thesis by (simp add: uuid_text_def)
qed

definition demo_upload_env :: env where
  "demo_upload_env = demo_env\<lparr>e_codec := demo_codec\<lparr>c_format_uuid := demo_uuid_text\<rparr>\<rparr>"

definition demo_upload_media :: media where
  "demo_upload_media = \<lparr>md_ParseMediaType = Some, md_ExtensionsByType = (\<lambda>_. None), md_ToLower = id\<rparr>"

definition demo_png :: InitiateRequest where
  "demo_png = \<lparr>ir_NoteID = 1, ir_BlockID = 11, ir_DeviceID = ''phone'', ir_Filename = ''f'', ir_ContentType = ''image/png'', ir_Size = 5\<rparr>"

definition demo_upload_service :: "Config \<Rightarrow> UploadService" where
  "demo_upload_service = Upload_NewService (client_storage demo_urls (\<lambda>_ _ _ _ _. Answered 200 None) demo_client) demo_upload_media"

theorem upload_addresses_witness:
  "\<exists>cfg target. Load id None demo_environ = Inr cfg
    \<and> objectURL demo_urls demo_client ''/object'' (cf_SupabaseStorageBucket cfg)
        (fu_StoragePath (pendingUpload demo_upload_env (demo_upload_service cfg) 7 demo_png 5 0)) = Inr target
    \<and> objectURL demo_urls demo_client ''/object'' (cf_SupabaseStorageBucket cfg)
        (fu_StoragePath (pendingUpload demo_upload_env (demo_upload_service cfg) 7 demo_png 6 0)) \<noteq> Inr target"
proof -
  have "case Load id None demo_environ of Inl _ \<Rightarrow> False | Inr _ \<Rightarrow> True" by code_simp
  then obtain cfg where cfg: "Load id None demo_environ = Inr cfg" by (auto split: sum.splits)
  have uuids: "uuid_text (c_format_uuid (e_codec demo_upload_env))" by (simp add: demo_upload_env_def demo_uuid_text_ok)
  have ext: "extensions_ok demo_upload_media" by (simp add: extensions_ok_def demo_upload_media_def)
  have fields: "fu_StorageBucket (pendingUpload demo_upload_env (demo_upload_service cfg) 7 demo_png i 0) = cf_SupabaseStorageBucket cfg"
    "fu_ID (pendingUpload demo_upload_env (demo_upload_service cfg) 7 demo_png i 0) = i" for i
    by (simp_all add: pendingUpload_def Let_def demo_upload_service_def Upload_NewService_def)
  show ?thesis
    using upload_addresses [OF cfg uuids ext demo_upload_service_def [THEN fun_cong] refl refl,
        where owner = 7 and request = demo_png and i = 5 and now = 0 and owner' = 7 and request' = demo_png and i' = 6 and now' = 0]
      cfg by (auto simp: fields)
qed

end
