(* ===== verification/Realtime.thy ===== *)
theory Realtime
  imports Jobs "HOL-Library.AList"
begin

section \<open>Notifications\<close>

text \<open>
  \<open>internal/realtime\<close>: the hint that a device should pull, its way through PostgreSQL's \<open>NOTIFY\<close>,
  the hub that holds the WebSocket connections of one server, and the bounded queue of each
  connection. Clients are objects with an identity, compared as pointers by the hub; here they are
  addresses (\<open>nat\<close>) into a store of client records. The Go maps of the hub are association lists: a
  Go map has an unspecified order of iteration, and so may a list have any order.
\<close>

subsection \<open>Events and messages (\<open>message.go\<close>)\<close>

abbreviation (input) "syncAvailableMessageType \<equiv> ''sync_available''"

definition Event_Validate :: "SyncAvailableEvent \<Rightarrow> string option" where
  "Event_Validate e =
     (if ev_UserID e = Nil_uuid then Some ''sync available event user ID is required''
      else if \<not> ValidDeviceID (ev_OriginDeviceID e) then Some ''sync available event origin device ID is invalid''
      else if ev_LatestCursor e < 0 then Some ''sync available event cursor must be non-negative''
      else None)"

text \<open>\<open>payload\<close> is the encoded form, absent in a message that was not built by \<open>NewSyncAvailableMessage\<close>.\<close>

record Message =
  ms_Type :: string
  ms_LatestCursor :: int
  ms_payload :: "json option"

definition message_json :: "string \<Rightarrow> int \<Rightarrow> json" where
  "message_json t cursor = JObj [(''type'', JStr t), (''latestCursor'', JNum (FormatInt cursor))]"

definition NewSyncAvailableMessage :: "int \<Rightarrow> Message" where
  "NewSyncAvailableMessage latestCursor = \<lparr>ms_Type = syncAvailableMessageType, ms_LatestCursor = latestCursor,
     ms_payload = Some (message_json syncAvailableMessageType latestCursor)\<rparr>"

definition wirePayload :: "Message \<Rightarrow> json" where
  "wirePayload m = (case ms_payload m of Some p \<Rightarrow> p | None \<Rightarrow> message_json (ms_Type m) (ms_LatestCursor m))"

subsection \<open>The queue of a connection (\<open>client.go\<close>)\<close>

abbreviation (input) sendQueueSize :: nat where "sendQueueSize \<equiv> 8"

record Client =
  cl_UserID :: uuid
  cl_DeviceID :: string
  cl_Send :: "Message list"
  cl_closed :: bool

definition NewClient :: "uuid \<Rightarrow> string \<Rightarrow> Client" where
  "NewClient userID deviceID = \<lparr>cl_UserID = userID, cl_DeviceID = deviceID, cl_Send = [], cl_closed = False\<rparr>"

definition Client_Close :: "Client \<Rightarrow> Client" where
  "Client_Close c = c\<lparr>cl_closed := True\<rparr>"

text \<open>A send that does not block: \<open>select\<close> with a default.\<close>

definition try_send :: "Message \<Rightarrow> Message list \<Rightarrow> Message list option" where
  "try_send m q = (if length q < sendQueueSize then Some (q @ [m]) else None)"

definition hint :: "Message \<Rightarrow> bool" where
  "hint m \<longleftrightarrow> ms_Type m = syncAvailableMessageType"

text \<open>One message taken out of the queue by the loop of \<open>enqueue\<close>: the pending ones, the highest hint, and
  whether all were hints.\<close>

definition drain_one :: "Message \<Rightarrow> Message list \<times> Message \<times> bool \<Rightarrow> Message list \<times> Message \<times> bool" where
  "drain_one queued st = (case st of (pending, highest, allSyncHints) \<Rightarrow>
     (pending @ [queued],
      if hint queued \<and> ms_LatestCursor queued > ms_LatestCursor highest then queued else highest,
      allSyncHints \<and> hint queued))"

text \<open>The end of the loop, with the messages the channel holds by then.\<close>

fun refill :: "Message list \<Rightarrow> Message list \<Rightarrow> Message list" where
  "refill [] q = q"
| "refill (m # ms) q = refill ms (case try_send m q of None \<Rightarrow> q | Some q' \<Rightarrow> q')"

definition drain_end :: "Message list \<times> Message \<times> bool \<Rightarrow> Message list \<Rightarrow> bool \<times> Message list" where
  "drain_end st q = (case st of (pending, highest, allSyncHints) \<Rightarrow>
     if \<not> allSyncHints then (False, refill pending q)
     else case try_send highest q of Some q' \<Rightarrow> (True, q') | None \<Rightarrow> (False, q))"

definition enqueue :: "Message \<Rightarrow> Client \<Rightarrow> bool \<times> Client" where
  "enqueue message c =
     (if cl_closed c then (False, c)
      else if \<not> hint message then
        (case try_send message (cl_Send c) of
           Some q \<Rightarrow> (True, c\<lparr>cl_Send := q\<rparr>) | None \<Rightarrow> (False, c))
      else if cl_Send c = [] then (True, c\<lparr>cl_Send := [message]\<rparr>)
      else let (ok, q) = drain_end (fold drain_one (cl_Send c) ([], message, True)) [] in
        (ok, c\<lparr>cl_Send := q\<rparr>))"

subsection \<open>The hub (\<open>hub.go\<close>)\<close>

record Hub =
  hb_clients :: "(uuid \<times> (string \<times> nat) list) list"
  hb_closed :: bool
  hb_store :: "nat \<Rightarrow> Client"

definition NewHub :: "(nat \<Rightarrow> Client) \<Rightarrow> Hub" where
  "NewHub objects = \<lparr>hb_clients = [], hb_closed = False, hb_store = objects\<rparr>"

text \<open>\<open>h.clients[user]\<close>: a missing user and a user without connections look the same.\<close>

definition user_clients :: "Hub \<Rightarrow> uuid \<Rightarrow> (string \<times> nat) list" where
  "user_clients h user = (case map_of (hb_clients h) user of None \<Rightarrow> [] | Some m \<Rightarrow> m)"

definition close_client :: "nat \<Rightarrow> Hub \<Rightarrow> Hub" where
  "close_client a h = h\<lparr>hb_store := (hb_store h)(a := Client_Close (hb_store h a))\<rparr>"

definition Hub_Register :: "nat \<Rightarrow> Hub \<Rightarrow> string option \<times> Hub" where
  "Hub_Register a h = (let c = hb_store h a; user = cl_UserID c; device = cl_DeviceID c in
     if user = Nil_uuid \<or> device = [] then (Some ''realtime client identity is invalid'', h)
     else if hb_closed h then (Some ''realtime hub is closed'', h)
     else let previous = map_of (user_clients h user) device;
              h' = h\<lparr>hb_clients := AList.update user (AList.update device a (user_clients h user)) (hb_clients h)\<rparr> in
       (None, case previous of
          None \<Rightarrow> h'
        | Some p \<Rightarrow> if p \<noteq> a then close_client p h' else h'))"

definition Hub_Unregister :: "nat \<Rightarrow> Hub \<Rightarrow> Hub" where
  "Hub_Unregister a h = (let c = hb_store h a; user = cl_UserID c; device = cl_DeviceID c;
     h' = (if map_of (user_clients h user) device = Some a
           then let rest = AList.delete device (user_clients h user) in
             h\<lparr>hb_clients := (if rest = [] then AList.delete user (hb_clients h)
                              else AList.update user rest (hb_clients h))\<rparr>
           else h) in
     close_client a h')"

definition deliver :: "Message \<Rightarrow> nat \<Rightarrow> Hub \<Rightarrow> Hub" where
  "deliver message a h = (case enqueue message (hb_store h a) of (ok, c) \<Rightarrow>
     let h' = h\<lparr>hb_store := (hb_store h)(a := c)\<rparr> in
     if ok then h' else Hub_Unregister a h')"

definition Hub_PublishSyncAvailable :: "SyncAvailableEvent \<Rightarrow> Hub \<Rightarrow> Hub" where
  "Hub_PublishSyncAvailable event h = (case Event_Validate event of
     Some _ \<Rightarrow> h
   | None \<Rightarrow>
       let message = NewSyncAvailableMessage (ev_LatestCursor event);
           clients = map snd (filter (\<lambda>(device, _). device \<noteq> ev_OriginDeviceID event) (user_clients h (ev_UserID event)))
       in fold (deliver message) clients h)"

definition ConnectionCount :: "Hub \<Rightarrow> nat" where
  "ConnectionCount h = sum_list (map (\<lambda>(_, m). length m) (hb_clients h))"

definition Hub_Close :: "Hub \<Rightarrow> Hub" where
  "Hub_Close h =
     (if hb_closed h then h
      else let clients = concat (map (\<lambda>(_, m). map snd m) (hb_clients h)) in
        fold close_client clients (h\<lparr>hb_closed := True, hb_clients := []\<rparr>))"

subsection \<open>The event bus (\<open>postgres_event_bus.go\<close>)\<close>

abbreviation (input) initialBackoff :: int where "initialBackoff \<equiv> 250 * 10 ^ 6"
abbreviation (input) maxBackoff :: int where "maxBackoff \<equiv> 5 * 10 ^ 9"

definition nextBackoff :: "int \<Rightarrow> int" where
  "nextBackoff current = (let next = int64 (current * 2) in if next > maxBackoff then maxBackoff else next)"

definition event_json :: "codec \<Rightarrow> SyncAvailableEvent \<Rightarrow> json" where
  "event_json cd e = JObj [(''userId'', JStr (c_format_uuid cd (ev_UserID e))),
     (''originDeviceId'', JStr (ev_OriginDeviceID e)), (''latestCursor'', JNum (FormatInt (ev_LatestCursor e)))]"

definition event_member :: "codec \<Rightarrow> SyncAvailableEvent \<Rightarrow> string \<times> json \<Rightarrow> SyncAvailableEvent option" where
  "event_member cd e kv = (case kv of (k, v) \<Rightarrow>
     if v = JNull then Some e
     else if fold_name k = fold_name ''userId''
     then (case v of JStr s \<Rightarrow> map_option (\<lambda>i. e\<lparr>ev_UserID := i\<rparr>) (c_parse_uuid cd s) | _ \<Rightarrow> None)
     else if fold_name k = fold_name ''originDeviceId''
     then (case v of JStr s \<Rightarrow> Some (e\<lparr>ev_OriginDeviceID := s\<rparr>) | _ \<Rightarrow> None)
     else if fold_name k = fold_name ''latestCursor''
     then (case v of JNum l \<Rightarrow> map_option (\<lambda>n. e\<lparr>ev_LatestCursor := n\<rparr>) (ParseInt l) | _ \<Rightarrow> None)
     else Some e)"

fun event_members :: "codec \<Rightarrow> SyncAvailableEvent \<Rightarrow> (string \<times> json) list \<Rightarrow> SyncAvailableEvent option" where
  "event_members cd e [] = Some e"
| "event_members cd e (kv # kvs) = (case event_member cd e kv of
     None \<Rightarrow> None | Some e' \<Rightarrow> event_members cd e' kvs)"

text \<open>A payload that is no JSON document at all, \<open>None\<close> here, is refused by \<open>json.Unmarshal\<close>.\<close>

definition decodeSyncAvailableEvent :: "codec \<Rightarrow> raw_message \<Rightarrow> SyncAvailableEvent option" where
  "decodeSyncAvailableEvent cd payload =
     (let zero = \<lparr>ev_UserID = Nil_uuid, ev_OriginDeviceID = [], ev_LatestCursor = 0\<rparr>;
          decoded = (case payload of
              Some (JObj kvs) \<Rightarrow> event_members cd zero kvs
            | Some JNull \<Rightarrow> Some zero
            | _ \<Rightarrow> None) in
      case decoded of
        None \<Rightarrow> None
      | Some event \<Rightarrow> if Event_Validate event = None then Some event else None)"

text \<open>
  The publication: \<open>Inr\<close> the payload that \<open>pg_notify\<close> is called with. The listener hands every
  payload that decodes to the hub and ignores the others.
\<close>

definition PublishSyncAvailable :: "codec \<Rightarrow> bool \<Rightarrow> SyncAvailableEvent \<Rightarrow> string + json" where
  "PublishSyncAvailable cd hasPool event =
     (if \<not> hasPool then Inl ''postgres realtime event bus has no pool''
      else case Event_Validate event of Some e \<Rightarrow> Inl e | None \<Rightarrow> Inr (event_json cd event))"

fun listen :: "codec \<Rightarrow> raw_message list \<Rightarrow> Hub \<Rightarrow> Hub" where
  "listen cd [] h = h"
| "listen cd (p # ps) h = (case decodeSyncAvailableEvent cd p of
     None \<Rightarrow> listen cd ps h
   | Some event \<Rightarrow> listen cd ps (Hub_PublishSyncAvailable event h))"

text \<open>
  The delays of \<open>Subscribe\<close>: one round is an attempt to connect that fails (\<open>Acquire\<close>), a session
  that never became ready (\<open>LISTEN\<close> failed) or one that was ready and ended.
\<close>

datatype round = Acquire_failed | Listen_failed | Session_ended

definition subscribe_round :: "round \<Rightarrow> int \<Rightarrow> int \<times> int" where
  "subscribe_round r backoff = (case r of
     Acquire_failed \<Rightarrow> (backoff, nextBackoff backoff)
   | Listen_failed \<Rightarrow> (backoff, nextBackoff backoff)
   | Session_ended \<Rightarrow> (backoff, initialBackoff))"

fun subscribe_delays :: "round list \<Rightarrow> int \<Rightarrow> int list" where
  "subscribe_delays [] backoff = []"
| "subscribe_delays (r # rs) backoff = (case subscribe_round r backoff of (delay, next) \<Rightarrow> delay # subscribe_delays rs next)"

subsection \<open>Connecting (\<open>handler.go\<close>)\<close>

text \<open>
  The checks before the upgrade of the request: the device of an authenticated user, registered and not
  revoked. The upgrade itself, and the registration of the new client, follow on success.
\<close>

definition Realtime_admit :: "env \<Rightarrow> uuid option \<Rightarrow> string \<Rightarrow> (uuid \<times> string) call" where
  "Realtime_admit env user deviceID = (case user of
     None \<Rightarrow> failM Unauthorized
   | Some userID \<Rightarrow>
       if \<not> ValidDeviceID deviceID
       then failM (InvalidRequest (RequestKeyDeviceID @ '' must be a registered device identifier.''))
       else catchM (GetDeviceForOwner env deviceID userID)
         (\<lambda>err. if err = ErrNotFound then failM DeviceForbidden else failM err)
         (\<lambda>d. if dv_RevokedAt d \<noteq> None then failM DeviceRevoked else returnM (userID, deviceID)))"

end
