(* ===== verification/Realtime_Properties.thy ===== *)
theory Realtime_Properties
  imports Realtime Jobs_Properties
begin

section \<open>What the notification channel guarantees\<close>

text \<open>
  That a hint is never lost although the queue of a connection is bounded and its writer runs
  concurrently, that the hub keeps at most one connection per device and reaches exactly the other
  devices of a user, that the delays between attempts to subscribe are bounded, and that an event
  survives its way through the database.
\<close>

subsection \<open>A queue and its writer\<close>

text \<open>
  \<open>enqueue\<close> holds a lock that excludes another \<open>enqueue\<close>, but not the writer, which takes messages out
  of the channel at any time. The steps of the two goroutines, with the loop of \<open>enqueue\<close> taken apart;
  \<open>ch_offered\<close> and \<open>ch_written\<close> record what was handed in and what was sent to the client.
\<close>

record channel =
  ch_send :: "Message list"
  ch_loop :: "(Message list \<times> Message \<times> bool) option"
  ch_offered :: "Message list"
  ch_written :: "Message list"

inductive channel_step :: "channel \<Rightarrow> channel \<Rightarrow> bool" where
  offer_empty: "ch_loop s = None \<Longrightarrow> hint m \<Longrightarrow> ch_send s = [] \<Longrightarrow>
    channel_step s (s\<lparr>ch_send := [m], ch_offered := ch_offered s @ [m]\<rparr>)"
| offer_loop: "ch_loop s = None \<Longrightarrow> hint m \<Longrightarrow> ch_send s \<noteq> [] \<Longrightarrow>
    channel_step s (s\<lparr>ch_loop := Some ([], m, True), ch_offered := ch_offered s @ [m]\<rparr>)"
| loop_take: "ch_loop s = Some st \<Longrightarrow> ch_send s = q # qs \<Longrightarrow>
    channel_step s (s\<lparr>ch_send := qs, ch_loop := Some (drain_one q st)\<rparr>)"
| loop_end: "ch_loop s = Some st \<Longrightarrow> ch_send s = [] \<Longrightarrow> drain_end st [] = (ok, qs) \<Longrightarrow>
    channel_step s (s\<lparr>ch_send := qs, ch_loop := None\<rparr>)"
| writer_take: "ch_send s = q # qs \<Longrightarrow> channel_step s (s\<lparr>ch_send := qs, ch_written := ch_written s @ [q]\<rparr>)"

inductive channel_reach :: "channel \<Rightarrow> bool" where
  reach_start: "channel_reach \<lparr>ch_send = [], ch_loop = None, ch_offered = [], ch_written = []\<rparr>"
| reach_step: "channel_reach s \<Longrightarrow> channel_step s s' \<Longrightarrow> channel_reach s'"

inductive_cases channel_stepE: "channel_step s s'"

text \<open>The hints that are not lost: sent, in the channel, or held by the loop.\<close>

definition in_flight :: "channel \<Rightarrow> Message set" where
  "in_flight s = set (ch_written s) \<union> set (ch_send s)
     \<union> (case ch_loop s of None \<Rightarrow> {} | Some (pending, highest, all) \<Rightarrow> {highest})"

definition channel_ok :: "channel \<Rightarrow> bool" where
  "channel_ok s \<longleftrightarrow> length (ch_send s) \<le> 1 \<and> list_all hint (ch_send s)
     \<and> (case ch_loop s of None \<Rightarrow> True | Some (pending, highest, all) \<Rightarrow> all \<and> hint highest)
     \<and> (\<forall>m \<in> set (ch_offered s). \<exists>m' \<in> in_flight s. ms_LatestCursor m \<le> ms_LatestCursor m')"

lemma channel_ok_step: "channel_step s s' \<Longrightarrow> channel_ok s \<Longrightarrow> channel_ok s'"
proof (induction rule: channel_step.induct)
  case (loop_take s st q qs)
  obtain pending highest all where st: "st = (pending, highest, all)" by (cases st)
  show ?case
    using loop_take by (auto simp: channel_ok_def in_flight_def drain_one_def st)
next
  case (loop_end s st ok qs)
  obtain pending highest all where st: "st = (pending, highest, all)" by (cases st)
  show ?case
    using loop_end by (auto simp: channel_ok_def in_flight_def drain_end_def try_send_def st)
qed (auto simp: channel_ok_def in_flight_def split: option.splits; fastforce)+

lemma channel_reach_ok: "channel_reach s \<Longrightarrow> channel_ok s"
  by (induction rule: channel_reach.induct) (simp add: channel_ok_def in_flight_def, rule channel_ok_step)

text \<open>
  C22. However \<open>enqueue\<close> and the writer of a connection interleave, the channel never holds more than
  one hint (it never blocks and never overflows), and no hint is lost: for every hint that was handed
  in, one with the same or a higher cursor has been sent, or is in the channel, or is held by the
  running loop; when loop and channel are empty, it has been sent.
\<close>

theorem hint_not_lost:
  assumes "channel_reach s" "m \<in> set (ch_offered s)"
  shows "length (ch_send s) \<le> 1 \<and> (\<exists>m' \<in> in_flight s. ms_LatestCursor m \<le> ms_LatestCursor m')
    \<and> (ch_loop s = None \<and> ch_send s = [] \<longrightarrow> (\<exists>m' \<in> set (ch_written s). ms_LatestCursor m \<le> ms_LatestCursor m'))"
  using channel_reach_ok [OF assms(1)] assms(2) by (auto simp: channel_ok_def in_flight_def)

theorem hint_not_lost_witness:
  "\<exists>s. channel_reach s \<and> length (ch_offered s) = 2 \<and> ch_send s = [] \<and> ch_loop s = None
     \<and> (\<exists>m' \<in> set (ch_written s). 9 \<le> ms_LatestCursor m')"
proof -
  let ?a = "NewSyncAvailableMessage 9" and ?b = "NewSyncAvailableMessage 4"
  let ?s = "\<lparr>ch_send = [], ch_loop = None, ch_offered = [?a, ?b], ch_written = [?a, ?b]\<rparr>"
  have h: "hint ?a" "hint ?b" by (simp_all add: hint_def NewSyncAvailableMessage_def)
  have 1: "channel_reach \<lparr>ch_send = [?a], ch_loop = None, ch_offered = [?a], ch_written = []\<rparr>"
    using reach_step [OF reach_start offer_empty [OF _ h(1)]] by simp
  have 2: "channel_reach \<lparr>ch_send = [], ch_loop = None, ch_offered = [?a], ch_written = [?a]\<rparr>"
    using reach_step [OF 1 writer_take] by simp
  have 3: "channel_reach \<lparr>ch_send = [?b], ch_loop = None, ch_offered = [?a, ?b], ch_written = [?a]\<rparr>"
    using reach_step [OF 2 offer_empty [OF _ h(2)]] by simp
  have 4: "channel_reach ?s" using reach_step [OF 3 writer_take] by simp
  have "\<exists>m' \<in> set (ch_written ?s). ms_LatestCursor ?a \<le> ms_LatestCursor m'"
    using hint_not_lost [OF 4, of ?a] by simp
  then show ?thesis using 4 by (intro exI [where x = ?s]) (simp add: NewSyncAvailableMessage_def)
qed

text \<open>Without the writer in between, the steps are the function \<open>enqueue\<close>.\<close>

definition newer :: "Message \<Rightarrow> Message \<Rightarrow> Message" where
  "newer q h = (if hint q \<and> ms_LatestCursor q > ms_LatestCursor h then q else h)"

lemma fold_newer:
  assumes "list_all hint qs"
  shows "fold newer qs h \<in> insert h (set qs)"
    "x \<in> insert h (set qs) \<Longrightarrow> ms_LatestCursor x \<le> ms_LatestCursor (fold newer qs h)"
proof -
  have "fold newer qs h \<in> insert h (set qs) \<and> ms_LatestCursor h \<le> ms_LatestCursor (fold newer qs h)
      \<and> (\<forall>x \<in> set qs. ms_LatestCursor x \<le> ms_LatestCursor (fold newer qs h))"
    using assms
  proof (induction qs arbitrary: h)
    case (Cons q qs)
    have "ms_LatestCursor h \<le> ms_LatestCursor (newer q h)" "ms_LatestCursor q \<le> ms_LatestCursor (newer q h)"
        "newer q h \<in> {q, h}"
      using Cons.prems by (auto simp: newer_def)
    moreover note Cons.IH [of "newer q h"]
    ultimately show ?case using Cons.prems by simp (metis order_trans)
  qed simp
  then show "fold newer qs h \<in> insert h (set qs)"
    "x \<in> insert h (set qs) \<Longrightarrow> ms_LatestCursor x \<le> ms_LatestCursor (fold newer qs h)" by auto
qed

lemma fold_drain:
  "fold drain_one qs (pending, highest, all) = (pending @ qs,
     fold newer qs highest,
     all \<and> list_all hint qs)"
  by (induction qs arbitrary: pending highest all) (auto simp: drain_one_def newer_def)

lemma loop_steps:
  assumes "ch_loop s = Some st"
  shows "channel_step\<^sup>*\<^sup>* s (s\<lparr>ch_send := [], ch_loop := Some (fold drain_one (ch_send s) st)\<rparr>)"
  using assms
proof (induction "ch_send s" arbitrary: s st)
  case Nil
  then have "s\<lparr>ch_send := [], ch_loop := Some (fold drain_one (ch_send s) st)\<rparr> = s" by (cases s) simp
  then show ?case by simp
next
  case (Cons q qs)
  let ?s = "s\<lparr>ch_send := qs, ch_loop := Some (drain_one q st)\<rparr>"
  have "channel_step s ?s" using Cons.hyps(2) Cons.prems by (intro loop_take) simp_all
  moreover have "channel_step\<^sup>*\<^sup>* ?s (?s\<lparr>ch_send := [], ch_loop := Some (fold drain_one (ch_send ?s) (drain_one q st))\<rparr>)"
    by (rule Cons.hyps(1)) simp_all
  ultimately show ?case using Cons.hyps(2) [symmetric] by (simp add: converse_rtranclp_into_rtranclp)
qed

lemma enqueue_steps:
  assumes "\<not> cl_closed c" "list_all hint (cl_Send c)" "hint m"
  shows "\<exists>q c'. enqueue m c = (True, c') \<and> c' = c\<lparr>cl_Send := [q]\<rparr> \<and> q \<in> insert m (set (cl_Send c))
    \<and> (\<forall>x \<in> insert m (set (cl_Send c)). ms_LatestCursor x \<le> ms_LatestCursor q)
    \<and> channel_step\<^sup>*\<^sup>* \<lparr>ch_send = cl_Send c, ch_loop = None, ch_offered = os, ch_written = ws\<rparr>
        \<lparr>ch_send = [q], ch_loop = None, ch_offered = os @ [m], ch_written = ws\<rparr>"
proof (cases "cl_Send c")
  case Nil
  let ?s = "\<lparr>ch_send = [], ch_loop = None, ch_offered = os, ch_written = ws\<rparr>"
  have "channel_step ?s (?s\<lparr>ch_send := [m], ch_offered := ch_offered ?s @ [m]\<rparr>)"
    by (rule offer_empty) (use assms(3) in simp_all)
  then show ?thesis using Nil assms by (auto simp: enqueue_def)
next
  case (Cons x xs)
  let ?q = "fold newer (cl_Send c) m"
  let ?s = "\<lparr>ch_send = cl_Send c, ch_loop = None, ch_offered = os, ch_written = ws\<rparr>"
  let ?s1 = "\<lparr>ch_send = cl_Send c, ch_loop = Some ([], m, True), ch_offered = os @ [m], ch_written = ws\<rparr>"
  let ?st = "fold drain_one (cl_Send c) ([], m, True)"
  have st: "?st = (cl_Send c, ?q, True)" using assms(2) by (simp add: fold_drain)
  have "drain_end ?st [] = (True, [?q])" by (simp only: st) (simp add: drain_end_def try_send_def)
  then have enq: "enqueue m c = (True, c\<lparr>cl_Send := [?q]\<rparr>)"
    using assms Cons by (simp add: enqueue_def)
  have "channel_step ?s (?s\<lparr>ch_loop := Some ([], m, True), ch_offered := ch_offered ?s @ [m]\<rparr>)"
    by (rule offer_loop) (use assms(3) Cons in simp_all)
  then have "channel_step ?s ?s1" by simp
  moreover have "channel_step\<^sup>*\<^sup>* ?s1 (?s1\<lparr>ch_send := [], ch_loop := Some ?st\<rparr>)"
    using loop_steps [of ?s1 "([], m, True)"] by simp
  moreover have "channel_step (?s1\<lparr>ch_send := [], ch_loop := Some ?st\<rparr>)
      ((?s1\<lparr>ch_send := [], ch_loop := Some ?st\<rparr>)\<lparr>ch_send := [?q], ch_loop := None\<rparr>)"
    by (rule loop_end [where st = ?st and ok = True])
      (simp_all add: \<open>drain_end ?st [] = (True, [?q])\<close>)
  ultimately have "channel_step\<^sup>*\<^sup>* ?s \<lparr>ch_send = [?q], ch_loop = None, ch_offered = os @ [m], ch_written = ws\<rparr>"
    by (simp add: converse_rtranclp_into_rtranclp rtranclp.rtrancl_into_rtrancl)
  then show ?thesis using enq fold_newer [OF assms(2), where h = m] by blast
qed

lemma enqueue_spec:
  assumes "\<not> cl_closed c" "list_all hint (cl_Send c)" "hint m"
  shows "\<exists>q. enqueue m c = (True, c\<lparr>cl_Send := [q]\<rparr>)
    \<and> (\<forall>x \<in> insert m (set (cl_Send c)). ms_LatestCursor x \<le> ms_LatestCursor q)"
  using enqueue_steps [OF assms] by blast

text \<open>
  C23. An \<open>enqueue\<close> that runs alone does what the steps do, and it refines a simple specification: on
  an open connection with only hints pending it succeeds, and leaves the one hint with the highest
  cursor among the pending ones and the new one.
\<close>

theorem enqueue_refines:
  assumes "\<not> cl_closed c" "list_all hint (cl_Send c)" "hint m"
  shows "\<exists>q c'. enqueue m c = (True, c') \<and> c' = c\<lparr>cl_Send := [q]\<rparr> \<and> q \<in> insert m (set (cl_Send c))
    \<and> (\<forall>x \<in> insert m (set (cl_Send c)). ms_LatestCursor x \<le> ms_LatestCursor q)
    \<and> channel_step\<^sup>*\<^sup>* \<lparr>ch_send = cl_Send c, ch_loop = None, ch_offered = os, ch_written = ws\<rparr>
        \<lparr>ch_send = [q], ch_loop = None, ch_offered = os @ [m], ch_written = ws\<rparr>"
  by (rule enqueue_steps [OF assms])

theorem enqueue_refines_witness:
  "\<exists>q. enqueue (NewSyncAvailableMessage 4) (NewClient 7 ''phone''\<lparr>cl_Send := [NewSyncAvailableMessage 9]\<rparr>)
      = (True, NewClient 7 ''phone''\<lparr>cl_Send := [q]\<rparr>) \<and> 9 \<le> ms_LatestCursor q"
proof -
  let ?c = "NewClient 7 ''phone''\<lparr>cl_Send := [NewSyncAvailableMessage 9]\<rparr>"
  have "\<not> cl_closed ?c" "list_all hint (cl_Send ?c)" "hint (NewSyncAvailableMessage 4)"
    by (simp_all add: NewClient_def hint_def NewSyncAvailableMessage_def)
  from enqueue_refines [OF this, of "[]" "[]"] show ?thesis by (auto simp: NewSyncAvailableMessage_def)
qed

subsection \<open>The hub\<close>

text \<open>The connection of a device, if it has one.\<close>

definition conn :: "Hub \<Rightarrow> uuid \<Rightarrow> string \<Rightarrow> nat option" where
  "conn h user device = map_of (user_clients h user) device"

definition hub_ok :: "Hub \<Rightarrow> bool" where
  "hub_ok h \<longleftrightarrow> distinct (map fst (hb_clients h))
     \<and> (\<forall>(u, m) \<in> set (hb_clients h). m \<noteq> [] \<and> distinct (map fst m))
     \<and> (\<forall>u d a. conn h u d = Some a \<longrightarrow> cl_UserID (hb_store h a) = u \<and> cl_DeviceID (hb_store h a) = d)
     \<and> (hb_closed h \<longrightarrow> hb_clients h = [])"

definition table_ok :: "(uuid \<times> (string \<times> nat) list) list \<Rightarrow> bool" where
  "table_ok t \<longleftrightarrow> distinct (map fst t) \<and> (\<forall>(u, m) \<in> set t. m \<noteq> [] \<and> distinct (map fst m))"

lemma hub_ok_table: "hub_ok h \<longleftrightarrow> table_ok (hb_clients h)
     \<and> (\<forall>u d a. conn h u d = Some a \<longrightarrow> cl_UserID (hb_store h a) = u \<and> cl_DeviceID (hb_store h a) = d)
     \<and> (hb_closed h \<longrightarrow> hb_clients h = [])"
  by (simp add: hub_ok_def table_ok_def conj_assoc)

lemma user_clients_ok: "table_ok (hb_clients h) \<Longrightarrow> distinct (map fst (user_clients h u))"
  by (auto simp: table_ok_def user_clients_def split: option.splits dest: map_of_SomeD)

lemma set_update_subset: "set (AList.update k v al) \<subseteq> insert (k, v) (set al)"
  by (induction al) auto

lemma table_update:
  assumes "table_ok t" "m \<noteq> []" "distinct (map fst m)"
  shows "table_ok (AList.update u m t)"
  using assms set_update_subset [of u m t] distinct_update [of t u m] by (fastforce simp: table_ok_def)

lemma table_delete: "table_ok t \<Longrightarrow> table_ok (AList.delete u t)"
  by (auto simp: table_ok_def distinct_delete) (auto simp: AList.delete_eq)

lemma user_clients_update:
  "user_clients (h\<lparr>hb_clients := AList.update u m (hb_clients h)\<rparr>) v = (if v = u then m else user_clients h v)"
  by (simp add: user_clients_def update_conv')

lemma user_clients_delete:
  "user_clients (h\<lparr>hb_clients := AList.delete u (hb_clients h)\<rparr>) v = (if v = u then [] else user_clients h v)"
  by (simp add: user_clients_def delete_conv')

lemma user_clients_store [simp]: "user_clients (h\<lparr>hb_store := s\<rparr>) = user_clients h"
  by (simp add: user_clients_def fun_eq_iff)

lemma close_client_simps [simp]:
  "hb_clients (close_client a h) = hb_clients h" "hb_closed (close_client a h) = hb_closed h"
  "user_clients (close_client a h) = user_clients h" "conn (close_client a h) = conn h"
  "cl_UserID (hb_store (close_client a h) b) = cl_UserID (hb_store h b)"
  "cl_DeviceID (hb_store (close_client a h) b) = cl_DeviceID (hb_store h b)"
  "b \<noteq> a \<Longrightarrow> hb_store (close_client a h) b = hb_store h b"
  by (simp_all add: close_client_def Client_Close_def conn_def fun_eq_iff)

lemma hub_ok_close_client [simp]: "hub_ok (close_client a h) = hub_ok h"
  by (simp add: hub_ok_table)

lemma conn_unique: "hub_ok h \<Longrightarrow> conn h x y = Some a \<Longrightarrow> conn h u d = Some a \<Longrightarrow> x = u \<and> y = d"
  by (metis hub_ok_table)

lemma Register_conn:
  assumes "Hub_Register a h = (None, h')"
  shows "conn h' u d = (if u = cl_UserID (hb_store h a) \<and> d = cl_DeviceID (hb_store h a) then Some a else conn h u d)"
  using assms
  by (auto simp: Hub_Register_def Let_def conn_def user_clients_update update_conv' split: if_splits option.splits)

lemma Register_ok:
  assumes "Hub_Register a h = (r, h')" "hub_ok h"
  shows "hub_ok h'"
proof (cases r)
  case (Some e)
  then show ?thesis using assms by (auto simp: Hub_Register_def Let_def split: if_splits option.splits)
next
  case None
  let ?u = "cl_UserID (hb_store h a)" and ?d = "cl_DeviceID (hb_store h a)"
  let ?t = "AList.update ?u (AList.update ?d a (user_clients h ?u)) (hb_clients h)"
  have t: "table_ok ?t"
    using assms(2) by (intro table_update) (auto simp: hub_ok_table intro!: distinct_update user_clients_ok)
  have h': "hb_clients h' = ?t" "hb_closed h' = hb_closed h" "\<not> hb_closed h"
      "\<And>b. cl_UserID (hb_store h' b) = cl_UserID (hb_store h b)" "\<And>b. cl_DeviceID (hb_store h' b) = cl_DeviceID (hb_store h b)"
    using assms(1) None by (auto simp: Hub_Register_def Let_def split: if_splits option.splits)
  have "cl_UserID (hb_store h b) = u \<and> cl_DeviceID (hb_store h b) = d" if "conn h' u d = Some b" for u d b
    using that Register_conn [OF assms(1) [unfolded None], of u d] assms(2) by (auto simp: hub_ok_table split: if_splits)
  then show ?thesis using t h' by (simp add: hub_ok_table)
qed

lemma Unregister_conn:
  assumes "hub_ok h"
  shows "conn (Hub_Unregister a h) u d = (if conn h u d = Some a then None else conn h u d)"
proof -
  let ?u = "cl_UserID (hb_store h a)" and ?d = "cl_DeviceID (hb_store h a)"
  let ?rest = "AList.delete ?d (user_clients h ?u)"
  have mine: "u = ?u \<and> d = ?d" if "conn h u d = Some a" using assms that by (auto simp: hub_ok_table)
  have rest: "map_of ?rest = (map_of (user_clients h ?u))(?d := None)" by (rule delete_conv')
  show ?thesis
  proof (cases "map_of (user_clients h ?u) ?d = Some a")
    case False
    then show ?thesis using mine by (auto simp: Hub_Unregister_def Let_def conn_def)
  next
    case True
    have after: "user_clients (Hub_Unregister a h) v = (if v = ?u then ?rest else user_clients h v)" for v
      using True by (simp add: Hub_Unregister_def Let_def user_clients_update user_clients_delete)
    show ?thesis
    proof (cases "u = ?u \<and> d = ?d")
      case mine: True
      then show ?thesis using True by (simp add: conn_def after rest)
    next
      case other: False
      then have "conn h u d \<noteq> Some a" using mine by blast
      then show ?thesis using other by (auto simp: conn_def after rest)
    qed
  qed
qed

lemma Unregister_simps [simp]:
  "hb_closed (Hub_Unregister a h) = hb_closed h"
  "cl_UserID (hb_store (Hub_Unregister a h) b) = cl_UserID (hb_store h b)"
  "cl_DeviceID (hb_store (Hub_Unregister a h) b) = cl_DeviceID (hb_store h b)"
  "b \<noteq> a \<Longrightarrow> hb_store (Hub_Unregister a h) b = hb_store h b"
  by (simp_all add: Hub_Unregister_def Let_def)

lemma Unregister_ok: "hub_ok h \<Longrightarrow> hub_ok (Hub_Unregister a h)"
proof -
  assume ok: "hub_ok h"
  have "table_ok (hb_clients (Hub_Unregister a h))"
    using ok by (auto simp: hub_ok_table Hub_Unregister_def Let_def intro!: table_update table_delete distinct_delete
        user_clients_ok)
  moreover have "hb_clients (Hub_Unregister a h) = []" if "hb_closed h"
    using ok that by (auto simp: hub_ok_table Hub_Unregister_def Let_def user_clients_def)
  moreover have "cl_UserID (hb_store h b) = u \<and> cl_DeviceID (hb_store h b) = d" if "conn (Hub_Unregister a h) u d = Some b" for u d b
    using that ok unfolding Unregister_conn [OF ok] by (auto simp: hub_ok_table split: if_splits)
  ultimately show ?thesis by (simp add: hub_ok_table)
qed



subsection \<open>Publishing\<close>

lemma enqueue_ids: "enqueue m c = (ok, c') \<Longrightarrow> cl_UserID c' = cl_UserID c \<and> cl_DeviceID c' = cl_DeviceID c"
  by (auto simp: enqueue_def Let_def split: if_splits option.splits prod.splits)

lemma hub_ok_store:
  assumes "hub_ok h" "cl_UserID c = cl_UserID (hb_store h a)" "cl_DeviceID c = cl_DeviceID (hb_store h a)"
  shows "hub_ok (h\<lparr>hb_store := (hb_store h)(a := c)\<rparr>)"
  using assms by (auto simp: hub_ok_table conn_def)

lemma deliver_ok: "hub_ok h \<Longrightarrow> hub_ok (deliver m a h)"
  by (auto simp: deliver_def Let_def split: prod.splits dest!: enqueue_ids intro!: Unregister_ok hub_ok_store)

lemma deliver_other:
  assumes "hub_ok h" "b \<noteq> a"
  shows "hb_store (deliver m a h) b = hb_store h b"
    "conn h u d = Some b \<Longrightarrow> conn (deliver m a h) u d = Some b" "conn h u d = None \<Longrightarrow> conn (deliver m a h) u d = None"
proof -
  obtain ok c where e: "enqueue m (hb_store h a) = (ok, c)" by (cases "enqueue m (hb_store h a)")
  let ?h = "h\<lparr>hb_store := (hb_store h)(a := c)\<rparr>"
  have okh: "hub_ok ?h" using enqueue_ids [OF e] assms(1) by (auto intro: hub_ok_store)
  have c: "conn ?h = conn h" by (simp add: conn_def fun_eq_iff)
  show "hb_store (deliver m a h) b = hb_store h b"
    using assms(2) e by (auto simp: deliver_def Let_def)
  show "conn (deliver m a h) u d = Some b" if "conn h u d = Some b"
    using that assms(2) e Unregister_conn [OF okh, of a u d] c by (auto simp: deliver_def Let_def)
  show "conn (deliver m a h) u d = None" if "conn h u d = None"
    using that e Unregister_conn [OF okh, of a u d] c by (auto simp: deliver_def Let_def)
qed

lemma deliver_this:
  assumes "hub_ok h"
  shows "enqueue m (hb_store h a) = (True, c) \<Longrightarrow> hb_store (deliver m a h) a = c \<and> conn (deliver m a h) = conn h"
    "enqueue m (hb_store h a) = (False, c) \<Longrightarrow> conn h u d = Some a \<Longrightarrow> conn (deliver m a h) u d = None"
proof -
  show "hb_store (deliver m a h) a = c \<and> conn (deliver m a h) = conn h" if "enqueue m (hb_store h a) = (True, c)"
    using that by (simp add: deliver_def conn_def fun_eq_iff)
  show "conn (deliver m a h) u d = None" if e: "enqueue m (hb_store h a) = (False, c)" and c: "conn h u d = Some a"
  proof -
    let ?h = "h\<lparr>hb_store := (hb_store h)(a := c)\<rparr>"
    have "hub_ok ?h" using enqueue_ids [OF e] assms by (auto intro: hub_ok_store)
    from Unregister_conn [OF this, of a u d] show ?thesis using e c by (simp add: deliver_def conn_def)
  qed
qed

lemma fold_deliver:
  assumes "hub_ok h" "distinct as"
  shows "hub_ok (fold (deliver m) as h)"
    "a \<notin> set as \<Longrightarrow> hb_store (fold (deliver m) as h) a = hb_store h a \<and> (conn h u d = Some a \<longrightarrow> conn (fold (deliver m) as h) u d = Some a)"
    "a \<in> set as \<Longrightarrow> enqueue m (hb_store h a) = (True, c) \<Longrightarrow> hb_store (fold (deliver m) as h) a = c
       \<and> (conn h u d = Some a \<longrightarrow> conn (fold (deliver m) as h) u d = Some a)"
    "a \<in> set as \<Longrightarrow> enqueue m (hb_store h a) = (False, c) \<Longrightarrow> conn h u d = Some a \<Longrightarrow> conn (fold (deliver m) as h) u d = None"
proof -
  have none: "conn (fold (deliver m) as h) u d = None" if "hub_ok h" "conn h u d = None" for as h
    using that
  proof (induction as arbitrary: h)
    case (Cons b as)
    have "conn (deliver m b h) u d = None" using deliver_other(3) [OF Cons.prems(1), of "Suc b" b] Cons.prems(2) by simp
    then show ?case using Cons.IH [OF deliver_ok [OF Cons.prems(1)]] by simp
  qed simp
  have out: "hub_ok (fold (deliver m) as h)
      \<and> (a \<notin> set as \<longrightarrow> hb_store (fold (deliver m) as h) a = hb_store h a
           \<and> (conn h u d = Some a \<longrightarrow> conn (fold (deliver m) as h) u d = Some a))" if "hub_ok h" for as h
    using that
  proof (induction as arbitrary: h)
    case (Cons b as)
    show ?case
      using Cons.IH [OF deliver_ok [OF Cons.prems]] deliver_other(1,2) [OF Cons.prems, of a b] by auto
  qed simp
  have here: "a \<in> set as \<longrightarrow> (enqueue m (hb_store h a) = (True, c) \<longrightarrow> hb_store (fold (deliver m) as h) a = c
        \<and> (conn h u d = Some a \<longrightarrow> conn (fold (deliver m) as h) u d = Some a))
      \<and> (enqueue m (hb_store h a) = (False, c) \<longrightarrow> conn h u d = Some a \<longrightarrow> conn (fold (deliver m) as h) u d = None)"
    using assms
  proof (induction as arbitrary: h)
    case (Cons b as)
    note ok = deliver_ok [OF Cons.prems(1), of m b]
    show ?case
    proof (cases "a = b")
      case True
      then show ?thesis
        using Cons.prems(2) out [OF ok, of as] deliver_this [OF Cons.prems(1), of m b] none [OF ok, of as] by fastforce
    next
      case False
      then show ?thesis
        using Cons.IH [OF ok] Cons.prems(2) deliver_other(1,2) [OF Cons.prems(1) False] by auto
    qed
  qed simp
  show "hub_ok (fold (deliver m) as h)" using out [OF assms(1)] by blast
  show "a \<notin> set as \<Longrightarrow> hb_store (fold (deliver m) as h) a = hb_store h a \<and> (conn h u d = Some a \<longrightarrow> conn (fold (deliver m) as h) u d = Some a)"
    using out [OF assms(1)] by blast
  show "a \<in> set as \<Longrightarrow> enqueue m (hb_store h a) = (True, c) \<Longrightarrow> hb_store (fold (deliver m) as h) a = c
       \<and> (conn h u d = Some a \<longrightarrow> conn (fold (deliver m) as h) u d = Some a)"
    "a \<in> set as \<Longrightarrow> enqueue m (hb_store h a) = (False, c) \<Longrightarrow> conn h u d = Some a \<Longrightarrow> conn (fold (deliver m) as h) u d = None"
    using here by blast+
qed

definition targets :: "SyncAvailableEvent \<Rightarrow> Hub \<Rightarrow> nat list" where
  "targets event h =
     map snd (filter (\<lambda>(device, _). device \<noteq> ev_OriginDeviceID event) (user_clients h (ev_UserID event)))"

lemma targets_iff:
  assumes "hub_ok h"
  shows "a \<in> set (targets event h) \<longleftrightarrow> (\<exists>d. d \<noteq> ev_OriginDeviceID event \<and> conn h (ev_UserID event) d = Some a)"
    "distinct (targets event h)"
proof -
  let ?m = "user_clients h (ev_UserID event)"
  have d: "distinct (map fst ?m)" using assms by (intro user_clients_ok) (simp add: hub_ok_table)
  have at: "(x, b) \<in> set ?m \<longleftrightarrow> conn h (ev_UserID event) x = Some b" for x b
    using map_of_eq_Some_iff [OF d] by (simp add: conn_def)
  show "a \<in> set (targets event h) \<longleftrightarrow> (\<exists>d. d \<noteq> ev_OriginDeviceID event \<and> conn h (ev_UserID event) d = Some a)"
  proof -
    have "a \<in> set (targets event h) \<longleftrightarrow> (\<exists>x. (x, a) \<in> set ?m \<and> x \<noteq> ev_OriginDeviceID event)"
      by (auto simp: targets_def image_iff)
    then show ?thesis using at by blast
  qed
  have "x = y" if "conn h (ev_UserID event) x = Some b" "conn h (ev_UserID event) y = Some b" for x y b
    using that conn_unique [OF assms] by blast
  then have "inj_on snd (set ?m)" using at by (intro inj_onI) (metis prod.collapse)
  then have "distinct (map snd ?m)" using d by (simp add: distinct_map)
  then show "distinct (targets event h)"
    by (simp add: targets_def distinct_map inj_on_def)
qed

lemma Publish_fold:
  "Event_Validate event = None \<Longrightarrow> Hub_PublishSyncAvailable event h =
     fold (deliver (NewSyncAvailableMessage (ev_LatestCursor event))) (targets event h) h"
  by (simp add: Hub_PublishSyncAvailable_def targets_def Let_def)

lemma publish_reaches:
  assumes "hub_ok h" "Event_Validate event = None" "conn h u d = Some a"
  shows "hub_ok (Hub_PublishSyncAvailable event h)
    \<and> (if u = ev_UserID event \<and> d \<noteq> ev_OriginDeviceID event
       then (cl_closed (hb_store h a) \<longrightarrow> conn (Hub_PublishSyncAvailable event h) u d = None)
         \<and> (\<not> cl_closed (hb_store h a) \<and> list_all hint (cl_Send (hb_store h a)) \<longrightarrow>
              conn (Hub_PublishSyncAvailable event h) u d = Some a
              \<and> (\<exists>q. cl_Send (hb_store (Hub_PublishSyncAvailable event h) a) = [q]
                   \<and> ev_LatestCursor event \<le> ms_LatestCursor q))
       else conn (Hub_PublishSyncAvailable event h) u d = Some a
         \<and> hb_store (Hub_PublishSyncAvailable event h) a = hb_store h a)"
proof -
  let ?m = "NewSyncAvailableMessage (ev_LatestCursor event)"
  note F = fold_deliver [OF assms(1) targets_iff(2) [OF assms(1), of event], where m = ?m]
  have m: "hint ?m" "ms_LatestCursor ?m = ev_LatestCursor event" by (simp_all add: hint_def NewSyncAvailableMessage_def)
  have uniq: "x = u \<and> y = d" if "conn h x y = Some a" for x y using conn_unique [OF assms(1) that assms(3)] .
  have t: "a \<in> set (targets event h) \<longleftrightarrow> u = ev_UserID event \<and> d \<noteq> ev_OriginDeviceID event"
    using targets_iff(1) [OF assms(1), of a event] uniq assms(3) by blast
  show ?thesis
  proof (cases "a \<in> set (targets event h)")
    case False
    then show ?thesis using F(1) F(2) [OF False, of u d] t assms(3) by (auto simp: Publish_fold [OF assms(2)])
  next
    case True
    have closed: "conn (fold (deliver ?m) (targets event h) h) u d = None" if "cl_closed (hb_store h a)"
      by (rule F(4) [OF True _ assms(3)]) (use that in \<open>simp add: enqueue_def\<close>)
    have open_: "conn (fold (deliver ?m) (targets event h) h) u d = Some a
        \<and> (\<exists>q. cl_Send (hb_store (fold (deliver ?m) (targets event h) h) a) = [q] \<and> ev_LatestCursor event \<le> ms_LatestCursor q)"
      if ready: "\<not> cl_closed (hb_store h a)" "list_all hint (cl_Send (hb_store h a))"
    proof -
      obtain q where q: "enqueue ?m (hb_store h a) = (True, hb_store h a\<lparr>cl_Send := [q]\<rparr>)"
          "\<forall>x \<in> insert ?m (set (cl_Send (hb_store h a))). ms_LatestCursor x \<le> ms_LatestCursor q"
        using enqueue_spec [OF ready m(1)] by blast
      then show ?thesis using F(3) [OF True q(1), of u d] assms(3) m(2) by auto
    qed
    show ?thesis using F(1) closed open_ t True by (auto simp: Publish_fold [OF assms(2)])
  qed
qed

text \<open>
  C25. A valid event reaches exactly the other devices of its user. Every open connection of the user
  that waits for hints only, but that of the originating device, stays registered and has one hint
  pending, whose cursor is at least that of the event; the connections of other users and of the
  originating device are as before; a closed connection is removed. The invariant of the hub is kept.
\<close>

theorem publish_reaches_devices:
  assumes "hub_ok h" "Event_Validate event = None" "conn h u d = Some a"
  shows "hub_ok (Hub_PublishSyncAvailable event h)
    \<and> (if u = ev_UserID event \<and> d \<noteq> ev_OriginDeviceID event
       then (cl_closed (hb_store h a) \<longrightarrow> conn (Hub_PublishSyncAvailable event h) u d = None)
         \<and> (\<not> cl_closed (hb_store h a) \<and> list_all hint (cl_Send (hb_store h a)) \<longrightarrow>
              conn (Hub_PublishSyncAvailable event h) u d = Some a
              \<and> (\<exists>q. cl_Send (hb_store (Hub_PublishSyncAvailable event h) a) = [q]
                   \<and> ev_LatestCursor event \<le> ms_LatestCursor q))
       else conn (Hub_PublishSyncAvailable event h) u d = Some a
         \<and> hb_store (Hub_PublishSyncAvailable event h) a = hb_store h a)"
  using publish_reaches [OF assms] .

theorem publish_reaches_devices_witness:
  "let h = snd (Hub_Register 2 (NewHub (\<lambda>_. NewClient 7 ''tablet'')));
       event = \<lparr>ev_UserID = 7, ev_OriginDeviceID = ''phone'', ev_LatestCursor = 5\<rparr> in
   \<exists>q. cl_Send (hb_store (Hub_PublishSyncAvailable event h) 2) = [q] \<and> 5 \<le> ms_LatestCursor q"
proof -
  let ?empty = "NewHub (\<lambda>_. NewClient 7 ''tablet'')"
  let ?h = "snd (Hub_Register 2 ?empty)" and ?event = "\<lparr>ev_UserID = 7, ev_OriginDeviceID = ''phone'', ev_LatestCursor = 5\<rparr>"
  have r: "Hub_Register 2 ?empty = (None, ?h)" and c: "\<not> cl_closed (hb_store ?h 2)" "cl_Send (hb_store ?h 2) = []"
    by (simp_all add: Hub_Register_def NewHub_def NewClient_def Let_def user_clients_def)
  have ok0: "hub_ok ?empty" by (simp add: hub_ok_table table_ok_def NewHub_def conn_def user_clients_def)
  have conn: "conn ?h 7 ''tablet'' = Some 2" using Register_conn [OF r, of 7 "''tablet''"] by (simp add: NewHub_def NewClient_def)
  have v: "Event_Validate ?event = None" by (simp add: Event_Validate_def demo_device_names)
  show ?thesis using publish_reaches_devices [OF Register_ok [OF r ok0] v conn] c by (simp add: Let_def)
qed

subsection \<open>The event bus\<close>

text \<open>
  The delays between the attempts of a subscriber lie between a quarter of a second and five
  seconds, whatever the sequence of failed and of finished sessions; they double while attempts fail.
\<close>

lemma backoff_bounded:
  "list_all (\<lambda>delay. initialBackoff \<le> delay \<and> delay \<le> maxBackoff) (subscribe_delays rounds initialBackoff)
   \<and> subscribe_delays ([Acquire_failed, Acquire_failed, Listen_failed, Acquire_failed, Listen_failed, Acquire_failed]) initialBackoff
       = [initialBackoff, 2 * initialBackoff, 4 * initialBackoff, 8 * initialBackoff, 16 * initialBackoff, maxBackoff]"
proof -
  have next_ok: "initialBackoff \<le> nextBackoff b \<and> nextBackoff b \<le> maxBackoff" if "initialBackoff \<le> b" "b \<le> maxBackoff" for b
    using that by (simp add: nextBackoff_def int64_def Let_def)
  have "list_all (\<lambda>delay. initialBackoff \<le> delay \<and> delay \<le> maxBackoff) (subscribe_delays rounds b)"
    if "initialBackoff \<le> b" "b \<le> maxBackoff" for b
    using that
  proof (induction rounds arbitrary: b)
    case (Cons r rounds)
    then show ?case using next_ok [OF Cons.prems] by (cases r) (simp_all add: subscribe_round_def)
  qed simp
  moreover have "subscribe_delays ([Acquire_failed, Acquire_failed, Listen_failed, Acquire_failed, Listen_failed, Acquire_failed]) initialBackoff
       = [initialBackoff, 2 * initialBackoff, 4 * initialBackoff, 8 * initialBackoff, 16 * initialBackoff, maxBackoff]"
    by code_simp
  ultimately show ?thesis by simp
qed

lemma event_names:
  "fold_name ''userId'' \<noteq> fold_name ''originDeviceId''" "fold_name ''userId'' \<noteq> fold_name ''latestCursor''"
  "fold_name ''originDeviceId'' \<noteq> fold_name ''latestCursor''"
  by code_simp+

text \<open>
  What one server publishes is what the others receive: the payload of a published event decodes
  to the event, so that the listener hands it to its hub, provided that the UUID library parses what it
  prints.
\<close>

lemma event_roundtrip:
  assumes "\<And>i. c_parse_uuid cd (c_format_uuid cd i) = Some i" "ev_LatestCursor event \<le> max_int64"
    and "PublishSyncAvailable cd pool event = Inr payload"
  shows "decodeSyncAvailableEvent cd (Some payload) = Some event
    \<and> listen cd [Some payload] h = Hub_PublishSyncAvailable event h"
proof -
  have v: "Event_Validate event = None" "payload = event_json cd event"
    using assms(3) by (auto simp: PublishSyncAvailable_def split: if_splits option.splits)
  have "0 \<le> ev_LatestCursor event" using v(1) by (auto simp: Event_Validate_def split: if_splits)
  then have n: "ParseInt (FormatInt (ev_LatestCursor event)) = Some (ev_LatestCursor event)"
    using assms(2) by (intro ParseInt_FormatInt) auto
  have "decodeSyncAvailableEvent cd (Some payload) = Some event"
    using assms(1) n v event_names
    by (cases event) (simp add: decodeSyncAvailableEvent_def event_json_def event_member_def Let_def)
  then show ?thesis by simp
qed

text \<open>
  C27. A push wakes the other devices of its user. When a push has published its hint, the bus accepts
  it, and every server whose listener receives the payload has afterwards, for each open connection of
  the user's other devices, one message in the queue: a hint with the sequence number of the last change
  of the push, or a higher one, so that a pull that follows it finds everything that the push has added.
\<close>

theorem push_notifies:
  assumes "db_ok (w_core w)" "\<not> w_in_tx w" "Sync env sv owner req w = (r, w')" "w_events w' \<noteq> w_events w"
    and "owner \<noteq> Nil_uuid" "\<And>i. c_parse_uuid cd (c_format_uuid cd i) = Some i"
    and "hub_ok h" "conn h owner d = Some a" "d \<noteq> rq_DeviceID req" "\<not> cl_closed (hb_store h a)"
    "list_all hint (cl_Send (hb_store h a))"
  shows "\<exists>event payload q. w_events w' = w_events w @ [event] \<and> PublishSyncAvailable cd True event = Inr payload
    \<and> conn (listen cd [Some payload] h) owner d = Some a \<and> cl_Send (hb_store (listen cd [Some payload] h) a) = [q]
    \<and> cr_seq (last (history (w_core w'))) \<le> ms_LatestCursor q"
proof -
  let ?event = "\<lparr>ev_UserID = owner, ev_OriginDeviceID = rq_DeviceID req, ev_LatestCursor = cr_seq (last (history (w_core w')))\<rparr>"
  have pub: "history (w_core w') \<noteq> history (w_core w)" "w_events w' = w_events w @ [?event]"
    using Sync_published [OF assms(1-4)] by auto
  have "Request_Validate (sv_maxOperations sv) req = None"
    using assms(3) by (cases rule: Sync_split) (use assms(4) in auto)
  then have device: "ValidDeviceID (rq_DeviceID req)" by (auto simp: Request_Validate_def split: if_splits)
  have "db_ok (w_core w')" "history_rel owner (rq_DeviceID req) (w_core w) (w_core w')"
    using Sync_rel [OF assms(1-3)] assms(1) by (auto simp: sync_rel_def sync_step_def)
  then have "db_ok (w_core w')" "history (w_core w') \<noteq> []" using pub(1) by (auto simp: history_rel_def)
  moreover have "1 \<le> cr_seq x \<and> cr_seq x \<le> max_int64" if "x \<in> set (history (w_core w'))" for x
    using \<open>db_ok (w_core w')\<close> that by (fastforce simp: db_ok_def changes_ok_def list_all_iff change_ok_def)
  ultimately have seq: "1 \<le> cr_seq (last (history (w_core w')))" "cr_seq (last (history (w_core w'))) \<le> max_int64"
    using last_in_set by blast+
  then have valid: "Event_Validate ?event = None" using assms(5) device by (simp add: Event_Validate_def)
  then have payload: "PublishSyncAvailable cd True ?event = Inr (event_json cd ?event)" by (simp add: PublishSyncAvailable_def)
  have "listen cd [Some (event_json cd ?event)] h = Hub_PublishSyncAvailable ?event h"
    using event_roundtrip [OF assms(6) _ payload] seq(2) by simp
  then show ?thesis
    using publish_reaches [OF assms(7) valid assms(8)] assms(9-11) pub(2) payload by auto
qed

text \<open>The push of the small database, and a tablet that is connected.\<close>

theorem push_notifies_witness:
  "\<exists>event payload q cd. w_events (snd (Sync demo_env demo_service 7 demo_request demo_world)) = [event]
     \<and> PublishSyncAvailable cd True event = Inr payload
     \<and> cl_Send (hb_store (listen cd [Some payload] (snd (Hub_Register 2 (NewHub (\<lambda>_. NewClient 7 ''tablet''))))) 2) = [q]
     \<and> 0 < ms_LatestCursor q"
proof -
  let ?w = "snd (Sync demo_env demo_service 7 demo_request demo_world)" and ?empty = "NewHub (\<lambda>_. NewClient 7 ''tablet'')"
  let ?h = "snd (Hub_Register 2 ?empty)"
  define cd where "cd = demo_codec\<lparr>c_format_uuid := (\<lambda>i. replicate (unat i) CHR ''x''), c_parse_uuid := (\<lambda>s. Some (of_nat (length s)))\<rparr>"
  have uuid: "c_parse_uuid cd (c_format_uuid cd i) = Some i" for i by (simp add: cd_def)
  have new: "w_events ?w \<noteq> []" "cr_seq (last (history (w_core ?w))) \<in> {1..100}" by code_simp+
  have reg: "Hub_Register 2 ?empty = (None, ?h)"
    by (simp add: Hub_Register_def NewHub_def NewClient_def Let_def user_clients_def)
  have "hub_ok ?empty" by (simp add: hub_ok_table table_ok_def NewHub_def conn_def user_clients_def)
  then have hub: "hub_ok ?h" by (rule Register_ok [OF reg])
  have tablet: "conn ?h 7 ''tablet'' = Some 2" "\<not> cl_closed (hb_store ?h 2)" "list_all hint (cl_Send (hb_store ?h 2))"
    using Register_conn [OF reg, of 7 "''tablet''"]
    by (simp_all add: Hub_Register_def NewHub_def NewClient_def Let_def user_clients_def)
  have start: "db_ok (w_core demo_world)" "\<not> w_in_tx demo_world" "w_events ?w \<noteq> w_events demo_world" "w_events demo_world = []"
    using demo_ok new(1) by (simp_all add: demo_world_def)
  have seq: "0 < cr_seq (last (history (w_core ?w)))" using new(2) by auto
  have device: "''tablet'' \<noteq> rq_DeviceID demo_request" by (simp add: demo_request_def)
  obtain event payload q where "w_events ?w = w_events demo_world @ [event]" "PublishSyncAvailable cd True event = Inr payload"
      "cl_Send (hb_store (listen cd [Some payload] ?h) 2) = [q]" "cr_seq (last (history (w_core ?w))) \<le> ms_LatestCursor q"
    using push_notifies [OF start(1,2) prod.collapse [symmetric] start(3) _ uuid hub tablet(1) device tablet(2,3)] by auto
  moreover from this(4) seq have "0 < ms_LatestCursor q" by linarith
  ultimately show ?thesis unfolding start(4) append_Nil by blast
qed

end
