(* ===== verification/Connections.thy ===== *)
theory Connections
  imports Realtime_Properties
begin

section \<open>The connections of a websocket server\<close>

text \<open>
  \<open>Hub.Serve\<close> of \<open>internal/realtime/hub.go\<close> with the pumps of \<open>client.go\<close>: each connection has a
  goroutine that reads until the socket fails, one that writes hints and pings, and the hub may replace,
  drop or close it at any time. The goroutines are step functions on a state of the whole server; runs
  interleave them in any order. It is shown that no open connection is out of reach of the hub, that the
  hub holds no connection whose goroutines have ended, and that the shutdown of the hub ends.
\<close>

subsection \<open>States and steps\<close>

text \<open>
  Where the handler goroutine of a connection is: registered, in the read loop, out of it, waiting for
  the writer, or returned.
\<close>

datatype reader = Absent | Registered | Reading | Leaving | Joining | Gone

datatype writer = Unstarted | Writing | Stopped

record connection =
  cn_reader :: reader
  cn_writer :: writer
  cn_frames :: "Message list"

record ws =
  ws_hub :: Hub
  ws_conns :: "nat \<Rightarrow> connection"
  ws_next :: nat
  ws_wg :: nat

abbreviation closed_at :: "Hub \<Rightarrow> nat \<Rightarrow> bool" where
  "closed_at h a \<equiv> cl_closed (hb_store h a)"

definition on_conn :: "nat \<Rightarrow> (connection \<Rightarrow> connection) \<Rightarrow> ws \<Rightarrow> ws" where
  "on_conn a f s = s\<lparr>ws_conns := (ws_conns s)(a := f (ws_conns s a))\<rparr>"

definition on_hub :: "(Hub \<Rightarrow> Hub) \<Rightarrow> ws \<Rightarrow> ws" where
  "on_hub f s = s\<lparr>ws_hub := f (ws_hub s)\<rparr>"

definition NewServer :: "(nat \<Rightarrow> Client) \<Rightarrow> ws" where
  "NewServer objects = \<lparr>ws_hub = NewHub objects, ws_conns = (\<lambda>_. \<lparr>cn_reader = Absent, cn_writer = Unstarted, cn_frames = []\<rparr>),
     ws_next = 0, ws_wg = 0\<rparr>"

text \<open>The end of \<open>Handler.ServeHTTP\<close>: a client object, registered or closed.\<close>

definition ws_connect :: "uuid \<Rightarrow> string \<Rightarrow> ws \<Rightarrow> ws" where
  "ws_connect userID deviceID s =
     (let a = ws_next s;
          h = (ws_hub s)\<lparr>hb_store := (hb_store (ws_hub s))(a := NewClient userID deviceID)\<rparr>;
          s' = s\<lparr>ws_next := Suc a\<rparr> in
      case Hub_Register a h of
        (Some _, h') \<Rightarrow> on_conn a (cn_reader_update (\<lambda>_. Gone)) (s'\<lparr>ws_hub := close_client a h'\<rparr>)
      | (None, h') \<Rightarrow> on_conn a (cn_reader_update (\<lambda>_. Registered)) (s'\<lparr>ws_hub := h'\<rparr>))"

text \<open>\<open>Serve\<close>: under the lock, then the goroutines start.\<close>

definition Serve_enter :: "nat \<Rightarrow> ws \<Rightarrow> ws" where
  "Serve_enter a s =
     (if hb_closed (ws_hub s) then on_conn a (cn_reader_update (\<lambda>_. Gone)) (on_hub (close_client a) s)
      else on_conn a (\<lambda>c. c\<lparr>cn_reader := Reading, cn_writer := Writing\<rparr>) (s\<lparr>ws_wg := Suc (ws_wg s)\<rparr>))"

text \<open>\<open>readPump\<close> returns at the first failure to read.\<close>

definition readPump_fails :: "nat \<Rightarrow> ws \<Rightarrow> ws" where
  "readPump_fails a = on_conn a (cn_reader_update (\<lambda>_. Leaving))"

definition Serve_unregister :: "nat \<Rightarrow> ws \<Rightarrow> ws" where
  "Serve_unregister a s = on_conn a (cn_reader_update (\<lambda>_. Joining)) (on_hub (Hub_Unregister a) s)"

definition Serve_return :: "nat \<Rightarrow> ws \<Rightarrow> ws" where
  "Serve_return a s = on_conn a (cn_reader_update (\<lambda>_. Gone)) (s\<lparr>ws_wg := ws_wg s - 1\<rparr>)"

text \<open>The three cases of the \<open>select\<close> of \<open>writePump\<close>; a write may fail.\<close>

definition writePump_done :: "nat \<Rightarrow> ws \<Rightarrow> ws" where
  "writePump_done a = on_conn a (cn_writer_update (\<lambda>_. Stopped))"

definition pop_message :: "nat \<Rightarrow> Hub \<Rightarrow> Hub" where
  "pop_message a h = h\<lparr>hb_store := (hb_store h)(a := (hb_store h a)\<lparr>cl_Send := tl (cl_Send (hb_store h a))\<rparr>)\<rparr>"

definition writePump_send :: "bool \<Rightarrow> nat \<Rightarrow> ws \<Rightarrow> ws" where
  "writePump_send ok a s = (case cl_Send (hb_store (ws_hub s) a) of
     [] \<Rightarrow> s
   | message # _ \<Rightarrow>
       let s' = on_hub (pop_message a) s in
       if ok then on_conn a (\<lambda>c. c\<lparr>cn_frames := cn_frames c @ [message]\<rparr>) s'
       else writePump_done a (on_hub (close_client a) s'))"

definition writePump_ping :: "bool \<Rightarrow> nat \<Rightarrow> ws \<Rightarrow> ws" where
  "writePump_ping ok a s = (if ok then s else writePump_done a (on_hub (close_client a) s))"

inductive ws_step :: "ws \<Rightarrow> ws \<Rightarrow> bool" where
  step_connect: "ws_step s (ws_connect userID deviceID s)"
| step_enter: "cn_reader (ws_conns s a) = Registered \<Longrightarrow> ws_step s (Serve_enter a s)"
| step_read: "cn_reader (ws_conns s a) = Reading \<Longrightarrow> ws_step s (readPump_fails a s)"
| step_unregister: "cn_reader (ws_conns s a) = Leaving \<Longrightarrow> ws_step s (Serve_unregister a s)"
| step_return: "cn_reader (ws_conns s a) = Joining \<Longrightarrow> cn_writer (ws_conns s a) = Stopped \<Longrightarrow> ws_step s (Serve_return a s)"
| step_send: "cn_writer (ws_conns s a) = Writing \<Longrightarrow> ws_step s (writePump_send ok a s)"
| step_ping: "cn_writer (ws_conns s a) = Writing \<Longrightarrow> ws_step s (writePump_ping ok a s)"
| step_done: "cn_writer (ws_conns s a) = Writing \<Longrightarrow> closed_at (ws_hub s) a \<Longrightarrow> ws_step s (writePump_done a s)"
| step_deliver: "ws_step s (on_hub (deliver message a) s)"
| step_close: "ws_step s (on_hub Hub_Close s)"

inductive ws_reach :: "ws \<Rightarrow> bool" where
  reach_new: "ws_reach (NewServer objects)"
| reach_more: "ws_reach s \<Longrightarrow> ws_step s s' \<Longrightarrow> ws_reach s'"

text \<open>
  Publishing is a sequence of deliveries to clients that were registered when it began; the steps allow
  any delivery at any time.
\<close>

subsection \<open>Operations that let connections go\<close>

definition hub_shrinks :: "Hub \<Rightarrow> Hub \<Rightarrow> bool" where
  "hub_shrinks h h' \<longleftrightarrow> hub_ok h'
     \<and> (\<forall>b. cl_UserID (hb_store h' b) = cl_UserID (hb_store h b) \<and> cl_DeviceID (hb_store h' b) = cl_DeviceID (hb_store h b)
          \<and> (closed_at h b \<longrightarrow> closed_at h' b))
     \<and> (\<forall>u d b. conn h' u d = Some b \<longrightarrow> conn h u d = Some b)
     \<and> (\<forall>u d b. conn h u d = Some b \<longrightarrow> conn h' u d = Some b \<or> closed_at h' b)
     \<and> (hb_closed h \<longrightarrow> hb_closed h')"

text \<open>A connection that the hub must know while it is open, and one that must be closed.\<close>

definition attached :: "connection \<Rightarrow> bool" where
  "attached c \<longleftrightarrow> cn_reader c \<in> {Registered, Reading, Leaving}"

definition ended :: "connection \<Rightarrow> bool" where
  "ended c \<longleftrightarrow> cn_reader c \<in> {Joining, Gone} \<or> cn_writer c = Stopped"

definition linked :: "nat \<Rightarrow> (nat \<Rightarrow> connection) \<Rightarrow> Hub \<Rightarrow> bool" where
  "linked n cs h \<longleftrightarrow> hub_ok h
     \<and> (\<forall>a < n. attached (cs a) \<longrightarrow> \<not> closed_at h a \<longrightarrow> conn h (cl_UserID (hb_store h a)) (cl_DeviceID (hb_store h a)) = Some a)
     \<and> (\<forall>u d a. conn h u d = Some a \<longrightarrow> a < n \<and> attached (cs a))
     \<and> (\<forall>a. ended (cs a) \<longrightarrow> closed_at h a)"

locale hub_operation =
  fixes op :: "Hub \<Rightarrow> Hub"
  assumes shrinks: "hub_ok h \<Longrightarrow> hub_shrinks h (op h)"
begin

lemma keeps_linked: "linked n cs h \<Longrightarrow> linked n cs (op h)"
  using shrinks [of h] unfolding linked_def hub_shrinks_def by metis

lemma keeps_closed: "hub_ok h \<Longrightarrow> hb_closed h \<Longrightarrow> hb_closed (op h)"
  using shrinks unfolding hub_shrinks_def by blast

end

interpretation closing: hub_operation "close_client a" for a
  by unfold_locales (auto simp: hub_shrinks_def close_client_def Client_Close_def hub_ok_table conn_def)

interpretation unregistering: hub_operation "Hub_Unregister a" for a
proof
  fix h assume ok: "hub_ok h"
  have "closed_at (Hub_Unregister a h) a" by (simp add: Hub_Unregister_def Let_def close_client_def Client_Close_def)
  moreover have "closed_at (Hub_Unregister a h) b" if "closed_at h b" for b
    using that by (cases "b = a") (simp_all add: \<open>closed_at (Hub_Unregister a h) a\<close>)
  ultimately show "hub_shrinks h (Hub_Unregister a h)"
    using Unregister_ok [OF ok] by (auto simp: hub_shrinks_def Unregister_conn [OF ok])
qed

interpretation popping: hub_operation "pop_message a" for a
  by unfold_locales (auto simp: hub_shrinks_def pop_message_def hub_ok_table conn_def)

lemma enqueue_closed: "enqueue m c = (ok, c') \<Longrightarrow> cl_closed c' = cl_closed c"
  by (auto simp: enqueue_def Let_def split: if_splits option.splits prod.splits)

lemma hub_shrinks_trans: "hub_shrinks h h1 \<Longrightarrow> hub_shrinks h1 h2 \<Longrightarrow> hub_shrinks h h2"
  unfolding hub_shrinks_def by (intro conjI allI impI; (elim conjE)?; (simp; fail)?; blast)

interpretation delivering: hub_operation "deliver m a" for m a
proof
  fix h assume ok: "hub_ok h"
  obtain sent c where e: "enqueue m (hb_store h a) = (sent, c)" by (cases "enqueue m (hb_store h a)")
  let ?h = "h\<lparr>hb_store := (hb_store h)(a := c)\<rparr>"
  have okh: "hub_ok ?h" using enqueue_ids [OF e] ok by (auto intro: hub_ok_store)
  then have "hub_shrinks h ?h"
    using enqueue_ids [OF e] enqueue_closed [OF e] by (auto simp: hub_shrinks_def conn_def)
  then show "hub_shrinks h (deliver m a h)"
    using hub_shrinks_trans unregistering.shrinks [OF okh] e by (auto simp: deliver_def Let_def)
qed

lemma fold_close:
  "hub_ok h \<Longrightarrow> hub_shrinks h (fold close_client as h) \<and> conn (fold close_client as h) = conn h
     \<and> hb_closed (fold close_client as h) = hb_closed h \<and> (\<forall>a \<in> set as. closed_at (fold close_client as h) a)"
proof (induction as arbitrary: h)
  case Nil
  then show ?case by (auto simp: hub_shrinks_def)
next
  case (Cons a as)
  note step = closing.shrinks [OF Cons.prems, of a]
  have "hub_ok (close_client a h)" using Cons.prems by simp
  note rest = Cons.IH [OF this]
  have "closed_at (close_client a h) a" by (simp add: close_client_def Client_Close_def)
  then have "closed_at (fold close_client as (close_client a h)) a" using rest by (auto simp: hub_shrinks_def)
  then show ?case using hub_shrinks_trans [OF step] rest by simp
qed

interpretation shutting: hub_operation Hub_Close
proof
  fix h assume ok: "hub_ok h"
  show "hub_shrinks h (Hub_Close h)"
  proof (cases "hb_closed h")
    case True
    then show ?thesis using ok by (auto simp: Hub_Close_def hub_shrinks_def)
  next
    case False
    let ?as = "concat (map (\<lambda>(_, m). map snd m) (hb_clients h))" and ?h = "h\<lparr>hb_closed := True, hb_clients := []\<rparr>"
    have close: "Hub_Close h = fold close_client ?as ?h" using False by (simp add: Hub_Close_def Let_def)
    have okh: "hub_ok ?h" using ok by (simp add: hub_ok_table table_ok_def conn_def user_clients_def)
    have "b \<in> set ?as" if c: "conn h u d = Some b" for u d b
    proof -
      obtain m where "map_of (hb_clients h) u = Some m" "map_of m d = Some b"
        using c by (cases "map_of (hb_clients h) u") (auto simp: conn_def user_clients_def)
      then show ?thesis by (force dest!: map_of_SomeD)
    qed
    note known = this
    define F where "F = fold close_client ?as ?h"
    have f: "hub_shrinks ?h F" "conn F = conn ?h" "hb_closed F" "\<forall>a \<in> set ?as. closed_at F a"
      using fold_close [OF okh, of ?as] by (simp_all add: F_def)
    have none: "conn F u d = None" for u d unfolding f(2) by (simp add: conn_def user_clients_def)
    have same: "cl_UserID (hb_store F b) = cl_UserID (hb_store h b)" "cl_DeviceID (hb_store F b) = cl_DeviceID (hb_store h b)"
        "closed_at h b \<Longrightarrow> closed_at F b" "hub_ok F" for b
      using f(1) by (simp_all add: hub_shrinks_def)
    have gone: "closed_at F b" if "conn h u d = Some b" for u d b using known [OF that] f(4) by blast
    show ?thesis
      unfolding close F_def [symmetric] hub_shrinks_def
      by (intro conjI allI impI) (simp_all add: same none f(3) gone)
  qed
qed


subsection \<open>The invariant\<close>

definition serving_at :: "ws \<Rightarrow> nat \<Rightarrow> bool" where
  "serving_at s a \<longleftrightarrow> cn_reader (ws_conns s a) \<in> {Reading, Leaving, Joining}"

definition conn_ok :: "connection \<Rightarrow> bool" where
  "conn_ok c \<longleftrightarrow> (cn_reader c \<in> {Absent, Registered} \<longrightarrow> cn_writer c = Unstarted)
     \<and> (cn_reader c \<in> {Reading, Leaving, Joining} \<longrightarrow> cn_writer c \<noteq> Unstarted)
     \<and> (cn_reader c = Gone \<longrightarrow> cn_writer c \<noteq> Writing)"

definition ws_ok :: "ws \<Rightarrow> bool" where
  "ws_ok s \<longleftrightarrow> linked (ws_next s) (ws_conns s) (ws_hub s) \<and> (\<forall>a. conn_ok (ws_conns s a))
     \<and> (\<forall>a. cn_reader (ws_conns s a) = Absent \<longleftrightarrow> ws_next s \<le> a)
     \<and> ws_wg s = card {a. serving_at s a}"

lemma serving_finite: "ws_ok s \<Longrightarrow> finite {a. serving_at s a}"
proof -
  assume ok: "ws_ok s"
  have "cn_reader (ws_conns s a) = Absent \<longleftrightarrow> ws_next s \<le> a" for a using ok by (simp add: ws_ok_def)
  then have "serving_at s a \<Longrightarrow> a < ws_next s" for a unfolding serving_at_def by (metis empty_iff insert_iff not_le reader.distinct(3,5,7))
  then have "{a. serving_at s a} \<subseteq> {..<ws_next s}" by blast
  then show "finite {a. serving_at s a}" by (rule finite_subset) simp
qed

lemma ws_fields [simp]:
  "ws_hub (on_conn a f s) = ws_hub s" "ws_next (on_conn a f s) = ws_next s" "ws_wg (on_conn a f s) = ws_wg s"
  "ws_conns (on_conn a f s) = (ws_conns s)(a := f (ws_conns s a))"
  "ws_hub (on_hub g s) = g (ws_hub s)" "ws_next (on_hub g s) = ws_next s" "ws_wg (on_hub g s) = ws_wg s"
  "ws_conns (on_hub g s) = ws_conns s"
  by (simp_all add: on_conn_def on_hub_def)

lemma linked_conn:
  assumes "linked n cs h" "attached c \<longleftrightarrow> attached (cs a)" "ended c \<Longrightarrow> closed_at h a"
  shows "linked n (cs(a := c)) h"
  using assms unfolding linked_def by (auto split: if_splits)

text \<open>A connection that the hub no longer knows, and that is closed, may be let go.\<close>

lemma linked_release:
  assumes "linked n cs h" "closed_at h a" "\<And>u d. conn h u d \<noteq> Some a" "\<not> attached c"
  shows "linked n (cs(a := c)) h"
  using assms unfolding linked_def by (auto split: if_splits)

lemma ws_ok_hub:
  assumes "ws_ok s" "hub_operation g"
  shows "ws_ok (on_hub g s)"
  using assms hub_operation.keeps_linked [OF assms(2)] by (auto simp: ws_ok_def serving_at_def)

lemma ws_ok_conn:
  assumes "ws_ok s" "linked (ws_next s) ((ws_conns s)(a := f (ws_conns s a))) (ws_hub s)" "conn_ok (f (ws_conns s a))"
    and "cn_reader (f (ws_conns s a)) \<noteq> Absent" "cn_reader (ws_conns s a) \<noteq> Absent"
    and "serving_at s a \<longleftrightarrow> cn_reader (f (ws_conns s a)) \<in> {Reading, Leaving, Joining}"
  shows "ws_ok (on_conn a f s)"
proof -
  have "serving_at (on_conn a f s) b \<longleftrightarrow> serving_at s b" for b
    using assms(6) by (cases "b = a") (simp_all add: serving_at_def)
  then have "ws_wg (on_conn a f s) = card {b. serving_at (on_conn a f s) b}" using assms(1) by (simp add: ws_ok_def)
  moreover have "conn_ok (ws_conns (on_conn a f s) b)" "cn_reader (ws_conns (on_conn a f s) b) = Absent \<longleftrightarrow> ws_next s \<le> b" for b
    using assms(1,3,4,5) by (auto simp: ws_ok_def)
  ultimately show ?thesis using assms(2) by (simp add: ws_ok_def)
qed

lemma ws_ok_stop:
  assumes "ws_ok s" "cn_writer (ws_conns s a) = Writing" "closed_at (ws_hub s) a"
  shows "ws_ok (writePump_done a s)"
proof -
  have "conn_ok (ws_conns s a)" "linked (ws_next s) (ws_conns s) (ws_hub s)" using assms(1) by (auto simp: ws_ok_def)
  then show ?thesis
    unfolding writePump_done_def using assms
    by (intro ws_ok_conn linked_conn) (auto simp: conn_ok_def serving_at_def attached_def ended_def)
qed

lemma closed_close [simp]: "closed_at (close_client a h) a" "closed_at (Hub_Unregister a h) a"
  by (simp_all add: close_client_def Client_Close_def Hub_Unregister_def Let_def)

lemma hub_operations: "hub_operation (close_client a)" "hub_operation (Hub_Unregister a)" "hub_operation (pop_message a)"
    "hub_operation (deliver m a)" "hub_operation Hub_Close"
  by (rule closing.hub_operation_axioms unregistering.hub_operation_axioms popping.hub_operation_axioms
      delivering.hub_operation_axioms shutting.hub_operation_axioms)+

lemma ws_ok_fail:
  "ws_ok s \<Longrightarrow> cn_writer (ws_conns s a) = Writing \<Longrightarrow> ws_ok (writePump_done a (on_hub (close_client a) s))"
  by (rule ws_ok_stop) (simp_all add: ws_ok_hub hub_operations)


lemma Register_store:
  assumes "Hub_Register a h = (None, h')"
  shows "cl_UserID (hb_store h' b) = cl_UserID (hb_store h b)" "cl_DeviceID (hb_store h' b) = cl_DeviceID (hb_store h b)"
    "closed_at h b \<Longrightarrow> closed_at h' b"
    "conn h (cl_UserID (hb_store h a)) (cl_DeviceID (hb_store h a)) = Some b \<Longrightarrow> b \<noteq> a \<Longrightarrow> closed_at h' b"
  using assms by (auto simp: Hub_Register_def Let_def conn_def close_client_def Client_Close_def split: if_splits option.splits)

lemma linked_Suc: "linked n cs h \<Longrightarrow> \<not> attached (cs n) \<Longrightarrow> linked (Suc n) cs h"
  unfolding linked_def by (auto simp: less_Suc_eq)

lemma linked_fresh:
  assumes "linked n cs h" "\<not> ended (cs n)"
  shows "linked n cs (h\<lparr>hb_store := (hb_store h)(n := c)\<rparr>)"
proof -
  have "conn (h\<lparr>hb_store := f\<rparr>) = conn h" for f by (simp add: conn_def fun_eq_iff)
  moreover have "conn h u d \<noteq> Some n" for u d using assms(1) unfolding linked_def by blast
  ultimately show ?thesis using assms unfolding linked_def hub_ok_table by auto
qed

lemma linked_register:
  assumes "linked n cs h" "Hub_Register n h = (None, h')" "c = (cs n)\<lparr>cn_reader := Registered\<rparr>" "\<not> ended c"
  shows "linked (Suc n) (cs(n := c)) h'"
proof -
  let ?u = "cl_UserID (hb_store h n)" and ?d = "cl_DeviceID (hb_store h n)"
  have ok: "hub_ok h'" using Register_ok [OF assms(2)] assms(1) by (simp add: linked_def)
  have c: "attached c" using assms(3) by (simp add: attached_def)
  note conn' = Register_conn [OF assms(2)] and store = Register_store [OF assms(2)]
  have open_known: "conn h' (cl_UserID (hb_store h' b)) (cl_DeviceID (hb_store h' b)) = Some b"
    if "b < n" "attached (cs b)" "\<not> closed_at h' b" for b
  proof -
    have b: "conn h (cl_UserID (hb_store h b)) (cl_DeviceID (hb_store h b)) = Some b"
      using that store(3) assms(1) unfolding linked_def by blast
    then have "\<not> (cl_UserID (hb_store h b) = ?u \<and> cl_DeviceID (hb_store h b) = ?d)" using store(4) [of b] that by auto
    then show ?thesis using b unfolding conn' store(1,2) by auto
  qed
  moreover have "conn h' (cl_UserID (hb_store h' n)) (cl_DeviceID (hb_store h' n)) = Some n" unfolding conn' store(1,2) by simp
  moreover have "b < Suc n \<and> attached ((cs(n := c)) b)" if "conn h' u d = Some b" for u d b
    using that c assms(1) unfolding conn' linked_def by (fastforce split: if_splits)
  moreover have "closed_at h' b" if "ended ((cs(n := c)) b)" for b
    using that assms(1,4) store(3) unfolding linked_def by (auto split: if_splits)
  ultimately show ?thesis using ok unfolding linked_def by (auto simp: less_Suc_eq)
qed

lemma ws_ok_next:
  assumes "ws_ok s" "linked (Suc (ws_next s)) ((ws_conns s)(ws_next s := c)) h" "conn_ok c" "cn_reader c \<in> {Registered, Gone}"
  shows "ws_ok (s\<lparr>ws_next := Suc (ws_next s), ws_hub := h, ws_conns := (ws_conns s)(ws_next s := c)\<rparr>)"
proof -
  let ?s = "s\<lparr>ws_next := Suc (ws_next s), ws_hub := h, ws_conns := (ws_conns s)(ws_next s := c)\<rparr>"
  have absent: "cn_reader (ws_conns s b) = Absent \<longleftrightarrow> ws_next s \<le> b" for b using assms(1) by (simp add: ws_ok_def)
  have "serving_at ?s b \<longleftrightarrow> serving_at s b" for b
    using absent [of b] assms(4) by (cases "b = ws_next s") (auto simp: serving_at_def)
  then have "ws_wg ?s = card {b. serving_at ?s b}" using assms(1) by (simp add: ws_ok_def)
  moreover have "cn_reader (ws_conns ?s b) = Absent \<longleftrightarrow> ws_next ?s \<le> b" for b
    using absent [of b] assms(4) by (cases "b = ws_next s") auto
  moreover have "conn_ok (ws_conns ?s b)" for b using assms(1,3) by (simp add: ws_ok_def)
  ultimately show ?thesis using assms(2) by (simp add: ws_ok_def)
qed

lemma ws_ok_connect: "ws_ok s \<Longrightarrow> ws_ok (ws_connect u d s)"
proof -
  assume ok: "ws_ok s"
  let ?a = "ws_next s"
  let ?h = "(ws_hub s)\<lparr>hb_store := (hb_store (ws_hub s))(?a := NewClient u d)\<rparr>"
  have new: "cn_reader (ws_conns s ?a) = Absent" "conn_ok (ws_conns s ?a)" and link: "linked ?a (ws_conns s) (ws_hub s)"
    using ok by (auto simp: ws_ok_def)
  then have writer: "cn_writer (ws_conns s ?a) = Unstarted" by (simp add: conn_ok_def)
  have fresh: "linked ?a (ws_conns s) ?h" by (rule linked_fresh [OF link]) (simp add: ended_def new writer)
  obtain r h' where reg: "Hub_Register ?a ?h = (r, h')" by (cases "Hub_Register ?a ?h")
  show ?thesis
  proof (cases r)
    case None
    let ?c = "(ws_conns s ?a)\<lparr>cn_reader := Registered\<rparr>"
    have "linked (Suc ?a) ((ws_conns s)(?a := ?c)) h'"
      using linked_register [OF fresh reg [unfolded None]] writer by (simp add: ended_def)
    from ws_ok_next [OF ok this] show ?thesis
      using reg None writer by (simp add: ws_connect_def Let_def on_conn_def conn_ok_def)
  next
    case (Some e)
    let ?c = "(ws_conns s ?a)\<lparr>cn_reader := Gone\<rparr>"
    have "h' = ?h" using reg Some by (auto simp: Hub_Register_def Let_def split: if_splits option.splits)
    moreover have "conn (close_client ?a ?h) x y \<noteq> Some ?a" for x y
      using fresh unfolding linked_def by (auto simp del: user_clients_store)
    ultimately have "linked ?a ((ws_conns s)(?a := ?c)) (close_client ?a h')"
      using closing.keeps_linked [OF fresh, of ?a] by (intro linked_release) (simp_all add: attached_def)
    then have "linked (Suc ?a) ((ws_conns s)(?a := ?c)) (close_client ?a h')" by (rule linked_Suc) (simp add: attached_def)
    from ws_ok_next [OF ok this] show ?thesis
      using reg Some writer by (simp add: ws_connect_def Let_def on_conn_def conn_ok_def)
  qed
qed


lemma ws_ok_enter:
  assumes "ws_ok s" "cn_reader (ws_conns s a) = Registered"
  shows "ws_ok (Serve_enter a s)"
proof -
  have ok: "linked (ws_next s) (ws_conns s) (ws_hub s)" "conn_ok (ws_conns s a)" "hub_ok (ws_hub s)"
    using assms(1) by (auto simp: ws_ok_def linked_def)
  have writer: "cn_writer (ws_conns s a) = Unstarted" using ok(2) assms(2) by (simp add: conn_ok_def)
  show ?thesis
  proof (cases "hb_closed (ws_hub s)")
    case True
    have "conn (close_client a (ws_hub s)) u d \<noteq> Some a" for u d
      using True ok(3) by (simp add: hub_ok_table conn_def user_clients_def)
    then have "linked (ws_next s) ((ws_conns s)(a := (ws_conns s a)\<lparr>cn_reader := Gone\<rparr>)) (close_client a (ws_hub s))"
      using closing.keeps_linked [OF ok(1), of a] by (intro linked_release) (simp_all add: attached_def)
    then show ?thesis
      using True assms(2) writer ws_ok_hub [OF assms(1) hub_operations(1), of a]
      by (simp add: Serve_enter_def, intro ws_ok_conn) (simp_all add: conn_ok_def serving_at_def)
  next
    case False
    let ?s = "Serve_enter a s" and ?c = "(ws_conns s a)\<lparr>cn_reader := Reading, cn_writer := Writing\<rparr>"
    have s: "?s = on_conn a (\<lambda>c. c\<lparr>cn_reader := Reading, cn_writer := Writing\<rparr>) (s\<lparr>ws_wg := Suc (ws_wg s)\<rparr>)"
      using False by (simp add: Serve_enter_def)
    have "{b. serving_at ?s b} = insert a {b. serving_at s b}" "\<not> serving_at s a"
      using assms(2) by (auto simp: serving_at_def s)
    then have "ws_wg ?s = card {b. serving_at ?s b}"
      using assms(1) serving_finite [OF assms(1)] by (simp add: s ws_ok_def)
    moreover have "linked (ws_next s) ((ws_conns s)(a := ?c)) (ws_hub s)"
      using assms(2) by (intro linked_conn ok(1)) (auto simp: attached_def ended_def)
    moreover have "conn_ok (ws_conns ?s b)" for b
      using assms(1) by (cases "b = a") (simp_all add: s ws_ok_def conn_ok_def)
    moreover have "cn_reader (ws_conns ?s b) = Absent \<longleftrightarrow> ws_next s \<le> b" for b
    proof -
      have "cn_reader (ws_conns s b) = Absent \<longleftrightarrow> ws_next s \<le> b" using assms(1) by (simp add: ws_ok_def)
      then show ?thesis using assms(2) by (cases "b = a") (simp_all add: s)
    qed
    ultimately show ?thesis by (simp add: ws_ok_def s)
  qed
qed

lemma ws_ok_return:
  assumes "ws_ok s" "cn_reader (ws_conns s a) = Joining" "cn_writer (ws_conns s a) = Stopped"
  shows "ws_ok (Serve_return a s)"
proof -
  let ?s = "Serve_return a s"
  have s: "?s = on_conn a (cn_reader_update (\<lambda>_. Gone)) (s\<lparr>ws_wg := ws_wg s - 1\<rparr>)" by (simp add: Serve_return_def)
  have ok: "linked (ws_next s) (ws_conns s) (ws_hub s)" using assms(1) by (simp add: ws_ok_def)
  then have closed: "closed_at (ws_hub s) a" using assms(2) by (auto simp: linked_def ended_def)
  have "{b. serving_at ?s b} = {b. serving_at s b} - {a}" "serving_at s a"
    using assms(2) by (auto simp: serving_at_def s)
  then have "ws_wg ?s = card {b. serving_at ?s b}"
    using assms(1) by (simp add: s ws_ok_def)
  moreover have "linked (ws_next s) ((ws_conns s)(a := (ws_conns s a)\<lparr>cn_reader := Gone\<rparr>)) (ws_hub s)"
    using assms(2) closed by (intro linked_conn ok(1)) (auto simp: attached_def)
  moreover have "conn_ok (ws_conns ?s b)" "cn_reader (ws_conns ?s b) = Absent \<longleftrightarrow> ws_next s \<le> b" for b
    using assms by (auto simp: s ws_ok_def conn_ok_def)
  ultimately show ?thesis by (simp add: ws_ok_def s)
qed

lemma ws_ok_unregister:
  assumes "ws_ok s" "cn_reader (ws_conns s a) = Leaving"
  shows "ws_ok (Serve_unregister a s)"
proof -
  have ok: "linked (ws_next s) (ws_conns s) (ws_hub s)" "hub_ok (ws_hub s)" "conn_ok (ws_conns s a)"
    using assms(1) by (auto simp: ws_ok_def linked_def)
  have "linked (ws_next s) ((ws_conns s)(a := (ws_conns s a)\<lparr>cn_reader := Joining\<rparr>)) (Hub_Unregister a (ws_hub s))"
    using unregistering.keeps_linked [OF ok(1), of a]
    by (intro linked_release) (auto simp: attached_def Unregister_conn [OF ok(2)])
  then show ?thesis
    using assms(2) ok(3) ws_ok_hub [OF assms(1) hub_operations(2), of a]
    by (simp add: Serve_unregister_def, intro ws_ok_conn) (simp_all add: conn_ok_def serving_at_def)
qed

lemma ws_ok_read:
  assumes "ws_ok s" "cn_reader (ws_conns s a) = Reading"
  shows "ws_ok (readPump_fails a s)"
proof -
  have ok: "linked (ws_next s) (ws_conns s) (ws_hub s)" "conn_ok (ws_conns s a)" using assms(1) by (auto simp: ws_ok_def)
  have "closed_at (ws_hub s) a" if "cn_writer (ws_conns s a) = Stopped" using that ok(1) by (auto simp: linked_def ended_def)
  then show ?thesis
    using assms ok unfolding readPump_fails_def
    by (intro ws_ok_conn linked_conn) (auto simp: conn_ok_def serving_at_def attached_def ended_def)
qed

lemma ws_ok_send:
  assumes "ws_ok s" "cn_writer (ws_conns s a) = Writing"
  shows "ws_ok (writePump_send sent a s)"
proof (cases "cl_Send (hb_store (ws_hub s) a)")
  case Nil
  then show ?thesis using assms(1) by (simp add: writePump_send_def)
next
  case (Cons m ms)
  let ?s = "on_hub (pop_message a) s"
  have s: "ws_ok ?s" "cn_writer (ws_conns ?s a) = Writing" using assms ws_ok_hub hub_operations(3) by simp_all
  have l: "linked (ws_next ?s) (ws_conns ?s) (ws_hub ?s)" "conn_ok (ws_conns ?s a)" using s(1) by (auto simp: ws_ok_def)
  have "closed_at (ws_hub ?s) a" if "cn_reader (ws_conns s a) \<in> {Joining, Gone}"
    using that l(1) by (auto simp: linked_def ended_def)
  moreover have "cn_reader (ws_conns s a) \<noteq> Absent" using l(2) assms(2) by (auto simp: conn_ok_def)
  ultimately have "ws_ok (on_conn a (\<lambda>c. c\<lparr>cn_frames := cn_frames c @ [m]\<rparr>) ?s)"
    using s l by (intro ws_ok_conn linked_conn) (auto simp: conn_ok_def serving_at_def attached_def ended_def)
  then show ?thesis using Cons ws_ok_fail [OF s] by (simp add: writePump_send_def Let_def)
qed

lemma ws_ok_step: "ws_step s s' \<Longrightarrow> ws_ok s \<Longrightarrow> ws_ok s'"
  by (induction rule: ws_step.induct)
    (simp_all add: ws_ok_connect ws_ok_enter ws_ok_read ws_ok_unregister ws_ok_return ws_ok_send ws_ok_stop ws_ok_hub
      hub_operations writePump_ping_def ws_ok_fail)

lemma ws_reach_ok: "ws_reach s \<Longrightarrow> ws_ok s"
proof (induction rule: ws_reach.induct)
  case (reach_new objects)
  have "hub_ok (NewHub objects)" "conn (NewHub objects) u d = None" for u d
    by (simp_all add: NewHub_def hub_ok_table table_ok_def conn_def user_clients_def)
  then show ?case
    by (simp add: ws_ok_def NewServer_def linked_def ended_def conn_ok_def serving_at_def attached_def)
qed (rule ws_ok_step)


subsection \<open>The end of a shutdown\<close>

definition rank :: "connection \<Rightarrow> nat" where
  "rank c = (case cn_reader c of Reading \<Rightarrow> 3 | Leaving \<Rightarrow> 2 | Joining \<Rightarrow> 1 | _ \<Rightarrow> 0) + (if cn_writer c = Writing then 1 else 0)"

definition load :: "ws \<Rightarrow> nat" where
  "load s = (\<Sum>a < ws_next s. rank (ws_conns s a))"

lemma load_conn:
  assumes "a < ws_next s"
  shows "load (on_conn a f s) + rank (ws_conns s a) = load s + rank (f (ws_conns s a))"
proof -
  have "(\<Sum>b \<in> {..<ws_next s} - {a}. rank (((ws_conns s)(a := f (ws_conns s a))) b)) = (\<Sum>b \<in> {..<ws_next s} - {a}. rank (ws_conns s b))"
    by (rule sum.cong) auto
  then show ?thesis
    using assms by (simp add: load_def sum.remove [of "{..<ws_next s}" a])
qed

lemma load_hub [simp]: "load (on_hub g s) = load s"
  by (simp add: load_def)

lemma load_lower:
  assumes "ws_ok s" "cn_reader (ws_conns s a) \<noteq> Absent"
  shows "rank (f (ws_conns s a)) \<le> rank (ws_conns s a) \<Longrightarrow> load (on_conn a f s) \<le> load s"
    "rank (f (ws_conns s a)) < rank (ws_conns s a) \<Longrightarrow> load (on_conn a f s) < load s"
proof -
  have "cn_reader (ws_conns s a) = Absent \<longleftrightarrow> ws_next s \<le> a" using assms(1) by (simp add: ws_ok_def)
  then have "a < ws_next s" using assms(2) by auto
  note l = load_conn [OF this, of f]
  show "rank (f (ws_conns s a)) \<le> rank (ws_conns s a) \<Longrightarrow> load (on_conn a f s) \<le> load s"
    "rank (f (ws_conns s a)) < rank (ws_conns s a) \<Longrightarrow> load (on_conn a f s) < load s" using l by linarith+
qed

lemma load_wg: "load (s\<lparr>ws_wg := n\<rparr>) = load s"
  by (simp add: load_def)

lemma load_bound:
  assumes "ws_ok s"
  shows "load s \<le> 4 * ws_wg s"
proof -
  have each: "rank (ws_conns s a) \<le> (if serving_at s a then 4 else 0)" for a
  proof -
    have "conn_ok (ws_conns s a)" using assms by (simp add: ws_ok_def)
    then show ?thesis by (cases "cn_reader (ws_conns s a)") (auto simp: rank_def serving_at_def conn_ok_def)
  qed
  have "load s \<le> (\<Sum>a < ws_next s. if serving_at s a then 4 else 0)" unfolding load_def by (intro sum_mono each)
  also have "\<dots> = 4 * card {a \<in> {..<ws_next s}. serving_at s a}" by (simp add: sum.If_cases Int_def)
  also have "\<dots> \<le> 4 * ws_wg s"
    using assms card_mono [OF serving_finite [OF assms], of "{a \<in> {..<ws_next s}. serving_at s a}"] by (auto simp: ws_ok_def)
  finally show ?thesis .
qed

lemma closed_connections:
  assumes "ws_ok s" "hb_closed (ws_hub s)" "serving_at s a"
  shows "closed_at (ws_hub s) a"
proof (rule ccontr)
  assume c: "\<not> closed_at (ws_hub s) a"
  have ok: "linked (ws_next s) (ws_conns s) (ws_hub s)" "cn_reader (ws_conns s a) = Absent \<longleftrightarrow> ws_next s \<le> a"
    using assms(1) by (simp_all add: ws_ok_def)
  have "conn (ws_hub s) u d = None" for u d
    using assms(2) ok(1) by (simp add: linked_def hub_ok_table conn_def user_clients_def)
  moreover have "attached (ws_conns s a)" "a < ws_next s"
    using assms(3) ok c by (auto simp: serving_at_def attached_def linked_def ended_def)
  ultimately show False using ok(1) c by (simp add: linked_def)
qed

lemma load_on [simp]: "load (on_conn a f (on_hub g s)) = load (on_conn a f s)" "load (on_conn a f (s\<lparr>ws_wg := n\<rparr>)) = load (on_conn a f s)"
  by (simp_all add: load_def)

lemma connect_closed:
  assumes "hb_closed (ws_hub s)" "ws_ok s"
  shows "hb_closed (ws_hub (ws_connect userID deviceID s)) \<and> load (ws_connect userID deviceID s) = load s"
proof -
  have "cn_reader (ws_conns s (ws_next s)) = Absent" "conn_ok (ws_conns s (ws_next s))" using assms(2) by (simp_all add: ws_ok_def)
  then have "cn_writer (ws_conns s (ws_next s)) = Unstarted" by (simp add: conn_ok_def)
  then show ?thesis
    using assms(1) by (auto simp: ws_connect_def Let_def Hub_Register_def load_def rank_def)
qed

lemma step_load:
  assumes "ws_step s s'" "ws_ok s" "hb_closed (ws_hub s)"
  shows "hb_closed (ws_hub s') \<and> load s' \<le> load s"
proof -
  have ok: "hub_ok (ws_hub s)" using assms(2) by (simp add: ws_ok_def linked_def)
  have still: "hb_closed (g (ws_hub s))" if "hub_operation g" for g
    using hub_operation.keeps_closed [OF that ok assms(3)] .
  have writing: "cn_reader (ws_conns s a) \<noteq> Absent" if "cn_writer (ws_conns s a) = Writing" for a
  proof -
    have "conn_ok (ws_conns s a)" using assms(2) by (simp add: ws_ok_def)
    then show ?thesis using that by (auto simp: conn_ok_def)
  qed
  have less: "load (on_conn a f s) \<le> load s" if "cn_reader (ws_conns s a) \<noteq> Absent" "rank (f (ws_conns s a)) \<le> rank (ws_conns s a)" for a f
    using load_lower(1) [OF assms(2) that(1), where f = f] that(2) by blast
  have stop: "load (on_conn a (cn_writer_update (\<lambda>_. Stopped)) s) \<le> load s" if "cn_writer (ws_conns s a) = Writing" for a
    using writing [OF that] by (intro less) (simp_all add: rank_def)
  have popped: "hb_closed (pop_message a (ws_hub s))" for a by (rule still [OF hub_operations(3)])
  show ?thesis
    using assms(1)
  proof cases
    case (step_connect userID deviceID)
    then show ?thesis using connect_closed [OF assms(3,2)] by simp
  next
    case (step_enter a)
    then have "load (on_conn a (cn_reader_update (\<lambda>_. Gone)) s) \<le> load s" by (intro less) (simp_all add: rank_def)
    then show ?thesis using step_enter assms(3) by (simp add: Serve_enter_def)
  next
    case (step_read a)
    then have "load (on_conn a (cn_reader_update (\<lambda>_. Leaving)) s) \<le> load s" by (intro less) (simp_all add: rank_def)
    then show ?thesis using step_read assms(3) by (simp add: readPump_fails_def)
  next
    case (step_unregister a)
    then have "load (on_conn a (cn_reader_update (\<lambda>_. Joining)) s) \<le> load s" by (intro less) (simp_all add: rank_def)
    then show ?thesis using step_unregister assms(3) by (simp add: Serve_unregister_def)
  next
    case (step_return a)
    then have "load (on_conn a (cn_reader_update (\<lambda>_. Gone)) s) \<le> load s" by (intro less) (simp_all add: rank_def)
    then show ?thesis using step_return assms(3) by (simp add: Serve_return_def)
  next
    case (step_send a sent)
    have "load (on_conn a (\<lambda>c. c\<lparr>cn_frames := cn_frames c @ [m]\<rparr>) s) \<le> load s" for m
      using writing [OF step_send(2)] by (intro less) (simp_all add: rank_def)
    then show ?thesis
      using step_send stop assms(3) popped
      by (auto simp: writePump_send_def Let_def writePump_done_def load_def on_hub_def split: list.splits)
  next
    case (step_ping a sent)
    then show ?thesis using stop assms(3) by (auto simp: writePump_ping_def writePump_done_def)
  next
    case (step_done a)
    then show ?thesis using stop assms(3) by (simp add: writePump_done_def)
  next
    case (step_deliver message a)
    then show ?thesis using still [OF hub_operations(4)] by simp
  next
    case step_close
    then show ?thesis using still [OF hub_operations(5)] by simp
  qed
qed

text \<open>Some goroutine of every connection can move towards its end.\<close>

lemma step_towards_end:
  assumes "ws_ok s" "hb_closed (ws_hub s)" "serving_at s a"
  shows "\<exists>s' \<in> {readPump_fails a s, Serve_unregister a s, Serve_return a s, writePump_done a s}. ws_step s s' \<and> load s' < load s"
proof -
  have ok: "conn_ok (ws_conns s a)" using assms(1) by (simp add: ws_ok_def)
  have present: "cn_reader (ws_conns s a) \<noteq> Absent" using assms(3) by (auto simp: serving_at_def)
  note lower = load_lower(2) [OF assms(1) present] and closed = closed_connections [OF assms]
  consider "cn_reader (ws_conns s a) = Reading" | "cn_reader (ws_conns s a) = Leaving"
    | "cn_reader (ws_conns s a) = Joining" "cn_writer (ws_conns s a) = Writing"
    | "cn_reader (ws_conns s a) = Joining" "cn_writer (ws_conns s a) = Stopped"
    using assms(3) ok by (cases "cn_writer (ws_conns s a)") (auto simp: serving_at_def conn_ok_def)
  then show ?thesis
  proof cases
    case 1
    then have "load (readPump_fails a s) < load s"
      using lower [of "cn_reader_update (\<lambda>_. Leaving)"] by (simp add: rank_def readPump_fails_def)
    then show ?thesis using step_read [OF 1] by blast
  next
    case 2
    then have "load (Serve_unregister a s) < load s"
      using lower [of "cn_reader_update (\<lambda>_. Joining)"] by (simp add: rank_def Serve_unregister_def)
    then show ?thesis using step_unregister [OF 2] by blast
  next
    case 3
    then have "load (writePump_done a s) < load s"
      using lower [of "cn_writer_update (\<lambda>_. Stopped)"] by (simp add: rank_def writePump_done_def)
    then show ?thesis using step_done [OF 3(2) closed] by blast
  next
    case 4
    then have "load (Serve_return a s) < load s"
      using lower [of "cn_reader_update (\<lambda>_. Gone)"] by (simp add: rank_def Serve_return_def)
    then show ?thesis using step_return [OF 4] by blast
  qed
qed


lemma Hub_Close_closed: "hb_closed (Hub_Close h)"
proof -
  have "hb_closed (fold close_client as k) = hb_closed k" for as k by (induction as arbitrary: k) simp_all
  then show ?thesis by (simp add: Hub_Close_def Let_def)
qed


end
