(* ===== verification/Processes.thy ===== *)
theory Processes
  imports Server_Request Storage_Client Connections
begin

section \<open>The processes\<close>

text \<open>
  The start of the three programs of \<open>cmd\<close>, from the configuration to the parts that they are made of, the
  loop of the worker, and the handler that opens a websocket. The record \<open>externals\<close> holds what lies
  outside: the connection pool of the database driver, the identity provider at a URL, the JWT library,
  the HTTP transport and the Unicode tables. Sockets, signals and the wait for the end are not modelled.
\<close>

datatype log_level = LevelDebug | LevelInfo | LevelWarn | LevelError

definition newLogger :: "(string \<Rightarrow> string) \<Rightarrow> string \<Rightarrow> log_level" where
  "newLogger lowercase level = (let l = lowercase (TrimSpace level) in
     if l = ''debug'' then LevelDebug else if l = ''warn'' then LevelWarn else if l = ''error'' then LevelError else LevelInfo)"

record externals =
  ex_env :: env
  ex_lowercase :: "string \<Rightarrow> string"
  ex_urls :: urls
  ex_transport :: transport
  ex_media :: media
  ex_ParseConfig :: "string \<Rightarrow> string option"
  ex_NewWithConfig :: "string \<Rightarrow> int \<Rightarrow> string option"
  ex_PingPool :: "string option"
  ex_provider :: "string \<Rightarrow> nat \<Rightarrow> jwks_answer"
  ex_header :: "string \<Rightarrow> jwt_header option"
  ex_valid :: "string \<Rightarrow> string \<Rightarrow> PublicKey \<Rightarrow> time \<Rightarrow> string \<Rightarrow> string option"
  ex_expired :: "int \<Rightarrow> nat \<Rightarrow> bool"

datatype start_error = Config_failed config_error | Database_failed string | Verifier_failed | Storage_failed string

text \<open>\<open>store.Open\<close>: the first error, if any.\<close>

definition Open :: "externals \<Rightarrow> Config \<Rightarrow> string option" where
  "Open X cfg = (case ex_ParseConfig X (cf_DatabaseURL cfg) of
     Some err \<Rightarrow> Some err
   | None \<Rightarrow> (case ex_NewWithConfig X (cf_DatabaseURL cfg) (cf_MaxDBConnections cfg) of
       Some err \<Rightarrow> Some err
     | None \<Rightarrow> ex_PingPool X))"

definition config_verifier :: "externals \<Rightarrow> Config \<Rightarrow> Verifier" where
  "config_verifier X cfg = \<lparr>vf_issuer = cf_JWTIssuer cfg, vf_audience = cf_JWTAudience cfg,
     vf_endpoint = ex_provider X (cf_JWTJWKSURL cfg), vf_clock = e_clock (ex_env X),
     vf_parse_uuid = c_parse_uuid (e_codec (ex_env X)), vf_header = ex_header X, vf_valid = ex_valid X\<rparr>"

definition config_client :: "externals \<Rightarrow> Config \<Rightarrow> string + StorageClient" where
  "config_client X cfg = Storage_NewClient (ex_urls X) (cf_SupabaseURL cfg) (cf_SupabaseSecretKey cfg) (cf_SupabaseStorageHTTPTimeout cfg)"

text \<open>\<open>cmd/api\<close>: the services and the verifier with its keys, before the first request.\<close>

definition api_main :: "externals \<Rightarrow> string list option \<Rightarrow> environ \<Rightarrow> world \<Rightarrow> start_error + (api \<times> server)" where
  "api_main X file e w = (case Load (ex_lowercase X) file e of
     Inl err \<Rightarrow> Inl (Config_failed err)
   | Inr cfg \<Rightarrow> (case Open X cfg of
       Some err \<Rightarrow> Inl (Database_failed err)
     | None \<Rightarrow> (case NewVerifier (config_verifier X cfg) (w_tick w) of
         None \<Rightarrow> Inl Verifier_failed
       | Some (verifier, keys) \<Rightarrow> (case config_client X cfg of
           Inl err \<Rightarrow> Inl (Storage_failed err)
         | Inr client \<Rightarrow>
             Inr (\<lparr>ap_env = ex_env X, ap_sync = Sync_NewService cfg True,
                    ap_uploads = Upload_NewService (client_storage (ex_urls X) (ex_transport X) client) (ex_media X) cfg,
                    ap_verifier = verifier, ap_expired = ex_expired X (cf_RequestTimeout cfg)\<rparr>,
                  \<lparr>sr_world = tick w, sr_keys = keys\<rparr>)))))"

text \<open>\<open>cmd/worker\<close>: the worker and its cleaner.\<close>

definition worker_main :: "externals \<Rightarrow> string list option \<Rightarrow> environ \<Rightarrow> world \<Rightarrow> start_error + (Worker \<times> Cleaner \<times> world)" where
  "worker_main X file e w = (case Load (ex_lowercase X) file e of
     Inl err \<Rightarrow> Inl (Config_failed err)
   | Inr cfg \<Rightarrow> (case Open X cfg of
       Some err \<Rightarrow> Inl (Database_failed err)
     | None \<Rightarrow> (case config_client X cfg of
         Inl err \<Rightarrow> Inl (Storage_failed err)
       | Inr client \<Rightarrow> (case NewWorker (ex_env X) [] w of
           (Inl _, w') \<Rightarrow> Inl (Database_failed [])
         | (Inr worker, w') \<Rightarrow>
             Inr (worker, NewCleaner (client_storage (ex_urls X) (ex_transport X) client) (ex_media X)
               (cf_SupabaseStorageCleanupGrace cfg), w')))))"

text \<open>\<open>cmd/websocket\<close>: the verifier and an empty hub.\<close>

definition websocket_main :: "externals \<Rightarrow> string list option \<Rightarrow> environ \<Rightarrow> (nat \<Rightarrow> Client) \<Rightarrow> world \<Rightarrow>
    start_error + (Verifier \<times> server \<times> ws)" where
  "websocket_main X file e objects w = (case Load (ex_lowercase X) file e of
     Inl err \<Rightarrow> Inl (Config_failed err)
   | Inr cfg \<Rightarrow> (case Open X cfg of
       Some err \<Rightarrow> Inl (Database_failed err)
     | None \<Rightarrow> (case NewVerifier (config_verifier X cfg) (w_tick w) of
         None \<Rightarrow> Inl Verifier_failed
       | Some (verifier, keys) \<Rightarrow> Inr (verifier, \<lparr>sr_world = tick w, sr_keys = keys\<rparr>, NewServer objects))))"

subsection \<open>The loop of the worker\<close>

text \<open>
  \<open>Worker.Run\<close>, for a given sequence of what the context and the ticker do: whether the context is
  cancelled when an iteration begins, and what ends the wait of an idle iteration. The result tells
  whether the loop has returned (with the error of the context).
\<close>

datatype wait = Wait_cancelled | Wait_ticked

fun Run :: "env \<Rightarrow> job_codec \<Rightarrow> Worker \<Rightarrow> Cleaner option \<Rightarrow> (bool \<times> wait) list \<Rightarrow> time option \<Rightarrow> world \<Rightarrow>
    bool \<times> time option \<times> world" where
  "Run env jc wk cleaner [] lastCleanup w = (False, lastCleanup, w)"
| "Run env jc wk cleaner ((cancelled, waited) # schedule) lastCleanup w =
     (if cancelled then (True, lastCleanup, w)
      else case ProcessOnce env jc wk w of (r, w1) \<Rightarrow>
        let worked = (case r of Inl _ \<Rightarrow> False | Inr (b, _) \<Rightarrow> b) in
        if \<not> worked \<and> waited = Wait_cancelled then (True, lastCleanup, w1)
        else case maybeCleanup env cleaner lastCleanup w1 of (r2, w2) \<Rightarrow>
          Run env jc wk cleaner schedule (case r2 of Inl _ \<Rightarrow> lastCleanup | Inr t \<Rightarrow> t) w2)"

subsection \<open>Opening a websocket\<close>

datatype ws_reply = Ws_error error_envelope | Ws_upgrade_failed | Ws_connected nat | Ws_refused

text \<open>\<open>Handler.ServeHTTP\<close> up to \<open>Serve\<close>; the library may fail to upgrade the request.\<close>

definition Handler_ServeHTTP :: "env \<Rightarrow> bool \<Rightarrow> string \<Rightarrow> http_context \<Rightarrow> world \<Rightarrow> ws \<Rightarrow> ws_reply \<times> world \<times> ws" where
  "Handler_ServeHTTP env upgraded deviceID ctx w s =
     (case Realtime_admit env (UserIDFromContext ctx) deviceID w of
        (Inl err, w') \<Rightarrow> (Ws_error (WriteError (RequestIDFromContext ctx) err), w', s)
      | (Inr (userID, device), w') \<Rightarrow>
          if \<not> upgraded then (Ws_upgrade_failed, w', s)
          else let s' = ws_connect userID device s in
            (if cn_reader (ws_conns s' (ws_next s)) = Registered then Ws_connected (ws_next s) else Ws_refused, w', s'))"

text \<open>
  The router of \<open>cmd/websocket\<close>: no time limit, since a connection stays open. None of its handlers
  panics, so \<open>Recovery\<close> shows in the replies of the two public routes only.
\<close>

datatype ws_route = Ws_health | Ws_ready | Ws_realtime string

datatype ws_answer = Ws_http reply | Ws_socket ws_reply

definition realtime_endpoint :: "env \<Rightarrow> Verifier \<Rightarrow> bool \<Rightarrow> string \<Rightarrow> string \<Rightarrow> ws \<Rightarrow> http_context \<Rightarrow> server \<Rightarrow> (ws_reply \<times> ws) \<times> server" where
  "realtime_endpoint env v upgraded authorization deviceID h ctx s =
     (case Auth_Middleware v (w_tick (sr_world s)) authorization (sr_keys s) of
        (None, c) \<Rightarrow> ((Ws_error (WriteError (RequestIDFromContext ctx) Unauthorized), h),
                     s\<lparr>sr_world := tick (sr_world s), sr_keys := c\<rparr>)
      | (Some claims, c) \<Rightarrow>
          (case Handler_ServeHTTP env upgraded deviceID (WithClaims ctx claims) (tick (sr_world s)) h of
             (r, w, h') \<Rightarrow> ((r, h'), s\<lparr>sr_world := w, sr_keys := c\<rparr>)))"

definition websocket_router :: "env \<Rightarrow> Verifier \<Rightarrow> bool \<Rightarrow> string \<Rightarrow> string \<Rightarrow> ws_route \<Rightarrow> ws \<Rightarrow> server \<Rightarrow>
    (string \<times> ws_answer \<times> ws) \<times> server" where
  "websocket_router env v upgraded given authorization r h =
     (let public = (\<lambda>handle ctx s. case Recovery (RateLimit (Some AllowAllLimiter) (on_world handle)) ctx s of
                      (rep, s') \<Rightarrow> ((Ws_http rep, h), s')) in
      RequestID env given (case r of
          Ws_health \<Rightarrow> public Handle_health
        | Ws_ready \<Rightarrow> public (Handle_ready env)
        | Ws_realtime deviceID \<Rightarrow> (\<lambda>ctx s. case realtime_endpoint env v upgraded authorization deviceID h ctx s of
            ((rep, h'), s') \<Rightarrow> ((Ws_socket rep, h'), s'))))"


subsection \<open>What the processes keep\<close>

text \<open>A loop whose context is cancelled at some point returns.\<close>

lemma Run_returns: "list_ex fst schedule \<Longrightarrow> fst (Run env jc wk cleaner schedule lastCleanup w)"
proof (induction schedule arbitrary: lastCleanup w)
  case (Cons step schedule)
  then show ?case by (cases step) (auto simp: Let_def split: prod.splits)
qed simp

lemma Run_duty:
  assumes "\<And>cl. cleaner = Some cl \<Longrightarrow> cl_media cl = md" "on_duty md c w"
  shows "on_duty md c (snd (snd (Run env jc wk cleaner schedule lastCleanup w)))
    \<and> w_tick w \<le> w_tick (snd (snd (Run env jc wk cleaner schedule lastCleanup w)))"
  using assms(2)
proof (induction schedule arbitrary: lastCleanup w)
  case (Cons step schedule)
  obtain cancelled waited where step: "step = (cancelled, waited)" by (cases step)
  obtain r w1 where p: "ProcessOnce env jc wk w = (r, w1)" by (cases "ProcessOnce env jc wk w")
  obtain r2 w2 where m: "maybeCleanup env cleaner lastCleanup w1 = (r2, w2)" by (cases "maybeCleanup env cleaner lastCleanup w1")
  have one: "on_duty md c w1" "w_tick w \<le> w_tick w1"
    using duty_ProcessOnce [of md c env jc wk] Cons.prems p tx_stable_tick [OF stable_background(1) p]
    by (auto simp: preserves_def)
  have clean: "preserves (on_duty md c) (maybeCleanup env cleaner lastCleanup)" using assms(1) by (rule duty_maybeCleanup)
  have two: "on_duty md c w2" "w_tick w1 \<le> w_tick w2"
    using clean one(1) m tx_stable_tick [OF stable_background(2) m] by (auto simp: preserves_def)
  have ih: "on_duty md c (snd (snd (Run env jc wk cleaner schedule next_cleanup w2)))
      \<and> w_tick w \<le> w_tick (snd (snd (Run env jc wk cleaner schedule next_cleanup w2)))" for next_cleanup
    using Cons.IH [OF two(1), of next_cleanup] one(2) two(2) by linarith
  show ?case using ih one Cons.prems by (simp add: step p m Let_def)
qed simp

lemma api_main_Inr:
  assumes "api_main X file e w = Inr (a, s)"
  obtains cfg client keys where "Load (ex_lowercase X) file e = Inr cfg"
    "NewVerifier (config_verifier X cfg) (w_tick w) = Some (config_verifier X cfg, keys)" "ap_sync a = Sync_NewService cfg True"
    "ap_uploads a = Upload_NewService (client_storage (ex_urls X) (ex_transport X) client) (ex_media X) cfg"
    "ap_verifier a = config_verifier X cfg" "s = \<lparr>sr_world = tick w, sr_keys = keys\<rparr>"
proof -
  obtain cfg where cfg: "Load (ex_lowercase X) file e = Inr cfg" using assms by (auto simp: api_main_def split: sum.splits)
  obtain v keys where v: "NewVerifier (config_verifier X cfg) (w_tick w) = Some (v, keys)"
    using assms cfg by (auto simp: api_main_def split: sum.splits option.splits)
  have "v = config_verifier X cfg" using NewVerifier_cache [OF v] by simp
  then show ?thesis
    using assms cfg v that by (auto simp: api_main_def split: sum.splits option.splits)
qed

lemma worker_main_media: "worker_main X file e w = Inr (wk, cl, w') \<Longrightarrow> cl_media cl = ex_media X"
  by (auto simp: worker_main_def NewCleaner_def split: sum.splits option.splits prod.splits)

lemma NewVerifier_keys: "NewVerifier v n = Some (v', keys) \<Longrightarrow> jw_keys keys \<noteq> Map.empty"
proof -
  have some: "usable_keys raws keys \<noteq> Map.empty" if "keys \<noteq> Map.empty \<or> list_ex usable raws" for raws keys
    using that
  proof (induction raws arbitrary: keys)
    case (Cons raw raws)
    have "keys(jk_Kid raw := rsaPublicKey (jk_N raw) (jk_E raw)) \<noteq> Map.empty" if "usable raw"
      using that by (auto simp: usable_def fun_upd_eqD)
    then show ?case using Cons by auto
  qed simp
  assume "NewVerifier v n = Some (v', keys)"
  then show ?thesis
    by (auto simp: NewVerifier_def refresh_def some split: jwks_answer.splits option.splits if_splits prod.splits)
qed

text \<open>
  The websocket handler opens connections for devices of the user only, and never for a revoked one.
\<close>

lemma Realtime_admit_Inr:
  assumes "Realtime_admit env user deviceID w = (Inr (userID, device), w')"
  shows "user = Some userID \<and> device = deviceID \<and> active_device (w_core w) deviceID userID \<and> w_core w' = w_core w"
  using assms
  by (auto simp: Realtime_admit_def GetDeviceForOwner_def GetDeviceForOwner_sql_def active_device_def find_Some_iff run_simps
      tick_def split: if_splits option.splits)

lemma ServeHTTP_connected:
  assumes "Handler_ServeHTTP env upgraded deviceID ctx w s = (Ws_connected a, w', s')"
  shows "\<exists>userID. UserIDFromContext ctx = Some userID \<and> active_device (w_core w) deviceID userID
    \<and> s' = ws_connect userID deviceID s \<and> a = ws_next s \<and> w_core w' = w_core w"
  using assms by (auto simp: Handler_ServeHTTP_def Let_def split: sum.splits prod.splits if_splits dest!: Realtime_admit_Inr)

text \<open>
  A socket is opened only for a token that the verifier accepts, and only for an active device of the
  user whom the token names; the database stays as it is.
\<close>

lemma websocket_opened:
  assumes "websocket_router env v upgraded given authorization r h s = ((i, Ws_socket (Ws_connected a), h'), s')"
  shows "\<exists>deviceID claims n keys userID. r = Ws_realtime deviceID
    \<and> Auth_Middleware v n authorization (sr_keys s) = (Some claims, keys) \<and> userID = cl_UserID_claim claims
    \<and> active_device (w_core (sr_world s)) deviceID userID \<and> h' = ws_connect userID deviceID h
    \<and> w_core (sr_world s') = w_core (sr_world s)"
proof (cases r)
  case (Ws_realtime deviceID)
  obtain ctx s1 where run: "realtime_endpoint env v upgraded authorization deviceID h ctx s1 = ((Ws_connected a, h'), s')"
    and s1: "sr_keys s1 = sr_keys s" "w_core (sr_world s1) = w_core (sr_world s)"
    using assms Ws_realtime
    by (auto simp: websocket_router_def RequestID_def Let_def tick_def split: prod.splits if_splits)
  obtain claims keys where auth: "Auth_Middleware v (w_tick (sr_world s1)) authorization (sr_keys s) = (Some claims, keys)"
    using run s1(1) by (auto simp: realtime_endpoint_def split: prod.splits option.splits)
  obtain w' where serve: "Handler_ServeHTTP env upgraded deviceID (WithClaims ctx claims) (tick (sr_world s1)) h = (Ws_connected a, w', h')"
    and s': "sr_world s' = w'"
    using run s1(1) auth by (auto simp: realtime_endpoint_def split: prod.splits)
  have user: "UserIDFromContext (WithClaims ctx claims) = Some (cl_UserID_claim claims)"
    by (simp add: UserIDFromContext_def WithClaims_def ClaimsFromContext_def)
  show ?thesis
    using ServeHTTP_connected [OF serve] user auth s1(2) s' Ws_realtime by (auto simp: tick_def)
qed (use assms in \<open>auto simp: websocket_router_def RequestID_def Let_def split: prod.splits\<close>)

end
