(* ===== verification/Dev_Auth.thy ===== *)
theory Dev_Auth
  imports Auth Config
begin

section \<open>The development identity provider\<close>

text \<open>
  \<open>cmd/devauth\<close>: it generates an RSA key, a key set and a signed token, serves the key set, and verifies
  a token. The parser of command-line flags gives the values that were set; RSA key generation, the JWT
  library, and the text forms of documents and keys are outside. That the server accepts what is
  generated here is the liveness side of authentication.
\<close>

record RegisteredClaims =
  rg_Issuer :: string
  rg_Subject :: string
  rg_Audience :: "string list"
  rg_ExpiresAt :: time
  rg_NotBefore :: time
  rg_IssuedAt :: time
  rg_ID :: string

record PrivateKey =
  pv_PublicKey :: PublicKey
  pv_Secret :: nat

record dev_metadata =
  dm_Issuer :: string
  dm_Audience :: string
  dm_Subject :: string
  dm_KeyID :: string
  dm_Algorithm :: string
  dm_IssuedAt :: time
  dm_ExpiresAt :: time
  dm_JWKSURL :: string

text \<open>
  The JWT library: signing with RS256 and a key identifier, reading the header, and the checks of
  signature, issuer, audience and times at a given moment.
\<close>

record jwt_library =
  jl_SignedString :: "PrivateKey \<Rightarrow> string \<Rightarrow> RegisteredClaims \<Rightarrow> string + string"
  jl_header :: "string \<Rightarrow> jwt_header option"
  jl_valid :: "string \<Rightarrow> string \<Rightarrow> PublicKey \<Rightarrow> time \<Rightarrow> string \<Rightarrow> string option"

record dev_env =
  de_environ :: environ
  de_now :: time
  de_NewSubject :: uuid
  de_NewKid :: uuid
  de_NewID :: uuid
  de_format_uuid :: "uuid \<Rightarrow> string"
  de_parse_uuid :: "string \<Rightarrow> uuid option"
  de_GenerateKey :: "string + PrivateKey"
  de_jwt :: jwt_library
  de_MkdirAll :: "string \<Rightarrow> string option"
  de_WriteFile :: "string \<Rightarrow> string option"

subsection \<open>Helpers\<close>

definition envOrDefault :: "environ \<Rightarrow> string \<Rightarrow> string \<Rightarrow> string" where
  "envOrDefault e key fallback = (let value = TrimSpace (e key) in if value \<noteq> [] then value else fallback)"

fun firstNonEmpty :: "string list \<Rightarrow> string" where
  "firstNonEmpty [] = []"
| "firstNonEmpty (value # values) = (if TrimSpace value \<noteq> [] then TrimSpace value else firstNonEmpty values)"

definition subjectUUID :: "dev_env \<Rightarrow> string \<Rightarrow> string + uuid" where
  "subjectUUID E raw = (let raw = TrimSpace raw in
     if raw = [] then Inr (de_NewSubject E)
     else case de_parse_uuid E raw of None \<Rightarrow> Inl ''subject must be a UUID'' | Some parsed \<Rightarrow> Inr parsed)"

text \<open>\<open>big.Int.Bytes\<close>: big-endian, without leading zeros.\<close>

function be_bytes :: "nat \<Rightarrow> nat list" where
  "be_bytes n = (if n = 0 then [] else be_bytes (n div 256) @ [n mod 256])"
  by auto
termination by (relation "measure id") auto

declare be_bytes.simps [simp del]

text \<open>\<open>base64.RawURLEncoding.EncodeToString\<close>\<close>

definition b64_char :: "nat \<Rightarrow> char" where
  "b64_char v = char_of (if v < 26 then 65 + v else if v < 52 then 71 + v else if v < 62 then v - 4
     else if v = 62 then 45 else 95)"

fun b64_sextets :: "nat list \<Rightarrow> nat list" where
  "b64_sextets [] = []"
| "b64_sextets [x] = [x div 4, x mod 4 * 16]"
| "b64_sextets [x, y] = [x div 4, x mod 4 * 16 + y div 16, y mod 16 * 4]"
| "b64_sextets (x # y # z # r) =
     [x div 4, x mod 4 * 16 + y div 16, y mod 16 * 4 + z div 64, z mod 64] @ b64_sextets r"

definition b64_encode :: "nat list \<Rightarrow> string" where
  "b64_encode bs = map b64_char (b64_sextets bs)"

definition publicJWK :: "PublicKey \<Rightarrow> string \<Rightarrow> jwkKey" where
  "publicJWK key kid = \<lparr>jk_Kty = ''RSA'', jk_Kid = kid, jk_Use = ''sig'', jk_Alg = ''RS256'',
     jk_N = b64_encode (be_bytes (pk_N key)), jk_E = b64_encode (be_bytes (nat \<bar>pk_E key\<bar>))\<rparr>"

text \<open>The loop and \<open>rsaPublicKey\<close> are those of \<open>internal/auth/jwks.go\<close>.\<close>

definition publicKeys :: "keySet option \<Rightarrow> string + (string \<rightharpoonup> PublicKey)" where
  "publicKeys data = (case data of
     None \<Rightarrow> Inl ''json''
   | Some ks \<Rightarrow> if \<not> list_ex usable (ks_Keys ks) then Inl ''jwks contained no usable RSA keys''
       else Inr (usable_keys (ks_Keys ks) Map.empty))"

subsection \<open>\<open>generate\<close>\<close>

record generate_flags =
  gf_out :: "string option"
  gf_issuer :: "string option"
  gf_audience :: "string option"
  gf_subject :: "string option"
  gf_kid :: "string option"
  gf_days :: "int option"
  gf_jwks_url :: "string option"

definition flag_value :: "'a option \<Rightarrow> 'a \<Rightarrow> 'a" where
  "flag_value f v = (case f of None \<Rightarrow> v | Some x \<Rightarrow> x)"

abbreviation (input) "defaultOutDir \<equiv> ''.dev/auth''"
abbreviation (input) "defaultIssuer \<equiv> ''notes-dev''"
abbreviation (input) "defaultAudience \<equiv> ''notes-api''"
abbreviation (input) "defaultJWKSURL \<equiv> ''http://localhost:8081/.well-known/jwks.json''"

text \<open>The contents of a file, before it is printed as PEM or as JSON, or plain text.\<close>

datatype dev_file = PEM_file PrivateKey | JWKS_file keySet | Metadata_file dev_metadata | Text_file string

definition keyID_of :: "dev_env \<Rightarrow> string \<Rightarrow> string + string" where
  "keyID_of E kid = (let keyID = TrimSpace kid in
     if keyID \<noteq> [] then Inr keyID
     else let raw = filter (\<lambda>c. c \<noteq> CHR ''-'') (de_format_uuid E (de_NewKid E)) in
       if length raw < 12 then Inl ''panic: slice bounds out of range'' else Inr (''dev-'' @ take 12 raw))"

definition dev_claims :: "dev_env \<Rightarrow> string \<Rightarrow> string \<Rightarrow> uuid \<Rightarrow> int \<Rightarrow> RegisteredClaims" where
  "dev_claims E issuer audience userID days =
     \<lparr>rg_Issuer = TrimSpace issuer, rg_Subject = de_format_uuid E userID, rg_Audience = [TrimSpace audience],
      rg_ExpiresAt = de_now E + int64 (int64 (days * 24) * (3600 * second)), rg_NotBefore = de_now E,
      rg_IssuedAt = de_now E, rg_ID = de_format_uuid E (de_NewID E)\<rparr>"

definition dev_files :: "PrivateKey \<Rightarrow> string \<Rightarrow> RegisteredClaims \<Rightarrow> string \<Rightarrow> string \<Rightarrow> (string \<times> dev_file) list" where
  "dev_files privateKey keyID claims signedToken jwksURL =
     [(''private_key.pem'', PEM_file privateKey),
      (''jwks.json'', JWKS_file \<lparr>ks_Keys = [publicJWK (pv_PublicKey privateKey) keyID]\<rparr>),
      (''token.txt'', Text_file (signedToken @ [CHR 0x0A])),
      (''metadata.json'', Metadata_file \<lparr>dm_Issuer = rg_Issuer claims, dm_Audience = hd (rg_Audience claims),
         dm_Subject = rg_Subject claims, dm_KeyID = keyID, dm_Algorithm = ''RS256'', dm_IssuedAt = rg_IssuedAt claims,
         dm_ExpiresAt = rg_ExpiresAt claims, dm_JWKSURL = TrimSpace jwksURL\<rparr>),
      (''env'', Text_file (''JWT_ISSUER='' @ rg_Issuer claims @ [CHR 0x0A] @ ''JWT_AUDIENCE='' @ hd (rg_Audience claims)
         @ [CHR 0x0A] @ ''JWT_JWKS_URL='' @ TrimSpace jwksURL @ [CHR 0x0A])),
      (''WARNING.txt'', Text_file (''Development-only fake auth fixture. Do not use this private key or token for live user authentication.''
         @ [CHR 0x0A]))]"

definition file_mode :: "string \<Rightarrow> nat" where
  "file_mode name = (if name \<in> {''jwks.json'', ''metadata.json'', ''env'', ''WARNING.txt''} then 420 else 384)"

text \<open>
  The files are written in the order of a map iteration, which Go leaves open; the result is the files
  with their modes when every one was written, and an error otherwise.
\<close>

definition generate :: "dev_env \<Rightarrow> generate_flags \<Rightarrow> string + (string \<times> dev_file \<times> nat) list" where
  "generate E f =
     (let issuer = flag_value (gf_issuer f) (envOrDefault (de_environ E) ''JWT_ISSUER'' defaultIssuer);
          audience = flag_value (gf_audience f) (envOrDefault (de_environ E) ''JWT_AUDIENCE'' defaultAudience);
          days = flag_value (gf_days f) 365 in
      if TrimSpace issuer = [] then Inl ''issuer is required''
      else if TrimSpace audience = [] then Inl ''audience is required''
      else if days < 1 then Inl ''days must be greater than zero''
      else case subjectUUID E (flag_value (gf_subject f) []) of
        Inl err \<Rightarrow> Inl err
      | Inr userID \<Rightarrow> (case keyID_of E (flag_value (gf_kid f) []) of
          Inl err \<Rightarrow> Inl err
        | Inr keyID \<Rightarrow> (case de_GenerateKey E of
            Inl err \<Rightarrow> Inl err
          | Inr privateKey \<Rightarrow>
              let claims = dev_claims E issuer audience userID days in
              (case jl_SignedString (de_jwt E) privateKey keyID claims of
                 Inl err \<Rightarrow> Inl err
               | Inr signedToken \<Rightarrow> (case de_MkdirAll E (flag_value (gf_out f) defaultOutDir) of
                   Some err \<Rightarrow> Inl err
                 | None \<Rightarrow>
                     let files = dev_files privateKey keyID claims signedToken (flag_value (gf_jwks_url f) defaultJWKSURL) in
                     if list_ex (\<lambda>(name, _). de_WriteFile E name \<noteq> None) files then Inl ''write''
                     else Inr (map (\<lambda>(name, data). (name, data, file_mode name)) files))))))"

subsection \<open>\<open>serve\<close> and \<open>verify\<close>\<close>

text \<open>
  What reading a file gives: its text, and what decoding it as a key set or as metadata gives.
\<close>

record file_view =
  fv_text :: string
  fv_keySet :: "keySet option"
  fv_metadata :: "dev_metadata option"

text \<open>A file of the directory of the flag \<open>-dir\<close>, or one that another flag names.\<close>

datatype dev_path = In_dir string | At_path string

type_synonym dev_dir = "dev_path \<Rightarrow> file_view option"

datatype dev_reply = Dev_error nat string | Dev_json file_view | Dev_text string

definition jwksMux :: "dev_dir \<Rightarrow> string \<Rightarrow> dev_reply" where
  "jwksMux dir path =
     (if path = ''/.well-known/jwks.json'' \<or> path = ''/jwks.json''
      then (case dir (In_dir ''jwks.json'') of None \<Rightarrow> Dev_error 500 ''jwks unavailable'' | Some data \<Rightarrow> Dev_json data)
      else Dev_text (''development JWKS is available at /.well-known/jwks.json'' @ [CHR 0x0A]))"

text \<open>\<open>serve\<close> refuses to start without a key set; the listening socket is not modelled.\<close>

definition serve :: "dev_dir \<Rightarrow> string + (string \<Rightarrow> dev_reply)" where
  "serve dir = (if dir (In_dir ''jwks.json'') = None then Inl ''jwks file is not available'' else Inr (jwksMux dir))"

text \<open>The answer as the server's key cache decodes it.\<close>

fun jwks_answer_of :: "dev_reply \<Rightarrow> jwks_answer" where
  "jwks_answer_of (Dev_error status _) = Jwks_response status None"
| "jwks_answer_of (Dev_json data) = Jwks_response 200 (fv_keySet data)"
| "jwks_answer_of (Dev_text _) = Jwks_response 200 None"

record verify_flags =
  vy_token :: "string option"
  vy_jwks :: "string option"
  vy_issuer :: "string option"
  vy_audience :: "string option"

definition readMetadata :: "dev_dir \<Rightarrow> dev_path \<Rightarrow> dev_metadata" where
  "readMetadata dir path = (case Option.bind (dir path) fv_metadata of
     Some meta \<Rightarrow> meta
   | None \<Rightarrow> \<lparr>dm_Issuer = [], dm_Audience = [], dm_Subject = [], dm_KeyID = [], dm_Algorithm = [], dm_IssuedAt = zeroTime,
       dm_ExpiresAt = zeroTime, dm_JWKSURL = []\<rparr>)"

definition verify :: "dev_env \<Rightarrow> dev_dir \<Rightarrow> verify_flags \<Rightarrow> string + string" where
  "verify E dir f =
     (let tokenPath = (if flag_value (vy_token f) [] = [] then In_dir ''token.txt'' else At_path (flag_value (vy_token f) []));
          jwksPath = (if flag_value (vy_jwks f) [] = [] then In_dir ''jwks.json'' else At_path (flag_value (vy_jwks f) []));
          meta = readMetadata dir (In_dir ''metadata.json'');
          expectedIssuer = firstNonEmpty [flag_value (vy_issuer f) [], dm_Issuer meta,
            envOrDefault (de_environ E) ''JWT_ISSUER'' defaultIssuer];
          expectedAudience = firstNonEmpty [flag_value (vy_audience f) [], dm_Audience meta,
            envOrDefault (de_environ E) ''JWT_AUDIENCE'' defaultAudience] in
      case dir tokenPath of
        None \<Rightarrow> Inl ''read token''
      | Some tokenFile \<Rightarrow> (case dir jwksPath of
          None \<Rightarrow> Inl ''read jwks''
        | Some jwksFile \<Rightarrow> (case publicKeys (fv_keySet jwksFile) of
            Inl err \<Rightarrow> Inl err
          | Inr keys \<Rightarrow>
              let token = TrimSpace (fv_text tokenFile);
                  failed = Inl ''token did not verify'' in
              (case jl_header (de_jwt E) token of
                 None \<Rightarrow> failed
               | Some h \<Rightarrow>
                   if \<not> jh_RSA h \<or> jh_kid h = [] then failed
                   else (case keys (jh_kid h) of
                     None \<Rightarrow> failed
                   | Some key \<Rightarrow> (case jl_valid (de_jwt E) expectedIssuer expectedAudience key (de_now E) token of
                       None \<Rightarrow> failed
                     | Some subject \<Rightarrow> (case de_parse_uuid E subject of
                         None \<Rightarrow> Inl ''subject is not a UUID''
                       | Some _ \<Rightarrow> Inr subject)))))))"


subsection \<open>Keys survive their text form\<close>

lemma be_bytes_less: "list_all (\<lambda>b. b < 256) (be_bytes n)"
  by (induction n rule: be_bytes.induct) (subst be_bytes.simps, auto)

lemma be_bytes_value: "foldl (\<lambda>v b. v * 256 + b) 0 (be_bytes n) = n"
proof (induction n rule: be_bytes.induct)
  case (1 n)
  then show ?case by (subst be_bytes.simps) auto
qed

lemma be_bytes_int64:
  "n < 2 ^ 63 \<Longrightarrow> foldl (\<lambda>e b. int64 (int64 (e * 256) + int b)) 0 (be_bytes n) = int n"
proof (induction n rule: be_bytes.induct)
  case (1 n)
  have le: "int (n div 256) * 256 \<le> int n" "int (n div 256) * 256 + int (n mod 256) = int n"
  proof -
    have "int (n div 256 * 256 + n mod 256) = int n" by (simp only: div_mult_mod_eq)
    then show "int (n div 256) * 256 + int (n mod 256) = int n" by (simp only: of_nat_add of_nat_mult of_nat_numeral)
    then show "int (n div 256) * 256 \<le> int n" by linarith
  qed
  have "n div 256 < 2 ^ 63" using 1(2) by (meson div_le_dividend le_less_trans)
  then have "foldl (\<lambda>e b. int64 (int64 (e * 256) + int b)) 0 (be_bytes (n div 256)) = int (n div 256)" if "n \<noteq> 0"
    using 1(1) that by blast
  moreover have "int64 (int (n div 256) * 256) = int (n div 256) * 256" "int64 (int n) = int n"
    using 1(2) le(1) by (intro int64_id; simp)+
  ultimately show ?case using le(2) by (subst be_bytes.simps) auto
qed

lemma b64_value_char:
  assumes "v < 64"
  shows "b64_value (b64_char v) = Some v" "byte (b64_char v) \<noteq> 10 \<and> byte (b64_char v) \<noteq> 13"
proof -
  have "byte (b64_char v) = (if v < 26 then 65 + v else if v < 52 then 71 + v else if v < 62 then v - 4 else if v = 62 then 45 else 95)"
    using assms unfolding b64_char_def by (intro byte_char_of) auto
  then show "b64_value (b64_char v) = Some v" "byte (b64_char v) \<noteq> 10 \<and> byte (b64_char v) \<noteq> 13"
    using assms by (auto simp: b64_value_def Let_def within_def)
qed

lemma digits_of:
  fixes a q m :: nat
  assumes "q < m"
  shows "(a * m + q) div m = a" "(a * m + q) mod m = q"
  using assms by simp_all

lemma byte_quotients:
  fixes x :: nat
  assumes "x < 256"
  shows "x div 4 < 64" "x div 16 < 16" "x div 64 < 4"
  using assms by (simp_all add: less_mult_imp_div_less)

lemma sextet_bounds:
  fixes x y z :: nat
  assumes "x < 256" "y < 256" "z < 256"
  shows "x div 4 < 64 \<and> x mod 4 * 16 + y div 16 < 64 \<and> x mod 4 * 16 < 64 \<and> y mod 16 * 4 + z div 64 < 64
    \<and> y mod 16 * 4 < 64"
proof -
  have "x mod 4 < 4" "y mod 16 < 16" by simp_all
  then show ?thesis using byte_quotients assms by (intro conjI) fastforce+
qed

lemma sextet_joins:
  fixes x y z :: nat
  assumes "x < 256" "y < 256" "z < 256"
  shows "x div 4 * 4 + (x mod 4 * 16 + y div 16) div 16 = x"
    "(x mod 4 * 16 + y div 16) mod 16 * 16 + (y mod 16 * 4 + z div 64) div 4 = y"
    "(y mod 16 * 4 + z div 64) mod 4 * 64 + z mod 64 = z"
  using byte_quotients [OF assms(2)] byte_quotients [OF assms(3)]
  by (simp_all only: digits_of div_mult_mod_eq)

lemma b64_sextets_less: "list_all (\<lambda>b. b < 256) bs \<Longrightarrow> list_all (\<lambda>v. v < 64) (b64_sextets bs)"
proof (induction bs rule: b64_sextets.induct)
  case (2 x)
  then show ?case using sextet_bounds [of x 0 0] by simp
next
  case (3 x y)
  then show ?case using sextet_bounds [of x y 0] by simp
next
  case (4 x y z r)
  then show ?case using sextet_bounds [of x y z] by simp
qed simp

lemma b64_bytes_sextets: "list_all (\<lambda>b. b < 256) bs \<Longrightarrow> b64_bytes (b64_sextets bs) = Some bs"
proof (induction bs rule: b64_sextets.induct)
  case (2 x)
  then show ?case using sextet_joins(1) [of x 0 0] by simp
next
  case (3 x y)
  then show ?case using sextet_joins(1,2) [of x y 0]
    by (simp only: b64_sextets.simps b64_bytes.simps list.pred_inject) simp
next
  case (4 x y z r)
  then have "b64_bytes (b64_sextets r) = Some r" "x < 256" "y < 256" "z < 256" by simp_all
  then show ?case
    by (simp only: b64_sextets.simps append.simps b64_bytes.simps option.map sextet_joins)
qed simp

lemma b64_roundtrip:
  assumes "list_all (\<lambda>b. b < 256) bs"
  shows "b64_decode (b64_encode bs) = Some bs"
proof -
  let ?v = "b64_sextets bs"
  have less: "\<forall>v \<in> set ?v. v < 64" using b64_sextets_less [OF assms] by (simp add: list_all_iff)
  then have "filter (\<lambda>c. byte c \<noteq> 10 \<and> byte c \<noteq> 13) (map b64_char ?v) = map b64_char ?v"
    using b64_value_char(2) by (auto simp: filter_id_conv)
  moreover have "those (map b64_value (map b64_char vs)) = Some vs" if "\<forall>v \<in> set vs. v < 64" for vs
    using that by (induction vs) (simp_all add: b64_value_char(1))
  ultimately show ?thesis using less b64_bytes_sextets [OF assms] by (simp add: b64_decode_def b64_encode_def)
qed

lemma publicJWK_roundtrip:
  assumes "0 < pk_E key" "pk_E key < 2 ^ 63"
  shows "rsaPublicKey (jk_N (publicJWK key kid)) (jk_E (publicJWK key kid)) = Some key"
proof -
  have "nat \<bar>pk_E key\<bar> < 2 ^ 63" using assms by (simp add: nat_less_iff)
  then have "foldl (\<lambda>e b. int64 (int64 (e * 256) + int b)) 0 (be_bytes (nat \<bar>pk_E key\<bar>)) = pk_E key"
    using be_bytes_int64 assms(1) by simp
  then show ?thesis
    using assms(1) by (simp add: publicJWK_def rsaPublicKey_def Let_def b64_roundtrip be_bytes_less be_bytes_value)
qed


subsection \<open>The server accepts the generated token\<close>

text \<open>Visible ASCII characters, of which a token consists, are not trimmed.\<close>

definition visible :: "string \<Rightarrow> bool" where
  "visible s \<longleftrightarrow> s \<noteq> [] \<and> list_all (\<lambda>c. 33 \<le> byte c \<and> byte c < 127) s"

lemma rune_pieces_ascii: "list_all (\<lambda>c. byte c < 128) s \<Longrightarrow> rune_pieces s = map (\<lambda>c. (byte c, [c])) s"
proof (induction s)
  case (Cons c s)
  then have "decode_rune (c # s) = (byte c, 1)" by (simp add: decode_rune_def)
  with Cons show ?case by (simp add: rune_pieces.simps [of "c # s"])
qed simp

lemma TrimSpace_visible:
  assumes "visible s"
  shows "TrimSpace s = s"
proof -
  let ?p = "map (\<lambda>c. (byte c, [c])) s"
  have "rune_pieces s = ?p" using assms by (intro rune_pieces_ascii) (auto simp: visible_def list_all_iff)
  moreover have "\<not> (is_space \<circ> fst) q" if "q \<in> set ?p" for q
    using that assms by (auto simp: visible_def list_all_iff is_space_def within_def)
  then have "dropWhile (is_space \<circ> fst) ?p = ?p" "dropWhile (is_space \<circ> fst) (rev ?p) = rev ?p"
    by (metis (mono_tags, lifting) dropWhile_eq_self_iff hd_in_set) (metis (mono_tags, lifting) dropWhile_eq_self_iff hd_in_set set_rev \<open>\<And>q. q \<in> set ?p \<Longrightarrow> \<not> (is_space \<circ> fst) q\<close>)
  ultimately have "TrimSpace s = concat (map snd ?p)" unfolding TrimSpace_def by simp
  also have "\<dots> = s" by (induction s) auto
  finally show ?thesis .
qed

lemma bearer_visible:
  assumes "visible token"
  shows "bearer_token (''Bearer '' @ token) = Some token"
proof -
  have "map lower ''Bearer'' = ''bearer''" by code_simp
  then show ?thesis
    using TrimSpace_visible [OF assms] assms by (simp add: bearer_token_def cut_space_def blank_def visible_def)
qed

text \<open>An endpoint that always gives the key set: the cache finds the key, whatever its age.\<close>

lemma jwks_get_constant:
  assumes "\<And>m. vf_endpoint v m = Jwks_response 200 (Some \<lparr>ks_Keys = [raw]\<rparr>)" "usable raw" "cache_ok v n c"
    "rsaPublicKey (jk_N raw) (jk_E raw) = Some key"
  shows "\<exists>c'. jwks_get (vf_endpoint v) (vf_clock v) n (jk_Kid raw) c = (Some key, c')"
proof -
  have "refresh (vf_endpoint v) (vf_clock v) n c
      = (True, c\<lparr>jw_keys := [jk_Kid raw \<mapsto> key], jw_loadedAt := vf_clock v n\<rparr>)"
    using assms(1,2,4) by (simp add: refresh_def)
  moreover have "jw_keys c (jk_Kid raw) \<in> {None, Some key}"
    using assms by (auto simp: cache_ok_def fetched_def)
  ultimately show ?thesis by (auto simp: jwks_get_def)
qed

text \<open>
  What the code relies on: the JWT library reads back what it signed and accepts it for the issuer and
  an audience of the claims from the second of \<open>nbf\<close> until the second of \<open>exp\<close> (RFC 7519, times in whole
  seconds), tokens are visible text, and RSA exponents are positive machine integers.
\<close>

definition jwt_signs :: "jwt_library \<Rightarrow> PrivateKey \<Rightarrow> bool" where
  "jwt_signs jl key \<longleftrightarrow> 0 < pk_E (pv_PublicKey key) \<and> pk_E (pv_PublicKey key) < 2 ^ 63
     \<and> (\<forall>kid claims token. jl_SignedString jl key kid claims = Inr token \<longrightarrow>
          visible token \<and> jl_header jl token = Some \<lparr>jh_RSA = True, jh_kid = kid\<rparr>
          \<and> (\<forall>iss aud now. iss = rg_Issuer claims \<longrightarrow> aud \<in> set (rg_Audience claims)
               \<longrightarrow> rg_NotBefore claims \<le> now \<longrightarrow> now < rg_ExpiresAt claims - rg_ExpiresAt claims mod second
               \<longrightarrow> jl_valid jl iss aud (pv_PublicKey key) now token = Some (rg_Subject claims)))"

text \<open>The files that a run of \<open>generate\<close> leaves, as they are read.\<close>

definition dev_view :: "(dev_file \<Rightarrow> string) \<Rightarrow> dev_file \<Rightarrow> file_view" where
  "dev_view render file = \<lparr>fv_text = render file,
     fv_keySet = (case file of JWKS_file ks \<Rightarrow> Some ks | _ \<Rightarrow> None),
     fv_metadata = (case file of Metadata_file m \<Rightarrow> Some m | _ \<Rightarrow> None)\<rparr>"

definition dev_directory :: "(dev_file \<Rightarrow> string) \<Rightarrow> (string \<times> dev_file \<times> nat) list \<Rightarrow> dev_dir" where
  "dev_directory render files path = (case path of
     In_dir name \<Rightarrow> map_option (\<lambda>(file, mode). dev_view render file) (map_of files name)
   | At_path _ \<Rightarrow> None)"


lemma generate_Inr:
  assumes "generate E f = Inr files"
  obtains issuer audience days userID keyID key token url where
    "subjectUUID E (flag_value (gf_subject f) []) = Inr userID" "keyID_of E (flag_value (gf_kid f) []) = Inr keyID"
    "de_GenerateKey E = Inr key" "jl_SignedString (de_jwt E) key keyID (dev_claims E issuer audience userID days) = Inr token"
    "files = map (\<lambda>(name, data). (name, data, file_mode name)) (dev_files key keyID (dev_claims E issuer audience userID days) token url)"
  using assms unfolding generate_def Let_def by (auto split: if_splits sum.splits option.splits)

lemma keyID_nonempty: "keyID_of E kid = Inr keyID \<Longrightarrow> keyID \<noteq> []"
  by (auto simp: keyID_of_def Let_def split: if_splits)

lemma map_of_mode: "map_of (map (\<lambda>(name, data). (name, data, file_mode name)) files) name
    = map_option (\<lambda>data. (data, file_mode name)) (map_of files name)"
  by (induction files) auto

lemma map_of_dev_files:
  "map_of (dev_files key keyID claims token url) ''jwks.json'' = Some (JWKS_file \<lparr>ks_Keys = [publicJWK (pv_PublicKey key) keyID]\<rparr>)"
  "map_of (dev_files key keyID claims token url) ''token.txt'' = Some (Text_file (token @ [CHR 0x0A]))"
  "\<exists>url'. map_of (dev_files key keyID claims token url) ''metadata.json'' = Some (Metadata_file \<lparr>dm_Issuer = rg_Issuer claims,
     dm_Audience = hd (rg_Audience claims), dm_Subject = rg_Subject claims, dm_KeyID = keyID, dm_Algorithm = ''RS256'',
     dm_IssuedAt = rg_IssuedAt claims, dm_ExpiresAt = rg_ExpiresAt claims, dm_JWKSURL = url'\<rparr>)"
  unfolding dev_files_def by simp_all

text \<open>
  C19. The server lets in what the development provider issues. When the server gets its keys from the
  served key set, and its issuer and audience from the generated metadata, a request with the generated
  token is authenticated as the generated subject, from the issuing of the token until it expires,
  whatever the state of the key cache. The RSA key survives its printing in base64 and the parsing by the
  server.
\<close>

theorem generated_token_accepted:
  assumes "generate E f = Inr files" "\<And>key. de_GenerateKey E = Inr key \<Longrightarrow> jwt_signs (de_jwt E) key"
    "\<And>i. de_parse_uuid E (de_format_uuid E i) = Some i"
    and "map_of files ''metadata.json'' = Some (Metadata_file meta, mode)"
    "map_of files ''token.txt'' = Some (Text_file (token @ [CHR 0x0A]), mode')"
    and "vf_header v = jl_header (de_jwt E)" "vf_valid v = jl_valid (de_jwt E)" "vf_parse_uuid v = de_parse_uuid E"
    "vf_issuer v = dm_Issuer meta" "vf_audience v = dm_Audience meta"
    "\<And>m. vf_endpoint v m = jwks_answer_of (jwksMux (dev_directory render files) ''/.well-known/jwks.json'')"
    and "cache_ok v n c" "dm_IssuedAt meta \<le> vf_clock v n"
    "vf_clock v n < dm_ExpiresAt meta - dm_ExpiresAt meta mod second"
  shows "\<exists>i c'. Auth_Middleware v n (''Bearer '' @ token) c = (Some \<lparr>cl_UserID_claim = i\<rparr>, c')
    \<and> dm_Subject meta = de_format_uuid E i \<and> subjectUUID E (flag_value (gf_subject f) []) = Inr i"
proof -
  obtain issuer audience days i keyID key signed url where g: "subjectUUID E (flag_value (gf_subject f) []) = Inr i"
      "keyID_of E (flag_value (gf_kid f) []) = Inr keyID" "de_GenerateKey E = Inr key"
      "jl_SignedString (de_jwt E) key keyID (dev_claims E issuer audience i days) = Inr signed"
      "files = map (\<lambda>(name, data). (name, data, file_mode name)) (dev_files key keyID (dev_claims E issuer audience i days) signed url)"
    by (rule generate_Inr [OF assms(1)])
  let ?claims = "dev_claims E issuer audience i days" and ?raw = "publicJWK (pv_PublicKey key) keyID"
  have meta: "dm_Issuer meta = rg_Issuer ?claims" "dm_Audience meta = hd (rg_Audience ?claims)" "dm_Subject meta = rg_Subject ?claims"
      "dm_IssuedAt meta = rg_IssuedAt ?claims" "dm_ExpiresAt meta = rg_ExpiresAt ?claims" and token: "token = signed"
    using assms(4,5) map_of_dev_files(2,3) [of key keyID ?claims signed url] unfolding g(5) map_of_mode by auto
  have claims: "rg_Subject ?claims = de_format_uuid E i" "hd (rg_Audience ?claims) \<in> set (rg_Audience ?claims)"
      "rg_NotBefore ?claims = rg_IssuedAt ?claims"
    by (simp_all add: dev_claims_def)
  have signs: "jwt_signs (de_jwt E) key" using assms(2) g(3) by blast
  then have rsa: "rsaPublicKey (jk_N ?raw) (jk_E ?raw) = Some (pv_PublicKey key)"
    by (intro publicJWK_roundtrip) (simp_all add: jwt_signs_def)
  have raw: "jk_Kid ?raw = keyID" "usable ?raw"
    using rsa keyID_nonempty [OF g(2)] by (simp_all add: usable_def publicJWK_def)
  have "vf_endpoint v m = Jwks_response 200 (Some \<lparr>ks_Keys = [?raw]\<rparr>)" for m
    unfolding assms(11) g(5)
    by (simp add: jwksMux_def dev_directory_def map_of_mode map_of_dev_files(1) dev_view_def)
  from jwks_get_constant [OF this raw(2) assms(12) rsa]
  obtain c' where get: "jwks_get (vf_endpoint v) (vf_clock v) n keyID c = (Some (pv_PublicKey key), c')" using raw(1) by auto
  have lib: "visible token" "jl_header (de_jwt E) token = Some \<lparr>jh_RSA = True, jh_kid = keyID\<rparr>"
      "jl_valid (de_jwt E) (dm_Issuer meta) (dm_Audience meta) (pv_PublicKey key) (vf_clock v n) token = Some (rg_Subject ?claims)"
    using signs g(4) claims(2,3) assms(13,14) unfolding jwt_signs_def meta token by (blast, blast, metis)
  show ?thesis
    using bearer_visible [OF lib(1)] lib(2,3) get claims(1) assms(3,6-10) keyID_nonempty [OF g(2)] g(1) meta(3)
    by (simp add: Auth_Middleware_def Verify_def)
qed


text \<open>A run with a small key, a library that signs the one token, and the server that trusts it.\<close>

definition demo_dev_claims :: RegisteredClaims where
  "demo_dev_claims = \<lparr>rg_Issuer = ''dev'', rg_Subject = ''xxx'', rg_Audience = [''api''],
     rg_ExpiresAt = 86400 * second, rg_NotBefore = 0, rg_IssuedAt = 0, rg_ID = ''x''\<rparr>"

definition demo_jwt :: jwt_library where
  "demo_jwt = \<lparr>jl_SignedString = (\<lambda>key kid claims. if kid = ''k1'' \<and> claims = demo_dev_claims then Inr ''signed'' else Inl ''error''),
     jl_header = (\<lambda>t. if t = ''signed'' then Some \<lparr>jh_RSA = True, jh_kid = ''k1''\<rparr> else None),
     jl_valid = (\<lambda>iss aud key now t. if t = ''signed'' \<and> iss = ''dev'' \<and> aud = ''api'' \<and> key = \<lparr>pk_N = 3233, pk_E = 17\<rparr>
       \<and> 0 \<le> now \<and> now < 86400 * second then Some ''xxx'' else None)\<rparr>"

definition demo_dev :: dev_env where
  "demo_dev = \<lparr>de_environ = (\<lambda>_. []), de_now = 0, de_NewSubject = 9, de_NewKid = 8, de_NewID = 1,
     de_format_uuid = (\<lambda>i. replicate (unat i) CHR ''x''), de_parse_uuid = (\<lambda>s. Some (of_nat (length s))),
     de_GenerateKey = Inr \<lparr>pv_PublicKey = \<lparr>pk_N = 3233, pk_E = 17\<rparr>, pv_Secret = 2753\<rparr>, de_jwt = demo_jwt,
     de_MkdirAll = (\<lambda>_. None), de_WriteFile = (\<lambda>_. None)\<rparr>"

definition demo_dev_flags :: generate_flags where
  "demo_dev_flags = \<lparr>gf_out = None, gf_issuer = Some '' dev'', gf_audience = Some ''api'', gf_subject = Some ''xxx'',
     gf_kid = Some ''k1'', gf_days = Some 1, gf_jwks_url = None\<rparr>"

definition demo_dev_verifier :: "(string \<times> dev_file \<times> nat) list \<Rightarrow> Verifier" where
  "demo_dev_verifier files = \<lparr>vf_issuer = ''dev'', vf_audience = ''api'',
     vf_endpoint = (\<lambda>_. jwks_answer_of (jwksMux (dev_directory (\<lambda>_. []) files) ''/.well-known/jwks.json'')),
     vf_clock = (\<lambda>n. int n * second), vf_parse_uuid = de_parse_uuid demo_dev, vf_header = jl_header demo_jwt,
     vf_valid = jl_valid demo_jwt\<rparr>"

lemma demo_jwt_signs: "jwt_signs demo_jwt \<lparr>pv_PublicKey = \<lparr>pk_N = 3233, pk_E = 17\<rparr>, pv_Secret = 2753\<rparr>"
proof -
  have "visible ''signed''" by code_simp
  then show ?thesis by (auto simp: jwt_signs_def demo_jwt_def demo_dev_claims_def split: if_splits)
qed

theorem generated_token_accepted_witness:
  "\<exists>files c'. generate demo_dev demo_dev_flags = Inr files
     \<and> Auth_Middleware (demo_dev_verifier files) 5 ''Bearer signed'' newJWKSCache = (Some \<lparr>cl_UserID_claim = 3\<rparr>, c')"
proof -
  let ?meta = "\<lparr>dm_Issuer = ''dev'', dm_Audience = ''api'', dm_Subject = ''xxx'', dm_KeyID = ''k1'', dm_Algorithm = ''RS256'',
    dm_IssuedAt = 0, dm_ExpiresAt = 86400 * second, dm_JWKSURL = defaultJWKSURL\<rparr>"
  have "case generate demo_dev demo_dev_flags of Inl _ \<Rightarrow> False
    | Inr fs \<Rightarrow> map_of fs ''metadata.json'' = Some (Metadata_file ?meta, 420)
        \<and> map_of fs ''token.txt'' = Some (Text_file (''signed'' @ [CHR 0x0A]), 384)"
    by code_simp
  then obtain files where files: "generate demo_dev demo_dev_flags = Inr files"
      "map_of files ''metadata.json'' = Some (Metadata_file ?meta, 420)"
      "map_of files ''token.txt'' = Some (Text_file (''signed'' @ [CHR 0x0A]), 384)"
    by (elim returns_Inr) blast
  let ?v = "demo_dev_verifier files"
  have key: "jwt_signs (de_jwt demo_dev) key" if "de_GenerateKey demo_dev = Inr key" for key
    using that demo_jwt_signs by (auto simp: demo_dev_def)
  have uuids: "de_parse_uuid demo_dev (de_format_uuid demo_dev i) = Some i" for i by (simp add: demo_dev_def)
  have subject: "subjectUUID demo_dev (flag_value (gf_subject demo_dev_flags) []) = Inr 3" by code_simp
  have cache: "cache_ok ?v 5 newJWKSCache" by (simp add: cache_ok_def newJWKSCache_def)
  obtain i c' where "Auth_Middleware ?v 5 (''Bearer '' @ ''signed'') newJWKSCache = (Some \<lparr>cl_UserID_claim = i\<rparr>, c')"
      "subjectUUID demo_dev (flag_value (gf_subject demo_dev_flags) []) = Inr i"
    using generated_token_accepted [OF files(1) key uuids files(2,3) _ _ _ _ _ _ cache, of "\<lambda>_. []"]
    by (auto simp: demo_dev_verifier_def demo_dev_def)
  then show ?thesis using files(1) subject by auto
qed

end
