(* ===== verification/Spec2Isabelle.thy ===== *)
theory Spec2Isabelle
  imports Processes Dev_Auth
begin

text \<open>
  \<^bold>\<open>A verification of the notes sync backend.\<close>

  \<^bold>\<open>The program.\<close> The repository is the server of an offline-first notes app, written in Go on
  PostgreSQL. Devices push batches of operations (\<open>POST /v1/sync\<close>); the server applies them in one
  transaction, one savepoint per note, with an optimistic version check and idempotent retries, and
  appends every accepted operation to a history with a global sequence. Devices pull the history in
  pages after their cursor (\<open>GET /v1/sync\<close>), are told over a websocket that there is something to pull,
  read full notes and snapshots, and exchange files through signed URLs of an object storage. A worker
  makes snapshots from a queue of jobs and reconciles abandoned uploads. Every request is authenticated
  by a token of an identity provider.

  \<^bold>\<open>The model.\<close> Every operation of the source is a HOL function of the same name (with a prefix or
  suffix where names clash). A call (\<open>'a call\<close>, theory \<open>Store\<close>) maps a \<open>world\<close>, which holds the tables,
  the counters of the sequences, the transaction flag, the published events and a tick, to a result
  \<open>go_error + 'a\<close> and a new world. Each statement of SQL and each reading of the clock takes one tick.
  The environment \<open>env\<close> says for every tick whether the statement fails, what the clock shows, which
  identifier the generator draws and how a commit ends (done, refused, or done without an
  acknowledgement), so that a theorem for every environment is one for every pattern of failures.
  Errors are values of \<open>go_error\<close>; nil dereferences and slices out of range would be \<open>ErrPanic\<close>.
  Identifiers are 128-bit words, strings are lists of bytes with Go's conversions to UTF-16 where the
  source makes them; integers are \<open>int\<close> with the wrap-around of \<open>int32\<close> and \<open>int64\<close> written out where
  a conversion or a product can leave the range.

  \<^bold>\<open>Theories and sources\<close> (paths below \<open>internal/\<close>).

  \<^item> \<open>Prelude\<close>: identifiers, association lists, the collections of simplification rules.
    \<open>Gostring\<close>: bytes, UTF-8 and UTF-16, trimming, decimal numbers (the standard library's functions).
  \<^item> \<open>Sync_Types\<close> (\<open>sync/models/types.go\<close>), \<open>Httpapi\<close> (\<open>constants.go\<close>, \<open>httpapi\<close>),
    \<open>Json_Ops\<close> (\<open>sync/operations\<close>), \<open>Sync_Models\<close> (\<open>sync/models\<close>).
  \<^item> \<open>Store\<close> (\<open>store/store.go\<close>, \<open>postgres.go\<close>, the tables of \<open>db/migrations\<close>): transactions and
    savepoints; \<open>Queries\<close> (\<open>db/generated\<close>, \<open>store/*.go\<close>): one function per SQL statement
    (suffix \<open>_sql\<close>) with the constraints of its table, and the store method around it.
    \<open>Tx_Logic\<close>: triples for calls, with the rules of statements, transactions and savepoints; the
    locales \<open>undoable\<close> (relations that survive a rollback) and \<open>keyed_update\<close> (updates of a table by key).
  \<^item> \<open>Sync_Batch\<close>, \<open>Sync_Service\<close> (\<open>sync/services\<close>): the handlers of all operations, batches, push,
    pull, the check for updates, full notes. \<open>Sync_Inv\<close>, \<open>Sync_Batch_Inv\<close>, \<open>Sync_Ops_Inv\<close>,
    \<open>Sync_Push_Inv\<close>: the invariant \<open>db_ok\<close> of the tables and the contract \<open>sync_rel\<close> of a push, from
    the statements up to the request. \<open>Sync_Log\<close>, \<open>Sync_Guard\<close>, \<open>Sync_Push\<close>, \<open>Sync_Request\<close>,
    \<open>Sync_Replay\<close>: which changes a batch appends, the version check, the specification \<open>push_run\<close>,
    retries. \<open>Sync_Pull\<close>: paging, by the locale \<open>paged_feed\<close>. The results are in \<open>Push_Properties\<close>
    and \<open>Pull_Properties\<close>; \<open>Demo\<close> is the database of the examples.
  \<^item> \<open>Devices\<close> (\<open>devices\<close>), \<open>Notes\<close> (\<open>notes\<close>).
  \<^item> \<open>Jobs\<close> (\<open>jobs/snapshots.go\<close>, \<open>worker.go\<close>, \<open>store/jobs.go\<close>), \<open>Jobs_Inv\<close> (workers in turns),
    \<open>Jobs_Properties\<close>.
  \<^item> \<open>Realtime\<close> (\<open>realtime\<close>): messages, the bounded queue of a connection, the hub, the event bus.
    \<open>Realtime_Properties\<close>. \<open>Connections\<close> (\<open>realtime/hub.go\<close>, \<open>client.go\<close>): the read and write goroutines
    of every connection, the wait group and the shutdown of the hub, as a step relation; the locale
    \<open>hub_operation\<close> has what the operations of the hub keep.
  \<^item> \<open>Uploads\<close> (\<open>store/uploads.go\<close>), \<open>Upload_Service\<close> (\<open>uploads\<close>, \<open>jobs/cleanup.go\<close>), \<open>Uploads_Inv\<close>
    (the relation every request keeps, by the locale \<open>guarded_calls\<close>), \<open>Uploads_Properties\<close>, \<open>Uploads_Feed\<close>.
  \<^item> \<open>Config\<close> (\<open>config\<close> and the constructors of the services), \<open>Storage_Client\<close> (\<open>storage\<close>).
  \<^item> \<open>Auth\<close> (\<open>auth\<close>, \<open>httpapi/context.go\<close>), \<open>Handlers\<close> (all \<open>handlers\<close>, \<open>middleware\<close>, and
    \<open>buildRouter\<close> of \<open>cmd/api/main.go\<close>), \<open>Server_Inv\<close>, \<open>Server_Request\<close>, and this theory: the
    server as a whole. \<open>Processes\<close> (\<open>cmd/api\<close>, \<open>cmd/worker\<close>, \<open>cmd/websocket\<close>, \<open>realtime/handler.go\<close>,
    \<open>Worker.Run\<close>): the start of the processes, the loop of the worker, the router of the websocket server.
    \<open>Dev_Auth\<close> (\<open>cmd/devauth\<close>): the identity provider of local setups.

  \<^bold>\<open>What is shown.\<close> Pushes: the tables stay well-formed and the history only grows whatever fails; the
  response is the one of the specification; an error leaves no trace; no lost updates; retries are
  harmless and succeed (C1 to C9). Pulls: pages are exact, a session of pulls ends and yields every
  unseen change once and in order, the changes of a push included (C10 to C15). Jobs: claims exclude
  each other, completed jobs stay completed, snapshots are made (C16 to C18), a full note can be torn (C21).
  The token of the development provider is accepted by the server (C19). Realtime: no connection is lost
  and the shutdown ends in every interleaving of the goroutines (C20), hints are not lost by coalescing,
  one connection per device, events reach the other devices (C22 to C25), and a push ends up in their
  queues (C27). Uploads: life cycle, contracts of all requests, addresses in the storage (C26, C28
  to C35). The server: authentication of every product route, the invariant under all interleavings of
  requests, workers and cleaner, isolation of users, revocation of devices (C36 to C39); what it starts
  with satisfies what these theorems ask for (C40). C21, C33 and C35 state behaviour that falls short of a
  comment; C40 has a hypothesis on the page size, because validation misses the conversion to 32 bits
  (lemma \<open>Load_limits\<close> of \<open>Config\<close>).

  \<^bold>\<open>Bounds.\<close> No definition uses fuel; loops are structural recursions over lists. The endless loop of the
  worker is a recursion over what the context and the ticker do, and returns when the context is
  cancelled (lemma \<open>Run_returns\<close>). Sessions of pulls and
  runs of the server are inductive; that a session ends is C13. Interleaving is at the level of whole
  requests for the database (transactions serialise on the locked rows), and at the level of single
  statements where the source works without a transaction (jobs, uploads, C21).

  \<^bold>\<open>Parameters.\<close> Outside the sources, and arguments of the definitions: the text forms of identifiers
  and floating-point numbers (\<open>codec\<close>), the parser of media types (\<open>media\<close>), the identity provider and the
  JWT library (\<open>Verifier\<close>), the HTTP transport to the storage and \<open>net/url\<close> (\<open>transport\<close>, \<open>urls\<close>), the
  process environment. PostgreSQL is modelled by its tables, constraints and transactions.

  \<^bold>\<open>Not modelled.\<close> Listening sockets, signals and the orderly stop of the processes; frames, deadlines and
  the close handshake of a websocket; the loop of \<open>Subscribe\<close> beyond one round (\<open>subscribe_round\<close>);
  logging, which only wraps the writer, and \<open>middleware/gzip.go\<close>, which no router uses (its lines in
  \<open>buildRouter\<close> are commented out); the matching of URLs by the router library (a request names its route);
  the command line of \<open>cmd/devauth\<close>; \<open>jobs/compaction.go\<close>, a placeholder without behaviour.
\<close>

subsection \<open>The server as a whole\<close>

text \<open>
  The API server, the worker and the cleaner at work: requests of any kind by anyone, iterations of
  workers and runs of the cleaner, in any order. The environments of the background processes, their
  failures included, are their own.
\<close>

inductive server_run :: "api \<Rightarrow> server \<Rightarrow> server \<Rightarrow> bool" for a where
  run_start: "server_run a s s"
| run_request: "server_run a s s1 \<Longrightarrow> server_run a s (snd (buildRouter a req s1))"
| run_worker: "server_run a s s1 \<Longrightarrow>
    server_run a s (s1\<lparr>sr_world := snd (ProcessOnce env jc wk (sr_world s1))\<rparr>)"
| run_cleaner: "server_run a s s1 \<Longrightarrow> (\<And>c. cleaner = Some c \<Longrightarrow> cl_media c = us_media (ap_uploads a)) \<Longrightarrow>
    server_run a s (s1\<lparr>sr_world := snd (maybeCleanup env cleaner lastCleanup (sr_world s1))\<rparr>)"

definition server_ok :: "api \<Rightarrow> server \<Rightarrow> bool" where
  "server_ok a s \<longleftrightarrow> serving (us_media (ap_uploads a)) (sr_world s)
     \<and> cache_ok (ap_verifier a) (w_tick (sr_world s)) (sr_keys s)"

definition settings_ok :: "api \<Rightarrow> bool" where
  "settings_ok a \<longleftrightarrow> media_ok (us_media (ap_uploads a)) \<and> limit_ok (ap_sync a)"

lemma same_state_duty: "same_state w w' \<Longrightarrow> on_duty md c w \<Longrightarrow> on_duty md c w'"
  by (simp add: same_state_def on_duty_def serving_def idle_def)

lemma request_duty:
  assumes "buildRouter a req s = ((i, rep), s')" "settings_ok a" "on_duty (us_media (ap_uploads a)) c (sr_world s)"
    and "cache_ok (ap_verifier a) (w_tick (sr_world s)) (sr_keys s)"
  shows "on_duty (us_media (ap_uploads a)) c (sr_world s') \<and> cache_ok (ap_verifier a) (w_tick (sr_world s')) (sr_keys s')"
proof -
  let ?v = "ap_verifier a" and ?n = "w_tick (sr_world (entered req s))"
  have entered: "w_tick (sr_world s) \<le> ?n" using entered_same(1) by (simp add: same_state_def)
  show ?thesis
    using assms(1)
  proof (cases rule: buildRouter_cases)
    case public
    then show ?thesis
      using assms(3,4) same_state_duty cache_ok_mono [OF assms(4)] by (auto simp: same_state_def)
  next
    case (refused r)
    have "cache_ok ?v ?n (sr_keys s')"
      using Auth_Middleware_cache [OF cache_ok_mono [OF assms(4) entered] refused(2)] .
    then show ?thesis using refused(3,4) assms(3) same_state_duty cache_ok_mono by blast
  next
    case (admitted r claims w1 rep')
    have "user_step a (cl_UserID_claim claims) w1 (sr_world s')"
      using v1_handler_steps [OF admitted(5)] by (simp add: UserIDFromContext_def ClaimsFromContext_def WithClaims_def)
    then have "on_duty (us_media (ap_uploads a)) c (sr_world s')" "w_tick w1 \<le> w_tick (sr_world s')"
      using duty_user [OF _ same_state_duty [OF admitted(3) assms(3)]] assms(2) user_step_tick
      by (auto simp: settings_ok_def)
    moreover have "cache_ok ?v ?n (sr_keys s')"
      using Auth_Middleware_cache [OF cache_ok_mono [OF assms(4) entered] admitted(2)] .
    ultimately show ?thesis using admitted(4) cache_ok_mono order_trans by blast
  qed
qed

lemma server_run_duty:
  assumes "server_run a s s'" "settings_ok a" "server_ok a s"
  shows "on_duty (us_media (ap_uploads a)) (w_core (sr_world s)) (sr_world s')
    \<and> cache_ok (ap_verifier a) (w_tick (sr_world s')) (sr_keys s')"
  using assms
proof (induction rule: server_run.induct)
  case (run_start s)
  then show ?case by (simp add: server_ok_def on_duty_def server_rel_refl)
next
  case (run_request s s1 req)
  obtain i rep s2 where run: "buildRouter a req s1 = ((i, rep), s2)" by (metis prod.collapse)
  then show ?case using request_duty [OF run run_request.prems(1)] run_request by auto
next
  case (run_worker s s1 env jc wk)
  then show ?case
    using duty_ProcessOnce cache_ok_mono tx_stable_tick [OF stable_background(1) prod.collapse [symmetric]]
    by (auto simp: preserves_def)
next
  case (run_cleaner s s1 cleaner env lastCleanup)
  then show ?case
    using duty_maybeCleanup [of cleaner "us_media (ap_uploads a)"] cache_ok_mono
      tx_stable_tick [OF stable_background(2) prod.collapse [symmetric]]
    by (auto simp: preserves_def)
qed

subsection \<open>A small server\<close>

text \<open>
  The small database behind a server whose identity provider publishes one RSA key and whose users send
  the bearer tokens \<open>seven\<close> and \<open>eight\<close>.
\<close>

definition demo_verifier :: Verifier where
  "demo_verifier = \<lparr>vf_issuer = ''issuer'', vf_audience = ''notes'',
     vf_endpoint = (\<lambda>_. Jwks_response 200 (Some \<lparr>ks_Keys = [\<lparr>jk_Kty = ''RSA'', jk_Kid = ''k1'', jk_Use = ''sig'',
       jk_Alg = ''RS256'', jk_N = ''AQ'', jk_E = ''Aw''\<rparr>]\<rparr>)),
     vf_clock = (\<lambda>n. int n * 1000), vf_parse_uuid = (\<lambda>s. if s = ''u7'' then Some 7 else if s = ''u8'' then Some 8 else None),
     vf_header = (\<lambda>t. if t \<in> {''seven'', ''eight''} then Some \<lparr>jh_RSA = True, jh_kid = ''k1''\<rparr> else None),
     vf_valid = (\<lambda>iss aud key now t. if t = ''seven'' then Some ''u7'' else Some ''u8'')\<rparr>"

definition demo_api :: api where
  "demo_api = \<lparr>ap_env = demo_env, ap_sync = demo_service, ap_uploads = demo_uploads, ap_verifier = demo_verifier,
     ap_expired = (\<lambda>_. False)\<rparr>"

definition demo_server :: server where
  "demo_server = \<lparr>sr_world = demo_world, sr_keys = newJWKSCache\<rparr>"

definition demo_http :: "string \<Rightarrow> v1_route \<Rightarrow> http_request" where
  "demo_http token r = \<lparr>hq_XRequestId = ''req'', hq_Authorization = ''Bearer '' @ token, hq_route = V1 r\<rparr>"

definition demo_post :: v1_route where
  "demo_post = POST_sync (Decoded demo_request, Decode_EOF)"

lemma demo_settings: "settings_ok demo_api"
  using demo_media_ok demo_limit by (simp add: settings_ok_def demo_api_def demo_uploads_def)

lemma demo_server_ok: "server_ok demo_api demo_server"
  using demo_ok
  by (simp add: server_ok_def demo_server_def demo_api_def cache_ok_def newJWKSCache_def serving_def idle_def jobs_ok_def)
    (simp add: demo_core_def demo_db_def)

subsection \<open>Authentication\<close>

text \<open>
  C36. No request to a product route gets past the middleware without a valid token. Either it is
  answered with 401 (503 when its time was up) and has changed neither the tables nor the bus; or it
  carries a bearer token, signed by an RSA key that an answer of the identity provider, less than five
  minutes old, has for the token's key identifier, with issuer, audience and expiry as the JWT library
  checks them, and its handler runs as the user that the token's subject names.
\<close>

theorem request_authenticated:
  assumes "buildRouter a req s = ((i, rep), s')" "hq_route req = V1 r"
    and "cache_ok (ap_verifier a) (w_tick (sr_world s)) (sr_keys s)"
  shows "same_state (sr_world s) (sr_world s')
      \<and> (rep = Plain 503 TimeoutMessage \<or> (\<exists>envelope. rep = Error envelope \<and> en_status envelope = 401))
    \<or> (\<exists>n \<ge> w_tick (sr_world s). \<exists>token h key subject user w1 rep'.
         bearer_token (hq_Authorization req) = Some token \<and> vf_header (ap_verifier a) token = Some h \<and> jh_RSA h
       \<and> provider_key (ap_verifier a) n (jh_kid h) key
       \<and> vf_valid (ap_verifier a) (vf_issuer (ap_verifier a)) (vf_audience (ap_verifier a)) key (vf_clock (ap_verifier a) n) token
           = Some subject
       \<and> vf_parse_uuid (ap_verifier a) subject = Some user
       \<and> same_state (sr_world s) w1
       \<and> v1_handler a r (WithClaims (request_context a req s) \<lparr>cl_UserID_claim = user\<rparr>) w1 = (rep', sr_world s')
       \<and> rep = final_reply (request_context a req s) (ap_expired a (w_tick (sr_world s))) rep')"
  using assms(1)
proof (cases rule: buildRouter_cases)
  case public
  then show ?thesis using assms(2) by blast
next
  case (refused r')
  then show ?thesis
    by (auto simp: final_reply_def WriteError_def FromError_def Unauthorized_def NewError_def Let_def)
next
  case (admitted r' claims w1 rep')
  let ?v = "ap_verifier a" and ?n = "w_tick (sr_world (entered req s))"
  have n: "w_tick (sr_world s) \<le> ?n" using entered_same(1) by (simp add: same_state_def)
  obtain token where token: "bearer_token (hq_Authorization req) = Some token"
      "Verify ?v ?n token (sr_keys s) = (Some claims, sr_keys s')"
    using Auth_Middleware_Some [OF admitted(2)] by blast
  have "claims = \<lparr>cl_UserID_claim = cl_UserID_claim claims\<rparr>" by simp
  with Verify_Some [OF token(2) cache_ok_mono [OF assms(3) n]] token(1) admitted(1,3,5,6) assms(2) n
  show ?thesis by (metis route.inject)
qed

theorem request_authenticated_witness:
  "\<exists>n token key subject w1 rep'. bearer_token ''Bearer seven'' = Some token \<and> provider_key demo_verifier n ''k1'' key
     \<and> vf_parse_uuid demo_verifier subject = Some 7
     \<and> v1_handler demo_api demo_post (WithClaims (request_context demo_api (demo_http ''seven'' demo_post) demo_server)
         \<lparr>cl_UserID_claim = 7\<rparr>) w1 = (rep', sr_world (snd (buildRouter demo_api (demo_http ''seven'' demo_post) demo_server)))
     \<and> map nt_Title (t_notes (w_db (sr_world (snd (buildRouter demo_api (demo_http ''seven'' demo_post) demo_server))))) = [''Hi!'']"
proof -
  let ?req = "demo_http ''seven'' demo_post"
  let ?run = "buildRouter demo_api ?req demo_server"
  have titles: "map nt_Title (t_notes (w_db (sr_world (snd ?run)))) = [''Hi!'']" by code_simp
  then have changed: "\<not> same_state (sr_world demo_server) (sr_world (snd ?run))"
    by (auto simp: same_state_def demo_server_def demo_world_def demo_core_def demo_db_def demo_note_def)
  have cache: "cache_ok (ap_verifier demo_api) (w_tick (sr_world demo_server)) (sr_keys demo_server)"
    using demo_server_ok by (simp add: server_ok_def)
  have run: "?run = ((fst (fst ?run), snd (fst ?run)), snd ?run)" by simp
  have route: "hq_route ?req = V1 demo_post" by (simp add: demo_http_def)
  obtain n token h key subject user w1 rep' where facts: "bearer_token (hq_Authorization ?req) = Some token"
      "vf_header (ap_verifier demo_api) token = Some h" "provider_key (ap_verifier demo_api) n (jh_kid h) key"
      "vf_valid (ap_verifier demo_api) (vf_issuer (ap_verifier demo_api)) (vf_audience (ap_verifier demo_api)) key
        (vf_clock (ap_verifier demo_api) n) token = Some subject"
      "vf_parse_uuid (ap_verifier demo_api) subject = Some user"
      "v1_handler demo_api demo_post (WithClaims (request_context demo_api ?req demo_server) \<lparr>cl_UserID_claim = user\<rparr>) w1
        = (rep', sr_world (snd ?run))"
    using request_authenticated [OF run route cache] changed by blast
  have "token = ''seven''"
    using facts(1) by (simp add: demo_http_def) (code_simp, simp)
  moreover have "jh_kid h = ''k1''" using facts(2) calculation by (auto simp: demo_api_def demo_verifier_def)
  moreover have "user = 7" using facts(4,5) calculation(1) by (simp add: demo_api_def demo_verifier_def)
  ultimately show ?thesis using facts titles by (auto simp: demo_http_def demo_api_def)
qed

subsection \<open>Every reachable state\<close>

text \<open>
  C37. The invariant of the server. In every state that the server reaches from a well-formed one no
  transaction is left open; notes, blocks, categories, devices, changes, jobs and uploads are
  well-formed, each table with the keys and references that the others rely on; and the cached keys are
  those of one answer of the identity provider. The history has only grown at its end, every device is
  still registered for its user and a revoked one is still revoked, and every upload is still there, as
  it was declared and with a status that has only moved forward.
\<close>

theorem server_invariant:
  assumes "server_run a s s'" "settings_ok a" "server_ok a s"
  shows "\<not> w_in_tx (sr_world s') \<and> db_ok (w_core (sr_world s')) \<and> jobs_ok (w_core (sr_world s'))
    \<and> distinct (map ur_ID (uploads (w_core (sr_world s'))))
    \<and> list_all (upload_ok (us_media (ap_uploads a))) (uploads (w_core (sr_world s')))
    \<and> cache_ok (ap_verifier a) (w_tick (sr_world s')) (sr_keys s')
    \<and> server_rel (us_media (ap_uploads a)) (w_core (sr_world s)) (w_core (sr_world s'))"
  using server_run_duty [OF assms] by (simp add: on_duty_def serving_def idle_def)

theorem server_invariant_witness:
  "\<exists>s. server_run demo_api demo_server s \<and> db_ok (w_core (sr_world s)) \<and> jobs_ok (w_core (sr_world s))
     \<and> length (history (w_core (sr_world s))) = 2"
proof -
  let ?s = "snd (buildRouter demo_api (demo_http ''seven'' demo_post) demo_server)"
  have run: "server_run demo_api demo_server ?s" by (rule run_request [OF run_start])
  have "length (history (w_core (sr_world ?s))) = 2" by code_simp
  with run server_invariant [OF run demo_settings demo_server_ok] show ?thesis by blast
qed

text \<open>
  C38. Users are separated. Whatever a request asks for, the notes, blocks, categories, devices,
  changes, snapshots and uploads of a user for whom it is not authenticated stay exactly as they are.
\<close>

theorem tenant_isolation:
  assumes "buildRouter a req s = (out, s')" "settings_ok a" "server_ok a s"
    and "\<And>claims. fst (Auth_Middleware (ap_verifier a) (w_tick (sr_world (entered req s))) (hq_Authorization req) (sr_keys s))
           = Some claims \<Longrightarrow> cl_UserID_claim claims \<noteq> u"
  shows "tenant_view u (w_core (sr_world s')) = tenant_view u (w_core (sr_world s))"
proof -
  obtain i rep where run: "buildRouter a req s = ((i, rep), s')" using assms(1) by (metis prod.collapse)
  show ?thesis
    using run
  proof (cases rule: buildRouter_cases)
    case (admitted r claims w1 rep')
    have step: "user_step a (cl_UserID_claim claims) w1 (sr_world s')"
      using v1_handler_steps [OF admitted(5)] by (simp add: UserIDFromContext_def ClaimsFromContext_def WithClaims_def)
    have "serving (us_media (ap_uploads a)) w1"
      using assms(3) admitted(3) by (simp add: server_ok_def same_state_def serving_def idle_def)
    moreover have "cl_UserID_claim claims \<noteq> u" using assms(4) admitted(2) by simp
    ultimately show ?thesis
      using user_step_serving [OF step] assms(2) admitted(3) unfolding settings_ok_def same_state_def by metis
  qed (simp_all add: same_state_def)
qed

theorem tenant_isolation_witness:
  "let s = snd (buildRouter demo_api (demo_http ''seven'' demo_post) demo_server) in
   tenant_view 8 (w_core (sr_world s)) = tenant_view 8 demo_core \<and> map nt_Title (t_notes (w_db (sr_world s))) = [''Hi!'']"
proof -
  let ?req = "demo_http ''seven'' demo_post"
  let ?auth = "Auth_Middleware (ap_verifier demo_api) (w_tick (sr_world (entered ?req demo_server))) (hq_Authorization ?req)
    (sr_keys demo_server)"
  have titles: "map nt_Title (t_notes (w_db (sr_world (snd (buildRouter demo_api ?req demo_server))))) = [''Hi!'']" by code_simp
  have user: "map_option cl_UserID_claim (fst ?auth) = Some 7" by code_simp
  have "tenant_view 8 (w_core (sr_world (snd (buildRouter demo_api ?req demo_server)))) = tenant_view 8 (w_core (sr_world demo_server))"
    by (rule tenant_isolation [OF prod.collapse [symmetric] demo_settings demo_server_ok]) (use user in auto)
  then show ?thesis using titles demo_ok(3) by (simp add: Let_def demo_server_def)
qed

text \<open>
  C39. A revoked device is out for good. After a revocation that was answered with 204, whatever
  happens, a request that speaks for this device (a push, a pull, a check for updates, a request for
  full notes, for an upload or for download links) is never answered with success, whoever sends it,
  and leaves the database alone.
\<close>

theorem revoked_device_refused:
  assumes "buildRouter a req s = ((i, NoContent), s1)" "hq_route req = V1 (DELETE_device device)"
    and "settings_ok a" "server_ok a s" "server_run a s1 s2"
    and "buildRouter a req' s2 = ((i', rep), s3)" "hq_route req' = V1 r" "device_of r = Some device"
  shows "unsuccessful rep \<and> w_db (sr_world s3) = w_db (sr_world s2)"
proof -
  have s1: "server_ok a s1"
    using request_duty [OF assms(1,3), of "w_core (sr_world s)"] assms(4)
    by (simp add: server_ok_def on_duty_def server_rel_refl)
  have "device_gone (w_core (sr_world s1)) device"
    using assms(1)
  proof (cases rule: buildRouter_cases)
    case (admitted r' claims w1 rep')
    have db: "db_ok (w_core w1)" using assms(4) admitted(3) by (simp add: server_ok_def serving_def idle_def same_state_def)
    have "rep' = NoContent" using admitted(6) by (auto simp: final_reply_def split: if_splits reply.splits)
    then obtain owner u where "Device_Revoke (ap_env a) owner device w1 = (Inr u, sr_world s1)"
      using admitted(1,5) assms(2)
      by (auto simp: v1_handler_def Let_def Handle_Revoke_def with_user_def reply_call_def reply_error_def
          split: option.splits sum.splits prod.splits if_splits)
    then show ?thesis using Revoke_gone db by blast
  qed (use assms(2) in \<open>auto simp: final_reply_def split: if_splits\<close>)
  moreover have duty: "on_duty (us_media (ap_uploads a)) (w_core (sr_world s1)) (sr_world s2)"
    using server_run_duty [OF assms(5,3) s1] by simp
  ultimately have gone: "device_gone (w_core (sr_world s2)) device" using gone_rel by (auto simp: on_duty_def)
  show ?thesis
    using assms(6)
  proof (cases rule: buildRouter_cases)
    case public
    then show ?thesis using assms(7) by blast
  next
    case (refused r')
    then show ?thesis by (auto simp: unsuccessful_def final_reply_def same_state_def split: if_splits)
  next
    case (admitted r' claims w1 rep')
    have "unsuccessful rep' \<and> w_db (sr_world s3) = w_db w1"
      by (rule gone_unserved [OF admitted(5)])
        (use admitted(1,3) assms(7,8) gone duty in \<open>auto simp: on_duty_def serving_def idle_def same_state_def\<close>)
    then show ?thesis using admitted(3,6) unsuccessful_final by (simp add: same_state_def)
  qed
qed

theorem revoked_device_refused_witness:
  "let s1 = snd (buildRouter demo_api (demo_http ''seven'' (DELETE_device ''phone'')) demo_server) in
   unsuccessful (snd (fst (buildRouter demo_api (demo_http ''seven'' demo_post) s1)))"
proof -
  let ?revoke = "demo_http ''seven'' (DELETE_device ''phone'')"
  let ?s1 = "snd (buildRouter demo_api ?revoke demo_server)"
  have "case snd (fst (buildRouter demo_api ?revoke demo_server)) of NoContent \<Rightarrow> True | _ \<Rightarrow> False" by code_simp
  then obtain i where run: "buildRouter demo_api ?revoke demo_server = ((i, NoContent), ?s1)"
    by (cases "buildRouter demo_api ?revoke demo_server") (auto split: reply.splits)
  have again: "buildRouter demo_api (demo_http ''seven'' demo_post) ?s1
      = ((fst (fst (buildRouter demo_api (demo_http ''seven'' demo_post) ?s1)),
          snd (fst (buildRouter demo_api (demo_http ''seven'' demo_post) ?s1))),
         snd (buildRouter demo_api (demo_http ''seven'' demo_post) ?s1))" by simp
  show ?thesis
    using revoked_device_refused [OF run _ demo_settings demo_server_ok run_start again]
    by (simp add: demo_http_def demo_post_def DecodeBody_def DecodeJSON_def demo_request_def)
qed

subsection \<open>From the configuration to a running server\<close>

text \<open>
  C40. What the API server starts with is what the theorems about it ask for. When \<open>main\<close> gets through
  its start on a well-formed database, with a configured maximum page size below \<open>2 ^ 31 - 1\<close>, then the
  settings of the services are sound, the verifier has at least one key, the database has not been
  touched, and the state is well-formed; it stays so in every state that the server reaches, and after any
  number of iterations of the loop of a worker that was started from its own configuration.
\<close>

theorem started_server:
  assumes "api_main X file e w = Inr (a, s)" "serving (ex_media X) w" "media_ok (ex_media X)"
    and "\<And>cfg. Load (ex_lowercase X) file e = Inr cfg \<Longrightarrow> cf_SyncMaxPullLimit cfg < max_int32"
    and "server_run a s s'" "worker_main X file' e' w1 = Inr (wk, cl, w2)"
  shows "settings_ok a \<and> server_ok a s \<and> jw_keys (sr_keys s) \<noteq> Map.empty \<and> w_core (sr_world s) = w_core w \<and> server_ok a s'
    \<and> server_ok a (s'\<lparr>sr_world := snd (snd (Run env jc wk (Some cl) schedule lastCleanup (sr_world s')))\<rparr>)"
proof -
  obtain cfg client keys where m: "Load (ex_lowercase X) file e = Inr cfg"
      "NewVerifier (config_verifier X cfg) (w_tick w) = Some (config_verifier X cfg, keys)" "ap_sync a = Sync_NewService cfg True"
      "ap_uploads a = Upload_NewService (client_storage (ex_urls X) (ex_transport X) client) (ex_media X) cfg"
      "ap_verifier a = config_verifier X cfg" "s = \<lparr>sr_world = tick w, sr_keys = keys\<rparr>"
    by (rule api_main_Inr [OF assms(1)])
  have media: "us_media (ap_uploads a) = ex_media X" "cl_media cl = us_media (ap_uploads a)"
    using m(4) worker_main_media [OF assms(6)] by (simp_all add: Upload_NewService_def)
  have "limit_ok (Sync_NewService cfg True)"
    by (rule conjunct1 [OF mp [OF _ assms(4) [OF m(1)]]]) (use Load_limits [OF m(1)] in blast)
  then have settings: "settings_ok a" using assms(3) media m(3) by (simp add: settings_ok_def)
  have "cache_ok (config_verifier X cfg) (w_tick (tick w)) keys"
    using NewVerifier_cache [OF m(2)] by (auto intro: cache_ok_mono simp: tick_def)
  then have start: "server_ok a s"
    using assms(2) m(5,6) media by (simp add: server_ok_def serving_def idle_def tick_def)
  note duty = server_run_duty [OF assms(5) settings start]
  then have now: "server_ok a s'" by (simp add: server_ok_def on_duty_def)
  let ?w = "snd (snd (Run env jc wk (Some cl) schedule lastCleanup (sr_world s')))"
  have "on_duty (us_media (ap_uploads a)) (w_core (sr_world s)) ?w \<and> w_tick (sr_world s') \<le> w_tick ?w"
    by (rule Run_duty) (use media duty in auto)
  then have "server_ok a (s'\<lparr>sr_world := ?w\<rparr>)"
    using duty cache_ok_mono [of "ap_verifier a" "w_tick (sr_world s')" "sr_keys s'" "w_tick ?w"]
    by (simp add: server_ok_def on_duty_def)
  then show ?thesis using settings start NewVerifier_keys [OF m(2)] now m(6) by (simp add: tick_def)
qed

definition demo_externals :: externals where
  "demo_externals = \<lparr>ex_env = demo_env, ex_lowercase = id, ex_urls = demo_urls, ex_transport = (\<lambda>_ _ _ _ _. Unanswered),
     ex_media = demo_media, ex_ParseConfig = (\<lambda>_. None), ex_NewWithConfig = (\<lambda>_ _. None), ex_PingPool = None,
     ex_provider = (\<lambda>_. vf_endpoint demo_verifier), ex_header = vf_header demo_verifier, ex_valid = vf_valid demo_verifier,
     ex_expired = (\<lambda>_ _. False)\<rparr>"

theorem started_server_witness:
  "\<exists>a s wk cl w. api_main demo_externals None demo_environ demo_world = Inr (a, s)
     \<and> worker_main demo_externals None demo_environ demo_world = Inr (wk, cl, w)
     \<and> settings_ok a \<and> server_ok a s
     \<and> server_ok a (s\<lparr>sr_world := snd (snd (Run demo_env demo_jobs wk (Some cl) [(False, Wait_ticked), (True, Wait_ticked)] None (sr_world s)))\<rparr>)"
proof -
  have "case api_main demo_externals None demo_environ demo_world of Inl _ \<Rightarrow> False | Inr _ \<Rightarrow> True" by code_simp
  then obtain a s where api: "api_main demo_externals None demo_environ demo_world = Inr (a, s)" by (auto split: sum.splits)
  have "case worker_main demo_externals None demo_environ demo_world of Inl _ \<Rightarrow> False | Inr _ \<Rightarrow> True" by code_simp
  then obtain wk cl w where worker: "worker_main demo_externals None demo_environ demo_world = Inr (wk, cl, w)" by (auto split: sum.splits)
  have serving: "serving (ex_media demo_externals) demo_world" "media_ok (ex_media demo_externals)"
    using demo_server_ok demo_media_ok by (simp_all add: server_ok_def demo_server_def demo_api_def demo_uploads_def demo_externals_def)
  have "case Load id None demo_environ of Inl _ \<Rightarrow> False | Inr cfg \<Rightarrow> cf_SyncMaxPullLimit cfg < 2 ^ 31 - 1" by code_simp
  then have limit: "cf_SyncMaxPullLimit cfg < max_int32" if "Load (ex_lowercase demo_externals) None demo_environ = Inr cfg" for cfg
    using that by (auto simp: demo_externals_def)
  show ?thesis
    using started_server [OF api serving limit run_start worker, where env = demo_env and jc = demo_jobs
        and schedule = "[(False, Wait_ticked), (True, Wait_ticked)]" and lastCleanup = None] api worker by blast
qed

end
